(* ===== verification/Lwnbd_Prelude.thy ===== *)
theory Lwnbd_Prelude
  imports Main "HOL-Library.Word"
begin

text \<open>
  Shared vocabulary of the lwNBD development: the machine types and the faults of C, C strings in
  a byte buffer, memory blocks, the unsigned comparison of a signed result with a size, and the
  static slot tables (\<^verbatim>\<open>for (i = 0; i < MAX; i++) if (status[i] == FREE) break;\<close>) that
  every part of the library allocates from.  The contract of such a table is the locale
  \<open>slot_pool\<close>; the theories that own a table interpret it.
\<close>

section \<open>Machine types, bytes and faults\<close>

type_synonym byte = char
type_synonym u8 = "8 word"
type_synonym u16 = "16 word"
type_synonym u32 = "32 word"
type_synonym u64 = "64 word"

text \<open>
  Undefined behaviour of C that the code can run into is a value of the model: a call returns
  \<open>Inl f\<close> where the C program would dereference a null pointer, call a null function pointer,
  leave an array, divide by zero or read an object that was never written, or where a callback never
  returns.
\<close>

datatype fault = Null_Deref | Null_Call | Out_Of_Bounds | Div_By_Zero | Uninitialised | No_Return

type_synonym 'a result = "fault + 'a"

definition bindr :: "'a result \<Rightarrow> ('a \<Rightarrow> 'b result) \<Rightarrow> 'b result" where
  "bindr m k = (case m of Inl f \<Rightarrow> Inl f | Inr x \<Rightarrow> k x)"

lemma bindr_simps [simp]: "bindr (Inl f) k = Inl f" "bindr (Inr x) k = k x"
  by (simp_all add: bindr_def)

lemma bindr_Inr_iff: "bindr m k = Inr y \<longleftrightarrow> (\<exists>x. m = Inr x \<and> k x = Inr y)"
  by (cases m) simp_all

lemma bindr_InrE:
  assumes "bindr m k = Inr y"
  obtains x where "m = Inr x" and "k x = Inr y"
  using assms by (cases m) simp_all

lemma bindr_cong [fundef_cong]:
  "m = m' \<Longrightarrow> (\<And>x. m' = Inr x \<Longrightarrow> k x = k' x) \<Longrightarrow> bindr m k = bindr m' k'"
  by (cases m') simp_all

text \<open>Calling a function pointer of a struct: NULL is a fault.\<close>

definition callp :: "'f option \<Rightarrow> 'f result" where
  "callp f = (case f of None \<Rightarrow> Inl Null_Call | Some g \<Rightarrow> Inr g)"

lemma callp_simps [simp]: "callp None = Inl Null_Call" "callp (Some g) = Inr g"
  by (simp_all add: callp_def)

definition deref :: "'a option \<Rightarrow> 'a result" where
  "deref p = (case p of None \<Rightarrow> Inl Null_Deref | Some x \<Rightarrow> Inr x)"

lemma deref_simps [simp]: "deref None = Inl Null_Deref" "deref (Some x) = Inr x"
  by (simp_all add: deref_def)

text \<open>A plugin or server handle (\<^verbatim>\<open>void *\<close>) is NULL or the address of one element of a static
  array of the plugin, which the model writes as its index.\<close>

type_synonym handle = "nat option"

subsection \<open>Comparisons of C between a signed result and a size\<close>

text \<open>
  In \<^verbatim>\<open>r < sizeof x\<close> the signed \<open>r\<close> is converted to the unsigned type of the right side, so a
  negative \<open>r\<close> becomes a value near \<open>2 ^ 64\<close>.  \<open>to_size\<close> is that conversion.
\<close>

definition to_size :: "int \<Rightarrow> nat" where
  "to_size r = nat (r mod 2 ^ 64)"

definition lt_size :: "int \<Rightarrow> nat \<Rightarrow> bool" where
  "lt_size r n = (to_size r < n)"

definition eq_size :: "int \<Rightarrow> nat \<Rightarrow> bool" where
  "eq_size r n = (to_size r = n)"

lemma to_size_nonneg: "0 \<le> r \<Longrightarrow> r < 2 ^ 64 \<Longrightarrow> to_size r = nat r"
  by (simp add: to_size_def)

lemma to_size_of_nat [simp]: "n < 2 ^ 64 \<Longrightarrow> to_size (int n) = n"
  by (simp add: to_size_nonneg)

lemma to_size_zero [simp]: "to_size 0 = 0"
  by (simp add: to_size_def)

lemma to_size_neg1 [simp]: "to_size (- 1) = 18446744073709551615"
  by (simp add: to_size_def)

lemma lt_size_neg1 [simp]: "n < 18446744073709551616 \<Longrightarrow> \<not> lt_size (- 1) n"
  by (simp add: lt_size_def)

lemma lt_size_zero [simp]: "lt_size 0 n = (0 < n)"
  by (simp add: lt_size_def)

lemma lt_size_of_nat [simp]: "m < 2 ^ 64 \<Longrightarrow> lt_size (int m) n = (m < n)"
  by (simp add: lt_size_def)

lemma eq_size_of_nat [simp]: "m < 2 ^ 64 \<Longrightarrow> eq_size (int m) n = (m = n)"
  by (simp add: eq_size_def)

lemma eq_size_neg1 [simp]: "n < 18446744073709551615 \<Longrightarrow> \<not> eq_size (- 1) n"
  by (simp add: eq_size_def)

text \<open>An unsigned 64-bit value below \<open>2 ^ 63\<close> keeps its value as a signed one.\<close>

lemma sint_small:
  assumes "unat (x :: u64) < 2 ^ 63"
  shows "sint x = int (unat x)"
proof -
  obtain n where n: "unat x = n" by simp
  have "n < 2 ^ 63" using assms n by blast
  then have "int n < 2 ^ 63" by simp
  then have e: "signed_take_bit 63 (int n) = int n"
    by (intro signed_take_bit_int_eq_self) (simp_all add: order_trans [of _ 0])
  have "sint x = signed_take_bit (LENGTH(64) - Suc 0) (uint x)" by (rule sint_uint)
  also have "\<dots> = signed_take_bit 63 (int n)" unfolding n [symmetric] by (simp only: uint_nat) simp
  finally show ?thesis using e n by simp
qed

lemma sint_small_u32:
  assumes "unat (x :: u32) < 2 ^ 31"
  shows "sint x = int (unat x)"
proof -
  obtain n where n: "unat x = n" by simp
  have "n < 2 ^ 31" using assms n by blast
  then have "int n < 2 ^ 31" by simp
  then have e: "signed_take_bit 31 (int n) = int n"
    by (intro signed_take_bit_int_eq_self) (simp_all add: order_trans [of _ 0])
  have "sint x = signed_take_bit (LENGTH(32) - Suc 0) (uint x)" by (rule sint_uint)
  also have "\<dots> = signed_take_bit 31 (int n)" unfolding n [symmetric] by (simp only: uint_nat) simp
  finally show ?thesis using e n by simp
qed

lemma unat_ucast_u32: "unat (ucast (a :: u32) :: u64) = unat a"
proof -
  have "unat a < 2 ^ 32" using unsigned_less [of a, where ?'a = nat] by simp
  then show ?thesis by (simp add: unsigned_ucast_eq take_bit_nat_eq_self)
qed

lemma unat_add_u32:
  assumes "unat o' + unat n < 2 ^ 64"
  shows "unat (o' + ucast (n :: u32) :: u64) = unat o' + unat n"
  using assms by (simp add: unat_word_ariths unat_ucast_u32)

lemma unat_eqD: "unat v = unat w \<Longrightarrow> v = w"
  by (rule unsigned_word_eqI)

lemma unat_eqI_of_nat: "unat w = n \<Longrightarrow> w = of_nat n"
  by (auto intro: unat_eqD)

lemma unat_ucast_u16: "unat (ucast (a :: u16) :: u64) = unat a"
proof -
  have "unat a < 2 ^ 16" using unsigned_less [of a, where ?'a = nat] by simp
  then show ?thesis by (simp add: unsigned_ucast_eq take_bit_nat_eq_self)
qed

section \<open>Memory blocks\<close>

text \<open>\<^verbatim>\<open>memcpy\<close> and \<^verbatim>\<open>memset\<close> into an array: the bytes land at an offset, and a write past the end
  of the array is a fault.\<close>

definition splice :: "nat \<Rightarrow> 'a list \<Rightarrow> 'a list \<Rightarrow> 'a list" where
  "splice off d xs = take off xs @ d @ drop (off + length d) xs"

definition mem_write :: "nat \<Rightarrow> 'a list \<Rightarrow> 'a list \<Rightarrow> 'a list result" where
  "mem_write off d xs =
     (if off + length d \<le> length xs then Inr (splice off d xs) else Inl Out_Of_Bounds)"

definition mem_read :: "nat \<Rightarrow> nat \<Rightarrow> 'a list \<Rightarrow> 'a list result" where
  "mem_read off n xs = (if off + n \<le> length xs then Inr (take n (drop off xs)) else Inl Out_Of_Bounds)"

lemma length_splice [simp]: "off + length d \<le> length xs \<Longrightarrow> length (splice off d xs) = length xs"
  by (simp add: splice_def)

lemma splice_Nil [simp]: "splice off [] xs = xs"
  by (simp add: splice_def)

lemma slice_splice_same [simp]:
  "off + length d \<le> length xs \<Longrightarrow> take (length d) (drop off (splice off d xs)) = d"
  by (simp add: splice_def)

lemma nth_splice:
  "off + length d \<le> length xs \<Longrightarrow> i < length xs \<Longrightarrow>
   splice off d xs ! i = (if off \<le> i \<and> i < off + length d then d ! (i - off) else xs ! i)"
  by (auto simp: splice_def nth_append min_def add.commute)

lemma splice_splice:
  assumes "off + length d + length e \<le> length xs"
  shows "splice (off + length d) e (splice off d xs) = splice off (d @ e) xs"
  using assms by (intro nth_equalityI) (auto simp: nth_splice nth_append)

lemma take_drop_append:
  "take (m + n) (drop off xs) = take m (drop off xs) @ take n (drop (off + m) xs)"
  by (simp add: take_add add.commute)

section \<open>C strings in a buffer\<close>

definition NUL :: byte where "NUL = CHR 0x00"

text \<open>The C string at address \<open>p\<close> of a buffer: the bytes up to the first NUL.\<close>

definition cstr :: "byte list \<Rightarrow> nat \<Rightarrow> string" where
  "cstr buf p = takeWhile (\<lambda>c. c \<noteq> NUL) (drop p buf)"

text \<open>\<^verbatim>\<open>strchr(buf + p, c)\<close> for \<open>c\<close> other than NUL; \<open>None\<close> is the null pointer.\<close>

definition strchr :: "byte list \<Rightarrow> nat \<Rightarrow> byte \<Rightarrow> nat option" where
  "strchr buf p c =
     (let s = cstr buf p
      in if c \<in> set s then Some (p + length (takeWhile (\<lambda>x. x \<noteq> c) s)) else None)"

text \<open>\<^verbatim>\<open>strncmp(a, b, n) == 0\<close> on C strings, and \<^verbatim>\<open>strcpy\<close> into a field of \<open>n\<close> bytes.\<close>

definition strncmp_eq :: "nat \<Rightarrow> string \<Rightarrow> string \<Rightarrow> bool" where
  "strncmp_eq n a b = (take n a = take n b)"

definition strcpy_field :: "nat \<Rightarrow> string \<Rightarrow> string result" where
  "strcpy_field n s = (if length s < n then Inr s else Inl Out_Of_Bounds)"

lemma strcpy_field_Inr [simp]: "strcpy_field n s = Inr t \<longleftrightarrow> length s < n \<and> t = s"
  by (auto simp: strcpy_field_def)

lemma strcpy_field_Inl [simp]: "strcpy_field n s = Inl f \<longleftrightarrow> n \<le> length s \<and> f = Out_Of_Bounds"
  by (auto simp: strcpy_field_def)

lemma strncmp_eq_short: "length a < n \<Longrightarrow> strncmp_eq n a b = (a = b)"
proof -
  assume a: "length a < n"
  have "a = b" if "a = take n b"
  proof -
    have "length b < n"
    proof (rule ccontr)
      assume "\<not> length b < n"
      then have "length (take n b) = n" by simp
      then show False using that a by simp
    qed
    then show ?thesis using that by simp
  qed
  then show ?thesis using a by (auto simp: strncmp_eq_def)
qed

subsection \<open>Characters and numbers of the C library\<close>

definition isspace :: "char \<Rightarrow> bool" where
  "isspace c \<longleftrightarrow> c \<in> {CHR '' '', CHR 0x09, CHR 0x0A, CHR 0x0B, CHR 0x0C, CHR 0x0D}"

definition isdigit :: "char \<Rightarrow> bool" where
  "isdigit c \<longleftrightarrow> 48 \<le> (of_char c :: nat) \<and> (of_char c :: nat) \<le> 57"

text \<open>\<^verbatim>\<open>atoi\<close>; a number that an \<^verbatim>\<open>int\<close> cannot hold is undefined in C and keeps its value here.\<close>

definition digits_value :: "string \<Rightarrow> int" where
  "digits_value s = foldl (\<lambda>a c. 10 * a + (int (of_char c) - 48)) 0 (takeWhile isdigit s)"

definition atoi :: "string \<Rightarrow> int" where
  "atoi s =
     (case dropWhile isspace s of
        [] \<Rightarrow> 0
      | c # cs \<Rightarrow> if c = CHR ''-'' then - digits_value cs
                  else if c = CHR ''+'' then digits_value cs else digits_value (c # cs))"

lemma strchr_None: "strchr buf p c = None \<longleftrightarrow> c \<notin> set (cstr buf p)"
  by (simp add: strchr_def Let_def)

lemma strchr_first:
  "cstr buf p = a @ c # b \<Longrightarrow> c \<notin> set a \<Longrightarrow> strchr buf p c = Some (p + length a)"
  by (auto simp: strchr_def takeWhile_append)

lemma cstr_no_NUL: "NUL \<notin> set (cstr buf p)"
  unfolding cstr_def by (metis (full_types) set_takeWhileD)

lemma cstr_decomp:
  assumes "cstr buf p = a @ c # b"
  obtains r where "buf = take p buf @ a @ c # b @ r" and "length (take p buf) = p"
    and "takeWhile (\<lambda>c. c \<noteq> NUL) r = []"
proof
  let ?r = "dropWhile (\<lambda>c. c \<noteq> NUL) (drop p buf)"
  have d: "drop p buf = a @ c # b @ ?r"
    using assms unfolding cstr_def by (metis append.assoc append_Cons takeWhile_dropWhile_id)
  then show "buf = take p buf @ a @ c # b @ ?r" by (metis append_take_drop_id)
  have "length (drop p buf) \<noteq> 0" using d by (metis Nil_is_append_conv length_0_conv list.distinct(1))
  then show "length (take p buf) = p" by simp
  have "?r = [] \<or> hd ?r = NUL" using hd_dropWhile by blast
  then show "takeWhile (\<lambda>c. c \<noteq> NUL) ?r = []"
    by (cases ?r) (simp_all only: list.sel takeWhile.simps not_True_eq_False if_False, simp)
qed

text \<open>Writing a NUL over the first occurrence of a character cuts a C string in two.\<close>

lemma cstr_terminate:
  assumes "cstr buf p = a @ c # b" and "buf' = buf[p + length a := NUL]"
  shows "cstr buf' p = a" and "cstr buf' (Suc (p + length a)) = b"
proof -
  obtain r where r: "buf = take p buf @ a @ c # b @ r" and p: "length (take p buf) = p"
    and tw: "takeWhile (\<lambda>c. c \<noteq> NUL) r = []"
    using cstr_decomp [OF assms(1)] .
  have na: "NUL \<notin> set a" and nb: "NUL \<notin> set b"
    using cstr_no_NUL [of buf p] assms(1) by auto
  define pre where "pre = take p buf"
  have lp: "length pre = p" using p by (simp add: pre_def)
  have "buf = (pre @ a) @ c # (b @ r)" using r by (simp add: pre_def)
  moreover have "p + length a = length (pre @ a)" using lp by simp
  ultimately have buf': "buf' = pre @ a @ NUL # b @ r"
    using assms(2) by (simp add: list_update_length del: length_append append_assoc)
  show "cstr buf' p = a"
    using na lp unfolding cstr_def buf' by (simp add: takeWhile_append)
  show "cstr buf' (Suc (p + length a)) = b"
    using nb lp tw unfolding cstr_def buf' by (simp add: takeWhile_append)
qed

text \<open>A write before \<open>p\<close>, or at or behind the terminator, leaves the string at \<open>p\<close> alone.\<close>

lemma cstr_update_before: "q < p \<Longrightarrow> cstr (buf[q := x]) p = cstr buf p"
  by (simp add: cstr_def drop_update_cancel)

section \<open>Static slot tables\<close>

text \<open>
  \<open>find_slot\<close> is the scan \<^verbatim>\<open>for (i = 0; i < MAX; i++) if (free(status[i])) break;\<close>: the least index
  of a free slot, or the length of the table.
\<close>

definition find_slot :: "('a \<Rightarrow> bool) \<Rightarrow> 'a list \<Rightarrow> nat" where
  "find_slot free st = length (takeWhile (\<lambda>x. \<not> free x) st)"

lemma find_slot_le: "find_slot free st \<le> length st"
  by (simp add: find_slot_def length_takeWhile_le)

lemma find_slot_free: "find_slot free st < length st \<Longrightarrow> free (st ! find_slot free st)"
  unfolding find_slot_def using nth_length_takeWhile by blast

lemma find_slot_before: "j < find_slot free st \<Longrightarrow> \<not> free (st ! j)"
  unfolding find_slot_def by (metis (no_types, lifting) nth_mem set_takeWhileD takeWhile_nth)

lemma find_slot_full: "find_slot free st = length st \<longleftrightarrow> (\<forall>j < length st. \<not> free (st ! j))"
  by (metis find_slot_before find_slot_free find_slot_le le_neq_implies_less)

lemma find_slot_eqI:
  "k \<le> length st \<Longrightarrow> (\<And>j. j < k \<Longrightarrow> \<not> free (st ! j)) \<Longrightarrow> (k < length st \<Longrightarrow> free (st ! k)) \<Longrightarrow>
   find_slot free st = k"
  by (metis find_slot_before find_slot_free find_slot_le le_neq_implies_less linorder_neqE_nat)

text \<open>A table nobody used, and one of which the first entries are taken.\<close>

lemma find_slot_replicate: "0 < n \<Longrightarrow> free x \<Longrightarrow> find_slot free (replicate n x) = 0"
  by (cases n) (simp_all add: find_slot_def)

lemma find_slot_used:
  "\<not> free x \<Longrightarrow> free y \<Longrightarrow> 0 < k \<Longrightarrow> find_slot free (replicate n x @ replicate k y) = n"
  by (rule find_slot_eqI) (auto simp: nth_append)

lemma find_slot_code [code]:
  "find_slot free [] = 0"
  "find_slot free (x # xs) = (if free x then 0 else Suc (find_slot free xs))"
  by (simp_all add: find_slot_def)

text \<open>
  The contract of a table: \<open>alloc\<close> hands out the first free slot and takes it, or reports that
  there is none.  No table of the library but the server table ever gives a slot back.
\<close>

locale slot_pool =
  fixes cap :: nat
    and free_at :: "'s \<Rightarrow> nat \<Rightarrow> bool"
    and inv :: "'s \<Rightarrow> bool"
    and alloc :: "'s \<Rightarrow> nat option \<times> 's"
  assumes alloc_None: "inv s \<Longrightarrow> alloc s = (None, s') \<Longrightarrow> i < cap \<Longrightarrow> \<not> free_at s i"
    and alloc_Some: "inv s \<Longrightarrow> alloc s = (Some i, s') \<Longrightarrow> i < cap \<and> free_at s i"
    and alloc_first: "inv s \<Longrightarrow> alloc s = (Some i, s') \<Longrightarrow> j < i \<Longrightarrow> \<not> free_at s j"
    and alloc_takes:
      "inv s \<Longrightarrow> alloc s = (Some i, s') \<Longrightarrow> j < cap \<Longrightarrow> free_at s' j \<longleftrightarrow> free_at s j \<and> j \<noteq> i"
    and alloc_inv: "inv s \<Longrightarrow> alloc s = (Some i, s') \<Longrightarrow> inv s'"
begin

text \<open>The free slots of a state, and a table with no hole: exactly the slots below \<open>k\<close> are taken.\<close>

definition free_slots :: "'s \<Rightarrow> nat set" where
  "free_slots s = {i. i < cap \<and> free_at s i}"

definition dense :: "nat \<Rightarrow> 's \<Rightarrow> bool" where
  "dense k s \<longleftrightarrow> k \<le> cap \<and> (\<forall>i < cap. free_at s i \<longleftrightarrow> k \<le> i)"

primrec alloc_n :: "nat \<Rightarrow> 's \<Rightarrow> nat option list \<times> 's" where
  "alloc_n 0 s = ([], s)"
| "alloc_n (Suc n) s = (let (r, s') = alloc s; (rs, s'') = alloc_n n s' in (r # rs, s''))"

lemma free_slots_alloc:
  "inv s \<Longrightarrow> alloc s = (Some i, s') \<Longrightarrow> free_slots s' = free_slots s - {i} \<and> i \<in> free_slots s"
  unfolding free_slots_def using alloc_Some alloc_takes by blast

lemma alloc_exhausted: "inv s \<Longrightarrow> alloc s = (None, s') \<Longrightarrow> free_slots s = {}"
  unfolding free_slots_def using alloc_None by blast

lemma card_free_alloc:
  "inv s \<Longrightarrow> alloc s = (Some i, s') \<Longrightarrow> Suc (card (free_slots s')) = card (free_slots s)"
proof -
  assume a: "inv s" "alloc s = (Some i, s')"
  have "finite (free_slots s)" by (simp add: free_slots_def)
  then show ?thesis using free_slots_alloc [OF a] by (metis card_Suc_Diff1)
qed

lemma dense_alloc:
  assumes "inv s" and "dense k s" and "k < cap"
  obtains s' where "alloc s = (Some k, s')" and "dense (Suc k) s'" and "inv s'"
proof -
  have fk: "free_at s k" using assms by (simp add: dense_def)
  obtain r s' where a: "alloc s = (r, s')" by fastforce
  then obtain i where r: "r = Some i" using alloc_None [OF assms(1)] assms(3) fk by (cases r) auto
  have ai: "alloc s = (Some i, s')" using a r by simp
  have "i = k"
    using alloc_Some [OF assms(1) ai] alloc_first [OF assms(1) ai] assms(2) fk
    by (metis dense_def linorder_neqE_nat not_less)
  moreover have "dense (Suc k) s'"
    unfolding dense_def
    using alloc_takes [OF assms(1) ai] assms(2,3) \<open>i = k\<close> by (auto simp: dense_def)
  ultimately show ?thesis using that ai alloc_inv [OF assms(1) ai] by blast
qed

lemma dense_full: "inv s \<Longrightarrow> dense cap s \<Longrightarrow> fst (alloc s) = None"
  by (metis alloc_Some dense_def not_less prod.collapse option.exhaust)

text \<open>A dense table serves its slots in order until it is full.\<close>

lemma alloc_n_dense:
  assumes "inv s" and "dense k s" and "k + n \<le> cap"
  shows "fst (alloc_n n s) = map Some [k..<k + n] \<and> dense (k + n) (snd (alloc_n n s))
         \<and> inv (snd (alloc_n n s))"
  using assms
proof (induction n arbitrary: s k)
  case 0
  then show ?case by simp
next
  case (Suc n)
  then obtain s' where a: "alloc s = (Some k, s')" and s': "dense (Suc k) s'" "inv s'"
    by (metis add_leD1 add_Suc_right Suc_le_lessD dense_alloc le_add1 order_trans plus_1_eq_Suc
        add.commute)
  have "fst (alloc_n n s') = map Some [Suc k..<Suc k + n] \<and> dense (Suc k + n) (snd (alloc_n n s'))
        \<and> inv (snd (alloc_n n s'))"
    using Suc.prems(3) by (intro Suc.IH s') simp
  then show ?case using a by (simp add: case_prod_beta upt_conv_Cons del: upt_Suc)
qed

end

text \<open>Every table that scans a status list and marks the slot it found meets the contract.\<close>

lemma slot_pool_list:
  assumes taken: "\<not> free taken"
  shows "slot_pool cap (\<lambda>st i. free (st ! i)) (\<lambda>st. length st = cap)
    (\<lambda>st. let i = find_slot free st
           in if i = length st then (None, st) else (Some i, st[i := taken]))"
    (is "slot_pool cap ?free ?inv ?alloc")
proof
  fix s s' i j
  show "?inv s \<Longrightarrow> ?alloc s = (None, s') \<Longrightarrow> i < cap \<Longrightarrow> \<not> free (s ! i)"
    using find_slot_full [of free s] by (auto simp: Let_def split: if_splits)
  show "?inv s \<Longrightarrow> ?alloc s = (Some i, s') \<Longrightarrow> i < cap \<and> free (s ! i)"
    using find_slot_le [of free s] find_slot_free [of free s]
    by (auto simp: Let_def split: if_splits)
  show "?inv s \<Longrightarrow> ?alloc s = (Some i, s') \<Longrightarrow> j < i \<Longrightarrow> \<not> free (s ! j)"
    using find_slot_before [of j free s] by (auto simp: Let_def split: if_splits)
  show "?inv s \<Longrightarrow> ?alloc s = (Some i, s') \<Longrightarrow> j < cap \<Longrightarrow>
      free (s' ! j) \<longleftrightarrow> free (s ! j) \<and> j \<noteq> i"
    using taken find_slot_free [of free s] find_slot_le [of free s]
    by (cases "j = i") (auto simp: Let_def split: if_splits)
  show "?inv s \<Longrightarrow> ?alloc s = (Some i, s') \<Longrightarrow> ?inv s'"
    by (auto simp: Let_def split: if_splits)
qed

section \<open>Headers in a stream\<close>

text \<open>\<open>P\<close> holds of every \<open>n\<close> bytes in a row, wherever a header may come to be read.\<close>

definition every_window :: "nat \<Rightarrow> ('a list \<Rightarrow> bool) \<Rightarrow> 'a list \<Rightarrow> bool" where
  "every_window n P s \<longleftrightarrow> (\<forall>i \<in> {..length s}. n \<le> length s - i \<longrightarrow> P (take n (drop i s)))"

lemma every_window_drop:
  assumes "every_window n P s"
  shows "every_window n P (drop k s)"
  unfolding every_window_def
proof (intro ballI impI)
  fix i
  assume "i \<in> {..length (drop k s)}" and l: "n \<le> length (drop k s) - i"
  then have "k + i \<in> {..length s} \<or> n = 0 \<and> length s \<le> k" and n: "n \<le> length s - (k + i)" by auto
  then show "P (take n (drop i (drop k s)))"
  proof (elim disjE conjE)
    assume "k + i \<in> {..length s}"
    then show ?thesis using assms n unfolding every_window_def by (metis drop_drop add.commute)
  next
    assume "n = 0" and "length s \<le> k"
    then show ?thesis using assms unfolding every_window_def by (metis atMost_iff le_refl take0 zero_le)
  qed
qed

lemma every_window_head: "every_window n P s \<Longrightarrow> n \<le> length s \<Longrightarrow> P (take n s)"
  unfolding every_window_def by (drule bspec [of _ _ 0]) simp_all

lemma every_window_short [simp]: "length s < n \<Longrightarrow> every_window n P s"
  unfolding every_window_def by fastforce

lemma every_window_once: "length s = n \<Longrightarrow> 0 < n \<Longrightarrow> every_window n P s \<longleftrightarrow> P s"
proof
  assume l: "length s = n" "0 < n" and P: "P s"
  have "i = 0" if "n \<le> length s - i" for i using that l by linarith
  then show "every_window n P s" using l(1) P unfolding every_window_def by fastforce
qed (metis every_window_head le_refl take_all)

end
