(* ===== verification/Nbd_Protocol.thy ===== *)
theory Nbd_Protocol
  imports Lwnbd_Prelude
begin

unbundle bit_operations_syntax

text \<open>
  The vocabulary of the NBD protocol, \<^verbatim>\<open>include/lwnbd/nbd-protocol.h\<close>: every constant, and every
  packed structure with its big-endian image.  The locale \<open>packed_struct\<close> is what the protocol
  code relies on when it sends \<^verbatim>\<open>sizeof\<close> bytes of a structure and reads them back; each structure
  of the header interprets it.
\<close>

section \<open>Big-endian numbers\<close>

primrec enc_be :: "nat \<Rightarrow> nat \<Rightarrow> byte list" where
  "enc_be 0 v = []"
| "enc_be (Suc n) v = enc_be n (v div 256) @ [char_of v]"

definition dec_be :: "byte list \<Rightarrow> nat" where
  "dec_be b = foldl (\<lambda>a c. a * 256 + of_char c) 0 b"

lemma length_enc_be [simp]: "length (enc_be n v) = n"
  by (induction n arbitrary: v) simp_all

lemma enc_be_numeral:
  "enc_be (numeral k) v = enc_be (pred_numeral k) (v div 256) @ [char_of v]"
  by (simp only: numeral_eq_Suc enc_be.simps)

lemma dec_be_snoc [simp]: "dec_be (b @ [c]) = dec_be b * 256 + of_char c"
  by (simp add: dec_be_def)

lemma dec_be_Nil [simp]: "dec_be [] = 0"
  by (simp add: dec_be_def)

lemma dec_enc_be: "dec_be (enc_be n v) = v mod 256 ^ n"
proof (induction n arbitrary: v)
  case 0
  then show ?case by simp
next
  case (Suc n)
  have "v mod 256 ^ Suc n = 256 * (v div 256 mod 256 ^ n) + v mod 256"
    by (simp add: mod_mult2_eq)
  with Suc show ?case by simp
qed

lemma dec_be_bound: "dec_be b < 256 ^ length b"
proof (induction b rule: rev_induct)
  case Nil
  then show ?case by simp
next
  case (snoc c b)
  have "of_char c < (256 :: nat)" by simp
  moreover have "(dec_be b + 1) * 256 \<le> 256 ^ length b * 256"
    using snoc by (intro mult_le_mono1) simp
  then have "dec_be b * 256 + 256 \<le> 256 ^ length (b @ [c])" by (simp add: algebra_simps)
  ultimately show ?case unfolding dec_be_snoc by linarith
qed

lemma enc_dec_be: "length b = n \<Longrightarrow> enc_be n (dec_be b) = b"
proof (induction b arbitrary: n rule: rev_induct)
  case Nil
  then show ?case by simp
next
  case (snoc c b)
  then obtain m where m: "n = Suc m" "length b = m" by auto
  have "(dec_be b * 256 + of_char c) div 256 = dec_be b"
    by (simp add: div_add1_eq)
  moreover have "char_of (dec_be b * 256 + of_char c) = c"
    by (subst char_of_mod_256 [symmetric]) (simp add: mod_add_eq [symmetric] del: char_of_mod_256)
  ultimately show ?case using snoc.IH [OF m(2)] m(1) by simp
qed

definition be16 :: "u16 \<Rightarrow> byte list" where "be16 w = enc_be 2 (unat w)"
definition be32 :: "u32 \<Rightarrow> byte list" where "be32 w = enc_be 4 (unat w)"
definition be64 :: "u64 \<Rightarrow> byte list" where "be64 w = enc_be 8 (unat w)"

definition rd16 :: "nat \<Rightarrow> byte list \<Rightarrow> u16" where
  "rd16 off b = of_nat (dec_be (take 2 (drop off b)))"
definition rd32 :: "nat \<Rightarrow> byte list \<Rightarrow> u32" where
  "rd32 off b = of_nat (dec_be (take 4 (drop off b)))"
definition rd64 :: "nat \<Rightarrow> byte list \<Rightarrow> u64" where
  "rd64 off b = of_nat (dec_be (take 8 (drop off b)))"

named_theorems packed \<open>reading and writing the fields of a packed structure\<close>

lemma length_be [simp]: "length (be16 a) = 2" "length (be32 b) = 4" "length (be64 c) = 8"
  by (simp_all add: be16_def be32_def be64_def)

lemma take_off: "length p = off \<Longrightarrow> length m = n \<Longrightarrow> take n (drop off (p @ m @ r)) = m"
  by simp

lemma rd_be:
  "take 2 (drop off b) = be16 x \<Longrightarrow> rd16 off b = x"
  "take 4 (drop off b) = be32 y \<Longrightarrow> rd32 off b = y"
  "take 8 (drop off b) = be64 z \<Longrightarrow> rd64 off b = z"
  using unsigned_less [of x, where ?'a = nat] unsigned_less [of y, where ?'a = nat]
    unsigned_less [of z, where ?'a = nat]
  by (simp_all add: rd16_def rd32_def rd64_def be16_def be32_def be64_def dec_enc_be)

lemma rd16_be [packed]: "rd16 0 (be16 x @ r) = x" "rd16 0 (be16 x) = x"
  by (rule rd_be, simp)+

lemma rd32_be [packed]: "rd32 0 (be32 x @ r) = x" "rd32 0 (be32 x) = x"
  by (rule rd_be, simp)+

lemma rd64_be [packed]: "rd64 0 (be64 x @ r) = x" "rd64 0 (be64 x) = x"
  by (rule rd_be, simp)+

text \<open>Skipping a field in front of the one that is read.\<close>

lemma rd_skip [packed]:
  "length p \<le> off \<Longrightarrow> rd16 off (p @ r) = rd16 (off - length p) r"
  "length p \<le> off \<Longrightarrow> rd32 off (p @ r) = rd32 (off - length p) r"
  "length p \<le> off \<Longrightarrow> rd64 off (p @ r) = rd64 (off - length p) r"
  by (simp_all add: rd16_def rd32_def rd64_def)

lemma be_rd [packed]:
  "off + 2 \<le> length b \<Longrightarrow> be16 (rd16 off b) = take 2 (drop off b)"
  "off + 4 \<le> length b \<Longrightarrow> be32 (rd32 off b) = take 4 (drop off b)"
  "off + 8 \<le> length b \<Longrightarrow> be64 (rd64 off b) = take 8 (drop off b)"
proof -
  have "dec_be m < 2 ^ (8 * n)" if "length m = n" for m n
    using dec_be_bound [of m] that by (simp add: power_mult)
  then have d: "unat (of_nat (dec_be m) :: 'a :: len word) = dec_be m"
    if "LENGTH('a) = 8 * length m" for m
    using that by (metis unat_of_nat mod_less)
  show "off + 2 \<le> length b \<Longrightarrow> be16 (rd16 off b) = take 2 (drop off b)"
    unfolding be16_def rd16_def by (subst d) (simp_all add: enc_dec_be)
  show "off + 4 \<le> length b \<Longrightarrow> be32 (rd32 off b) = take 4 (drop off b)"
    unfolding be32_def rd32_def by (subst d) (simp_all add: enc_dec_be)
  show "off + 8 \<le> length b \<Longrightarrow> be64 (rd64 off b) = take 8 (drop off b)"
    unfolding be64_def rd64_def by (subst d) (simp_all add: enc_dec_be)
qed

lemma take_join [packed]:
  "off' = off + m \<Longrightarrow> take m (drop off b) @ take n (drop off' b) = take (m + n) (drop off b)"
  "off' = off + m \<Longrightarrow> take m (drop off b) @ take n (drop off' b) @ r = take (m + n) (drop off b) @ r"
  "take m b @ take n (drop m b) = take (m + n) b"
  "take m b @ take n (drop m b) @ r = take (m + n) b @ r"
  by (simp_all add: take_add add.commute)

section \<open>Constants\<close>

named_theorems nbd_consts \<open>values of the protocol constants\<close>

definition NBD_REP_ERR :: "u32 \<Rightarrow> u32" where "NBD_REP_ERR v = 0x80000000 OR v"
definition NBD_REP_IS_ERR :: "u32 \<Rightarrow> bool" where "NBD_REP_IS_ERR v = (v AND 0x80000000 \<noteq> 0)"
definition NBD_REPLY_TYPE_ERR :: "u16 \<Rightarrow> u16" where "NBD_REPLY_TYPE_ERR v = push_bit 15 1 OR v"
definition NBD_REPLY_TYPE_IS_ERR :: "u16 \<Rightarrow> bool" where
  "NBD_REPLY_TYPE_IS_ERR v = (v AND push_bit 15 1 \<noteq> 0)"
definition NBD_MAX_STRING :: nat where [nbd_consts]: "NBD_MAX_STRING = 4096"
definition NBD_MAGIC :: u64 where [nbd_consts]: "NBD_MAGIC = 0x4e42444d41474943"
definition NBD_OLD_VERSION :: u64 where [nbd_consts]: "NBD_OLD_VERSION = 0x0000420281861253"
definition NBD_NEW_VERSION :: u64 where [nbd_consts]: "NBD_NEW_VERSION = 0x49484156454F5054"
definition NBD_REP_MAGIC :: u64 where [nbd_consts]: "NBD_REP_MAGIC = 0x3e889045565a9"
definition NBD_FLAG_FIXED_NEWSTYLE :: u32 where [nbd_consts]: "NBD_FLAG_FIXED_NEWSTYLE = push_bit 0 1"
definition NBD_FLAG_NO_ZEROES :: u32 where [nbd_consts]: "NBD_FLAG_NO_ZEROES = push_bit 1 1"
definition NBD_FLAG_HAS_FLAGS :: u16 where [nbd_consts]: "NBD_FLAG_HAS_FLAGS = push_bit 0 1"
definition NBD_FLAG_READ_ONLY :: u16 where [nbd_consts]: "NBD_FLAG_READ_ONLY = push_bit 1 1"
definition NBD_FLAG_SEND_FLUSH :: u16 where [nbd_consts]: "NBD_FLAG_SEND_FLUSH = push_bit 2 1"
definition NBD_FLAG_SEND_FUA :: u16 where [nbd_consts]: "NBD_FLAG_SEND_FUA = push_bit 3 1"
definition NBD_FLAG_ROTATIONAL :: u16 where [nbd_consts]: "NBD_FLAG_ROTATIONAL = push_bit 4 1"
definition NBD_FLAG_SEND_TRIM :: u16 where [nbd_consts]: "NBD_FLAG_SEND_TRIM = push_bit 5 1"
definition NBD_FLAG_SEND_WRITE_ZEROES :: u16 where [nbd_consts]: "NBD_FLAG_SEND_WRITE_ZEROES = push_bit 6 1"
definition NBD_FLAG_SEND_DF :: u16 where [nbd_consts]: "NBD_FLAG_SEND_DF = push_bit 7 1"
definition NBD_FLAG_CAN_MULTI_CONN :: u16 where [nbd_consts]: "NBD_FLAG_CAN_MULTI_CONN = push_bit 8 1"
definition NBD_FLAG_SEND_CACHE :: u16 where [nbd_consts]: "NBD_FLAG_SEND_CACHE = push_bit 10 1"
definition NBD_FLAG_SEND_FAST_ZERO :: u16 where [nbd_consts]: "NBD_FLAG_SEND_FAST_ZERO = push_bit 11 1"
definition NBD_OPT_EXPORT_NAME :: u32 where [nbd_consts]: "NBD_OPT_EXPORT_NAME = 1"
definition NBD_OPT_ABORT :: u32 where [nbd_consts]: "NBD_OPT_ABORT = 2"
definition NBD_OPT_LIST :: u32 where [nbd_consts]: "NBD_OPT_LIST = 3"
definition NBD_OPT_STARTTLS :: u32 where [nbd_consts]: "NBD_OPT_STARTTLS = 5"
definition NBD_OPT_INFO :: u32 where [nbd_consts]: "NBD_OPT_INFO = 6"
definition NBD_OPT_GO :: u32 where [nbd_consts]: "NBD_OPT_GO = 7"
definition NBD_OPT_STRUCTURED_REPLY :: u32 where [nbd_consts]: "NBD_OPT_STRUCTURED_REPLY = 8"
definition NBD_OPT_LIST_META_CONTEXT :: u32 where [nbd_consts]: "NBD_OPT_LIST_META_CONTEXT = 9"
definition NBD_OPT_SET_META_CONTEXT :: u32 where [nbd_consts]: "NBD_OPT_SET_META_CONTEXT = 10"
definition NBD_REP_ACK :: u32 where [nbd_consts]: "NBD_REP_ACK = 1"
definition NBD_REP_SERVER :: u32 where [nbd_consts]: "NBD_REP_SERVER = 2"
definition NBD_REP_INFO :: u32 where [nbd_consts]: "NBD_REP_INFO = 3"
definition NBD_REP_META_CONTEXT :: u32 where [nbd_consts]: "NBD_REP_META_CONTEXT = 4"
definition NBD_REP_ERR_UNSUP :: u32 where [nbd_consts]: "NBD_REP_ERR_UNSUP = NBD_REP_ERR 1"
definition NBD_REP_ERR_POLICY :: u32 where [nbd_consts]: "NBD_REP_ERR_POLICY = NBD_REP_ERR 2"
definition NBD_REP_ERR_INVALID :: u32 where [nbd_consts]: "NBD_REP_ERR_INVALID = NBD_REP_ERR 3"
definition NBD_REP_ERR_PLATFORM :: u32 where [nbd_consts]: "NBD_REP_ERR_PLATFORM = NBD_REP_ERR 4"
definition NBD_REP_ERR_TLS_REQD :: u32 where [nbd_consts]: "NBD_REP_ERR_TLS_REQD = NBD_REP_ERR 5"
definition NBD_REP_ERR_UNKNOWN :: u32 where [nbd_consts]: "NBD_REP_ERR_UNKNOWN = NBD_REP_ERR 6"
definition NBD_REP_ERR_SHUTDOWN :: u32 where [nbd_consts]: "NBD_REP_ERR_SHUTDOWN = NBD_REP_ERR 7"
definition NBD_REP_ERR_BLOCK_SIZE_REQD :: u32 where [nbd_consts]: "NBD_REP_ERR_BLOCK_SIZE_REQD = NBD_REP_ERR 8"
definition NBD_REP_ERR_TOO_BIG :: u32 where [nbd_consts]: "NBD_REP_ERR_TOO_BIG = NBD_REP_ERR 9"
definition NBD_INFO_EXPORT :: u16 where [nbd_consts]: "NBD_INFO_EXPORT = 0"
definition NBD_INFO_NAME :: u16 where [nbd_consts]: "NBD_INFO_NAME = 1"
definition NBD_INFO_DESCRIPTION :: u16 where [nbd_consts]: "NBD_INFO_DESCRIPTION = 2"
definition NBD_INFO_BLOCK_SIZE :: u16 where [nbd_consts]: "NBD_INFO_BLOCK_SIZE = 3"
definition NBD_REQUEST_MAGIC :: u32 where [nbd_consts]: "NBD_REQUEST_MAGIC = 0x25609513"
definition NBD_SIMPLE_REPLY_MAGIC :: u32 where [nbd_consts]: "NBD_SIMPLE_REPLY_MAGIC = 0x67446698"
definition NBD_STRUCTURED_REPLY_MAGIC :: u32 where [nbd_consts]: "NBD_STRUCTURED_REPLY_MAGIC = 0x668e33ef"
definition NBD_REPLY_FLAG_DONE :: u16 where [nbd_consts]: "NBD_REPLY_FLAG_DONE = push_bit 0 1"
definition NBD_REPLY_TYPE_NONE :: u16 where [nbd_consts]: "NBD_REPLY_TYPE_NONE = 0"
definition NBD_REPLY_TYPE_OFFSET_DATA :: u16 where [nbd_consts]: "NBD_REPLY_TYPE_OFFSET_DATA = 1"
definition NBD_REPLY_TYPE_OFFSET_HOLE :: u16 where [nbd_consts]: "NBD_REPLY_TYPE_OFFSET_HOLE = 2"
definition NBD_REPLY_TYPE_BLOCK_STATUS :: u16 where [nbd_consts]: "NBD_REPLY_TYPE_BLOCK_STATUS = 5"
definition NBD_REPLY_TYPE_ERROR :: u16 where [nbd_consts]: "NBD_REPLY_TYPE_ERROR = NBD_REPLY_TYPE_ERR 1"
definition NBD_REPLY_TYPE_ERROR_OFFSET :: u16 where [nbd_consts]: "NBD_REPLY_TYPE_ERROR_OFFSET = NBD_REPLY_TYPE_ERR 2"
definition NBD_CMD_READ :: u16 where [nbd_consts]: "NBD_CMD_READ = 0"
definition NBD_CMD_WRITE :: u16 where [nbd_consts]: "NBD_CMD_WRITE = 1"
definition NBD_CMD_DISC :: u16 where [nbd_consts]: "NBD_CMD_DISC = 2"
definition NBD_CMD_FLUSH :: u16 where [nbd_consts]: "NBD_CMD_FLUSH = 3"
definition NBD_CMD_TRIM :: u16 where [nbd_consts]: "NBD_CMD_TRIM = 4"
definition NBD_CMD_CACHE :: u16 where [nbd_consts]: "NBD_CMD_CACHE = 5"
definition NBD_CMD_WRITE_ZEROES :: u16 where [nbd_consts]: "NBD_CMD_WRITE_ZEROES = 6"
definition NBD_CMD_BLOCK_STATUS :: u16 where [nbd_consts]: "NBD_CMD_BLOCK_STATUS = 7"
definition NBD_CMD_FLAG_FUA :: u16 where [nbd_consts]: "NBD_CMD_FLAG_FUA = push_bit 0 1"
definition NBD_CMD_FLAG_NO_HOLE :: u16 where [nbd_consts]: "NBD_CMD_FLAG_NO_HOLE = push_bit 1 1"
definition NBD_CMD_FLAG_DF :: u16 where [nbd_consts]: "NBD_CMD_FLAG_DF = push_bit 2 1"
definition NBD_CMD_FLAG_REQ_ONE :: u16 where [nbd_consts]: "NBD_CMD_FLAG_REQ_ONE = push_bit 3 1"
definition NBD_CMD_FLAG_FAST_ZERO :: u16 where [nbd_consts]: "NBD_CMD_FLAG_FAST_ZERO = push_bit 4 1"
definition NBD_SUCCESS :: u32 where [nbd_consts]: "NBD_SUCCESS = 0"
definition NBD_EPERM :: u32 where [nbd_consts]: "NBD_EPERM = 1"
definition NBD_EIO :: u32 where [nbd_consts]: "NBD_EIO = 5"
definition NBD_ENOMEM :: u32 where [nbd_consts]: "NBD_ENOMEM = 12"
definition NBD_EINVAL :: u32 where [nbd_consts]: "NBD_EINVAL = 22"
definition NBD_ENOSPC :: u32 where [nbd_consts]: "NBD_ENOSPC = 28"
definition NBD_EOVERFLOW :: u32 where [nbd_consts]: "NBD_EOVERFLOW = 75"
definition NBD_ENOTSUP :: u32 where [nbd_consts]: "NBD_ENOTSUP = 95"
definition NBD_ESHUTDOWN :: u32 where [nbd_consts]: "NBD_ESHUTDOWN = 108"

text \<open>A reply code is an error exactly when \<^verbatim>\<open>NBD_REP_ERR\<close> built it.\<close>

lemma NBD_REP_ERR_is_err: "NBD_REP_IS_ERR (NBD_REP_ERR v)"
proof -
  have "bit (NBD_REP_ERR v AND 0x80000000) 31"
    by (simp add: NBD_REP_ERR_def bit_simps)
  then show ?thesis unfolding NBD_REP_IS_ERR_def by auto
qed

section \<open>Structures\<close>

text \<open>
  All fields are sent in network byte order, so the model keeps the value of a field and its image
  is big-endian.  The \<^verbatim>\<open>handle\<close> of a request is opaque: the code copies its bytes and never
  converts them, and the model does the same with the number those bytes spell.
\<close>

record nbd_old_handshake =
  oh_nbdmagic :: u64
  oh_version :: u64
  oh_exportsize :: u64
  oh_gflags :: u16
  oh_eflags :: u16
  oh_zeroes :: "byte list"

record nbd_new_handshake =
  nh_nbdmagic :: u64
  nh_version :: u64
  nh_gflags :: u16

record nbd_new_option =
  no_version :: u64
  no_option :: u32
  no_optlen :: u32

record nbd_export_name_option_reply =
  en_exportsize :: u64
  en_eflags :: u16
  en_zeroes :: "byte list"

record nbd_fixed_new_option_reply =
  fr_magic :: u64
  fr_option :: u32
  fr_reply :: u32
  fr_replylen :: u32

record nbd_fixed_new_option_reply_info_export =
  ie_info :: u16
  ie_exportsize :: u64
  ie_eflags :: u16

record nbd_fixed_new_option_reply_info_name_or_desc =
  nd_info :: u16

record nbd_fixed_new_option_reply_info_block_size =
  bs_info :: u16
  bs_minimum :: u32
  bs_preferred :: u32
  bs_maximum :: u32

record nbd_fixed_new_option_reply_server =
  rs_export_name_len :: u32

record nbd_fixed_new_option_reply_meta_context =
  mc_context_id :: u32

record nbd_block_descriptor =
  bd_length :: u32
  bd_status_flags :: u32

record nbd_request =
  rq_magic :: u32
  rq_flags :: u16
  rq_type :: u16
  rq_handle :: u64
  rq_offset :: u64
  rq_count :: u32

record nbd_simple_reply =
  sr_magic :: u32
  sr_error :: u32
  sr_handle :: u64

record nbd_structured_reply =
  st_magic :: u32
  st_flags :: u16
  st_type :: u16
  st_handle :: u64
  st_length :: u32

record nbd_structured_reply_offset_data =
  od_offset :: u64

record nbd_structured_reply_offset_hole =
  oho_offset :: u64
  oho_length :: u32

record nbd_structured_reply_error =
  er_error :: u32
  er_len :: u16

subsection \<open>Packed images\<close>

text \<open>\<open>enc_x\<close> is the image of \<^verbatim>\<open>struct x\<close> on the wire, \<open>dec_x\<close> reads one back from a buffer.\<close>

definition enc_nbd_old_handshake :: "nbd_old_handshake \<Rightarrow> byte list" where
  "enc_nbd_old_handshake x = be64 (oh_nbdmagic x) @ be64 (oh_version x) @ be64 (oh_exportsize x) @ be16 (oh_gflags x) @ be16 (oh_eflags x) @ oh_zeroes x"

definition dec_nbd_old_handshake :: "byte list \<Rightarrow> nbd_old_handshake" where
  "dec_nbd_old_handshake b =
     \<lparr>oh_nbdmagic = rd64 0 b,
      oh_version = rd64 8 b,
      oh_exportsize = rd64 16 b,
      oh_gflags = rd16 24 b,
      oh_eflags = rd16 26 b,
      oh_zeroes = take 124 (drop 28 b)\<rparr>"

definition enc_nbd_new_handshake :: "nbd_new_handshake \<Rightarrow> byte list" where
  "enc_nbd_new_handshake x = be64 (nh_nbdmagic x) @ be64 (nh_version x) @ be16 (nh_gflags x)"

definition dec_nbd_new_handshake :: "byte list \<Rightarrow> nbd_new_handshake" where
  "dec_nbd_new_handshake b =
     \<lparr>nh_nbdmagic = rd64 0 b,
      nh_version = rd64 8 b,
      nh_gflags = rd16 16 b\<rparr>"

definition enc_nbd_new_option :: "nbd_new_option \<Rightarrow> byte list" where
  "enc_nbd_new_option x = be64 (no_version x) @ be32 (no_option x) @ be32 (no_optlen x)"

definition dec_nbd_new_option :: "byte list \<Rightarrow> nbd_new_option" where
  "dec_nbd_new_option b =
     \<lparr>no_version = rd64 0 b,
      no_option = rd32 8 b,
      no_optlen = rd32 12 b\<rparr>"

definition enc_nbd_export_name_option_reply :: "nbd_export_name_option_reply \<Rightarrow> byte list" where
  "enc_nbd_export_name_option_reply x = be64 (en_exportsize x) @ be16 (en_eflags x) @ en_zeroes x"

definition dec_nbd_export_name_option_reply :: "byte list \<Rightarrow> nbd_export_name_option_reply" where
  "dec_nbd_export_name_option_reply b =
     \<lparr>en_exportsize = rd64 0 b,
      en_eflags = rd16 8 b,
      en_zeroes = take 124 (drop 10 b)\<rparr>"

definition enc_nbd_fixed_new_option_reply :: "nbd_fixed_new_option_reply \<Rightarrow> byte list" where
  "enc_nbd_fixed_new_option_reply x = be64 (fr_magic x) @ be32 (fr_option x) @ be32 (fr_reply x) @ be32 (fr_replylen x)"

definition dec_nbd_fixed_new_option_reply :: "byte list \<Rightarrow> nbd_fixed_new_option_reply" where
  "dec_nbd_fixed_new_option_reply b =
     \<lparr>fr_magic = rd64 0 b,
      fr_option = rd32 8 b,
      fr_reply = rd32 12 b,
      fr_replylen = rd32 16 b\<rparr>"

definition enc_nbd_fixed_new_option_reply_info_export :: "nbd_fixed_new_option_reply_info_export \<Rightarrow> byte list" where
  "enc_nbd_fixed_new_option_reply_info_export x = be16 (ie_info x) @ be64 (ie_exportsize x) @ be16 (ie_eflags x)"

definition dec_nbd_fixed_new_option_reply_info_export :: "byte list \<Rightarrow> nbd_fixed_new_option_reply_info_export" where
  "dec_nbd_fixed_new_option_reply_info_export b =
     \<lparr>ie_info = rd16 0 b,
      ie_exportsize = rd64 2 b,
      ie_eflags = rd16 10 b\<rparr>"

definition enc_nbd_fixed_new_option_reply_info_name_or_desc :: "nbd_fixed_new_option_reply_info_name_or_desc \<Rightarrow> byte list" where
  "enc_nbd_fixed_new_option_reply_info_name_or_desc x = be16 (nd_info x)"

definition dec_nbd_fixed_new_option_reply_info_name_or_desc :: "byte list \<Rightarrow> nbd_fixed_new_option_reply_info_name_or_desc" where
  "dec_nbd_fixed_new_option_reply_info_name_or_desc b =
     \<lparr>nd_info = rd16 0 b\<rparr>"

definition enc_nbd_fixed_new_option_reply_info_block_size :: "nbd_fixed_new_option_reply_info_block_size \<Rightarrow> byte list" where
  "enc_nbd_fixed_new_option_reply_info_block_size x = be16 (bs_info x) @ be32 (bs_minimum x) @ be32 (bs_preferred x) @ be32 (bs_maximum x)"

definition dec_nbd_fixed_new_option_reply_info_block_size :: "byte list \<Rightarrow> nbd_fixed_new_option_reply_info_block_size" where
  "dec_nbd_fixed_new_option_reply_info_block_size b =
     \<lparr>bs_info = rd16 0 b,
      bs_minimum = rd32 2 b,
      bs_preferred = rd32 6 b,
      bs_maximum = rd32 10 b\<rparr>"

definition enc_nbd_fixed_new_option_reply_server :: "nbd_fixed_new_option_reply_server \<Rightarrow> byte list" where
  "enc_nbd_fixed_new_option_reply_server x = be32 (rs_export_name_len x)"

definition dec_nbd_fixed_new_option_reply_server :: "byte list \<Rightarrow> nbd_fixed_new_option_reply_server" where
  "dec_nbd_fixed_new_option_reply_server b =
     \<lparr>rs_export_name_len = rd32 0 b\<rparr>"

definition enc_nbd_fixed_new_option_reply_meta_context :: "nbd_fixed_new_option_reply_meta_context \<Rightarrow> byte list" where
  "enc_nbd_fixed_new_option_reply_meta_context x = be32 (mc_context_id x)"

definition dec_nbd_fixed_new_option_reply_meta_context :: "byte list \<Rightarrow> nbd_fixed_new_option_reply_meta_context" where
  "dec_nbd_fixed_new_option_reply_meta_context b =
     \<lparr>mc_context_id = rd32 0 b\<rparr>"

definition enc_nbd_block_descriptor :: "nbd_block_descriptor \<Rightarrow> byte list" where
  "enc_nbd_block_descriptor x = be32 (bd_length x) @ be32 (bd_status_flags x)"

definition dec_nbd_block_descriptor :: "byte list \<Rightarrow> nbd_block_descriptor" where
  "dec_nbd_block_descriptor b =
     \<lparr>bd_length = rd32 0 b,
      bd_status_flags = rd32 4 b\<rparr>"

definition enc_nbd_request :: "nbd_request \<Rightarrow> byte list" where
  "enc_nbd_request x = be32 (rq_magic x) @ be16 (rq_flags x) @ be16 (rq_type x) @ be64 (rq_handle x) @ be64 (rq_offset x) @ be32 (rq_count x)"

definition dec_nbd_request :: "byte list \<Rightarrow> nbd_request" where
  "dec_nbd_request b =
     \<lparr>rq_magic = rd32 0 b,
      rq_flags = rd16 4 b,
      rq_type = rd16 6 b,
      rq_handle = rd64 8 b,
      rq_offset = rd64 16 b,
      rq_count = rd32 24 b\<rparr>"

definition enc_nbd_simple_reply :: "nbd_simple_reply \<Rightarrow> byte list" where
  "enc_nbd_simple_reply x = be32 (sr_magic x) @ be32 (sr_error x) @ be64 (sr_handle x)"

definition dec_nbd_simple_reply :: "byte list \<Rightarrow> nbd_simple_reply" where
  "dec_nbd_simple_reply b =
     \<lparr>sr_magic = rd32 0 b,
      sr_error = rd32 4 b,
      sr_handle = rd64 8 b\<rparr>"

definition enc_nbd_structured_reply :: "nbd_structured_reply \<Rightarrow> byte list" where
  "enc_nbd_structured_reply x = be32 (st_magic x) @ be16 (st_flags x) @ be16 (st_type x) @ be64 (st_handle x) @ be32 (st_length x)"

definition dec_nbd_structured_reply :: "byte list \<Rightarrow> nbd_structured_reply" where
  "dec_nbd_structured_reply b =
     \<lparr>st_magic = rd32 0 b,
      st_flags = rd16 4 b,
      st_type = rd16 6 b,
      st_handle = rd64 8 b,
      st_length = rd32 16 b\<rparr>"

definition enc_nbd_structured_reply_offset_data :: "nbd_structured_reply_offset_data \<Rightarrow> byte list" where
  "enc_nbd_structured_reply_offset_data x = be64 (od_offset x)"

definition dec_nbd_structured_reply_offset_data :: "byte list \<Rightarrow> nbd_structured_reply_offset_data" where
  "dec_nbd_structured_reply_offset_data b =
     \<lparr>od_offset = rd64 0 b\<rparr>"

definition enc_nbd_structured_reply_offset_hole :: "nbd_structured_reply_offset_hole \<Rightarrow> byte list" where
  "enc_nbd_structured_reply_offset_hole x = be64 (oho_offset x) @ be32 (oho_length x)"

definition dec_nbd_structured_reply_offset_hole :: "byte list \<Rightarrow> nbd_structured_reply_offset_hole" where
  "dec_nbd_structured_reply_offset_hole b =
     \<lparr>oho_offset = rd64 0 b,
      oho_length = rd32 8 b\<rparr>"

definition enc_nbd_structured_reply_error :: "nbd_structured_reply_error \<Rightarrow> byte list" where
  "enc_nbd_structured_reply_error x = be32 (er_error x) @ be16 (er_len x)"

definition dec_nbd_structured_reply_error :: "byte list \<Rightarrow> nbd_structured_reply_error" where
  "dec_nbd_structured_reply_error b =
     \<lparr>er_error = rd32 0 b,
      er_len = rd16 4 b\<rparr>"

section \<open>Structure and image correspond\<close>

text \<open>
  \<open>size\<close> is \<^verbatim>\<open>sizeof\<close>; \<open>valid\<close> holds of the values of the C type (a \<^verbatim>\<open>char[124]\<close> has 124 bytes).
\<close>

locale packed_struct =
  fixes size_of :: nat
    and valid :: "'a \<Rightarrow> bool"
    and enc :: "'a \<Rightarrow> byte list"
    and dec :: "byte list \<Rightarrow> 'a"
  assumes enc_length: "valid x \<Longrightarrow> length (enc x) = size_of"
    and dec_enc_append: "valid x \<Longrightarrow> dec (enc x @ r) = x"
    and enc_dec: "length b = size_of \<Longrightarrow> enc (dec b) = b"
    and dec_valid: "length b = size_of \<Longrightarrow> valid (dec b)"
begin

lemma dec_enc: "valid x \<Longrightarrow> dec (enc x) = x"
  using dec_enc_append [of x "[]"] by simp

lemma enc_inject: "valid x \<Longrightarrow> valid y \<Longrightarrow> enc x = enc y \<Longrightarrow> x = y"
  by (metis dec_enc)

lemma enc_onto: "length b = size_of \<Longrightarrow> \<exists>x. valid x \<and> enc x = b"
  using enc_dec dec_valid by blast

text \<open>A structure at the head of a stream is told apart from what follows it.\<close>

lemma stream_inject:
  assumes "valid x" and "valid y" and "enc x @ r = enc y @ s"
  shows "x = y \<and> r = s"
  using assms enc_length by (metis append_eq_append_conv dec_enc)

end

interpretation oldhs: packed_struct 152 "\<lambda>x. length (oh_zeroes x) = 124" enc_nbd_old_handshake dec_nbd_old_handshake
  by unfold_locales (simp_all add: enc_nbd_old_handshake_def dec_nbd_old_handshake_def packed)

interpretation newhs: packed_struct 18 "\<lambda>_. True" enc_nbd_new_handshake dec_nbd_new_handshake
  by unfold_locales (simp_all add: enc_nbd_new_handshake_def dec_nbd_new_handshake_def packed)

interpretation newopt: packed_struct 16 "\<lambda>_. True" enc_nbd_new_option dec_nbd_new_option
  by unfold_locales (simp_all add: enc_nbd_new_option_def dec_nbd_new_option_def packed)

interpretation export_reply: packed_struct 134 "\<lambda>x. length (en_zeroes x) = 124" enc_nbd_export_name_option_reply dec_nbd_export_name_option_reply
  by unfold_locales (simp_all add: enc_nbd_export_name_option_reply_def dec_nbd_export_name_option_reply_def packed)

interpretation opt_reply: packed_struct 20 "\<lambda>_. True" enc_nbd_fixed_new_option_reply dec_nbd_fixed_new_option_reply
  by unfold_locales (simp_all add: enc_nbd_fixed_new_option_reply_def dec_nbd_fixed_new_option_reply_def packed)

interpretation info_export: packed_struct 12 "\<lambda>_. True" enc_nbd_fixed_new_option_reply_info_export dec_nbd_fixed_new_option_reply_info_export
  by unfold_locales (simp_all add: enc_nbd_fixed_new_option_reply_info_export_def dec_nbd_fixed_new_option_reply_info_export_def packed)

interpretation info_name: packed_struct 2 "\<lambda>_. True" enc_nbd_fixed_new_option_reply_info_name_or_desc dec_nbd_fixed_new_option_reply_info_name_or_desc
  by unfold_locales (simp_all add: enc_nbd_fixed_new_option_reply_info_name_or_desc_def dec_nbd_fixed_new_option_reply_info_name_or_desc_def packed)

interpretation info_block: packed_struct 14 "\<lambda>_. True" enc_nbd_fixed_new_option_reply_info_block_size dec_nbd_fixed_new_option_reply_info_block_size
  by unfold_locales (simp_all add: enc_nbd_fixed_new_option_reply_info_block_size_def dec_nbd_fixed_new_option_reply_info_block_size_def packed)

interpretation server_reply: packed_struct 4 "\<lambda>_. True" enc_nbd_fixed_new_option_reply_server dec_nbd_fixed_new_option_reply_server
  by unfold_locales (simp_all add: enc_nbd_fixed_new_option_reply_server_def dec_nbd_fixed_new_option_reply_server_def packed)

interpretation meta_reply: packed_struct 4 "\<lambda>_. True" enc_nbd_fixed_new_option_reply_meta_context dec_nbd_fixed_new_option_reply_meta_context
  by unfold_locales (simp_all add: enc_nbd_fixed_new_option_reply_meta_context_def dec_nbd_fixed_new_option_reply_meta_context_def packed)

interpretation block_desc: packed_struct 8 "\<lambda>_. True" enc_nbd_block_descriptor dec_nbd_block_descriptor
  by unfold_locales (simp_all add: enc_nbd_block_descriptor_def dec_nbd_block_descriptor_def packed)

interpretation request: packed_struct 28 "\<lambda>_. True" enc_nbd_request dec_nbd_request
  by unfold_locales (simp_all add: enc_nbd_request_def dec_nbd_request_def packed)

interpretation simple_reply: packed_struct 16 "\<lambda>_. True" enc_nbd_simple_reply dec_nbd_simple_reply
  by unfold_locales (simp_all add: enc_nbd_simple_reply_def dec_nbd_simple_reply_def packed)

interpretation structured_reply: packed_struct 20 "\<lambda>_. True" enc_nbd_structured_reply dec_nbd_structured_reply
  by unfold_locales (simp_all add: enc_nbd_structured_reply_def dec_nbd_structured_reply_def packed)

interpretation offset_data: packed_struct 8 "\<lambda>_. True" enc_nbd_structured_reply_offset_data dec_nbd_structured_reply_offset_data
  by unfold_locales (simp_all add: enc_nbd_structured_reply_offset_data_def dec_nbd_structured_reply_offset_data_def packed)

interpretation offset_hole: packed_struct 12 "\<lambda>_. True" enc_nbd_structured_reply_offset_hole dec_nbd_structured_reply_offset_hole
  by unfold_locales (simp_all add: enc_nbd_structured_reply_offset_hole_def dec_nbd_structured_reply_offset_hole_def packed)

interpretation reply_error: packed_struct 6 "\<lambda>_. True" enc_nbd_structured_reply_error dec_nbd_structured_reply_error
  by unfold_locales (simp_all add: enc_nbd_structured_reply_error_def dec_nbd_structured_reply_error_def packed)

section \<open>Properties of the protocol images\<close>

lemma magic_is_ascii: "be64 NBD_MAGIC = ''NBDMAGIC'' \<and> be64 NBD_NEW_VERSION = ''IHAVEOPT''"
  unfolding be64_def NBD_MAGIC_def NBD_NEW_VERSION_def by (simp add: enc_be_numeral char_of_def bit_0)

end
