(* ===== verification/Yuarel.thy ===== *)
theory Yuarel
  imports Lwnbd_Prelude
begin

text \<open>
  The URI splitter \<^verbatim>\<open>src/yuarel.c\<close>.  It copies nothing: it overwrites the separators of the request
  with NUL and hands out pointers into the same buffer, so the model is a state-passing one over
  the buffer, pointers are positions in it (\<open>None\<close> is NULL), and the specification below it speaks
  of the strings those pointers denote in the final buffer.
\<close>

section \<open>The code\<close>

record yuarel =
  url_path :: "nat option"
  url_query :: "nat option"
  url_fragment :: "nat option"

record yuarel_param =
  p_key :: nat
  p_val :: "nat option"

definition find_and_terminate :: "nat \<Rightarrow> byte \<Rightarrow> byte list \<Rightarrow> nat option \<times> byte list" where
  "find_and_terminate str c buf =
     (case strchr buf str c of
        None \<Rightarrow> (None, buf)
      | Some q \<Rightarrow> (Some (Suc q), buf[q := NUL]))"

definition find_fragment :: "nat \<Rightarrow> byte list \<Rightarrow> nat option \<times> byte list" where
  "find_fragment str = find_and_terminate str CHR ''#''"

definition find_query :: "nat \<Rightarrow> byte list \<Rightarrow> nat option \<times> byte list" where
  "find_query str = find_and_terminate str CHR ''?''"

definition find_path :: "nat \<Rightarrow> byte list \<Rightarrow> nat \<times> byte list" where
  "find_path str buf =
     (let (strt, buf') = find_and_terminate str CHR ''/'' buf
      in (case strt of None \<Rightarrow> (str, buf') | Some s \<Rightarrow> (s, buf')))"

definition yuarel_parse ::
  "yuarel option \<Rightarrow> nat option \<Rightarrow> byte list \<Rightarrow> int \<times> yuarel option \<times> byte list" where
  "yuarel_parse url u buf =
     (case (url, u) of
        (Some _, Some p) \<Rightarrow>
          (let url0 = \<lparr>url_path = None, url_query = None, url_fragment = None\<rparr>;
               (f, buf1) = find_fragment p buf;
               (q, buf2) = find_query p buf1;
               (pa, buf3) = find_path p buf2
           in (0, Some (url0\<lparr>url_fragment := f, url_query := q, url_path := Some pa\<rparr>), buf3))
      | _ \<Rightarrow> (- 1, url, buf))"

text \<open>\<^verbatim>\<open>if ((params[i].val = strchr(params[i].key, '=')) != NULL) *(params[i].val)++ = '\0';\<close>\<close>

definition split_param :: "nat \<Rightarrow> byte list \<Rightarrow> yuarel_param \<times> byte list" where
  "split_param k buf =
     (let (v, buf') = find_and_terminate k CHR ''='' buf in (\<lparr>p_key = k, p_val = v\<rparr>, buf'))"

text \<open>
  The loop of \<^verbatim>\<open>yuarel_parse_query\<close> at parameter \<^verbatim>\<open>i\<close>, whose key starts at \<open>k\<close>; \<open>n\<close> is
  \<^verbatim>\<open>max_params - i\<close>.  As in the code, parameter \<^verbatim>\<open>i - 1\<close> is split at its '=' only once the delimiter
  behind it has been found and overwritten, and the last one after the loop.
\<close>

fun query_loop :: "nat \<Rightarrow> byte \<Rightarrow> nat \<Rightarrow> byte list \<Rightarrow> yuarel_param list \<times> byte list" where
  "query_loop 0 d k buf = (let (p, buf') = split_param k buf in ([p], buf'))"
| "query_loop (Suc n) d k buf =
     (case strchr buf k d of
        None \<Rightarrow> (let (p, buf') = split_param k buf in ([p], buf'))
      | Some q \<Rightarrow>
          (let (p, buf1) = split_param k (buf[q := NUL]);
               (ps, buf2) = query_loop n d (Suc q) buf1
           in (p # ps, buf2)))"

definition yuarel_parse_query ::
  "nat option \<Rightarrow> byte \<Rightarrow> int \<Rightarrow> byte list \<Rightarrow> int \<times> yuarel_param list \<times> byte list" where
  "yuarel_parse_query qry delimiter max_params buf =
     (case qry of
        None \<Rightarrow> (- 1, [], buf)
      | Some q \<Rightarrow>
          if cstr buf q = [] then (- 1, [], buf)
          else (let (ps, buf') = query_loop (nat (max_params - 1)) delimiter q buf
                in (int (length ps), ps, buf')))"

definition skip_slashes :: "byte list \<Rightarrow> nat \<Rightarrow> nat" where
  "skip_slashes buf p = p + length (takeWhile (\<lambda>c. c = CHR ''/'') (cstr buf p))"

lemma strchr_bounds: "strchr buf p c = Some q \<Longrightarrow> p \<le> q \<and> q < length buf"
proof -
  assume a: "strchr buf p c = Some q"
  have "length (takeWhile (\<lambda>x. x \<noteq> c) (cstr buf p)) < length (cstr buf p)" if "c \<in> set (cstr buf p)"
    using that by (metis (mono_tags, lifting) length_takeWhile_le nat_less_le takeWhile_eq_all_conv
        takeWhile_eq_take take_all_iff)
  moreover have "length (cstr buf p) \<le> length buf - p"
    unfolding cstr_def using length_takeWhile_le [of _ "drop p buf"] by simp
  ultimately show ?thesis using a by (auto simp: strchr_def Let_def split: if_splits)
qed

function split_loop :: "nat \<Rightarrow> nat \<Rightarrow> byte list \<Rightarrow> nat list \<times> byte list" where
  "split_loop n p buf =
     (let p1 = skip_slashes buf p
      in if cstr buf p1 = [] then ([], buf)
         else (case strchr buf p1 CHR ''/'' of
                 None \<Rightarrow> ([p1], buf)
               | Some q \<Rightarrow>
                   if 1 < n
                   then (let (ps, buf') = split_loop (n - 1) (Suc q) (buf[q := NUL]) in (p1 # ps, buf'))
                   else ([p1], buf[q := NUL])))"
  by pat_completeness auto
termination
  by (relation "measure (\<lambda>(n, p, buf). n)") auto

text \<open>\<open>n\<close> is \<^verbatim>\<open>max_parts - i\<close> on entry of the body; the body runs before \<^verbatim>\<open>i < max_parts\<close> is tested.\<close>

definition yuarel_split_path :: "nat option \<Rightarrow> int \<Rightarrow> byte list \<Rightarrow> int \<times> nat list \<times> byte list" where
  "yuarel_split_path pth max_parts buf =
     (case pth of
        None \<Rightarrow> (- 1, [], buf)
      | Some p \<Rightarrow>
          if cstr buf p = [] then (- 1, [], buf)
          else (let (ps, buf') = split_loop (nat max_parts) p buf in (int (length ps), ps, buf')))"

declare split_loop.simps [simp del]

section \<open>What the strings should be\<close>

text \<open>Cutting a string at the first occurrence of a separator.\<close>

definition cut :: "char \<Rightarrow> string \<Rightarrow> string \<times> string option" where
  "cut c s = (takeWhile (\<lambda>x. x \<noteq> c) s,
              case dropWhile (\<lambda>x. x \<noteq> c) s of [] \<Rightarrow> None | _ # t \<Rightarrow> Some t)"

definition uri_fragment :: "string \<Rightarrow> string option" where
  "uri_fragment s = snd (cut CHR ''#'' s)"

definition uri_query :: "string \<Rightarrow> string option" where
  "uri_query s = snd (cut CHR ''?'' (fst (cut CHR ''#'' s)))"

definition uri_path :: "string \<Rightarrow> string" where
  "uri_path s =
     (let h = fst (cut CHR ''?'' (fst (cut CHR ''#'' s)))
      in case cut CHR ''/'' h of (a, None) \<Rightarrow> a | (a, Some t) \<Rightarrow> t)"

text \<open>At most \<open>n + 1\<close> parameters; the last one keeps the delimiters that are left.\<close>

fun split_query :: "nat \<Rightarrow> char \<Rightarrow> string \<Rightarrow> (string \<times> string option) list" where
  "split_query 0 d s = [cut CHR ''='' s]"
| "split_query (Suc n) d s =
     (case cut d s of
        (a, None) \<Rightarrow> [cut CHR ''='' s]
      | (a, Some t) \<Rightarrow> cut CHR ''='' a # split_query n d t)"

text \<open>The string a pointer denotes, and a parameter read back from the buffer.\<close>

definition str_at :: "byte list \<Rightarrow> nat option \<Rightarrow> string option" where
  "str_at buf p = map_option (cstr buf) p"

definition param_at :: "byte list \<Rightarrow> yuarel_param \<Rightarrow> string \<times> string option" where
  "param_at buf p = (cstr buf (p_key p), str_at buf (p_val p))"

lemma cut_absent: "c \<notin> set s \<Longrightarrow> cut c s = (s, None)"
  by (induction s) (auto simp: cut_def split: list.splits)

lemma cut_found [simp]: "c \<notin> set a \<Longrightarrow> cut c (a @ c # b) = (a, Some b)"
  by (induction a) (auto simp: cut_def)

section \<open>The buffer operations\<close>

lemma cstr_length: "r + length (cstr b r) \<le> max r (length b)"
  unfolding cstr_def using length_takeWhile_le [of "\<lambda>c. c \<noteq> NUL" "drop r b"] by auto

text \<open>A string that ends before \<open>m\<close> only depends on the first \<open>m\<close> bytes.\<close>

lemma cstr_frame:
  assumes "take m b' = take m b" and "r + length (cstr b r) < m" and "m \<le> length b"
  shows "cstr b' r = cstr b r"
proof -
  let ?P = "\<lambda>c. c \<noteq> NUL"
  let ?x = "drop r (take m b)"
  have ex: "\<exists>x \<in> set ?x. \<not> ?P x"
  proof (rule ccontr)
    assume "\<not> ?thesis"
    then have "takeWhile ?P (?x @ drop m b) = ?x @ takeWhile ?P (drop m b)"
      by (intro takeWhile_append2) auto
    moreover have "drop r b = ?x @ drop m b"
      using assms(2,3) by (metis append_take_drop_id drop_append diff_is_0_eq drop0 length_take
          less_imp_le_nat min.absorb2 trans_less_add1 le_add1 order_le_less_trans)
    ultimately have "m - r \<le> length (cstr b r)" using assms(3) unfolding cstr_def by simp
    then show False using assms(2) by simp
  qed
  have "cstr c r = takeWhile ?P ?x" if "take m c = take m b" for c
  proof -
    have "r \<le> m" using assms(2) by simp
    then have "drop r c = ?x @ drop (max r m) c"
      by (metis append_take_drop_id drop_drop drop_take le_add_diff_inverse2 max.absorb2 that)
    then show ?thesis unfolding cstr_def using ex by (auto simp: takeWhile_append1)
  qed
  then show ?thesis using assms(1) by simp
qed

lemma find_and_terminate_absent:
  "c \<notin> set (cstr buf p) \<Longrightarrow> find_and_terminate p c buf = (None, buf)"
  by (simp add: find_and_terminate_def strchr_None [THEN iffD2])

lemma find_and_terminate_found:
  "cstr buf p = a @ c # b \<Longrightarrow> c \<notin> set a \<Longrightarrow>
   find_and_terminate p c buf = (Some (Suc (p + length a)), buf[p + length a := NUL])"
  by (simp add: find_and_terminate_def strchr_first)

text \<open>
  One step in terms of strings: the string at \<open>p\<close> becomes the part before the separator, the
  returned pointer denotes the part behind it, the buffer in front of \<open>p\<close> is left alone, and so is
  every string behind the cut.
\<close>

lemma find_and_terminate_spec:
  assumes "find_and_terminate p c buf = (r, buf')"
  shows "(cstr buf' p, str_at buf' r) = cut c (cstr buf p)"
    and "take p buf' = take p buf" and "length buf' = length buf"
    and "r = Some q \<Longrightarrow> p < q \<and> q \<le> p + length (cstr buf p) \<and> q = Suc (p + length (cstr buf' p))"
    and "p + length (cstr buf p) < m \<Longrightarrow> cstr buf' m = cstr buf m"
    and "p + length (cstr buf p) < m \<Longrightarrow> drop m buf' = drop m buf"
proof -
  consider (absent) "c \<notin> set (cstr buf p)" | (found) a b where "cstr buf p = a @ c # b" "c \<notin> set a"
    by (meson split_list_first)
  then have "(cstr buf' p, str_at buf' r) = cut c (cstr buf p) \<and> take p buf' = take p buf
    \<and> length buf' = length buf
    \<and> (r = Some q \<longrightarrow> p < q \<and> q \<le> p + length (cstr buf p) \<and> q = Suc (p + length (cstr buf' p)))
    \<and> (p + length (cstr buf p) < m \<longrightarrow> cstr buf' m = cstr buf m \<and> drop m buf' = drop m buf)"
  proof cases
    case absent
    then have "r = None" "buf' = buf" using assms find_and_terminate_absent by auto
    then show ?thesis using absent by (simp add: str_at_def cut_absent)
  next
    case found
    have r: "r = Some (Suc (p + length a))" and b': "buf' = buf[p + length a := NUL]"
      using assms find_and_terminate_found [OF found] by simp_all
    have "cstr buf' p = a" "cstr buf' (Suc (p + length a)) = b"
      using cstr_terminate [OF found(1) b'] by simp_all
    then show ?thesis
      using found r b' by (auto simp: str_at_def cstr_update_before drop_update_cancel)
  qed
  then show "(cstr buf' p, str_at buf' r) = cut c (cstr buf p)" "take p buf' = take p buf"
    "length buf' = length buf"
    "r = Some q \<Longrightarrow> p < q \<and> q \<le> p + length (cstr buf p) \<and> q = Suc (p + length (cstr buf' p))"
    "p + length (cstr buf p) < m \<Longrightarrow> cstr buf' m = cstr buf m"
    "p + length (cstr buf p) < m \<Longrightarrow> drop m buf' = drop m buf"
    by blast+
qed

lemma length_cut_fst: "length (fst (cut c s)) \<le> length s"
  by (simp add: cut_def length_takeWhile_le)

lemma length_cut_parts: "cut c s = (a, Some b) \<Longrightarrow> Suc (length a + length b) = length s"
proof -
  assume "cut c s = (a, Some b)"
  then have "a = takeWhile (\<lambda>x. x \<noteq> c) s" and "\<exists>x. dropWhile (\<lambda>x. x \<noteq> c) s = x # b"
    by (auto simp: cut_def split: list.splits)
  then show ?thesis by (metis add_Suc_right length_Cons length_append takeWhile_dropWhile_id)
qed

lemma query_loop_frame:
  "query_loop n d k buf = (ps, buf') \<Longrightarrow> take k buf' = take k buf \<and> length buf' = length buf"
proof (induction n arbitrary: k buf ps buf')
  case 0
  then show ?case
    using find_and_terminate_spec(2,3) by (auto simp: split_param_def split: prod.splits)
next
  case (Suc n)
  show ?case
  proof (cases "strchr buf k d")
    case None
    with Suc.prems show ?thesis
      using find_and_terminate_spec(2,3) by (auto simp: split_param_def split: prod.splits)
  next
    case (Some q)
    then have kq: "k \<le> q" using strchr_bounds by blast
    obtain p buf1 where p: "split_param k (buf[q := NUL]) = (p, buf1)" by fastforce
    obtain ps' where ps: "query_loop n d (Suc q) buf1 = (ps', buf')"
      using Suc.prems Some p by (auto split: prod.splits)
    have "take k buf' = take k (take (Suc q) buf')" using kq by simp
    also have "\<dots> = take k buf1" using Suc.IH [OF ps] kq by simp
    also have "\<dots> = take k (buf[q := NUL])"
      using p find_and_terminate_spec(2) by (auto simp: split_param_def split: prod.splits)
    finally have "take k buf' = take k buf" using kq by simp
    moreover have "length buf1 = length buf"
      using p find_and_terminate_spec(3) [of k] by (fastforce simp: split_param_def split: prod.splits)
    ultimately show ?thesis using Suc.IH [OF ps] by simp
  qed
qed

text \<open>The parameter at \<open>k\<close> once its delimiter is overwritten: it is final from then on.\<close>

lemma split_param_spec:
  assumes "split_param k buf = (p, buf')"
  shows "param_at buf' p = cut CHR ''='' (cstr buf k)"
    and "take m buf'' = take m buf' \<Longrightarrow> k + length (cstr buf k) < m \<Longrightarrow> m \<le> length buf \<Longrightarrow>
         param_at buf'' p = param_at buf' p"
proof -
  obtain v where f: "find_and_terminate k CHR ''='' buf = (v, buf')"
    and p: "p = \<lparr>p_key = k, p_val = v\<rparr>"
    using assms by (auto simp: split_param_def split: prod.splits)
  note sp = find_and_terminate_spec [OF f]
  show "param_at buf' p = cut CHR ''='' (cstr buf k)"
    using sp(1) p by (simp add: param_at_def)
  have lk: "length (cstr buf' k) \<le> length (cstr buf k)"
    using sp(1) by (metis fst_conv length_cut_fst)
  assume a: "take m buf'' = take m buf'" "k + length (cstr buf k) < m" "m \<le> length buf"
  have "cstr buf'' k = cstr buf' k"
    using lk a sp(3) by (intro cstr_frame [of m]) auto
  moreover have "str_at buf'' v = str_at buf' v"
  proof (cases v)
    case (Some q)
    have "cut CHR ''='' (cstr buf k) = (cstr buf' k, Some (cstr buf' q))"
      using sp(1) Some by (simp add: str_at_def)
    then have "Suc (length (cstr buf' k) + length (cstr buf' q)) = length (cstr buf k)"
      by (rule length_cut_parts)
    moreover have "q = Suc (k + length (cstr buf' k))" using sp(4) [OF Some] by (elim conjE)
    ultimately have "q + length (cstr buf' q) < m" using a(2) by linarith
    then have "cstr buf'' q = cstr buf' q" using a(1,3) sp(3) by (intro cstr_frame) auto
    then show ?thesis using Some by (simp add: str_at_def)
  qed (simp add: str_at_def)
  ultimately show "param_at buf'' p = param_at buf' p" using p by (simp add: param_at_def)
qed

lemma query_loop_spec:
  assumes "query_loop n d k buf = (ps, buf')" and "d \<noteq> NUL"
  shows "map (param_at buf') ps = split_query n d (cstr buf k)"
  using assms(1)
proof (induction n arbitrary: k buf ps buf')
  case 0
  then show ?case using split_param_spec(1) by (auto split: prod.splits)
next
  case (Suc n)
  consider (absent) "d \<notin> set (cstr buf k)" | (found) a b where "cstr buf k = a @ d # b" "d \<notin> set a"
    by (meson split_list_first)
  then show ?case
  proof cases
    case absent
    with Suc.prems show ?thesis
      using split_param_spec(1) by (auto simp: strchr_None [THEN iffD2] cut_absent split: prod.splits)
  next
    case found
    let ?q = "k + length a"
    let ?buf = "buf[?q := NUL]"
    obtain p buf1 where p: "split_param k ?buf = (p, buf1)" by fastforce
    obtain ps' where l: "query_loop n d (Suc ?q) buf1 = (ps', buf')" and ps: "ps = p # ps'"
      using Suc.prems strchr_first [OF found] p by (auto split: prod.splits)
    have s: "cstr ?buf k = a" "cstr ?buf (Suc ?q) = b"
      using cstr_terminate [OF found(1) refl] by simp_all
    have lb: "Suc ?q \<le> length buf"
      using strchr_bounds [OF strchr_first [OF found]] by simp
    have "cstr buf1 (Suc ?q) = b"
      using find_and_terminate_spec(5) [where p = k and buf = ?buf and m = "Suc ?q"] p s
      by (auto simp: split_param_def split: prod.splits)
    then have "map (param_at buf') ps' = split_query n d b" using Suc.IH [OF l] by simp
    moreover have "param_at buf' p = cut CHR ''='' a"
      using split_param_spec(1) [OF p] split_param_spec(2) [OF p, of "Suc ?q" buf']
        query_loop_frame [OF l] s lb by simp
    ultimately show ?thesis using ps found by simp
  qed
qed

section \<open>The parsers meet their specification\<close>

lemma yuarel_parse_spec:
  "\<exists>url buf'. yuarel_parse (Some url0) (Some p) buf = (0, Some url, buf')
     \<and> str_at buf' (url_fragment url) = uri_fragment (cstr buf p)
     \<and> str_at buf' (url_query url) = uri_query (cstr buf p)
     \<and> str_at buf' (url_path url) = Some (uri_path (cstr buf p))
     \<and> length buf' = length buf"
proof -
  obtain f buf1 where f: "find_and_terminate p CHR ''#'' buf = (f, buf1)" by fastforce
  obtain q buf2 where q: "find_and_terminate p CHR ''?'' buf1 = (q, buf2)" by fastforce
  obtain r buf3 where r: "find_and_terminate p CHR ''/'' buf2 = (r, buf3)" by fastforce
  let ?pa = "case r of None \<Rightarrow> p | Some s \<Rightarrow> s"
  let ?url = "\<lparr>url_path = Some ?pa, url_query = q, url_fragment = f\<rparr>"
  have run: "yuarel_parse (Some url0) (Some p) buf = (0, Some ?url, buf3)"
    using f q r by (simp add: yuarel_parse_def find_fragment_def find_query_def find_path_def
        split: option.splits)
  note F = find_and_terminate_spec [OF f] and Q = find_and_terminate_spec [OF q]
    and R = find_and_terminate_spec [OF r]
  have b1: "cstr buf1 p = fst (cut CHR ''#'' (cstr buf p))" using F(1) by (metis fst_conv)
  have b2: "cstr buf2 p = fst (cut CHR ''?'' (cstr buf1 p))" using Q(1) by (metis fst_conv)
  have l2: "length (cstr buf2 p) \<le> length (cstr buf1 p)" by (simp add: b2 length_cut_fst)
  have "str_at buf3 f = str_at buf1 f"
    using F(4) Q(5) R(5) l2 by (cases f) (auto simp: str_at_def)
  then have "str_at buf3 f = uri_fragment (cstr buf p)"
    using F(1) by (metis uri_fragment_def snd_conv)
  moreover have "str_at buf3 q = str_at buf2 q"
    using Q(4) R(5) by (cases q) (auto simp: str_at_def)
  then have "str_at buf3 q = uri_query (cstr buf p)"
    using Q(1) b1 by (metis uri_query_def snd_conv)
  moreover have "cut CHR ''/'' (cstr buf2 p) = (cstr buf3 p, str_at buf3 r)" using R(1) by simp
  then have "cstr buf3 ?pa = uri_path (cstr buf p)"
    unfolding uri_path_def Let_def b1 [symmetric] b2 [symmetric]
    by (cases r) (simp_all add: str_at_def)
  ultimately show ?thesis using run F(3) Q(3) R(3) by (auto simp: str_at_def)
qed

text \<open>
  \<^verbatim>\<open>yuarel_parse\<close> returns 0 on a request, and in the buffer it leaves behind its three pointers
  denote the fragment, the query and the path of the request as a string; pointers are NULL
  exactly for the parts that are missing.
\<close>

theorem yuarel_parse_correct:
  "\<exists>url buf'. yuarel_parse (Some url0) (Some p) buf = (0, Some url, buf')
     \<and> str_at buf' (url_fragment url) = uri_fragment (cstr buf p)
     \<and> str_at buf' (url_query url) = uri_query (cstr buf p)
     \<and> str_at buf' (url_path url) = Some (uri_path (cstr buf p))
     \<and> length buf' = length buf"
  by (rule yuarel_parse_spec)

text \<open>
  \<^verbatim>\<open>yuarel_parse_query\<close> on a non-empty query returns the number of its parameters, at most
  \<^verbatim>\<open>max_params\<close>, and the key and value of each are the parts of the query cut at the delimiters
  and at the first '=' of each part; a parameter with no '=' has a NULL value.
\<close>

theorem yuarel_parse_query_correct:
  assumes "cstr buf q \<noteq> []" and "d \<noteq> NUL"
  shows "\<exists>ps buf'. yuarel_parse_query (Some q) d max_params buf = (int (length ps), ps, buf')
     \<and> map (param_at buf') ps = split_query (nat (max_params - 1)) d (cstr buf q)"
proof -
  obtain ps buf' where l: "query_loop (nat (max_params - 1)) d q buf = (ps, buf')" by fastforce
  then show ?thesis
    using query_loop_spec [OF l assms(2)] assms(1) by (auto simp: yuarel_parse_query_def)
qed

theorem yuarel_parse_query_correct_witness:
  "\<exists>ps buf'. yuarel_parse_query (Some 0) CHR ''&'' 3 (''memset=a&bzero'' @ [NUL]) = (int (length ps), ps, buf')
     \<and> map (param_at buf') ps = [(''memset'', Some ''a''), (''bzero'', None)]"
proof -
  have s: "cstr (''memset=a&bzero'' @ [NUL]) 0 = ''memset=a&bzero''"
    by (simp add: cstr_def NUL_def)
  have n: "nat (3 - 1) = Suc (Suc 0)" by simp
  show ?thesis
    using yuarel_parse_query_correct [of "''memset=a&bzero'' @ [NUL]" 0 "CHR ''&''" 3]
    unfolding s n by (simp add: NUL_def cut_def)
qed

text \<open>The number of parameters never exceeds the array the caller passes.\<close>

lemma length_split_query: "length (split_query n d s) \<le> Suc n"
proof (induction n arbitrary: s)
  case (Suc n)
  then show ?case by (auto split: prod.splits option.splits)
qed simp

lemma length_query_loop:
  assumes "query_loop n d k buf = (ps, buf')"
  shows "length ps \<le> Suc n"
  using assms
proof (induction n arbitrary: k buf ps buf')
  case (Suc n)
  then show ?case by (fastforce split: option.splits prod.splits)
qed (auto split: prod.splits)

lemma yuarel_parse_query_bound:
  assumes "yuarel_parse_query q d max_params buf = (n, ps, buf')" and "0 < max_params"
  shows "n = - 1 \<and> ps = [] \<or> n = int (length ps) \<and> 0 < n \<and> n \<le> max_params"
proof -
  have "ps \<noteq> []" if "query_loop k d p buf = (ps, buf')" for k p
    using that by (cases k) (auto split: option.splits prod.splits)
  then show ?thesis
    using assms length_query_loop
    by (fastforce simp: yuarel_parse_query_def split: option.splits if_splits prod.splits)
qed

end
