(* ===== verification/Contexts.thy ===== *)
theory Contexts
  imports Lwnbd_Prelude
begin

text \<open>
  The data model of the library (\<^verbatim>\<open>include/lwnbd/lwnbd.h\<close>, \<^verbatim>\<open>include/lwnbd/lwnbd-plugin.h\<close>) and the
  context pool \<^verbatim>\<open>src/contexts.c\<close>.  A plugin is a table of callbacks over the state \<open>'w\<close> of everything
  the plugins own (their static arrays, the files, the memory); \<open>'c\<close> is the type of the
  configurations \<^verbatim>\<open>pconfig\<close> their constructors take.  The static variables of the library are the
  record \<open>lwnbd\<close>.
\<close>

section \<open>Limits\<close>

definition MAX_NUM_SERVERS :: nat where "MAX_NUM_SERVERS = 2"
definition MAX_NUM_CLIENTS :: nat where "MAX_NUM_CLIENTS = 2"
definition MAX_NUM_PLUGINS :: nat where "MAX_NUM_PLUGINS = 10"
definition MAX_CONTEXTS :: nat where "MAX_CONTEXTS = 50"

section \<open>Contexts, plugins and the state of the library\<close>

text \<open>
  A context.  \<open>ctx_p\<close> points to the plugin: the model writes the slot of \<^verbatim>\<open>plugins[]\<close> it was taken
  from.  A name has at most 31 and a description at most 63 characters before its NUL.
  \<open>ctx_exportsize\<close> keeps the 64 bits of the \<^verbatim>\<open>int64_t\<close>, since the users compare it unsigned.
\<close>

record lwnbd_context =
  ctx_handle :: handle
  ctx_p :: "nat option"
  ctx_name :: string
  ctx_description :: string
  ctx_exportsize :: u64

record query_t =
  q_key :: string
  q_val :: "string option"

text \<open>
  The callbacks.  \<open>None\<close> is a NULL member.  A callback that fills a buffer returns the bytes it
  stored at the start of it; \<open>pl_pwrite\<close> gets the caller's whole buffer, as it gets a pointer in C.
  The experimental \<^verbatim>\<open>ctrl\<close> member is left out: nothing calls it.
\<close>

record ('c, 'w) lwnbd_plugin_t =
  pl_struct_size :: u64
  pl_name :: string
  pl_longname :: string
  pl_version :: string
  pl_description :: string
  pl_load :: "('w \<Rightarrow> 'w result) option"
  pl_unload :: "('w \<Rightarrow> 'w result) option"
  pl_open :: "(handle \<Rightarrow> int \<Rightarrow> 'w \<Rightarrow> 'w result) option"
  pl_close :: "(handle \<Rightarrow> 'w \<Rightarrow> 'w result) option"
  pl_get_size :: "(handle \<Rightarrow> 'w \<Rightarrow> (u64 \<times> 'w) result) option"
  pl_pread :: "(handle \<Rightarrow> u32 \<Rightarrow> u64 \<Rightarrow> u32 \<Rightarrow> 'w \<Rightarrow> (int \<times> byte list \<times> 'w) result) option"
  pl_pwrite :: "(handle \<Rightarrow> byte list \<Rightarrow> u32 \<Rightarrow> u64 \<Rightarrow> u32 \<Rightarrow> 'w \<Rightarrow> (int \<times> 'w) result) option"
  pl_flush :: "(handle \<Rightarrow> u32 \<Rightarrow> 'w \<Rightarrow> (int \<times> 'w) result) option"
  pl_trim :: "(handle \<Rightarrow> u32 \<Rightarrow> u64 \<Rightarrow> u32 \<Rightarrow> 'w \<Rightarrow> (int \<times> 'w) result) option"
  pl_zero :: "(handle \<Rightarrow> u32 \<Rightarrow> u64 \<Rightarrow> u32 \<Rightarrow> 'w \<Rightarrow> (int \<times> 'w) result) option"
  pl_block_size :: "(handle \<Rightarrow> 'w \<Rightarrow> (int \<times> u32 \<times> u32 \<times> u32) result) option"
  pl_config :: "(string \<Rightarrow> string \<Rightarrow> 'w \<Rightarrow> (int \<times> 'w) result) option"
  pl_magic_config_key :: "string option"
  pl_ctor :: "('c \<Rightarrow> lwnbd_context option \<Rightarrow> 'w \<Rightarrow> (int \<times> lwnbd_context option \<times> 'w) result) option"
  pl_query :: "(handle \<Rightarrow> query_t list \<Rightarrow> int \<Rightarrow> 'w \<Rightarrow> (int \<times> 'w) result) option"
  pl_export_without_handle :: int

text \<open>The callbacks \<^verbatim>\<open>lwnbd-plugin.h\<close> offers for plugins to share, and its registration macro.\<close>

definition func_no_error :: "handle \<Rightarrow> u32 \<Rightarrow> 'w \<Rightarrow> (int \<times> 'w) result" where
  "func_no_error h flags w = Inr (0, w)"

definition char_block_size :: "handle \<Rightarrow> 'w \<Rightarrow> (int \<times> u32 \<times> u32 \<times> u32) result" where
  "char_block_size h w = Inr (0, 1, 1, 1)"

definition stream_get_size :: "handle \<Rightarrow> 'w \<Rightarrow> (u64 \<times> 'w) result" where
  "stream_get_size h w = Inr (0x7FFFFFFFFFFFE00, w)"

definition register_plugin :: "u64 \<Rightarrow> ('c, 'w) lwnbd_plugin_t \<Rightarrow> ('c, 'w) lwnbd_plugin_t option" where
  "register_plugin size_of plugin = Some (plugin\<lparr>pl_struct_size := size_of\<rparr>)"

text \<open>A member that a plugin's initialiser does not name is NULL, 0 or the empty string.\<close>

definition null_plugin :: "('c, 'w) lwnbd_plugin_t" where
  "null_plugin = \<lparr>pl_struct_size = 0, pl_name = [], pl_longname = [], pl_version = [],
     pl_description = [], pl_load = None, pl_unload = None, pl_open = None, pl_close = None,
     pl_get_size = None, pl_pread = None, pl_pwrite = None, pl_flush = None, pl_trim = None,
     pl_zero = None, pl_block_size = None, pl_config = None, pl_magic_config_key = None,
     pl_ctor = None, pl_query = None, pl_export_without_handle = 0\<rparr>"

datatype context_state = CONTEXT_FREE | CONTEXT_CREATED

datatype plugin_state = PLUGIN_FREE | PLUGIN_CREATED

record ('c, 'w) lwnbd =
  contexts :: "lwnbd_context list"
  contexts_status :: "context_state list"
  plugins :: "('c, 'w) lwnbd_plugin_t option list"
  plugins_status :: "plugin_state list"
  world :: 'w

text \<open>Static storage starts out zeroed.\<close>

definition zero_context :: lwnbd_context where
  "zero_context = \<lparr>ctx_handle = None, ctx_p = None, ctx_name = [], ctx_description = [],
                   ctx_exportsize = 0\<rparr>"

definition lwnbd_init :: "'w \<Rightarrow> ('c, 'w) lwnbd" where
  "lwnbd_init w =
     \<lparr>contexts = replicate MAX_CONTEXTS zero_context,
      contexts_status = replicate MAX_CONTEXTS CONTEXT_FREE,
      plugins = replicate MAX_NUM_PLUGINS None,
      plugins_status = replicate MAX_NUM_PLUGINS PLUGIN_FREE, world = w\<rparr>"

section \<open>Calls through a context\<close>

text \<open>\<^verbatim>\<open>me->p\<close>: the plugin of a context.\<close>

definition plugin_of :: "('c, 'w) lwnbd \<Rightarrow> 'a lwnbd_context_scheme \<Rightarrow> ('c, 'w) lwnbd_plugin_t result" where
  "plugin_of s me = bindr (deref (ctx_p me)) (\<lambda>k. deref (plugins s ! k))"

definition lwnbd_pread ::
  "('c, 'w) lwnbd \<Rightarrow> 'a lwnbd_context_scheme \<Rightarrow> u32 \<Rightarrow> u64 \<Rightarrow> u32
    \<Rightarrow> (int \<times> byte list \<times> ('c, 'w) lwnbd) result" where
  "lwnbd_pread s me count offset flags =
     bindr (plugin_of s me) (\<lambda>p.
     bindr (callp (pl_pread p)) (\<lambda>f.
     bindr (f (ctx_handle me) count offset flags (world s)) (\<lambda>(r, d, w).
     Inr (r, d, s\<lparr>world := w\<rparr>))))"

definition lwnbd_pwrite ::
  "('c, 'w) lwnbd \<Rightarrow> 'a lwnbd_context_scheme \<Rightarrow> byte list \<Rightarrow> u32 \<Rightarrow> u64 \<Rightarrow> u32
    \<Rightarrow> (int \<times> ('c, 'w) lwnbd) result" where
  "lwnbd_pwrite s me buf count offset flags =
     bindr (plugin_of s me) (\<lambda>p.
     bindr (callp (pl_pwrite p)) (\<lambda>f.
     bindr (f (ctx_handle me) buf count offset flags (world s)) (\<lambda>(r, w). Inr (r, s\<lparr>world := w\<rparr>))))"

definition lwnbd_flush ::
  "('c, 'w) lwnbd \<Rightarrow> 'a lwnbd_context_scheme \<Rightarrow> u32 \<Rightarrow> (int \<times> ('c, 'w) lwnbd) result" where
  "lwnbd_flush s me flags =
     bindr (plugin_of s me) (\<lambda>p.
     bindr (callp (pl_flush p)) (\<lambda>f.
     bindr (f (ctx_handle me) flags (world s)) (\<lambda>(r, w). Inr (r, s\<lparr>world := w\<rparr>))))"

definition lwnbd_trim ::
  "('c, 'w) lwnbd \<Rightarrow> 'a lwnbd_context_scheme \<Rightarrow> u32 \<Rightarrow> u64 \<Rightarrow> u32 \<Rightarrow> (int \<times> ('c, 'w) lwnbd) result" where
  "lwnbd_trim s me count offset flags =
     bindr (plugin_of s me) (\<lambda>p.
     bindr (callp (pl_trim p)) (\<lambda>f.
     bindr (f (ctx_handle me) count offset flags (world s)) (\<lambda>(r, w). Inr (r, s\<lparr>world := w\<rparr>))))"

definition lwnbd_zero ::
  "('c, 'w) lwnbd \<Rightarrow> 'a lwnbd_context_scheme \<Rightarrow> u32 \<Rightarrow> u64 \<Rightarrow> u32 \<Rightarrow> (int \<times> ('c, 'w) lwnbd) result" where
  "lwnbd_zero s me count offset flags =
     bindr (plugin_of s me) (\<lambda>p.
     bindr (callp (pl_zero p)) (\<lambda>f.
     bindr (f (ctx_handle me) count offset flags (world s)) (\<lambda>(r, w). Inr (r, s\<lparr>world := w\<rparr>))))"

text \<open>\<open>me\<close> is an entry of the pool here.  The \<^verbatim>\<open>int64_t\<close> size is returned as an \<^verbatim>\<open>int\<close>: its low 32 bits.\<close>

definition lwnbd_update_size :: "('c, 'w) lwnbd \<Rightarrow> nat \<Rightarrow> (int \<times> ('c, 'w) lwnbd) result" where
  "lwnbd_update_size s me =
     bindr (plugin_of s (contexts s ! me)) (\<lambda>p.
     bindr (callp (pl_get_size p)) (\<lambda>f.
     bindr (f (ctx_handle (contexts s ! me)) (world s)) (\<lambda>(sz, w).
     Inr (sint (ucast sz :: u32),
          s\<lparr>contexts := (contexts s)[me := (contexts s ! me)\<lparr>ctx_exportsize := sz\<rparr>], world := w\<rparr>))))"

section \<open>The pool\<close>

definition lwnbd_new_context :: "('c, 'w) lwnbd \<Rightarrow> nat option \<times> ('c, 'w) lwnbd" where
  "lwnbd_new_context s =
     (let i = find_slot (\<lambda>st. st = CONTEXT_FREE) (contexts_status s)
      in if i = MAX_CONTEXTS then (None, s)
         else (Some i, s\<lparr>contexts_status := (contexts_status s)[i := CONTEXT_CREATED]\<rparr>))"

definition lwnbd_contexts_count :: "('c, 'w) lwnbd \<Rightarrow> nat" where
  "lwnbd_contexts_count s = find_slot (\<lambda>st. st = CONTEXT_FREE) (contexts_status s)"

definition lwnbd_get_context_i :: "('c, 'w) lwnbd \<Rightarrow> nat \<Rightarrow> lwnbd_context" where
  "lwnbd_get_context_i s i = contexts s ! i"

text \<open>\<^verbatim>\<open>for (i = 0; i < lwnbd_contexts_count(); i++)\<close> with \<open>n\<close> iterations left; the index is an
  \<^verbatim>\<open>uint8_t\<close>, which the 50 contexts do not exhaust.\<close>

fun search_context :: "('c, 'w) lwnbd \<Rightarrow> string \<Rightarrow> nat \<Rightarrow> nat \<Rightarrow> nat option" where
  "search_context s contextname i 0 = None"
| "search_context s contextname i (Suc n) =
     (if strncmp_eq 32 (ctx_name (lwnbd_get_context_i s i)) contextname then Some i
      else search_context s contextname (Suc i) n)"

definition lwnbd_get_context_string :: "('c, 'w) lwnbd \<Rightarrow> string \<Rightarrow> nat option" where
  "lwnbd_get_context_string s contextname = search_context s contextname 0 (lwnbd_contexts_count s)"

text \<open>\<^verbatim>\<open>"%-32s: %s\n"\<close>; the count returned is one more than the characters printed.\<close>

definition dump_line :: "lwnbd_context \<Rightarrow> string" where
  "dump_line c = ctx_name c @ replicate (32 - length (ctx_name c)) CHR '' '' @ '': ''
                 @ ctx_description c @ [CHR 0x0A]"

definition lwnbd_dump_contexts :: "('c, 'w) lwnbd \<Rightarrow> int \<times> string" where
  "lwnbd_dump_contexts s =
     (let t = concat (map (\<lambda>i. if contexts_status s ! i \<noteq> CONTEXT_FREE
                               then dump_line (contexts s ! i) else []) [0..<MAX_CONTEXTS])
      in (int (length t) + 1, t))"

section \<open>Well-formed states\<close>

definition wf_context :: "('c, 'w) lwnbd \<Rightarrow> lwnbd_context \<Rightarrow> bool" where
  "wf_context s c \<longleftrightarrow> length (ctx_name c) < 32 \<and> length (ctx_description c) < 64
     \<and> (case ctx_p c of None \<Rightarrow> True
        | Some k \<Rightarrow> k < MAX_NUM_PLUGINS \<and> plugins_status s ! k = PLUGIN_CREATED)"

definition wf_lwnbd :: "('c, 'w) lwnbd \<Rightarrow> bool" where
  "wf_lwnbd s \<longleftrightarrow>
     length (contexts s) = MAX_CONTEXTS \<and> length (contexts_status s) = MAX_CONTEXTS
     \<and> length (plugins s) = MAX_NUM_PLUGINS \<and> length (plugins_status s) = MAX_NUM_PLUGINS
     \<and> (\<forall>c \<in> set (contexts s). wf_context s c)
     \<and> (\<forall>k < MAX_NUM_PLUGINS. plugins_status s ! k = PLUGIN_CREATED \<longrightarrow>
          (\<exists>p f. plugins s ! k = Some p \<and> pl_pread p = Some f))"

lemma wf_lengths:
  assumes "wf_lwnbd s"
  shows "length (contexts s) = MAX_CONTEXTS" and "length (contexts_status s) = MAX_CONTEXTS"
    and "length (plugins s) = MAX_NUM_PLUGINS" and "length (plugins_status s) = MAX_NUM_PLUGINS"
  using assms by (simp_all add: wf_lwnbd_def)

lemma wf_init: "wf_lwnbd (lwnbd_init w)"
  by (simp add: wf_lwnbd_def lwnbd_init_def wf_context_def zero_context_def)

lemma wf_context_nth: "wf_lwnbd s \<Longrightarrow> i < MAX_CONTEXTS \<Longrightarrow> wf_context s (contexts s ! i)"
  by (simp add: wf_lwnbd_def)

lemma wf_context_same [simp]:
  "wf_context (s\<lparr>world := w\<rparr>) c = wf_context s c"
  "wf_context (s\<lparr>contexts := cs\<rparr>) c = wf_context s c"
  "wf_context (s\<lparr>contexts_status := st\<rparr>) c = wf_context s c"
  by (simp_all add: wf_context_def cong: option.case_cong)

lemma wf_world [simp]: "wf_lwnbd (s\<lparr>world := w\<rparr>) = wf_lwnbd s"
  by (simp add: wf_lwnbd_def)

lemma wf_contexts_status [simp]:
  "length st = MAX_CONTEXTS \<Longrightarrow> length (contexts_status s) = MAX_CONTEXTS \<Longrightarrow>
   wf_lwnbd (s\<lparr>contexts_status := st\<rparr>) = wf_lwnbd s"
  by (simp add: wf_lwnbd_def)

lemma wf_update_context:
  assumes "wf_lwnbd s" and "wf_context s c"
  shows "wf_lwnbd (s\<lparr>contexts := (contexts s)[i := c]\<rparr>)"
proof -
  have "set ((contexts s)[i := c]) \<subseteq> insert c (set (contexts s))" by (rule set_update_subset_insert)
  then show ?thesis using assms by (auto simp: wf_lwnbd_def)
qed

text \<open>The calls through a context only change the state of the plugins.\<close>

lemma lwnbd_pread_frame: "lwnbd_pread s me n off fl = Inr (r, d, s') \<Longrightarrow> \<exists>w. s' = s\<lparr>world := w\<rparr>"
  by (auto simp: lwnbd_pread_def bindr_Inr_iff)

lemma lwnbd_pwrite_frame: "lwnbd_pwrite s me b n off fl = Inr (r, s') \<Longrightarrow> \<exists>w. s' = s\<lparr>world := w\<rparr>"
  by (auto simp: lwnbd_pwrite_def bindr_Inr_iff)

lemma lwnbd_flush_frame: "lwnbd_flush s me fl = Inr (r, s') \<Longrightarrow> \<exists>w. s' = s\<lparr>world := w\<rparr>"
  by (auto simp: lwnbd_flush_def bindr_Inr_iff)

lemma lwnbd_update_size_wf:
  assumes "wf_lwnbd s" and "me < MAX_CONTEXTS" and "lwnbd_update_size s me = Inr (r, s')"
  shows "wf_lwnbd s'"
proof -
  obtain sz w where s': "s' = s\<lparr>contexts := (contexts s)[me := (contexts s ! me)\<lparr>ctx_exportsize := sz\<rparr>]\<rparr>\<lparr>world := w\<rparr>"
    using assms(3) by (auto simp: lwnbd_update_size_def bindr_Inr_iff)
  have "wf_context s ((contexts s ! me)\<lparr>ctx_exportsize := sz\<rparr>)"
    using wf_context_nth [OF assms(1,2)] by (simp add: wf_context_def)
  then show ?thesis using wf_update_context [OF assms(1)] s' by simp
qed

text \<open>A well-formed context that has a plugin can always be read from.\<close>

lemma lwnbd_pread_callable:
  assumes "wf_lwnbd s" and "wf_context s c" and "ctx_p c = Some k"
  obtains p f where "plugin_of s c = Inr p" and "pl_pread p = Some f"
proof -
  have "k < MAX_NUM_PLUGINS" "plugins_status s ! k = PLUGIN_CREATED"
    using assms(2,3) by (simp_all add: wf_context_def)
  then show ?thesis using assms(1,3) that by (force simp: wf_lwnbd_def plugin_of_def)
qed

section \<open>The pool as a slot table\<close>

lemma new_context_wf:
  assumes "wf_lwnbd s" and "lwnbd_new_context s = (r, s')"
  shows "wf_lwnbd s'"
  using assms wf_lengths [OF assms(1)]
  by (auto simp: lwnbd_new_context_def Let_def split: if_splits)

interpretation ctxpool: slot_pool MAX_CONTEXTS
  "\<lambda>s i. contexts_status s ! i = CONTEXT_FREE" wf_lwnbd
  "lwnbd_new_context :: ('c, 'w) lwnbd \<Rightarrow> nat option \<times> ('c, 'w) lwnbd"
proof
  fix s s' :: "('c, 'w) lwnbd" and i j :: nat
  let ?free = "\<lambda>st. st = CONTEXT_FREE"
  let ?n = "find_slot ?free (contexts_status s)"
  assume wf: "wf_lwnbd s"
  note len = wf_lengths(2) [OF wf] and le = find_slot_le [of ?free "contexts_status s"]
  show "lwnbd_new_context s = (None, s') \<Longrightarrow> i < MAX_CONTEXTS \<Longrightarrow> contexts_status s ! i \<noteq> CONTEXT_FREE"
    using find_slot_full [of ?free "contexts_status s"] len
    by (auto simp: lwnbd_new_context_def Let_def split: if_splits)
  show "lwnbd_new_context s = (Some i, s') \<Longrightarrow> i < MAX_CONTEXTS \<and> contexts_status s ! i = CONTEXT_FREE"
    using find_slot_free [of ?free "contexts_status s"] le len
    by (auto simp: lwnbd_new_context_def Let_def split: if_splits)
  show "lwnbd_new_context s = (Some i, s') \<Longrightarrow> j < i \<Longrightarrow> contexts_status s ! j \<noteq> CONTEXT_FREE"
    using find_slot_before [of j ?free "contexts_status s"]
    by (auto simp: lwnbd_new_context_def Let_def split: if_splits)
  show "lwnbd_new_context s = (Some i, s') \<Longrightarrow> j < MAX_CONTEXTS \<Longrightarrow>
      contexts_status s' ! j = CONTEXT_FREE \<longleftrightarrow> contexts_status s ! j = CONTEXT_FREE \<and> j \<noteq> i"
    using len le by (cases "j = i") (auto simp: lwnbd_new_context_def Let_def split: if_splits)
  show "lwnbd_new_context s = (Some i, s') \<Longrightarrow> wf_lwnbd s'"
    using new_context_wf wf by blast
qed

lemma dense_init: "ctxpool.dense 0 (lwnbd_init w)"
  by (simp add: ctxpool.dense_def lwnbd_init_def)

lemma contexts_count_dense:
  "wf_lwnbd s \<Longrightarrow> ctxpool.dense k s \<Longrightarrow> lwnbd_contexts_count s = k"
  unfolding lwnbd_contexts_count_def
  by (rule find_slot_eqI) (auto simp: ctxpool.dense_def wf_lengths)

lemma new_context_frame:
  "lwnbd_new_context s = (r, s') \<Longrightarrow>
     contexts s' = contexts s \<and> plugins s' = plugins s \<and> plugins_status s' = plugins_status s
     \<and> world s' = world s"
  by (auto simp: lwnbd_new_context_def Let_def split: if_splits)

section \<open>The search by name\<close>

lemma search_context_sound:
  "search_context s nm i n = Some j \<Longrightarrow>
   i \<le> j \<and> j < i + n \<and> strncmp_eq 32 (ctx_name (contexts s ! j)) nm
   \<and> (\<forall>k. i \<le> k \<and> k < j \<longrightarrow> \<not> strncmp_eq 32 (ctx_name (contexts s ! k)) nm)"
proof (induction n arbitrary: i)
  case (Suc n)
  show ?case
  proof (cases "strncmp_eq 32 (ctx_name (contexts s ! i)) nm")
    case True
    with Suc.prems have "j = i" by (simp add: lwnbd_get_context_i_def)
    with True show ?thesis by auto
  next
    case False
    with Suc.prems have "search_context s nm (Suc i) n = Some j" by (simp add: lwnbd_get_context_i_def)
    note ih = Suc.IH [OF this]
    have "\<not> strncmp_eq 32 (ctx_name (contexts s ! k)) nm" if "i \<le> k" "k < j" for k
      using ih False that by (cases "k = i") simp_all
    with ih show ?thesis by simp
  qed
qed simp

lemma search_context_None:
  "search_context s nm i n = None \<longleftrightarrow>
   (\<forall>k \<in> {i..<i + n}. \<not> strncmp_eq 32 (ctx_name (contexts s ! k)) nm)"
proof (induction n arbitrary: i)
  case (Suc n)
  have "{i..<i + Suc n} = insert i {Suc i..<Suc i + n}" by auto
  then show ?case using Suc.IH [of "Suc i"] by (simp add: lwnbd_get_context_i_def)
qed simp

section \<open>Properties of the pool\<close>

text \<open>
  \<^verbatim>\<open>lwnbd_new_context\<close> returns the first free context of the pool and marks it, and changes
  nothing else; it returns NULL exactly when all 50 contexts are in use, and then changes nothing.
\<close>

theorem new_context_first_free:
  assumes "wf_lwnbd s"
  shows "case lwnbd_new_context s of
      (None, s') \<Rightarrow> s' = s \<and> (\<forall>i < MAX_CONTEXTS. contexts_status s ! i = CONTEXT_CREATED)
    | (Some i, s') \<Rightarrow> i < MAX_CONTEXTS \<and> contexts_status s ! i = CONTEXT_FREE
        \<and> (\<forall>j < i. contexts_status s ! j = CONTEXT_CREATED)
        \<and> s' = s\<lparr>contexts_status := (contexts_status s)[i := CONTEXT_CREATED]\<rparr> \<and> wf_lwnbd s'"
proof -
  have created: "st = CONTEXT_CREATED" if "st \<noteq> CONTEXT_FREE" for st
    using that by (cases st) simp_all
  obtain r s' where r: "lwnbd_new_context s = (r, s')" by fastforce
  show ?thesis
  proof (cases r)
    case None
    have "s' = s" using r None by (auto simp: lwnbd_new_context_def Let_def split: if_splits)
    then show ?thesis
      using r None created ctxpool.alloc_None [OF assms] by auto
  next
    case (Some i)
    have "s' = s\<lparr>contexts_status := (contexts_status s)[i := CONTEXT_CREATED]\<rparr>"
      using r Some by (auto simp: lwnbd_new_context_def Let_def split: if_splits)
    then show ?thesis
      using r Some created ctxpool.alloc_Some [OF assms] ctxpool.alloc_first [OF assms]
        ctxpool.alloc_inv [OF assms] by auto
  qed
qed

theorem new_context_first_free_witness:
  "wf_lwnbd (lwnbd_init () :: (unit, unit) lwnbd) \<and>
   (case lwnbd_new_context (lwnbd_init () :: (unit, unit) lwnbd) of
      (None, s') \<Rightarrow> False
    | (Some i, s') \<Rightarrow> i = 0 \<and> contexts_status s' ! 0 = CONTEXT_CREATED \<and> wf_lwnbd s')"
proof -
  let ?s = "lwnbd_init () :: (unit, unit) lwnbd"
  have "fst (lwnbd_new_context ?s) = Some 0"
    by (simp add: lwnbd_new_context_def lwnbd_init_def MAX_CONTEXTS_def find_slot_def numeral_eq_Suc)
  with new_context_first_free [of ?s, OF wf_init] wf_init [where w = "()"]
  show ?thesis
    by (auto simp: lwnbd_init_def MAX_CONTEXTS_def split: prod.splits option.splits)
qed

text \<open>
  \<^verbatim>\<open>lwnbd_get_context_string\<close> finds the first context in use whose name is exactly the string it
  is given, and returns NULL exactly when there is none: the comparison of 32 characters is an
  equality of names, because a name of a well-formed pool is shorter than 32.
\<close>

theorem get_context_string_correct:
  assumes "wf_lwnbd s"
  shows "case lwnbd_get_context_string s nm of
      None \<Rightarrow> \<forall>i < lwnbd_contexts_count s. ctx_name (contexts s ! i) \<noteq> nm
    | Some i \<Rightarrow> i < lwnbd_contexts_count s \<and> contexts_status s ! i = CONTEXT_CREATED
        \<and> ctx_name (contexts s ! i) = nm \<and> (\<forall>j < i. ctx_name (contexts s ! j) \<noteq> nm)"
proof -
  let ?n = "lwnbd_contexts_count s"
  have n: "?n \<le> MAX_CONTEXTS"
    using find_slot_le wf_lengths(2) [OF assms] unfolding lwnbd_contexts_count_def by metis
  have eq: "strncmp_eq 32 (ctx_name (contexts s ! i)) nm = (ctx_name (contexts s ! i) = nm)"
    if "i < ?n" for i
    using wf_context_nth [OF assms, of i] that n by (simp add: wf_context_def strncmp_eq_short)
  show ?thesis
  proof (cases "lwnbd_get_context_string s nm")
    case None
    then show ?thesis using search_context_None [of s nm 0 ?n] eq
      by (simp add: lwnbd_get_context_string_def)
  next
    case (Some i)
    then have i: "i < ?n" "ctx_name (contexts s ! i) = nm"
      "\<forall>j < i. ctx_name (contexts s ! j) \<noteq> nm"
      using search_context_sound [of s nm 0 ?n i] eq
      by (auto simp: lwnbd_get_context_string_def)
    have "contexts_status s ! i \<noteq> CONTEXT_FREE"
      using i(1) find_slot_before unfolding lwnbd_contexts_count_def by metis
    then have "contexts_status s ! i = CONTEXT_CREATED" by (cases "contexts_status s ! i") simp_all
    with Some i show ?thesis by simp
  qed
qed

theorem get_context_string_correct_witness:
  "\<exists>s :: (unit, unit) lwnbd. wf_lwnbd s \<and> lwnbd_get_context_string s [] = Some 0
     \<and> ctx_name (contexts s ! 0) = []"
proof -
  let ?s = "snd (lwnbd_new_context (lwnbd_init () :: (unit, unit) lwnbd))"
  have wf: "wf_lwnbd ?s" using new_context_wf [OF wf_init] by (metis prod.collapse)
  have g: "lwnbd_get_context_string ?s [] = Some 0"
    by (simp add: lwnbd_get_context_string_def lwnbd_contexts_count_def lwnbd_new_context_def
        lwnbd_init_def MAX_CONTEXTS_def find_slot_def numeral_eq_Suc strncmp_eq_def
        lwnbd_get_context_i_def zero_context_def)
  have "ctx_name (contexts ?s ! 0) = []"
    using get_context_string_correct [OF wf, of "[]"] unfolding g by simp
  with wf g show ?thesis by blast
qed

text \<open>\<open>n\<close> calls in a row.\<close>

primrec new_contexts :: "nat \<Rightarrow> ('c, 'w) lwnbd \<Rightarrow> nat option list \<times> ('c, 'w) lwnbd" where
  "new_contexts 0 s = ([], s)"
| "new_contexts (Suc n) s =
     (let (r, s') = lwnbd_new_context s; (rs, s'') = new_contexts n s' in (r # rs, s''))"

lemma new_contexts_alloc_n: "new_contexts n s = ctxpool.alloc_n n s"
  by (induction n arbitrary: s) simp_all

text \<open>
  The pool is handed out in order and never reclaimed: after \<open>n \<le> 50\<close> calls on the fresh pool the
  contexts are numbers 0 to \<open>n - 1\<close>, \<^verbatim>\<open>lwnbd_contexts_count\<close> says \<open>n\<close>, and the call after the fiftieth
  returns NULL.
\<close>

theorem contexts_in_order:
  fixes s :: "('c, 'w) lwnbd"
  assumes "n \<le> MAX_CONTEXTS" and "new_contexts n (lwnbd_init w) = (rs, s)"
  shows "rs = map Some [0..<n] \<and> lwnbd_contexts_count s = n \<and> wf_lwnbd s
    \<and> (n = MAX_CONTEXTS \<longrightarrow> fst (lwnbd_new_context s) = None)"
proof -
  have run: "ctxpool.alloc_n n (lwnbd_init w) = (rs, s)"
    using assms(2) by (simp add: new_contexts_alloc_n)
  have "rs = map Some [0..<n] \<and> ctxpool.dense n s \<and> wf_lwnbd s"
    using ctxpool.alloc_n_dense [of "lwnbd_init w :: ('c, 'w) lwnbd" 0 n, OF wf_init dense_init] run
      assms(1) by simp
  then show ?thesis using contexts_count_dense ctxpool.dense_full by blast
qed

theorem contexts_in_order_witness:
  "\<exists>rs s. new_contexts 3 (lwnbd_init () :: (unit, unit) lwnbd) = (rs, s) \<and> rs = [Some 0, Some 1, Some 2]
     \<and> lwnbd_contexts_count s = 3"
proof -
  obtain rs and s :: "(unit, unit) lwnbd" where r: "new_contexts 3 (lwnbd_init ()) = (rs, s)"
    by fastforce
  show ?thesis
    using contexts_in_order [OF _ r] r by (simp add: MAX_CONTEXTS_def upt_rec)
qed

end
