(* ===== verification/Contexts_Uri.thy ===== *)
theory Contexts_Uri
  imports Contexts Yuarel
begin

text \<open>
  The URI dispatcher \<^verbatim>\<open>src/contexts_uri.c\<close>: the path of a request names a context, and its query is
  handed to the plugin of that context.  The request is parsed in the buffer of the caller.
\<close>

section \<open>The code\<close>

definition MAX_QUERY :: int where "MAX_QUERY = 3"

text \<open>The parameters as the plugin finds them in the buffer.\<close>

definition query_of :: "byte list \<Rightarrow> yuarel_param \<Rightarrow> query_t" where
  "query_of buf p = \<lparr>q_key = cstr buf (p_key p), q_val = str_at buf (p_val p)\<rparr>"

text \<open>\<^verbatim>\<open>char *\<close> fields of the parsed URI that are passed on: NULL is dereferenced by \<^verbatim>\<open>strncmp\<close>.\<close>

definition lwnbd_get_context ::
  "('c, 'w) lwnbd \<Rightarrow> byte list \<Rightarrow> nat \<Rightarrow> (nat option \<times> byte list \<times> ('c, 'w) lwnbd) result" where
  "lwnbd_get_context s buf uri =
     (let (r, url, buf1) =
            yuarel_parse (Some \<lparr>url_path = None, url_query = None, url_fragment = None\<rparr>) (Some uri) buf
      in if r = - 1 then Inr (None, buf1, s)
         else bindr (deref url) (\<lambda>url.
              let (pa2, params, buf2) = yuarel_parse_query (url_query url) CHR ''&'' MAX_QUERY buf1
              in bindr (deref (url_path url)) (\<lambda>path.
                 case lwnbd_get_context_string s (cstr buf2 path) of
                   None \<Rightarrow> Inr (None, buf2, s)
                 | Some c \<Rightarrow>
                     bindr (plugin_of s (contexts s ! c)) (\<lambda>p.
                     bindr (case pl_query p of
                              None \<Rightarrow> Inr (0, world s)
                            | Some query \<Rightarrow> query (ctx_handle (contexts s ! c))
                                              (map (query_of buf2) params) pa2 (world s)) (\<lambda>(ret, w).
                     if ret \<noteq> 0 then Inr (None, buf2, s\<lparr>world := w\<rparr>)
                     else bindr (lwnbd_update_size (s\<lparr>world := w\<rparr>) c) (\<lambda>(_, s').
                          Inr (Some c, buf2, s')))))))"

text \<open>The variant of \<^verbatim>\<open>include/lwnbd/lwnbd.h\<close> for builds without the dispatcher.\<close>

definition lwnbd_get_context_inline :: "('c, 'w) lwnbd \<Rightarrow> byte list \<Rightarrow> nat \<Rightarrow> nat option" where
  "lwnbd_get_context_inline s buf uri = lwnbd_get_context_string s (cstr buf uri)"

section \<open>The path survives the parsing of the query\<close>

lemma parse_path_before_query:
  assumes "yuarel_parse (Some u0) (Some p) buf = (r, Some url, b)"
    and "url_path url = Some pa" and "url_query url = Some q"
  shows "pa + length (cstr b pa) < q" and "q \<le> length b"
proof -
  obtain f buf1 where f: "find_and_terminate p CHR ''#'' buf = (f, buf1)" by fastforce
  obtain q' buf2 where q': "find_and_terminate p CHR ''?'' buf1 = (q', buf2)" by fastforce
  obtain s buf3 where s: "find_and_terminate p CHR ''/'' buf2 = (s, buf3)" by fastforce
  have eq: "pa = (case s of None \<Rightarrow> p | Some s \<Rightarrow> s)" "q' = Some q" "b = buf3"
    using assms f q' s
    by (auto simp: yuarel_parse_def find_fragment_def find_query_def find_path_def split: option.splits)
  note Q = find_and_terminate_spec [OF q'] and S = find_and_terminate_spec [OF s]
  have q: "q = Suc (p + length (cstr buf2 p))" "q \<le> p + length (cstr buf1 p)" "p < q"
    using Q(4) [OF eq(2)] by auto
  have cut: "cut CHR ''/'' (cstr buf2 p) = (cstr buf3 p, str_at buf3 s)" using S(1) by simp
  show "pa + length (cstr b pa) < q"
  proof (cases s)
    case None
    have "length (cstr buf3 p) \<le> length (cstr buf2 p)" using cut by (metis fst_conv length_cut_fst)
    then show ?thesis using eq None q(1) by simp
  next
    case (Some s')
    have "Suc (length (cstr buf3 p) + length (cstr buf3 s')) = length (cstr buf2 p)"
      using cut Some length_cut_parts by (metis str_at_def option.map(2))
    moreover have "s' = Suc (p + length (cstr buf3 p))" using S(4) [OF Some] by auto
    ultimately show ?thesis using eq Some q(1) by simp
  qed
  have "q \<le> max p (length buf1)" using q(2) cstr_length [of p buf1] by linarith
  moreover have "p < length buf1"
  proof (rule ccontr)
    assume "\<not> p < length buf1"
    then have "cstr buf1 p = []" by (simp add: cstr_def)
    then show False using q by simp
  qed
  ultimately show "q \<le> length b" using eq(3) Q(3) S(3) by simp
qed

lemma parse_query_path:
  assumes "yuarel_parse (Some u0) (Some p) buf = (r, Some url, b1)"
    and "yuarel_parse_query (url_query url) d n b1 = (k, ps, b2)"
  shows "str_at b2 (url_path url) = Some (uri_path (cstr buf p))"
proof -
  have path: "str_at b1 (url_path url) = Some (uri_path (cstr buf p))"
    using yuarel_parse_spec [of u0 p buf] assms(1) by auto
  then obtain pa where pa: "url_path url = Some pa" by (auto simp: str_at_def)
  show ?thesis
  proof (cases "url_query url")
    case None
    then show ?thesis using path assms(2) by (simp add: yuarel_parse_query_def)
  next
    case (Some q)
    note fr = parse_path_before_query [OF assms(1) pa Some]
    have "take q b2 = take q b1"
      using assms(2) Some query_loop_frame
      by (auto simp: yuarel_parse_query_def split: if_splits prod.splits)
    then have "cstr b2 pa = cstr b1 pa" using fr by (intro cstr_frame [of q]) auto
    then show ?thesis using path pa by (simp add: str_at_def)
  qed
qed

section \<open>The dispatcher on strings\<close>

text \<open>The parameters of a query, as the plugin gets them; without a query it gets the count \<open>-1\<close>.\<close>

definition query_params :: "string option \<Rightarrow> query_t list \<times> int" where
  "query_params q =
     (case q of
        Some (x # xs) \<Rightarrow>
          (let ps = split_query 2 CHR ''&'' (x # xs)
           in (map (\<lambda>(k, v). \<lparr>q_key = k, q_val = v\<rparr>) ps, int (length ps)))
      | _ \<Rightarrow> ([], - 1))"

definition uri_dispatch ::
  "('c, 'w) lwnbd \<Rightarrow> string \<Rightarrow> (nat option \<times> ('c, 'w) lwnbd) result" where
  "uri_dispatch s uri =
     (case lwnbd_get_context_string s (uri_path uri) of
        None \<Rightarrow> Inr (None, s)
      | Some c \<Rightarrow>
          bindr (plugin_of s (contexts s ! c)) (\<lambda>p.
          bindr (case (pl_query p, query_params (uri_query uri)) of
                   (None, _) \<Rightarrow> Inr (0, world s)
                 | (Some query, ps, n) \<Rightarrow> query (ctx_handle (contexts s ! c)) ps n (world s)) (\<lambda>(ret, w).
          if ret \<noteq> 0 then Inr (None, s\<lparr>world := w\<rparr>)
          else bindr (lwnbd_update_size (s\<lparr>world := w\<rparr>) c) (\<lambda>(_, s'). Inr (Some c, s')))))"

lemma query_of_param_at: "query_of buf p = (\<lambda>(k, v). \<lparr>q_key = k, q_val = v\<rparr>) (param_at buf p)"
  by (simp add: query_of_def param_at_def)

lemma parse_query_params:
  assumes "yuarel_parse_query q CHR ''&'' MAX_QUERY buf = (n, ps, buf')"
  shows "query_params (str_at buf q) = (map (query_of buf') ps, n)"
proof (cases "str_at buf q")
  case None
  then show ?thesis using assms by (auto simp: str_at_def yuarel_parse_query_def query_params_def)
next
  case (Some s)
  then obtain a where a: "q = Some a" "cstr buf a = s" by (auto simp: str_at_def)
  show ?thesis
  proof (cases s)
    case Nil
    then show ?thesis using assms a Some by (simp add: yuarel_parse_query_def query_params_def)
  next
    case (Cons x xs)
    have two: "nat (MAX_QUERY - 1) = 2" by (simp add: MAX_QUERY_def)
    have ps: "query_loop 2 CHR ''&'' a buf = (ps, buf')" and n: "n = int (length ps)"
      using assms a Cons two by (auto simp: yuarel_parse_query_def split: prod.splits)
    have "map (param_at buf') ps = split_query 2 CHR ''&'' s"
      using query_loop_spec [OF ps] a by (simp add: NUL_def)
    then have "split_query 2 CHR ''&'' (x # xs) = map (param_at buf') ps" using Cons by simp
    then show ?thesis using Some Cons n
      by (simp add: query_params_def query_of_param_at comp_def)
  qed
qed

lemma dispatch_on_strings:
  "bindr (lwnbd_get_context s buf uri) (\<lambda>(r, _, s'). Inr (r, s')) = uri_dispatch s (cstr buf uri)"
proof -
  let ?u0 = "\<lparr>url_path = None, url_query = None, url_fragment = None\<rparr>"
  obtain url b1 where parse: "yuarel_parse (Some ?u0) (Some uri) buf = (0, Some url, b1)"
    and query: "str_at b1 (url_query url) = uri_query (cstr buf uri)"
    and path: "str_at b1 (url_path url) = Some (uri_path (cstr buf uri))"
    using yuarel_parse_spec by metis
  obtain n ps b2 where pq: "yuarel_parse_query (url_query url) CHR ''&'' MAX_QUERY b1 = (n, ps, b2)"
    by (metis prod.exhaust)
  obtain pa where pa: "url_path url = Some pa" "cstr b2 pa = uri_path (cstr buf uri)"
    using parse_query_path [OF parse pq] by (auto simp: str_at_def)
  note qp = parse_query_params [OF pq, unfolded query]
  show ?thesis
    by (auto simp: lwnbd_get_context_def uri_dispatch_def parse pq pa qp bindr_def
        split: option.splits sum.splits)
qed

text \<open>The parsing overwrites separators in the buffer and keeps its size.\<close>

lemma find_and_terminate_length: "find_and_terminate p c buf = (r, b) \<Longrightarrow> length b = length buf"
  by (rule find_and_terminate_spec(3))

lemma yuarel_parse_length:
  "yuarel_parse url u buf = (r, url', b) \<Longrightarrow> length b = length buf"
  by (auto simp: yuarel_parse_def find_fragment_def find_query_def find_path_def Let_def
      split: option.splits prod.splits dest!: find_and_terminate_length)

lemma yuarel_parse_query_length:
  "yuarel_parse_query q d n buf = (r, ps, b) \<Longrightarrow> length b = length buf"
  by (auto simp: yuarel_parse_query_def split: option.splits if_splits prod.splits dest: query_loop_frame)

lemma get_context_length:
  assumes "lwnbd_get_context s buf uri = Inr (c, b, s')"
  shows "length b = length buf"
proof -
  obtain r url b1 where p: "yuarel_parse (Some \<lparr>url_path = None, url_query = None, url_fragment = None\<rparr>) (Some uri) buf
      = (r, url, b1)" by (metis prod_cases3)
  obtain n ps b2 where q: "yuarel_parse_query (url_query (the url)) CHR ''&'' MAX_QUERY b1 = (n, ps, b2)"
    by (metis prod_cases3)
  have "b = b1 \<or> b = b2"
    using assms p q by (auto simp: lwnbd_get_context_def bindr_Inr_iff deref_def split: if_splits option.splits prod.splits)
  then show ?thesis using yuarel_parse_length [OF p] yuarel_parse_query_length [OF q] by auto
qed

text \<open>
  C6.  The dispatcher finds the context named by the path of the URI, hands the parameters of its
  query (at most three) to the query callback of the plugin, gives NULL when there is no such
  context or the callback refuses, and otherwise refreshes the size of the context: the code, which
  cuts the URI up in the buffer of the caller, computes what the specification says on strings, and
  faults exactly when it does (a context that has no plugin, a plugin without \<^verbatim>\<open>get_size\<close>).
\<close>

theorem get_context_dispatches:
  "bindr (lwnbd_get_context s buf uri) (\<lambda>(r, _, s'). Inr (r, s')) = uri_dispatch s (cstr buf uri)"
  by (rule dispatch_on_strings)

end
