(* ===== verification/Plugins.thy ===== *)
theory Plugins
  imports Contexts
begin

text \<open>
  The plugin registry \<^verbatim>\<open>src/plugins.c\<close>: loading a plugin, making a context from it, configuring it.
  What the registry relies on in a plugin is the locale \<open>content_plugin\<close>; the theories of the
  plugins interpret it.
\<close>

section \<open>The code\<close>

text \<open>\<^verbatim>\<open>return -1\<close> from a function of type \<^verbatim>\<open>lwnbd_plugin_h\<close>, an unsigned 32-bit number.\<close>

definition plugin_err :: u32 where "plugin_err = 0xFFFFFFFF"

lemma of_nat_not_plugin_err: "i < MAX_NUM_PLUGINS \<Longrightarrow> of_nat i \<noteq> plugin_err"
proof
  assume i: "i < MAX_NUM_PLUGINS" and eq: "of_nat i = plugin_err"
  have "unat (of_nat i :: u32) = i" using i by (simp add: MAX_NUM_PLUGINS_def unat_of_nat)
  moreover have "unat plugin_err = 4294967295" by (simp add: plugin_err_def)
  ultimately show False using i eq by (simp add: MAX_NUM_PLUGINS_def)
qed

text \<open>
  Writing the context of a plugin that exports without a handle (the \<^verbatim>\<open>if\<close> at the end of
  \<^verbatim>\<open>lwnbd_plugin_init\<close>): a full pool is reported on the log and then dereferenced.
\<close>

definition export_api :: "('c, 'w) lwnbd \<Rightarrow> nat \<Rightarrow> ('c, 'w) lwnbd_plugin_t \<Rightarrow> ('c, 'w) lwnbd result" where
  "export_api s i p =
     (case lwnbd_new_context s of
        (None, s1) \<Rightarrow> Inl Null_Deref
      | (Some c, s1) \<Rightarrow>
          bindr (strcpy_field 64 (pl_longname p)) (\<lambda>d.
          Inr (s1\<lparr>contexts := (contexts s1)[c := (contexts s1 ! c)
                 \<lparr>ctx_handle := None, ctx_description := d, ctx_name := ''api'', ctx_p := Some i\<rparr>]\<rparr>)))"

text \<open>\<open>init\<close> is what the registration function of the plugin returns, \<open>None\<close> for NULL.\<close>

definition lwnbd_plugin_init ::
  "('c, 'w) lwnbd \<Rightarrow> ('c, 'w) lwnbd_plugin_t option \<Rightarrow> (u32 \<times> ('c, 'w) lwnbd) result" where
  "lwnbd_plugin_init s init =
     (let i = find_slot (\<lambda>st. st = PLUGIN_FREE) (plugins_status s)
      in if i = MAX_NUM_PLUGINS then Inr (plugin_err, s)
         else (case init of
                 None \<Rightarrow> Inr (plugin_err, s)
               | Some p \<Rightarrow>
                   if pl_pread p = None then Inr (plugin_err, s)
                   else bindr (case pl_load p of None \<Rightarrow> Inr (world s) | Some load \<Rightarrow> load (world s)) (\<lambda>w.
                     let s1 = s\<lparr>world := w, plugins := (plugins s)[i := Some p],
                               plugins_status := (plugins_status s)[i := PLUGIN_CREATED]\<rparr>
                     in bindr (if pl_export_without_handle p = 1 then export_api s1 i p else Inr s1) (\<lambda>s2.
                        Inr (of_nat i, s2)))))"

text \<open>\<^verbatim>\<open>plugins[plugin]\<close>: the handle is not checked against the size of the array.\<close>

definition plugin_at :: "('c, 'w) lwnbd \<Rightarrow> u32 \<Rightarrow> ('c, 'w) lwnbd_plugin_t result" where
  "plugin_at s h =
     (if unat h < MAX_NUM_PLUGINS then deref (plugins s ! unat h) else Inl Out_Of_Bounds)"

definition lwnbd_plugin_new :: "('c, 'w) lwnbd \<Rightarrow> u32 \<Rightarrow> 'c \<Rightarrow> (int \<times> ('c, 'w) lwnbd) result" where
  "lwnbd_plugin_new s h pconfig =
     bindr (plugin_at s h) (\<lambda>p.
     case pl_ctor p of
       None \<Rightarrow> Inr (- 1, s)
     | Some ctor \<Rightarrow>
         if pl_export_without_handle p = 1 then
           bindr (ctor pconfig None (world s)) (\<lambda>(r, _, w).
           Inr (if r \<noteq> 0 then - 1 else 0, s\<lparr>world := w\<rparr>))
         else
           (case lwnbd_new_context s of
              (None, s1) \<Rightarrow> Inl Null_Deref
            | (Some i, s1) \<Rightarrow>
                bindr (ctor pconfig (Some ((contexts s1 ! i)\<lparr>ctx_description := []\<rparr>)) (world s1)) (\<lambda>(r, c, w).
                let c1 = (case c of None \<Rightarrow> contexts s1 ! i | Some c' \<Rightarrow> c');
                    s2 = s1\<lparr>world := w, contexts := (contexts s1)[i := c1]\<rparr>
                in if r \<noteq> 0 then Inr (- 1, s2)
                   else let c2 = c1\<lparr>ctx_p := Some (unat h)\<rparr>
                        in bindr (if ctx_description c2 = [] then strcpy_field 64 (pl_longname p)
                                  else Inr (ctx_description c2)) (\<lambda>d.
                           Inr (0, s2\<lparr>contexts := (contexts s2)[i := c2\<lparr>ctx_description := d\<rparr>]\<rparr>)))))"

text \<open>
  \<^verbatim>\<open>while (pconfig != NULL) lwnbd_plugin_new(plugin, pconfig[i++]);\<close> tests the array and not its
  element, so it runs past the end of the array.
\<close>

fun news_loop :: "('c, 'w) lwnbd \<Rightarrow> u32 \<Rightarrow> 'c list \<Rightarrow> (int \<times> ('c, 'w) lwnbd) result" where
  "news_loop s h [] = Inl Out_Of_Bounds"
| "news_loop s h (c # cs) = bindr (lwnbd_plugin_new s h c) (\<lambda>(_, s'). news_loop s' h cs)"

definition lwnbd_plugin_news ::
  "('c, 'w) lwnbd \<Rightarrow> u32 \<Rightarrow> 'c list option \<Rightarrow> (int \<times> ('c, 'w) lwnbd) result" where
  "lwnbd_plugin_news s h pconfig =
     (case pconfig of None \<Rightarrow> Inr (0, s) | Some cs \<Rightarrow> news_loop s h cs)"

definition lwnbd_plugin_config ::
  "('c, 'w) lwnbd \<Rightarrow> u32 \<Rightarrow> string option \<Rightarrow> string \<Rightarrow> (int \<times> ('c, 'w) lwnbd) result" where
  "lwnbd_plugin_config s h key value =
     bindr (plugin_at s h) (\<lambda>p.
     case pl_config p of
       None \<Rightarrow> Inr (- 1, s)
     | Some config \<Rightarrow>
         (case (case key of Some k \<Rightarrow> Some k | None \<Rightarrow> pl_magic_config_key p) of
            None \<Rightarrow> Inr (- 1, s)
          | Some lkey \<Rightarrow>
              bindr (config lkey value (world s)) (\<lambda>(r, w).
              Inr (if r = - 1 then - 1 else 0, s\<lparr>world := w\<rparr>))))"

section \<open>What the registry relies on\<close>

text \<open>
  A plugin fits: its long name can be the description of a context, and its constructor keeps the strings
  of the context within their fields and leaves its plugin alone.
\<close>

locale content_plugin =
  fixes p :: "('c, 'w) lwnbd_plugin_t"
  assumes longname_fits: "length (pl_longname p) < 64"
    and ctor_fits: "pl_ctor p = Some ctor \<Longrightarrow> ctor cfg (Some c) w = Inr (r, Some c', w') \<Longrightarrow>
      length (ctx_name c) < 32 \<Longrightarrow> length (ctx_description c) < 64 \<Longrightarrow>
      length (ctx_name c') < 32 \<and> length (ctx_description c') < 64 \<and> ctx_p c' = ctx_p c"
begin

text \<open>Making a context from a registered plugin keeps the library well-formed.\<close>

lemma plugin_new_wf:
  assumes wf: "wf_lwnbd s" and h: "unat h < MAX_NUM_PLUGINS" "plugins s ! unat h = Some p"
    and cr: "plugins_status s ! unat h = PLUGIN_CREATED" and run: "lwnbd_plugin_new s h cfg = Inr (r, s')"
  shows "wf_lwnbd s' \<and> plugins s' = plugins s \<and> plugins_status s' = plugins_status s"
proof (cases "pl_ctor p")
  case None
  then show ?thesis using run wf h by (simp add: lwnbd_plugin_new_def plugin_at_def)
next
  case (Some ctor)
  show ?thesis
  proof (cases "pl_export_without_handle p = 1")
    case True
    then show ?thesis
      using run wf h Some by (auto simp: lwnbd_plugin_new_def plugin_at_def bindr_Inr_iff)
  next
    case False
    obtain i s1 where n: "lwnbd_new_context s = (Some i, s1)"
      using run h Some False
      by (cases "lwnbd_new_context s"; cases "fst (lwnbd_new_context s)") (auto simp: lwnbd_plugin_new_def plugin_at_def)
    note fr = new_context_frame [OF n]
    have wf1: "wf_lwnbd s1" by (rule new_context_wf [OF wf n])
    have i: "i < MAX_CONTEXTS" using ctxpool.alloc_Some [OF wf n] by simp
    let ?c0 = "(contexts s1 ! i)\<lparr>ctx_description := []\<rparr>"
    obtain r1 c w where c: "ctor cfg (Some ?c0) (world s1) = Inr (r1, c, w)"
      and rest: "(let c1 = (case c of None \<Rightarrow> contexts s1 ! i | Some c' \<Rightarrow> c');
          s2 = s1\<lparr>world := w, contexts := (contexts s1)[i := c1]\<rparr>
        in if r1 \<noteq> 0 then Inr (- 1, s2)
           else let c2 = c1\<lparr>ctx_p := Some (unat h)\<rparr>
                in bindr (if ctx_description c2 = [] then strcpy_field 64 (pl_longname p)
                          else Inr (ctx_description c2)) (\<lambda>d.
                   Inr (0, s2\<lparr>contexts := (contexts s2)[i := c2\<lparr>ctx_description := d\<rparr>]\<rparr>))) = Inr (r, s')"
      using run h Some False n by (auto simp: lwnbd_plugin_new_def plugin_at_def bindr_Inr_iff)
    define c1 where "c1 = (case c of None \<Rightarrow> contexts s1 ! i | Some c' \<Rightarrow> c')"
    have old: "wf_context s1 (contexts s1 ! i)" by (rule wf_context_nth [OF wf1 i])
    have new: "wf_context s1 c1"
      using old ctor_fits [OF Some, of cfg ?c0 "world s1" r1] c
      by (cases c) (auto simp: c1_def wf_context_def cong: option.case_cong)
    have st: "plugins_status s1 ! unat h = PLUGIN_CREATED" using fr cr by simp
    have up: "wf_lwnbd (s1\<lparr>world := w, contexts := (contexts s1)[i := c']\<rparr>)" if "wf_context s1 c'" for c'
      using wf_update_context [OF wf1 that, of i] by (simp add: wf_lwnbd_def)
    show ?thesis
    proof (cases "r1 = 0")
      case False
      then have "s' = s1\<lparr>world := w, contexts := (contexts s1)[i := c1]\<rparr>"
        using rest by (simp add: Let_def c1_def)
      then show ?thesis using up [OF new] fr by simp
    next
      case True
      then obtain d where d: "length d < 64"
        and s': "s' = s1\<lparr>world := w, contexts := (contexts s1)[i := c1\<lparr>ctx_p := Some (unat h), ctx_description := d\<rparr>]\<rparr>"
        using rest new longname_fits
        by (auto simp: Let_def c1_def [symmetric] bindr_Inr_iff wf_context_def split: if_split_asm)
      have "wf_context s1 (c1\<lparr>ctx_p := Some (unat h), ctx_description := d\<rparr>)"
        using new d st h(1) by (simp add: wf_context_def)
      then show ?thesis using up fr s' by simp
    qed
  qed
qed

end

section \<open>The registry as a slot table\<close>

lemma wf_register:
  assumes "wf_lwnbd s" and "i < MAX_NUM_PLUGINS" and "pl_pread p = Some f"
  shows "wf_lwnbd (s\<lparr>world := w, plugins := (plugins s)[i := Some p],
                      plugins_status := (plugins_status s)[i := PLUGIN_CREATED]\<rparr>)" (is "wf_lwnbd ?t")
proof -
  have "wf_context ?t c" if "wf_context s c" for c
    using that assms(1,2) by (auto simp: wf_context_def wf_lengths nth_list_update split: option.splits)
  then show ?thesis
    using assms unfolding wf_lwnbd_def by (auto simp: nth_list_update)
qed

text \<open>Registration of one plugin, seen as an allocation: which slot it took, if any.\<close>

definition register_slot ::
  "('c, 'w) lwnbd_plugin_t \<Rightarrow> plugin_state list \<Rightarrow> nat option \<times> plugin_state list" where
  "register_slot p st =
     (let i = find_slot (\<lambda>x. x = PLUGIN_FREE) st
      in if i = length st then (None, st) else (Some i, st[i := PLUGIN_CREATED]))"

interpretation regpool: slot_pool MAX_NUM_PLUGINS "\<lambda>st i. st ! i = PLUGIN_FREE"
  "\<lambda>st. length st = MAX_NUM_PLUGINS" "register_slot p"
  unfolding register_slot_def by (rule slot_pool_list) simp

lemma plugin_init_registers:
  assumes wf: "wf_lwnbd s" and run: "lwnbd_plugin_init s init = Inr (h, s')" and h: "h \<noteq> plugin_err"
  obtains i p f s1 where "register_slot p (plugins_status s) = (Some i, plugins_status s1)"
    and "i < MAX_NUM_PLUGINS" and "h = of_nat i" and "init = Some p" and "pl_pread p = Some f"
    and "wf_lwnbd s1" and "plugins s1 = (plugins s)[i := Some p]"
    and "contexts s1 = contexts s" and "contexts_status s1 = contexts_status s"
    and "(if pl_export_without_handle p = 1 then export_api s1 i p else Inr s1) = Inr s'"
proof -
  let ?i = "find_slot (\<lambda>st. st = PLUGIN_FREE) (plugins_status s)"
  have len: "length (plugins_status s) = MAX_NUM_PLUGINS" by (rule wf_lengths(4) [OF wf])
  have ne: "?i \<noteq> MAX_NUM_PLUGINS" using run h by (auto simp: lwnbd_plugin_init_def Let_def)
  then have i: "?i < MAX_NUM_PLUGINS" using find_slot_le len by (metis le_neq_implies_less)
  obtain p where p: "init = Some p" using run h ne by (cases init) (auto simp: lwnbd_plugin_init_def Let_def)
  obtain f where f: "pl_pread p = Some f"
    using run h ne p by (cases "pl_pread p") (auto simp: lwnbd_plugin_init_def Let_def)
  obtain w where w: "h = of_nat ?i"
    "(if pl_export_without_handle p = 1
      then export_api (s\<lparr>world := w, plugins := (plugins s)[?i := Some p],
             plugins_status := (plugins_status s)[?i := PLUGIN_CREATED]\<rparr>) ?i p
      else Inr (s\<lparr>world := w, plugins := (plugins s)[?i := Some p],
             plugins_status := (plugins_status s)[?i := PLUGIN_CREATED]\<rparr>)) = Inr s'"
    using run ne p f by (auto simp: lwnbd_plugin_init_def Let_def bindr_Inr_iff)
  show ?thesis
    by (rule that [OF _ i w(1) p f wf_register [OF wf i f, of w] _ _ _ w(2)])
       (use ne len in \<open>simp_all add: register_slot_def Let_def\<close>)
qed

lemma export_api_wf:
  assumes "wf_lwnbd s" and "i < MAX_NUM_PLUGINS" and "plugins_status s ! i = PLUGIN_CREATED"
    and "export_api s i p = Inr s'"
  shows "wf_lwnbd s' \<and> plugins s' = plugins s \<and> plugins_status s' = plugins_status s"
proof -
  obtain c s1 where n: "lwnbd_new_context s = (Some c, s1)" and l: "length (pl_longname p) < 64"
    and s': "s' = s1\<lparr>contexts := (contexts s1)[c := (contexts s1 ! c)
      \<lparr>ctx_handle := None, ctx_description := pl_longname p, ctx_name := ''api'', ctx_p := Some i\<rparr>]\<rparr>"
    using assms(4) by (auto simp: export_api_def bindr_Inr_iff split: prod.splits option.splits)
  note fr = new_context_frame [OF n]
  have "wf_lwnbd s1" by (rule new_context_wf [OF assms(1) n])
  moreover have "wf_context s1 ((contexts s1 ! c)
      \<lparr>ctx_handle := None, ctx_description := pl_longname p, ctx_name := ''api'', ctx_p := Some i\<rparr>)"
    using l fr assms(2,3) by (simp add: wf_context_def)
  ultimately have "wf_lwnbd s'" unfolding s' by (rule wf_update_context)
  then show ?thesis using s' fr by simp
qed

text \<open>
  \<^verbatim>\<open>lwnbd_plugin_init\<close>, when it returns, keeps the state well-formed.  Either it returns the
  index of the first free slot, which then holds the plugin, or it returns \<^verbatim>\<open>-1\<close> and changes
  nothing; it returns \<^verbatim>\<open>-1\<close> when the registry is full, the plugin is NULL or has no \<^verbatim>\<open>pread\<close>.
\<close>

theorem plugin_init_correct:
  assumes "wf_lwnbd s" and "lwnbd_plugin_init s init = Inr (h, s')"
  shows "wf_lwnbd s'
    \<and> (if h = plugin_err then s' = s
       else \<exists>i p. h = of_nat i \<and> i < MAX_NUM_PLUGINS \<and> init = Some p \<and> pl_pread p \<noteq> None
         \<and> plugins_status s ! i = PLUGIN_FREE \<and> (\<forall>j < i. plugins_status s ! j = PLUGIN_CREATED)
         \<and> plugins s' = (plugins s)[i := Some p]
         \<and> plugins_status s' = (plugins_status s)[i := PLUGIN_CREATED])"
proof (cases "h = plugin_err")
  case True
  have "find_slot (\<lambda>st. st = PLUGIN_FREE) (plugins_status s) < MAX_NUM_PLUGINS"
    if "find_slot (\<lambda>st. st = PLUGIN_FREE) (plugins_status s) \<noteq> MAX_NUM_PLUGINS"
    using that find_slot_le wf_lengths(4) [OF assms(1)] by (metis le_neq_implies_less)
  then have ne: "of_nat (find_slot (\<lambda>st. st = PLUGIN_FREE) (plugins_status s)) \<noteq> plugin_err"
    if "find_slot (\<lambda>st. st = PLUGIN_FREE) (plugins_status s) \<noteq> MAX_NUM_PLUGINS"
    using that of_nat_not_plugin_err by blast
  have "s' = s"
    using assms(2) True ne
    by (cases init; cases "find_slot (\<lambda>st. st = PLUGIN_FREE) (plugins_status s) = MAX_NUM_PLUGINS")
      (simp_all add: lwnbd_plugin_init_def Let_def bindr_Inr_iff split: if_split_asm)
  then show ?thesis using True assms(1) by simp
next
  case False
  obtain i p f s1 where r: "register_slot p (plugins_status s) = (Some i, plugins_status s1)"
    and i: "i < MAX_NUM_PLUGINS" "h = of_nat i" and p: "init = Some p" "pl_pread p = Some f"
    and s1: "wf_lwnbd s1" "plugins s1 = (plugins s)[i := Some p]"
    and s': "(if pl_export_without_handle p = 1 then export_api s1 i p else Inr s1) = Inr s'"
    using plugin_init_registers [OF assms False] by metis
  note len = wf_lengths(4) [OF assms(1)]
  have st: "plugins_status s1 = (plugins_status s)[i := PLUGIN_CREATED]"
    using r by (auto simp: register_slot_def Let_def split: if_splits)
  have cr: "plugins_status s1 ! i = PLUGIN_CREATED" using st len i(1) by simp
  have "wf_lwnbd s' \<and> plugins s' = plugins s1 \<and> plugins_status s' = plugins_status s1"
    using s' s1(1) export_api_wf [OF s1(1) i(1) cr] by (cases "pl_export_without_handle p = 1") simp_all
  moreover have "plugins_status s ! i = PLUGIN_FREE" using regpool.alloc_Some [OF len r] by simp
  moreover have "plugins_status s ! j = PLUGIN_CREATED" if "j < i" for j
    using regpool.alloc_first [OF len r that] by (cases "plugins_status s ! j") simp_all
  ultimately show ?thesis using False i p s1(2) st by auto
qed

definition demo_plugin :: "(unit, unit) lwnbd_plugin_t" where
  "demo_plugin = null_plugin\<lparr>pl_name := ''demo'', pl_longname := ''demo plugin'',
     pl_pread := Some (\<lambda>h n off fl w. Inr (0, [], w)),
     pl_ctor := Some (\<lambda>cfg c w. Inr (0, map_option (\<lambda>x. x\<lparr>ctx_name := ''d''\<rparr>) c, w))\<rparr>"

lemma demo_init:
  "\<exists>s'. lwnbd_plugin_init (lwnbd_init ()) (Some demo_plugin) = Inr (0, s')
     \<and> s' = (lwnbd_init ())\<lparr>plugins := (replicate 10 None)[0 := Some demo_plugin],
                              plugins_status := (replicate 10 PLUGIN_FREE)[0 := PLUGIN_CREATED]\<rparr>"
proof -
  have "find_slot (\<lambda>st. st = PLUGIN_FREE) (replicate MAX_NUM_PLUGINS PLUGIN_FREE) = 0"
    by (simp add: MAX_NUM_PLUGINS_def find_slot_def numeral_eq_Suc)
  then show ?thesis
    by (simp add: lwnbd_plugin_init_def lwnbd_init_def demo_plugin_def null_plugin_def
        MAX_NUM_PLUGINS_def Let_def)
qed

theorem plugin_init_correct_witness:
  "\<exists>s'. lwnbd_plugin_init (lwnbd_init ()) (Some demo_plugin) = Inr (0, s') \<and> wf_lwnbd s'
     \<and> plugins s' ! 0 = Some demo_plugin"
proof -
  obtain s' where r: "lwnbd_plugin_init (lwnbd_init ()) (Some demo_plugin) = Inr (0, s')"
    "plugins s' = (replicate 10 None)[0 := Some demo_plugin]"
    using demo_init by auto
  show ?thesis using plugin_init_correct [OF wf_init r(1)] r by auto
qed

end
