(* ===== verification/Loops.thy ===== *)
theory Loops
  imports Lwnbd_Prelude
begin

text \<open>
  Calls that may not return, and the \<^verbatim>\<open>while\<close> loop of C.  A value of \<open>'a run\<close> is \<open>None\<close> when the
  code loops for ever, a fault, or a result.  \<open>while_flow\<close> is the loop whose body can \<^verbatim>\<open>break\<close> and
  \<^verbatim>\<open>return\<close>; its three rules are partial correctness, termination and divergence.
\<close>

section \<open>Runs\<close>

type_synonym 'a run = "'a result option"

definition ret :: "'a \<Rightarrow> 'a run" where "ret x = Some (Inr x)"

definition lift :: "'a result \<Rightarrow> 'a run" where "lift r = Some r"

definition bindp :: "'a run \<Rightarrow> ('a \<Rightarrow> 'b run) \<Rightarrow> 'b run" where
  "bindp m k = (case m of None \<Rightarrow> None | Some (Inl f) \<Rightarrow> Some (Inl f) | Some (Inr x) \<Rightarrow> k x)"

lemma bindp_simps [simp]:
  "bindp None k = None" "bindp (Some (Inl f)) k = Some (Inl f)" "bindp (Some (Inr x)) k = k x"
  "bindp (ret x) k = k x" "bindp (lift (Inr x)) k = k x" "bindp (lift (Inl f)) k = Some (Inl f)"
  by (simp_all add: bindp_def ret_def lift_def)

lemma bindp_ret_iff:
  "bindp m k = ret y \<longleftrightarrow> (\<exists>x. m = ret x \<and> k x = ret y)"
  by (auto simp: bindp_def ret_def split: option.splits sum.splits)

lemma bindp_Some_iff:
  "bindp m k = Some (Inr y) \<longleftrightarrow> (\<exists>x. m = Some (Inr x) \<and> k x = Some (Inr y))"
  by (auto simp: bindp_def split: option.splits sum.splits)

lemma bindp_returns:
  "(\<exists>r. m = Some r) \<Longrightarrow> (\<And>x. m = Some (Inr x) \<Longrightarrow> \<exists>r. k x = Some r) \<Longrightarrow> \<exists>r. bindp m k = Some r"
  by (auto simp: bindp_def split: option.splits sum.splits)

lemma ret_eq_iff [simp]: "ret x = ret y \<longleftrightarrow> x = y" "ret x = Some (Inr y) \<longleftrightarrow> x = y"
  "ret x \<noteq> None" "ret x \<noteq> Some (Inl f)" "Some (Inl f) \<noteq> ret x" "None \<noteq> ret x"
  by (auto simp: ret_def)

text \<open>A callback whose loop does not end, seen by the code that called it.\<close>

definition settle :: "'a run \<Rightarrow> 'a result" where
  "settle m = (case m of None \<Rightarrow> Inl No_Return | Some r \<Rightarrow> r)"

lemma settle_simps [simp]: "settle None = Inl No_Return" "settle (Some r) = r" "settle (ret x) = Inr x"
  by (simp_all add: settle_def ret_def)

section \<open>Loops\<close>

text \<open>How the body of a loop ends: at its closing brace or a \<^verbatim>\<open>continue\<close>, with \<^verbatim>\<open>break\<close>, or with
  \<^verbatim>\<open>return\<close> from the function around it.\<close>

datatype flow = Next | Break | Return int

partial_function (option) while_flow ::
  "('s \<Rightarrow> bool) \<Rightarrow> ('s \<Rightarrow> (flow \<times> 's) run) \<Rightarrow> 's \<Rightarrow> (flow \<times> 's) run" where
  [code]: "while_flow b body s =
     (if b s then
        (case body s of
           None \<Rightarrow> None
         | Some r \<Rightarrow>
             (case r of
                Inl f \<Rightarrow> Some (Inl f)
              | Inr (fl, s') \<Rightarrow>
                  (case fl of
                     Next \<Rightarrow> while_flow b body s'
                   | Break \<Rightarrow> Some (Inr (Next, s'))
                   | Return v \<Rightarrow> Some (Inr (Return v, s')))))
      else Some (Inr (Next, s)))"

lemma while_flow_stop [simp]: "\<not> b s \<Longrightarrow> while_flow b body s = Some (Inr (Next, s))"
  by (simp add: while_flow.simps)

lemma while_flow_next:
  "b s \<Longrightarrow> body s = Some (Inr (Next, s')) \<Longrightarrow> while_flow b body s = while_flow b body s'"
  by (subst while_flow.simps) simp

lemma while_flow_return:
  "b s \<Longrightarrow> body s = Some (Inr (Return v, s')) \<Longrightarrow> while_flow b body s = Some (Inr (Return v, s'))"
  by (subst while_flow.simps) simp

lemma while_flow_break:
  "b s \<Longrightarrow> body s = Some (Inr (Break, s')) \<Longrightarrow> while_flow b body s = Some (Inr (Next, s'))"
  by (subst while_flow.simps) simp

lemma while_flow_fault:
  "b s \<Longrightarrow> body s = Some (Inl f) \<Longrightarrow> while_flow b body s = Some (Inl f)"
  by (subst while_flow.simps) simp

text \<open>Termination: each iteration that runs on decreases a well-founded measure.\<close>

lemma while_flow_returns:
  assumes "P s" and "wf R"
    and step: "\<And>s. P s \<Longrightarrow> b s \<Longrightarrow> \<exists>r. body s = Some r"
    and dec: "\<And>s s'. P s \<Longrightarrow> b s \<Longrightarrow> body s = Some (Inr (Next, s')) \<Longrightarrow> P s' \<and> (s', s) \<in> R"
  shows "\<exists>r. while_flow b body s = Some r"
  using \<open>wf R\<close> \<open>P s\<close>
proof (induction s rule: wf_induct_rule)
  case (less s)
  show ?case
  proof (cases "b s")
    case False
    then show ?thesis by simp
  next
    case True
    obtain r where r: "body s = Some r" using step less.prems True by blast
    show ?thesis
    proof (cases r)
      case (Inl f)
      then show ?thesis using r True by (simp add: while_flow_fault)
    next
      case (Inr p)
      then obtain fl s' where p: "r = Inr (fl, s')" by (cases p) simp
      show ?thesis
      proof (cases fl)
        case Next
        then have "P s' \<and> (s', s) \<in> R" using dec less.prems True r p by simp
        then show ?thesis using less.IH True r p Next by (simp add: while_flow_next)
      qed (use True r p in \<open>simp_all add: while_flow_break while_flow_return\<close>)
    qed
  qed
qed

text \<open>Induction over the iterations of a loop that ends.\<close>

lemma while_flow_induct [consumes 1, case_names stop next_step brk rtn fault]:
  assumes run: "while_flow b body s = Some y"
    and stop: "\<And>s. \<not> b s \<Longrightarrow> P s (Inr (Next, s))"
    and next_step: "\<And>s s' y. b s \<Longrightarrow> body s = Some (Inr (Next, s')) \<Longrightarrow> P s' y \<Longrightarrow> P s y"
    and brk: "\<And>s s'. b s \<Longrightarrow> body s = Some (Inr (Break, s')) \<Longrightarrow> P s (Inr (Next, s'))"
    and rtn: "\<And>s s' v. b s \<Longrightarrow> body s = Some (Inr (Return v, s')) \<Longrightarrow> P s (Inr (Return v, s'))"
    and fault: "\<And>s f. b s \<Longrightarrow> body s = Some (Inl f) \<Longrightarrow> P s (Inl f)"
  shows "P s y"
proof -
  have "b = b \<longrightarrow> body = body \<longrightarrow> P s y"
  proof (rule while_flow.raw_induct [OF _ run, where P = "\<lambda>b' body' s y. b' = b \<longrightarrow> body' = body \<longrightarrow> P s y"],
      intro impI)
    fix wf b' body' s y
    assume ih: "\<And>b' body' s y. wf b' body' s = Some y \<Longrightarrow> b' = b \<longrightarrow> body' = body \<longrightarrow> P s y"
      and eq: "(if b' s then case body' s of None \<Rightarrow> None | Some (Inl f) \<Rightarrow> Some (Inl f)
          | Some (Inr (Next, s')) \<Rightarrow> wf b' body' s'
          | Some (Inr (Break, s')) \<Rightarrow> Some (Inr (Next, s'))
          | Some (Inr (Return v, s')) \<Rightarrow> Some (Inr (Return v, s'))
        else Some (Inr (Next, s))) = Some y"
      and e: "b' = b" "body' = body"
    note eq = eq [unfolded e]
    have ih: "P s y" if "wf b body s = Some y" for s y using ih [OF that] by blast
    show "P s y"
    proof (cases "b s")
      case False
      then show ?thesis using eq stop by auto
    next
      case True
      then obtain r where r: "body s = Some r" using eq by (cases "body s") auto
      show ?thesis
      proof (cases r)
        case (Inl f)
        then show ?thesis using True r eq fault by auto
      next
        case (Inr q)
        then obtain fl s' where q: "r = Inr (fl, s')" by (cases q) simp
        show ?thesis
        proof (cases fl)
          case Next
          then show ?thesis using True r q eq next_step ih by simp
        qed (use True r q eq brk rtn in auto)
      qed
    qed
  qed
  then show ?thesis by simp
qed

text \<open>Partial correctness: an invariant of the iterations holds at the end of the loop.\<close>

lemma while_flow_invariant:
  assumes run: "while_flow b body s = Some (Inr (fl, t))" and "I s"
    and next_step: "\<And>s s'. I s \<Longrightarrow> b s \<Longrightarrow> body s = Some (Inr (Next, s')) \<Longrightarrow> I s'"
    and stop: "\<And>s. I s \<Longrightarrow> \<not> b s \<Longrightarrow> Q Next s"
    and brk: "\<And>s s'. I s \<Longrightarrow> b s \<Longrightarrow> body s = Some (Inr (Break, s')) \<Longrightarrow> Q Next s'"
    and rtn: "\<And>s s' v. I s \<Longrightarrow> b s \<Longrightarrow> body s = Some (Inr (Return v, s')) \<Longrightarrow> Q (Return v) s'"
  shows "Q fl t"
proof -
  have "I s \<longrightarrow> y = Inr (fl, t) \<longrightarrow> Q fl t" if "while_flow b body s = Some y" for y
    using that by (induction rule: while_flow_induct) (use next_step stop brk rtn in blast)+
  then show ?thesis using run \<open>I s\<close> by blast
qed

text \<open>Safety: in the states of an invariant no iteration faults but in a way of \<open>E\<close>, nor does the loop.\<close>

lemma while_flow_faults:
  assumes "while_flow b body s = Some (Inl f)" and "I s"
    and fault: "\<And>s f. I s \<Longrightarrow> b s \<Longrightarrow> body s = Some (Inl f) \<Longrightarrow> E f"
    and next_step: "\<And>s s'. I s \<Longrightarrow> b s \<Longrightarrow> body s = Some (Inr (Next, s')) \<Longrightarrow> I s'"
  shows "E f"
proof -
  have "I s \<longrightarrow> y = Inl f \<longrightarrow> E f" if "while_flow b body s = Some y" for y
    using that by (induction rule: while_flow_induct) (use fault next_step in blast)+
  then show ?thesis using assms(1,2) by blast
qed

lemma while_flow_safe:
  assumes "I s"
    and safe: "\<And>s f. I s \<Longrightarrow> b s \<Longrightarrow> body s \<noteq> Some (Inl f)"
    and next_step: "\<And>s s'. I s \<Longrightarrow> b s \<Longrightarrow> body s = Some (Inr (Next, s')) \<Longrightarrow> I s'"
  shows "while_flow b body s \<noteq> Some (Inl f)"
  using while_flow_faults [of b body s f I "\<lambda>_. False"] assms by blast

text \<open>Total correctness: every iteration gives a result, and keeps the invariant when it goes on.\<close>

lemma while_flow_total:
  assumes "I s" and "wf R"
    and step: "\<And>s. I s \<Longrightarrow> b s \<Longrightarrow> \<exists>fl s'. body s = Some (Inr (fl, s')) \<and> (fl = Next \<longrightarrow> I s' \<and> (s', s) \<in> R)"
  shows "\<exists>fl t. while_flow b body s = Some (Inr (fl, t))"
proof -
  have "\<exists>r. while_flow b body s = Some r"
    by (rule while_flow_returns [where P = I, OF assms(1,2)]) (use step in fastforce)+
  moreover have "while_flow b body s \<noteq> Some (Inl f)" for f
    by (rule while_flow_safe [where I = I, OF assms(1)]) (use step in fastforce)+
  ultimately show ?thesis by (metis sum.exhaust surj_pair)
qed

text \<open>Divergence: a set of states the body never leaves.\<close>

lemma while_flow_diverges:
  assumes "P s"
    and stays: "\<And>s. P s \<Longrightarrow> b s \<and> (body s = None \<or> (\<exists>s'. body s = Some (Inr (Next, s')) \<and> P s'))"
  shows "while_flow b body s = None"
proof -
  have "\<not> P s" if "while_flow b body s = Some y" for y
    using that
  proof (induction rule: while_flow_induct)
    case (stop s)
    then show ?case using stays by blast
  qed (use stays in force)+
  then show ?thesis using \<open>P s\<close> by (cases "while_flow b body s") auto
qed

text \<open>Congruence: bodies that agree in the states of an invariant make the same loop.\<close>

lemma while_flow_agree:
  assumes "while_flow b body s = Some y" and "I s"
    and same: "\<And>s. I s \<Longrightarrow> b s \<Longrightarrow> body s = body' s"
    and next_step: "\<And>s s'. I s \<Longrightarrow> b s \<Longrightarrow> body s = Some (Inr (Next, s')) \<Longrightarrow> I s'"
  shows "while_flow b body' s = Some y"
  using assms(1,2)
proof (induction rule: while_flow_induct)
  case (next_step s s' y)
  then show ?case using same assms(4) by (metis while_flow_next)
next
  case (brk s s')
  then show ?case using same while_flow_break by metis
next
  case (rtn s s' v)
  then show ?case using same while_flow_return by metis
next
  case (fault s f)
  then show ?case using same while_flow_fault by metis
qed simp

lemma while_flow_cong:
  assumes "I s"
    and same: "\<And>s. I s \<Longrightarrow> b s \<Longrightarrow> body s = body' s"
    and next_step: "\<And>s s'. I s \<Longrightarrow> b s \<Longrightarrow> body s = Some (Inr (Next, s')) \<Longrightarrow> I s'"
  shows "while_flow b body s = while_flow b body' s"
proof (cases "while_flow b body s")
  case (Some y)
  then show ?thesis using while_flow_agree [of b body s y I body'] assms by simp
next
  case None
  have "while_flow b body' s \<noteq> Some y" for y
    using while_flow_agree [of b body' s y I body] assms None by (metis option.distinct(1))
  then show ?thesis using None by (cases "while_flow b body' s") auto
qed

end
