(* ===== verification/Tcp.thy ===== *)
theory Tcp
  imports Loops
begin

text \<open>
  The transport of the TCP servers, \<^verbatim>\<open>src/tcp.c\<close>.  The system calls on a socket are parameters,
  collected in the record \<open>posix_socket\<close> over the state \<open>'n\<close> of the network; what the code relies on
  is the locale \<open>posix_stream\<close>.  \<^verbatim>\<open>tcp_recv_block\<close> turns the short reads of \<^verbatim>\<open>recv\<close> into the
  all-or-nothing reads of the locale \<open>stream_transport\<close>, which is the contract the NBD server uses.
\<close>

section \<open>System calls and callbacks\<close>

text \<open>
  \<^verbatim>\<open>recv\<close> gives \<open>None\<close> for its \<open>-1\<close>, and otherwise the bytes it stored (none at the end of the
  stream), whose number it returns.  \<^verbatim>\<open>send\<close> returns its result, \<^verbatim>\<open>accept\<close> a descriptor.
\<close>

record 'n posix_socket =
  sys_recv :: "int \<Rightarrow> nat \<Rightarrow> int \<Rightarrow> 'n \<Rightarrow> byte list option \<times> 'n"
  sys_send :: "int \<Rightarrow> byte list \<Rightarrow> int \<Rightarrow> 'n \<Rightarrow> int \<times> 'n"
  sys_close :: "int \<Rightarrow> 'n \<Rightarrow> int \<times> 'n"
  sys_accept :: "int \<Rightarrow> 'n \<Rightarrow> int \<times> 'n"

text \<open>The two callbacks of a server: the result of the call, and for a reception the bytes stored.\<close>

record 'n transport =
  sync_recv_cb :: "int \<Rightarrow> nat \<Rightarrow> int \<Rightarrow> 'n \<Rightarrow> (int \<times> byte list \<times> 'n) run"
  sync_send_cb :: "int \<Rightarrow> byte list \<Rightarrow> int \<Rightarrow> 'n \<Rightarrow> (int \<times> 'n) run"

section \<open>The code\<close>

text \<open>The variables of \<^verbatim>\<open>tcp_recv_block\<close>; \<open>rv_data\<close> is what it has stored at \<^verbatim>\<open>mem\<close> so far.\<close>

record 'n recv_vars =
  rv_left :: int
  rv_totalRead :: int
  rv_data :: "byte list"
  rv_net :: 'n

definition bytes_read :: "byte list option \<Rightarrow> int" where
  "bytes_read d = (case d of None \<Rightarrow> - 1 | Some b \<Rightarrow> int (length b))"

definition recv_body :: "'n posix_socket \<Rightarrow> int \<Rightarrow> int \<Rightarrow> 'n recv_vars \<Rightarrow> (flow \<times> 'n recv_vars) run" where
  "recv_body os s flags v =
     (let (d, n) = sys_recv os s (to_size (rv_left v)) flags (rv_net v);
          bytesRead = bytes_read d
      in if bytesRead \<le> 0 then ret (Return bytesRead, v\<lparr>rv_net := n\<rparr>)
         else ret (Next, v\<lparr>rv_left := rv_left v - bytesRead,
                           rv_totalRead := rv_totalRead v + bytesRead,
                           rv_data := rv_data v @ the d, rv_net := n\<rparr>))"

text \<open>The \<^verbatim>\<open>do .. while (left)\<close> runs its body once and goes on as a \<^verbatim>\<open>while\<close>.\<close>

definition tcp_recv_block ::
  "'n posix_socket \<Rightarrow> int \<Rightarrow> nat \<Rightarrow> int \<Rightarrow> 'n \<Rightarrow> (int \<times> byte list \<times> 'n) run" where
  "tcp_recv_block os s len flags n =
     bindp (recv_body os s flags \<lparr>rv_left = int len, rv_totalRead = 0, rv_data = [], rv_net = n\<rparr>)
       (\<lambda>(fl, v). bindp (case fl of Next \<Rightarrow> while_flow (\<lambda>v. rv_left v \<noteq> 0) (recv_body os s flags) v
                            | _ \<Rightarrow> ret (fl, v))
          (\<lambda>(fl, v). ret (case fl of Return r \<Rightarrow> r | _ \<Rightarrow> rv_totalRead v, rv_data v, rv_net v)))"

definition tcp_close :: "'n posix_socket \<Rightarrow> int \<Rightarrow> 'n \<Rightarrow> int \<times> 'n" where
  "tcp_close os socket n = sys_close os socket n"

text \<open>One turn of the loop of \<^verbatim>\<open>listener\<close>, which accepts a client and closes it.\<close>

definition listener_body :: "'n posix_socket \<Rightarrow> int \<Rightarrow> 'n \<Rightarrow> (flow \<times> 'n) run" where
  "listener_body os socket n =
     (let (sock, n1) = sys_accept os socket n; (_, n2) = sys_close os sock n1 in ret (Next, n2))"

definition listener :: "'n posix_socket \<Rightarrow> int \<Rightarrow> 'n \<Rightarrow> (flow \<times> 'n) run" where
  "listener os socket = while_flow (\<lambda>_. True) (listener_body os socket)"

text \<open>\<^verbatim>\<open>.sync_recv_cb = tcp_recv_block, .sync_send_cb = send\<close>.\<close>

definition tcp_transport :: "'n posix_socket \<Rightarrow> 'n transport" where
  "tcp_transport os = \<lparr>sync_recv_cb = tcp_recv_block os,
                       sync_send_cb = (\<lambda>s d fl n. ret (sys_send os s d fl n))\<rparr>"

section \<open>Contracts\<close>

text \<open>
  A connected stream socket: \<open>inp\<close> are the bytes of the peer not received yet, \<open>out\<close> the bytes sent
  to it.  \<^verbatim>\<open>recv\<close> may give any non-empty part of what was asked for; at the end of the stream, and
  when it is asked for nothing, it gives nothing.  A blocking \<^verbatim>\<open>send\<close> takes everything.
\<close>

locale posix_stream =
  fixes os :: "'n posix_socket"
    and inp :: "'n \<Rightarrow> byte list"
    and out :: "'n \<Rightarrow> byte list"
    and inv :: "'n \<Rightarrow> bool"
  assumes recv_some: "inv n \<Longrightarrow> inp n \<noteq> [] \<Longrightarrow> 0 < len \<Longrightarrow>
      \<exists>k n'. sys_recv os s len fl n = (Some (take k (inp n)), n') \<and> 0 < k \<and> k \<le> len
        \<and> k \<le> length (inp n) \<and> inp n' = drop k (inp n) \<and> out n' = out n \<and> inv n'"
    and recv_zero: "inv n \<Longrightarrow>
      \<exists>n'. sys_recv os s 0 fl n = (Some [], n') \<and> inp n' = inp n \<and> out n' = out n \<and> inv n'"
    and recv_end: "inv n \<Longrightarrow> inp n = [] \<Longrightarrow>
      \<exists>n'. sys_recv os s len fl n = (Some [], n') \<and> inp n' = [] \<and> out n' = out n \<and> inv n'"
    and send_takes: "inv n \<Longrightarrow>
      \<exists>n'. sys_send os s d fl n = (int (length d), n') \<and> inp n' = inp n \<and> out n' = out n @ d \<and> inv n'"

text \<open>What the protocol code relies on: a reception gives all the bytes or ends the connection.\<close>

locale stream_transport =
  fixes io :: "'n transport"
    and inp :: "'n \<Rightarrow> byte list"
    and out :: "'n \<Rightarrow> byte list"
    and inv :: "'n \<Rightarrow> bool"
  assumes recv_full: "inv n \<Longrightarrow> len < 2 ^ 63 \<Longrightarrow> len \<le> length (inp n) \<Longrightarrow>
      \<exists>n'. sync_recv_cb io s len fl n = ret (int len, take len (inp n), n')
        \<and> inp n' = drop len (inp n) \<and> out n' = out n \<and> inv n'"
    and recv_short: "inv n \<Longrightarrow> length (inp n) < len \<Longrightarrow> len < 2 ^ 63 \<Longrightarrow>
      \<exists>n'. sync_recv_cb io s len fl n = ret (0, inp n, n') \<and> inp n' = [] \<and> out n' = out n \<and> inv n'"
    and send_full: "inv n \<Longrightarrow>
      \<exists>n'. sync_send_cb io s d fl n = ret (int (length d), n')
        \<and> inp n' = inp n \<and> out n' = out n @ d \<and> inv n'"
begin

text \<open>The same laws in the form the proofs of a client consume.\<close>

lemma recv_fullE:
  assumes "inv n" and "inp n = b @ r" and "length b < 2 ^ 63"
  obtains n' where "sync_recv_cb io s (length b) fl n = ret (int (length b), b, n')"
    and "inp n' = r" and "out n' = out n" and "inv n'"
  using recv_full [OF assms(1), of "length b" s fl] assms(2-3) by auto

lemma sendE:
  assumes "inv n"
  obtains n' where "sync_send_cb io s d fl n = ret (int (length d), n')"
    and "inp n' = inp n" and "out n' = out n @ d" and "inv n'"
  using send_full [OF assms] by blast

end

section \<open>Blocking reads over short reads\<close>

context posix_stream
begin

text \<open>One reception of the loop: the end of the stream, or some of the bytes that are left to read.\<close>

lemma recv_body_end:
  assumes "inv (rv_net v)" and "inp (rv_net v) = []"
  obtains n' where "recv_body os s flags v = Some (Inr (Return 0, v\<lparr>rv_net := n'\<rparr>))"
    and "inp n' = []" and "out n' = out (rv_net v)" and "inv n'"
proof -
  obtain n' where "sys_recv os s (to_size (rv_left v)) flags (rv_net v) = (Some [], n')"
    and n': "inp n' = []" "out n' = out (rv_net v)" "inv n'"
    using recv_end [OF assms] by blast
  then have "recv_body os s flags v = Some (Inr (Return 0, v\<lparr>rv_net := n'\<rparr>))"
    by (simp add: recv_body_def bytes_read_def ret_def)
  then show thesis using that n' by blast
qed

lemma recv_body_some:
  assumes "inv (rv_net v)" and "inp (rv_net v) \<noteq> []" and l: "rv_left v = int l" "0 < l" "l < 2 ^ 63"
  obtains k n' where "recv_body os s flags v = Some (Inr (Next, v\<lparr>rv_left := int (l - k),
        rv_totalRead := rv_totalRead v + int k, rv_data := rv_data v @ take k (inp (rv_net v)),
        rv_net := n'\<rparr>))"
    and "0 < k" and "k \<le> l" and "k \<le> length (inp (rv_net v))"
    and "inp n' = drop k (inp (rv_net v))" and "out n' = out (rv_net v)" and "inv n'"
proof -
  have sz: "to_size (rv_left v) = l" using l by simp
  obtain k n' where r: "sys_recv os s (to_size (rv_left v)) flags (rv_net v)
      = (Some (take k (inp (rv_net v))), n')"
    and k: "0 < k" "k \<le> l" "k \<le> length (inp (rv_net v))"
    and n': "inp n' = drop k (inp (rv_net v))" "out n' = out (rv_net v)" "inv n'"
    using recv_some [OF assms(1,2) l(2), of s flags] sz by auto
  have "recv_body os s flags v = Some (Inr (Next, v\<lparr>rv_left := int (l - k),
        rv_totalRead := rv_totalRead v + int k, rv_data := rv_data v @ take k (inp (rv_net v)),
        rv_net := n'\<rparr>))"
    using r k l by (simp add: recv_body_def bytes_read_def ret_def min_def of_nat_diff Let_def)
  then show thesis using that k n' by blast
qed

definition recv_done :: "nat \<Rightarrow> 'n recv_vars \<Rightarrow> flow \<Rightarrow> 'n recv_vars \<Rightarrow> bool" where
  "recv_done l v fl v' \<longleftrightarrow> out (rv_net v') = out (rv_net v) \<and> inv (rv_net v')
     \<and> (if l \<le> length (inp (rv_net v))
        then fl = Next \<and> rv_data v' = rv_data v @ take l (inp (rv_net v))
          \<and> rv_totalRead v' = rv_totalRead v + int l \<and> inp (rv_net v') = drop l (inp (rv_net v))
        else fl = Return 0 \<and> rv_data v' = rv_data v @ inp (rv_net v) \<and> inp (rv_net v') = [])"

lemma recv_done_step:
  assumes "recv_done (l - k) (v\<lparr>rv_left := x, rv_totalRead := rv_totalRead v + int k,
      rv_data := rv_data v @ take k (inp (rv_net v)), rv_net := n'\<rparr>) fl v'"
    and "k \<le> l" and "k \<le> length (inp (rv_net v))"
    and "inp n' = drop k (inp (rv_net v))" and "out n' = out (rv_net v)"
  shows "recv_done l v fl v'"
proof -
  have "take k (inp (rv_net v)) @ take (l - k) (drop k (inp (rv_net v))) = take l (inp (rv_net v))"
    using assms(2) take_add [of k "l - k" "inp (rv_net v)"] by simp
  then show ?thesis
    using assms by (auto simp: recv_done_def split: if_split_asm)
qed

lemma recv_loop:
  assumes "rv_left v = int l" and "l < 2 ^ 63" and "inv (rv_net v)"
  shows "\<exists>fl v'. while_flow (\<lambda>v. rv_left v \<noteq> 0) (recv_body os s flags) v = Some (Inr (fl, v'))
    \<and> recv_done l v fl v'"
  using assms
proof (induction l arbitrary: v rule: less_induct)
  case (less l)
  let ?b = "\<lambda>v. rv_left v \<noteq> 0" and ?body = "recv_body os s flags" and ?n = "rv_net v"
  consider "l = 0" | "0 < l" "inp ?n = []" | "0 < l" "inp ?n \<noteq> []" by auto
  then show ?case
  proof cases
    case 1
    then show ?thesis using less.prems by (simp add: recv_done_def)
  next
    case 2
    obtain n' where r: "?body v = Some (Inr (Return 0, v\<lparr>rv_net := n'\<rparr>))"
      and n': "inp n' = []" "out n' = out ?n" "inv n'"
      using recv_body_end [OF less.prems(3) 2(2)] .
    have "while_flow ?b ?body v = Some (Inr (Return 0, v\<lparr>rv_net := n'\<rparr>))"
      by (rule while_flow_return [where s = v]) (use r less.prems(1) 2(1) in simp_all)
    then show ?thesis using n' 2 by (simp add: recv_done_def)
  next
    case 3
    obtain k n' where r: "?body v = Some (Inr (Next, v\<lparr>rv_left := int (l - k),
        rv_totalRead := rv_totalRead v + int k, rv_data := rv_data v @ take k (inp ?n),
        rv_net := n'\<rparr>))" (is "_ = Some (Inr (Next, ?v))")
      and k: "0 < k" "k \<le> l" "k \<le> length (inp ?n)"
      and n': "inp n' = drop k (inp ?n)" "out n' = out ?n" "inv n'"
      using recv_body_some [OF less.prems(3) 3(2) less.prems(1) 3(1) less.prems(2)] .
    have "while_flow ?b ?body v = while_flow ?b ?body ?v"
      by (rule while_flow_next [where s = v]) (use r less.prems(1) 3(1) in simp_all)
    moreover obtain fl v' where "while_flow ?b ?body ?v = Some (Inr (fl, v'))"
      "recv_done (l - k) ?v fl v'"
      using less.IH [of "l - k" ?v] k n' less.prems(2) 3(1) less_imp_diff_less [of l "2 ^ 63" k] by auto
    ultimately show ?thesis using recv_done_step k n' by metis
  qed
qed

lemma tcp_recv_block_done:
  assumes "inv n" and "0 < len" and "len < 2 ^ 63"
  obtains fl v where "tcp_recv_block os s len fl' n
      = ret (case fl of Return r \<Rightarrow> r | _ \<Rightarrow> rv_totalRead v, rv_data v, rv_net v)"
    and "recv_done len \<lparr>rv_left = int len, rv_totalRead = 0, rv_data = [], rv_net = n\<rparr> fl v"
proof -
  let ?v = "\<lparr>rv_left = int len, rv_totalRead = 0, rv_data = [], rv_net = n\<rparr>"
  let ?body = "recv_body os s fl'" and ?b = "\<lambda>v. rv_left v \<noteq> 0"
  obtain fl v where w: "while_flow ?b ?body ?v = Some (Inr (fl, v))" and d: "recv_done len ?v fl v"
    using recv_loop [of ?v len s fl'] assms by auto
  have "while_flow ?b ?body ?v =
      bindp (?body ?v) (\<lambda>(fl, v). case fl of Next \<Rightarrow> while_flow ?b ?body v | _ \<Rightarrow> ret (fl, v))"
  proof (cases "inp n = []")
    case True
    obtain n' where "?body ?v = Some (Inr (Return 0, ?v\<lparr>rv_net := n'\<rparr>))"
      using recv_body_end [of ?v s fl'] assms True by auto
    then show ?thesis using while_flow_return [of ?b ?v ?body] assms(2) by (simp add: ret_def)
  next
    case False
    obtain v' where "?body ?v = Some (Inr (Next, v'))"
      by (rule recv_body_some [of ?v len s fl']) (use assms False in \<open>auto\<close>)
    then show ?thesis using while_flow_next [of ?b ?v ?body] assms(2) by simp
  qed
  then have "tcp_recv_block os s len fl' n
      = bindp (while_flow ?b ?body ?v)
          (\<lambda>(fl, v). ret (case fl of Return r \<Rightarrow> r | _ \<Rightarrow> rv_totalRead v, rv_data v, rv_net v))"
    unfolding tcp_recv_block_def
    by (simp add: bindp_def split: option.split sum.split prod.split)
  then show thesis using that [OF _ d] w by simp
qed

end

sublocale posix_stream \<subseteq> tcp: stream_transport "tcp_transport os" inp out inv
proof
  fix n and len :: nat and s fl d
  assume n: "inv n"
  show "\<exists>n'. sync_recv_cb (tcp_transport os) s len fl n = ret (int len, take len (inp n), n')
        \<and> inp n' = drop len (inp n) \<and> out n' = out n \<and> inv n'"
    if len: "len < 2 ^ 63" "len \<le> length (inp n)"
  proof (cases "len = 0")
    case True
    then show ?thesis using recv_zero [OF n, of s fl]
      by (auto simp: tcp_transport_def tcp_recv_block_def recv_body_def bytes_read_def ret_def Let_def)
  next
    case False
    then have pos: "0 < len" by simp
    obtain fl' v where "tcp_recv_block os s len fl n
        = ret (case fl' of Return r \<Rightarrow> r | _ \<Rightarrow> rv_totalRead v, rv_data v, rv_net v)"
      "recv_done len \<lparr>rv_left = int len, rv_totalRead = 0, rv_data = [], rv_net = n\<rparr> fl' v"
      using tcp_recv_block_done [OF n pos len(1)] .
    then show ?thesis using len(2) by (auto simp: tcp_transport_def recv_done_def)
  qed
  show "\<exists>n'. sync_recv_cb (tcp_transport os) s len fl n = ret (0, inp n, n') \<and> inp n' = []
        \<and> out n' = out n \<and> inv n'"
    if len: "length (inp n) < len" "len < 2 ^ 63"
  proof -
    have pos: "0 < len" using len by simp
    obtain fl' v where "tcp_recv_block os s len fl n
        = ret (case fl' of Return r \<Rightarrow> r | _ \<Rightarrow> rv_totalRead v, rv_data v, rv_net v)"
      "recv_done len \<lparr>rv_left = int len, rv_totalRead = 0, rv_data = [], rv_net = n\<rparr> fl' v"
      using tcp_recv_block_done [OF n pos len(2)] .
    then show ?thesis using len(1) by (auto simp: tcp_transport_def recv_done_def)
  qed
  show "\<exists>n'. sync_send_cb (tcp_transport os) s d fl n = ret (int (length d), n')
        \<and> inp n' = inp n \<and> out n' = out n @ d \<and> inv n'"
    using send_takes [OF n, of s d fl] by (auto simp: tcp_transport_def)
qed

context posix_stream
begin

lemma recv_block_exact:
  assumes "inv n" and "len < 2 ^ 63"
  shows "\<exists>n'. tcp_recv_block os s len fl n =
      ret (if len \<le> length (inp n) then int len else 0, take len (inp n), n')
    \<and> inp n' = drop len (inp n) \<and> out n' = out n \<and> inv n'"
proof (cases "len \<le> length (inp n)")
  case True
  then show ?thesis using tcp.recv_full [OF assms] by (simp add: tcp_transport_def)
next
  case False
  then show ?thesis using tcp.recv_short [OF assms(1) _ assms(2)] by (simp add: tcp_transport_def)
qed

end

section \<open>A socket that answers in pieces\<close>

text \<open>
  An instance of the system calls: the peer has already sent \<open>so_in\<close>, what it gets is \<open>so_out\<close>, and
  \<open>so_chunk\<close> says how many bytes one \<^verbatim>\<open>recv\<close> gives at most (none: as many as there are).
\<close>

record sock =
  so_in :: "byte list"
  so_out :: "byte list"
  so_chunk :: "nat list"

definition sock_recv :: "int \<Rightarrow> nat \<Rightarrow> int \<Rightarrow> sock \<Rightarrow> byte list option \<times> sock" where
  "sock_recv s len fl n =
     (let k = (case so_chunk n of [] \<Rightarrow> len | c # _ \<Rightarrow> min len (Suc c))
      in (Some (take k (so_in n)), n\<lparr>so_in := drop k (so_in n), so_chunk := tl (so_chunk n)\<rparr>))"

definition sock_send :: "int \<Rightarrow> byte list \<Rightarrow> int \<Rightarrow> sock \<Rightarrow> int \<times> sock" where
  "sock_send s d fl n = (int (length d), n\<lparr>so_out := so_out n @ d\<rparr>)"

definition sock_os :: "sock posix_socket" where
  "sock_os = \<lparr>sys_recv = sock_recv, sys_send = sock_send,
              sys_close = (\<lambda>s n. (0, n)), sys_accept = (\<lambda>s n. (s + 1, n))\<rparr>"

interpretation sock: posix_stream sock_os so_in so_out "\<lambda>_. True"
proof
  fix n :: sock and len s fl d
  show "so_in n \<noteq> [] \<Longrightarrow> 0 < len \<Longrightarrow> \<exists>k n'. sys_recv sock_os s len fl n = (Some (take k (so_in n)), n')
        \<and> 0 < k \<and> k \<le> len \<and> k \<le> length (so_in n) \<and> so_in n' = drop k (so_in n)
        \<and> so_out n' = so_out n \<and> True"
  proof -
    assume ne: "so_in n \<noteq> []" and len: "0 < len"
    let ?k = "case so_chunk n of [] \<Rightarrow> len | c # _ \<Rightarrow> min len (Suc c)"
    have k: "0 < ?k" "?k \<le> len" using len by (auto split: list.split)
    show ?thesis
      using ne k by (intro exI [of _ "min ?k (length (so_in n))"])
        (auto simp: sock_os_def sock_recv_def Let_def min_def)
  qed
  show "\<exists>n'. sys_recv sock_os s 0 fl n = (Some [], n') \<and> so_in n' = so_in n
        \<and> so_out n' = so_out n \<and> True"
    by (simp add: sock_os_def sock_recv_def Let_def split: list.split)
  show "so_in n = [] \<Longrightarrow> \<exists>n'. sys_recv sock_os s len fl n = (Some [], n') \<and> so_in n' = []
        \<and> so_out n' = so_out n \<and> True"
    by (simp add: sock_os_def sock_recv_def Let_def)
  show "\<exists>n'. sys_send sock_os s d fl n = (int (length d), n') \<and> so_in n' = so_in n
        \<and> so_out n' = so_out n @ d \<and> True"
    by (simp add: sock_os_def sock_send_def)
qed

section \<open>Properties of the transport\<close>

text \<open>
  C13.  However the network cuts the stream into pieces, \<^verbatim>\<open>tcp_recv_block\<close> returns, for any
  number of bytes below \<open>2 ^ 63\<close>: with all the bytes asked for, in order, when the peer sends that many, and
  otherwise with 0, after storing what the peer did send.
\<close>

theorem tcp_recv_block_exact:
  assumes "posix_stream os inp out ok" and "ok n" and "len < 2 ^ 63"
  shows "\<exists>n'. tcp_recv_block os s len fl n =
      ret (if len \<le> length (inp n) then int len else 0, take len (inp n), n')
    \<and> inp n' = drop len (inp n) \<and> out n' = out n \<and> ok n'"
  by (rule posix_stream.recv_block_exact [OF assms])

theorem tcp_recv_block_exact_witness:
  "\<exists>n'. tcp_recv_block sock_os 7 5 0 \<lparr>so_in = ''abcdefg'', so_out = [], so_chunk = [1, 0]\<rparr>
      = ret (5, ''abcde'', n') \<and> so_in n' = ''fg''"
  using tcp_recv_block_exact [OF sock.posix_stream_axioms, where n =
      "\<lparr>so_in = ''abcdefg'', so_out = [], so_chunk = [1, 0]\<rparr>" and len = 5 and s = 7 and fl = 0]
  by auto

end
