(* ===== verification/Piconbd.thy ===== *)
theory Piconbd
  imports Contexts Nbd_Protocol Tcp
begin

text \<open>
  The types of the NBD server, \<^verbatim>\<open>include/lwnbd/piconbd.h\<close>, its Kconfig options and the raw buffers of
  its two phases.  The C \<^verbatim>\<open>struct lwnbd_context_nbd_s\<close> is cast to \<^verbatim>\<open>lwnbd_context_t\<close> and back but
  does not repeat the fields of that base; the model extends the base record, which is what every
  use of it assumes.  The transport callbacks \<^verbatim>\<open>ctx->sync_recv_cb\<close> and \<^verbatim>\<open>ctx->sync_send_cb\<close> are the
  record \<open>transport\<close>.
\<close>

section \<open>Options and constants\<close>

record nbd_config =
  CONFIG_MAX_RETRIES :: nat
  CONFIG_NBD_BUFFER_LEN :: u32

definition kconfig_default :: nbd_config where
  "kconfig_default = \<lparr>CONFIG_MAX_RETRIES = 5, CONFIG_NBD_BUFFER_LEN = 4096\<rparr>"

text \<open>\<^verbatim>\<open>NBD_BUFFER_LEN\<close>, which no file defines, is read as \<^verbatim>\<open>CONFIG_NBD_BUFFER_LEN\<close>.\<close>

definition MAX_REQUEST_SIZE :: "nbd_config \<Rightarrow> nat" where
  "MAX_REQUEST_SIZE cfg = unat (CONFIG_NBD_BUFFER_LEN cfg)"

definition MSG_MORE :: int where "MSG_MORE = 0x8000"

section \<open>Contexts and clients\<close>

datatype client_state = HANDSHAKE | TRANSMISSION | ABORT

record nbd_context = lwnbd_context +
  nc_eflags :: u16
  nc_minimum_block_size :: u32
  nc_preferred_block_size :: u32
  nc_maximum_block_size :: u32
  nc_port :: u16
  nc_max_retry :: u16
  nc_gflags :: u32
  nc_readonly :: u8
  nc_defaultexport :: string
  nc_preinit :: u8
  nc_sock :: int
  nc_state :: client_state

text \<open>\<open>cl_ctx\<close> is a context of the pool.\<close>

record nbd_client =
  cl_sock :: int
  cl_state :: client_state
  cl_ctx :: "nat option"

section \<open>Buffers on the stack\<close>

text \<open>
  An array that was declared without an initialiser holds \<open>None\<close> where nothing was stored yet.
  Reading such a byte is a fault.
\<close>

type_synonym buffer = "byte option list"

definition fresh :: "nat \<Rightarrow> buffer" where "fresh n = replicate n None"

definition store :: "byte list \<Rightarrow> buffer \<Rightarrow> buffer result" where
  "store d buf = mem_write 0 (map Some d) buf"

definition fetch :: "nat \<Rightarrow> buffer \<Rightarrow> byte list result" where
  "fetch n buf =
     bindr (mem_read 0 n buf) (\<lambda>b. if None \<in> set b then Inl Uninitialised else Inr (map the b))"

text \<open>The part of a buffer that holds values, which a callee that gets the address may read.\<close>

definition filled :: "buffer \<Rightarrow> byte list" where
  "filled buf = map the (takeWhile (\<lambda>x. x \<noteq> None) buf)"

lemma length_fresh [simp]: "length (fresh n) = n"
  by (simp add: fresh_def)

lemma store_fits [simp]:
  "length d \<le> length buf \<Longrightarrow> store d buf = Inr (map Some d @ drop (length d) buf)"
  by (simp add: store_def mem_write_def splice_def)

lemma fetch_prefix [simp]: "length d = n \<Longrightarrow> fetch n (map Some d @ r) = Inr d"
  by (auto simp: fetch_def mem_read_def comp_def)

lemma take_filled [simp]: "length d = n \<Longrightarrow> take n (filled (map Some d @ r)) = d"
proof -
  have "takeWhile (\<lambda>x. x \<noteq> None) (map Some d @ r) = map Some d @ takeWhile (\<lambda>x. x \<noteq> None) r"
    by (induction d) simp_all
  then show "length d = n \<Longrightarrow> ?thesis" by (simp add: filled_def comp_def)
qed

lemma length_filled_ge: "length d \<le> length (filled (map Some d @ r))"
proof -
  have "takeWhile (\<lambda>x. x \<noteq> None) (map Some d @ r) = map Some d @ takeWhile (\<lambda>x. x \<noteq> None) r"
    by (induction d) simp_all
  then show ?thesis by (simp add: filled_def)
qed

end
