(* ===== verification/Transmission.thy ===== *)
theory Transmission
  imports Piconbd
begin

text \<open>
  The transmission phase of the NBD server, \<^verbatim>\<open>servers/nbd/protocol.c\<close>: one loop that receives a
  request, does it on the plugin of the context in pieces of the size of the buffer, and replies.
  The local variables live across requests as they do in the C function, and so do the bytes of
  \<^verbatim>\<open>request\<close>, which the code converts to host order in place, on a little-endian machine.
\<close>

section \<open>The code\<close>

definition nbd_commands :: "string list" where
  "nbd_commands = [''NBD_CMD_READ'', ''NBD_CMD_WRITE'', ''NBD_CMD_DISC'', ''NBD_CMD_FLUSH'',
     ''NBD_CMD_TRIM'', ''NBD_CMD_CACHE'', ''NBD_CMD_WRITE_ZEROES'', ''NBD_CMD_BLOCK_STATUS'']"

definition nbd_commands_to_string :: "u16 \<Rightarrow> string result" where
  "nbd_commands_to_string f =
     (if unat f < length nbd_commands then Inr (nbd_commands ! unat f) else Inl Out_Of_Bounds)"

record ('c, 'w, 'n) tx =
  tx_error :: u32
  tx_retry :: nat
  tx_sendflag :: int
  tx_blkremains :: u32
  tx_byteread :: u32
  tx_bufblksz :: u32
  tx_offset :: u64
  tx_request :: buffer
  tx_buffer :: buffer
  tx_ctx :: nbd_context
  tx_lw :: "('c, 'w) lwnbd"
  tx_net :: 'n

text \<open>The request as the conversions leave it in memory.\<close>

definition host_request :: "nbd_request \<Rightarrow> byte list" where
  "host_request q = rev (be32 (rq_magic q)) @ rev (be16 (rq_flags q)) @ rev (be16 (rq_type q))
     @ be64 (rq_handle q) @ rev (be64 (rq_offset q)) @ rev (be32 (rq_count q))"

definition simple_reply :: "nbd_request \<Rightarrow> u32 \<Rightarrow> byte list" where
  "simple_reply q err =
     enc_nbd_simple_reply \<lparr>sr_magic = NBD_SIMPLE_REPLY_MAGIC, sr_error = err, sr_handle = rq_handle q\<rparr>"

text \<open>\<^verbatim>\<open>ctx->sync_send_cb(ctx->sock, &reply, sizeof(reply), flags)\<close>; the result is only logged.\<close>

definition send_reply ::
  "'n transport \<Rightarrow> nbd_request \<Rightarrow> u32 \<Rightarrow> int \<Rightarrow> ('c, 'w, 'n) tx \<Rightarrow> ('c, 'w, 'n) tx run" where
  "send_reply io q err flags t =
     bindp (sync_send_cb io (nc_sock (tx_ctx t)) (simple_reply q err) flags (tx_net t)) (\<lambda>(r, n).
     ret (t\<lparr>tx_net := n\<rparr>))"

text \<open>The head of both loops: the last piece is shorter, and ends the loop.\<close>

definition clamp :: "u32 \<Rightarrow> ('c, 'w, 'n) tx \<Rightarrow> ('c, 'w, 'n) tx" where
  "clamp blocksize t =
     (let t1 = (if tx_blkremains t < tx_bufblksz t
                then t\<lparr>tx_bufblksz := tx_blkremains t, tx_byteread := tx_blkremains t * blocksize\<rparr>
                else t)
      in if tx_blkremains t1 \<le> tx_bufblksz t1 then t1\<lparr>tx_sendflag := 0\<rparr> else t1)"

definition advance :: "nbd_config \<Rightarrow> ('c, 'w, 'n) tx \<Rightarrow> ('c, 'w, 'n) tx" where
  "advance cfg t = t\<lparr>tx_offset := tx_offset t + ucast (tx_bufblksz t),
     tx_blkremains := tx_blkremains t - tx_bufblksz t, tx_retry := CONFIG_MAX_RETRIES cfg\<rparr>"

text \<open>The common head of READ and WRITE: the request is turned into blocks.\<close>

definition start :: "nbd_config \<Rightarrow> u32 \<Rightarrow> nbd_request \<Rightarrow> ('c, 'w, 'n) tx \<Rightarrow> ('c, 'w, 'n) tx result" where
  "start cfg blocksize q t =
     (if blocksize = 0 then Inl Div_By_Zero
      else let bufblksz = CONFIG_NBD_BUFFER_LEN cfg div blocksize
           in Inr (t\<lparr>tx_error := NBD_SUCCESS, tx_sendflag := MSG_MORE, tx_bufblksz := bufblksz,
                    tx_blkremains := rq_count q div blocksize,
                    tx_offset := rq_offset q div ucast blocksize,
                    tx_byteread := bufblksz * blocksize\<rparr>))"

definition read_body ::
  "nbd_config \<Rightarrow> 'n transport \<Rightarrow> u32 \<Rightarrow> ('c, 'w, 'n) tx \<Rightarrow> (flow \<times> ('c, 'w, 'n) tx) run" where
  "read_body cfg io blocksize t =
     (let t1 = clamp blocksize t
      in bindp (lift (lwnbd_pread (tx_lw t1) (tx_ctx t1) (tx_bufblksz t1) (tx_offset t1) 0)) (\<lambda>(r, d, lw).
         bindp (lift (store d (tx_buffer t1))) (\<lambda>buf.
         let t2 = t1\<lparr>tx_lw := lw, tx_buffer := buf\<rparr>
         in if r = 0 then
              bindp (lift (fetch (unat (tx_byteread t2)) buf)) (\<lambda>bytes.
              bindp (sync_send_cb io (nc_sock (tx_ctx t2)) bytes (tx_sendflag t2) (tx_net t2)) (\<lambda>(r, n).
              let t3 = t2\<lparr>tx_net := n\<rparr>
              in if word_of_int r \<noteq> tx_byteread t3 then ret (Break, t3)
                 else ret (Next, advance cfg t3)))
            else if tx_retry t2 \<noteq> 0 then
              ret (Next, t2\<lparr>tx_retry := tx_retry t2 - 1, tx_sendflag := 1\<rparr>)
            else ret (Return (- 1), t2))))"

definition write_body ::
  "nbd_config \<Rightarrow> 'n transport \<Rightarrow> u32 \<Rightarrow> ('c, 'w, 'n) tx \<Rightarrow> (flow \<times> ('c, 'w, 'n) tx) run" where
  "write_body cfg io blocksize t =
     (let t1 = clamp blocksize t
      in bindp (sync_recv_cb io (nc_sock (tx_ctx t1)) (unat (tx_byteread t1)) 0 (tx_net t1)) (\<lambda>(r, d, n).
         bindp (lift (store d (tx_buffer t1))) (\<lambda>buf.
         let t2 = t1\<lparr>tx_net := n, tx_buffer := buf\<rparr>
         in if word_of_int r = tx_byteread t2 then
              bindp (lift (lwnbd_pwrite (tx_lw t2) (tx_ctx t2) (filled buf) (tx_bufblksz t2)
                             (tx_offset t2) 0)) (\<lambda>(r, lw).
              let t3 = t2\<lparr>tx_lw := lw\<rparr>;
                  t4 = (if r \<noteq> 0 then t3\<lparr>tx_error := NBD_EIO, tx_sendflag := 0\<rparr> else t3)
              in ret (Next, advance cfg t4))
            else ret (Next, t2\<lparr>tx_error := NBD_EOVERFLOW, tx_sendflag := 0\<rparr>))))"

text \<open>\<^verbatim>\<open>request.offset + request.count > ctx->exportsize\<close>: both sides are unsigned 64-bit numbers.\<close>

definition past_end :: "nbd_request \<Rightarrow> nbd_context \<Rightarrow> bool" where
  "past_end q ctx = (rq_offset q + ucast (rq_count q) > ctx_exportsize ctx)"

definition sending :: "('c, 'w, 'n) tx \<Rightarrow> bool" where
  "sending t = (tx_sendflag t \<noteq> 0)"

definition cmd_read ::
  "nbd_config \<Rightarrow> 'n transport \<Rightarrow> u32 \<Rightarrow> nbd_request \<Rightarrow> ('c, 'w, 'n) tx \<Rightarrow> (flow \<times> ('c, 'w, 'n) tx) run" where
  "cmd_read cfg io blocksize q t =
     bindp (lift (if past_end q (tx_ctx t) then Inr (t\<lparr>tx_error := NBD_EIO\<rparr>)
                  else start cfg blocksize q t)) (\<lambda>t1.
     bindp (send_reply io q (tx_error t1) (tx_sendflag t1) t1) (\<lambda>t2.
     while_flow sending (read_body cfg io blocksize) t2))"

definition cmd_write ::
  "nbd_config \<Rightarrow> 'n transport \<Rightarrow> u32 \<Rightarrow> nbd_request \<Rightarrow> ('c, 'w, 'n) tx \<Rightarrow> (flow \<times> ('c, 'w, 'n) tx) run" where
  "cmd_write cfg io blocksize q t =
     bindp (lift (if nc_eflags (tx_ctx t) AND NBD_FLAG_READ_ONLY \<noteq> 0
                  then Inr (t\<lparr>tx_error := NBD_EPERM\<rparr>)
                  else if past_end q (tx_ctx t) then Inr (t\<lparr>tx_error := NBD_ENOSPC\<rparr>)
                  else start cfg blocksize q t)) (\<lambda>t1.
     bindp (while_flow sending (write_body cfg io blocksize) t1) (\<lambda>(fl, t2).
     bindp (send_reply io q (tx_error t2) 0 t2) (\<lambda>t3. ret (fl, t3))))"

definition cmd_flush ::
  "'n transport \<Rightarrow> nbd_request \<Rightarrow> ('c, 'w, 'n) tx \<Rightarrow> (flow \<times> ('c, 'w, 'n) tx) run" where
  "cmd_flush io q t =
     bindp (lift (lwnbd_flush (tx_lw t) (tx_ctx t) 0)) (\<lambda>(r, lw).
     let t1 = t\<lparr>tx_lw := lw, tx_error := (if r = 0 then NBD_SUCCESS else NBD_EIO)\<rparr>
     in bindp (send_reply io q (tx_error t1) 0 t1) (\<lambda>t2. ret (Next, t2)))"

text \<open>The \<^verbatim>\<open>switch\<close>.\<close>

definition dispatch ::
  "nbd_config \<Rightarrow> 'n transport \<Rightarrow> u32 \<Rightarrow> nbd_request \<Rightarrow> ('c, 'w, 'n) tx \<Rightarrow> (flow \<times> ('c, 'w, 'n) tx) run" where
  "dispatch cfg io blocksize q t =
     (if rq_type q = NBD_CMD_READ then cmd_read cfg io blocksize q t
      else if rq_type q = NBD_CMD_WRITE then cmd_write cfg io blocksize q t
      else if rq_type q = NBD_CMD_DISC then ret (Return 0, t\<lparr>tx_ctx := (tx_ctx t)\<lparr>nc_state := ABORT\<rparr>\<rparr>)
      else if rq_type q = NBD_CMD_FLUSH then cmd_flush io q t
      else bindp (send_reply io q NBD_EINVAL 0 t) (\<lambda>t1. ret (Next, t1)))"

text \<open>
  One turn of \<^verbatim>\<open>while (1)\<close>.  A negative \<open>r\<close> passes the test against \<^verbatim>\<open>sizeof\<close>, and the code goes on
  with what \<^verbatim>\<open>request\<close> held before.
\<close>

definition request_body ::
  "nbd_config \<Rightarrow> 'n transport \<Rightarrow> u32 \<Rightarrow> ('c, 'w, 'n) tx \<Rightarrow> (flow \<times> ('c, 'w, 'n) tx) run" where
  "request_body cfg io blocksize t =
     bindp (sync_recv_cb io (nc_sock (tx_ctx t)) 28 0 (tx_net t)) (\<lambda>(r, d, n).
     bindp (lift (store d (tx_request t))) (\<lambda>buf.
     let t1 = t\<lparr>tx_request := buf, tx_net := n\<rparr>
     in if lt_size r 28 then ret (Return (- 1), t1)
        else bindp (lift (fetch 4 buf)) (\<lambda>m.
             if rd32 0 m \<noteq> NBD_REQUEST_MAGIC then ret (Return (- 1), t1)
             else bindp (lift (fetch 28 buf)) (\<lambda>b.
                  let q = dec_nbd_request b;
                      t2 = t1\<lparr>tx_request := map Some (host_request q)\<rparr>
                  in bindp (lift (nbd_commands_to_string (rq_type q))) (\<lambda>_.
                     dispatch cfg io blocksize q t2)))))"

definition tx_start ::
  "nbd_config \<Rightarrow> nbd_context \<Rightarrow> ('c, 'w) lwnbd \<Rightarrow> 'n \<Rightarrow> ('c, 'w, 'n) tx" where
  "tx_start cfg ctx lw n =
     \<lparr>tx_error = 0, tx_retry = CONFIG_MAX_RETRIES cfg, tx_sendflag = 0, tx_blkremains = 0,
      tx_byteread = 0, tx_bufblksz = 0, tx_offset = 0, tx_request = fresh 28,
      tx_buffer = fresh (MAX_REQUEST_SIZE cfg), tx_ctx = ctx, tx_lw = lw, tx_net = n\<rparr>"

text \<open>The result, and the context, the library and the network afterwards.\<close>

definition transmission_phase ::
  "nbd_config \<Rightarrow> 'n transport \<Rightarrow> nbd_context option \<Rightarrow> ('c, 'w) lwnbd \<Rightarrow> 'n
    \<Rightarrow> (int \<times> nbd_context option \<times> ('c, 'w) lwnbd \<times> 'n) run" where
  "transmission_phase cfg io ctx lw n =
     (case ctx of
        None \<Rightarrow> ret (- 1, None, lw, n)
      | Some c \<Rightarrow>
          bindp (while_flow (\<lambda>_. True) (request_body cfg io (nc_minimum_block_size c))
                   (tx_start cfg c lw n)) (\<lambda>(fl, t).
          ret (case fl of Return r \<Rightarrow> r | _ \<Rightarrow> - 1, Some (tx_ctx t), tx_lw t, tx_net t)))"

end
