(* ===== verification/Block_Device.thy ===== *)
theory Block_Device
  imports Contexts
begin

text \<open>
  What the NBD server relies on in the plugin behind a context: a fixed number of blocks of \<open>bs\<close>
  bytes, \<open>content\<close>, that \<^verbatim>\<open>pread\<close> reads, \<^verbatim>\<open>pwrite\<close> overwrites and \<^verbatim>\<open>flush\<close> leaves alone.  The theories
  of the plugins interpret the locales on their callbacks; \<open>ok\<close> is the invariant of the plugin's state.
  Nothing is asked of a write of no blocks, which not every plugin survives.
\<close>

locale block_device_ro =
  fixes pread :: "handle \<Rightarrow> u32 \<Rightarrow> u64 \<Rightarrow> u32 \<Rightarrow> 'w \<Rightarrow> (int \<times> byte list \<times> 'w) result"
    and bs :: nat
    and content :: "handle \<Rightarrow> 'w \<Rightarrow> byte list"
    and ok :: "handle \<Rightarrow> 'w \<Rightarrow> bool"
  assumes pread_ok: "ok h w \<Longrightarrow> (unat off + unat n) * bs \<le> length (content h w) \<Longrightarrow>
      \<exists>w'. pread h n off fl w = Inr (0, take (unat n * bs) (drop (unat off * bs) (content h w)), w')
        \<and> ok h w' \<and> content h w' = content h w"
begin

text \<open>Two adjacent reads give what one read gives.\<close>

lemma pread_split:
  "take ((m + n) * bs) (drop (off * bs) d)
   = take (m * bs) (drop (off * bs) d) @ take (n * bs) (drop ((off + m) * bs) d)"
  by (simp add: take_add add_mult_distrib add.commute)

end

locale block_device = block_device_ro pread bs content ok
  for pread :: "handle \<Rightarrow> u32 \<Rightarrow> u64 \<Rightarrow> u32 \<Rightarrow> 'w \<Rightarrow> (int \<times> byte list \<times> 'w) result"
    and bs :: nat
    and content :: "handle \<Rightarrow> 'w \<Rightarrow> byte list"
    and ok :: "handle \<Rightarrow> 'w \<Rightarrow> bool" +
  fixes pwrite :: "handle \<Rightarrow> byte list \<Rightarrow> u32 \<Rightarrow> u64 \<Rightarrow> u32 \<Rightarrow> 'w \<Rightarrow> (int \<times> 'w) result"
    and flush :: "handle \<Rightarrow> u32 \<Rightarrow> 'w \<Rightarrow> (int \<times> 'w) result"
  assumes pwrite_ok: "ok h w \<Longrightarrow> (unat off + unat n) * bs \<le> length (content h w) \<Longrightarrow>
      unat n * bs \<le> length buf \<Longrightarrow> 0 < unat n \<Longrightarrow>
      \<exists>w'. pwrite h buf n off fl w = Inr (0, w') \<and> ok h w'
        \<and> content h w' = splice (unat off * bs) (take (unat n * bs) buf) (content h w)"
    and flush_ok: "ok h w \<Longrightarrow> \<exists>w'. flush h fl w = Inr (0, w') \<and> ok h w' \<and> content h w' = content h w"
begin

text \<open>What is written is what is read back.\<close>

lemma read_back:
  assumes "ok h w" and "(unat off + unat n) * bs \<le> length (content h w)" and "length buf = unat n * bs"
    and "0 < unat n"
    and "pwrite h buf n off fl w = Inr (r, w')"
  shows "r = 0 \<and> (\<exists>w''. pread h n off fl' w' = Inr (0, buf, w''))"
proof -
  have wr: "r = 0" "ok h w'" "content h w' = splice (unat off * bs) buf (content h w)"
    using pwrite_ok [OF assms(1,2), of buf fl] assms(3-5) by auto
  have le: "unat off * bs + length buf \<le> length (content h w)"
    using assms(2,3) by (simp add: add_mult_distrib)
  then have "(unat off + unat n) * bs \<le> length (content h w')"
    using wr(3) assms(2) by simp
  moreover have "take (unat n * bs) (drop (unat off * bs) (content h w')) = buf"
    using wr(3) le slice_splice_same [OF le] assms(3) by simp
  ultimately show ?thesis using pread_ok [OF wr(2), of off n fl'] wr(1) by auto
qed

end

text \<open>
  What a server relies on to stay within its buffers, whatever the requests and whatever fails: no call
  faults and a read stores no more than it was asked for.  Nothing is said of the data, and the offsets
  are not restricted.  A \<open>guarded_device\<close> also stores all of what it reports as read, which not every
  plugin does: the one for sound answers 0 and stores nothing.
\<close>

locale bounded_device =
  fixes pread :: "handle \<Rightarrow> u32 \<Rightarrow> u64 \<Rightarrow> u32 \<Rightarrow> 'w \<Rightarrow> (int \<times> byte list \<times> 'w) result"
    and bs :: nat
    and ok :: "handle \<Rightarrow> 'w \<Rightarrow> bool"
    and pwrite :: "handle \<Rightarrow> byte list \<Rightarrow> u32 \<Rightarrow> u64 \<Rightarrow> u32 \<Rightarrow> 'w \<Rightarrow> (int \<times> 'w) result"
    and flush :: "handle \<Rightarrow> u32 \<Rightarrow> 'w \<Rightarrow> (int \<times> 'w) result"
  assumes pread_safe: "ok h w \<Longrightarrow> \<exists>r d w'. pread h n off fl w = Inr (r, d, w') \<and> ok h w'
      \<and> length d \<le> unat n * bs"
    and pwrite_safe: "ok h w \<Longrightarrow> unat n * bs \<le> length buf \<Longrightarrow>
      \<exists>r w'. pwrite h buf n off fl w = Inr (r, w') \<and> ok h w'"
    and flush_safe: "ok h w \<Longrightarrow> \<exists>r w'. flush h fl w = Inr (r, w') \<and> ok h w'"

text \<open>A read that reports success and stores too little.\<close>

definition short_read ::
  "(handle \<Rightarrow> u32 \<Rightarrow> u64 \<Rightarrow> u32 \<Rightarrow> 'w \<Rightarrow> (int \<times> byte list \<times> 'w) result) \<Rightarrow> nat \<Rightarrow> (handle \<Rightarrow> 'w \<Rightarrow> bool) \<Rightarrow> bool" where
  "short_read pread bs ok \<longleftrightarrow>
     (\<exists>h n off fl w d w'. ok h w \<and> pread h n off fl w = Inr (0, d, w') \<and> length d < unat n * bs)"

locale guarded_device = bounded_device +
  assumes pread_full: "ok h w \<Longrightarrow> pread h n off fl w = Inr (0, d, w') \<Longrightarrow> unat n * bs \<le> length d"
begin

lemma no_short_read: "\<not> short_read pread bs ok"
  using pread_full by (fastforce simp: short_read_def)

end

end
