(* ===== verification/Transmission_Read.thy ===== *)
theory Transmission_Read
  imports Transmission Block_Device
begin

text \<open>
  The pieces of a READ, joined: the locale \<open>nbd_export_ro\<close> puts a transport that delivers and a
  plugin that reads behind the code of the transmission phase.  Its lemmas follow the loop of
  \<^verbatim>\<open>NBD_CMD_READ\<close>, and give its result on a well-formed request in one equation.
\<close>

section \<open>Arithmetic of the requests\<close>

lemma word_of_int_unat: "word_of_int (int (unat (a :: u32))) = a"
  by simp

lemma unat_mult_le:
  assumes "unat a * unat b \<le> unat (c :: u32)"
  shows "unat (a * b :: u32) = unat a * unat b"
proof -
  have "unat a * unat b < 2 ^ 32" using assms unsigned_less [of c, where ?'a = nat] by simp
  then show ?thesis by (simp add: unat_word_ariths)
qed

lemma unat_sub_le: "a \<le> b \<Longrightarrow> unat (b - a :: u32) = unat b - unat a"
  by (simp add: unat_sub word_le_nat_alt)

lemma unat_div_ucast: "unat (a div ucast (b :: u32) :: u64) = unat a div unat b"
  by (simp add: unat_div unat_ucast_u32)

section \<open>One piece\<close>

definition plugin_calls ::
  "(handle \<Rightarrow> u32 \<Rightarrow> u64 \<Rightarrow> u32 \<Rightarrow> 'w \<Rightarrow> (int \<times> byte list \<times> 'w) result)
    \<Rightarrow> nbd_context \<Rightarrow> ('c, 'w) lwnbd \<Rightarrow> bool" where
  "plugin_calls pread ctx lw \<longleftrightarrow> (\<exists>p. plugin_of lw ctx = Inr p \<and> pl_pread p = Some pread)"

lemma plugin_of_world [simp]: "plugin_of (lw\<lparr>world := w\<rparr>) ctx = plugin_of lw ctx"
  by (simp add: plugin_of_def)

lemma plugin_calls_world [simp]: "plugin_calls pread ctx (lw\<lparr>world := w\<rparr>) = plugin_calls pread ctx lw"
  by (simp add: plugin_calls_def)

locale nbd_export_ro =
  stream_transport io inp out link + block_device_ro pread bs content ok
  for io :: "'n transport"
    and inp :: "'n \<Rightarrow> byte list"
    and out :: "'n \<Rightarrow> byte list"
    and link :: "'n \<Rightarrow> bool"
    and pread :: "handle \<Rightarrow> u32 \<Rightarrow> u64 \<Rightarrow> u32 \<Rightarrow> 'w \<Rightarrow> (int \<times> byte list \<times> 'w) result"
    and bs :: nat
    and content :: "handle \<Rightarrow> 'w \<Rightarrow> byte list"
    and ok :: "handle \<Rightarrow> 'w \<Rightarrow> bool" +
  fixes cfg :: nbd_config
    and blocksize :: u32
  assumes block: "unat blocksize = bs" "0 < bs" "bs \<le> MAX_REQUEST_SIZE cfg"
begin

definition disk :: "('c, 'w, 'n) tx \<Rightarrow> byte list" where
  "disk t = content (ctx_handle (tx_ctx t)) (world (tx_lw t))"

text \<open>The server can serve: what holds whenever the loops look at their state.\<close>

definition ready :: "('c, 'w, 'n) tx \<Rightarrow> bool" where
  "ready t \<longleftrightarrow> plugin_calls pread (tx_ctx t) (tx_lw t) \<and> ok (ctx_handle (tx_ctx t)) (world (tx_lw t))
     \<and> link (tx_net t) \<and> length (tx_buffer t) = MAX_REQUEST_SIZE cfg \<and> length (tx_request t) = 28
     \<and> unat (ctx_exportsize (tx_ctx t)) = length (disk t)"

text \<open>What the loops leave alone.\<close>

definition kept :: "('c, 'w, 'n) tx \<Rightarrow> ('c, 'w, 'n) tx \<Rightarrow> bool" where
  "kept t t' \<longleftrightarrow> tx_ctx t' = tx_ctx t \<and> tx_error t' = tx_error t \<and> (\<exists>w. tx_lw t' = (tx_lw t)\<lparr>world := w\<rparr>)"

lemma kept_refl [simp]: "kept t t"
  by (auto simp: kept_def intro: exI [of _ "world (tx_lw t)"])

lemma kept_trans: "kept t t' \<Longrightarrow> kept t' t'' \<Longrightarrow> kept t t''"
  by (auto simp: kept_def)

text \<open>The variables of the loops describe \<open>m\<close> remaining blocks from block \<open>b\<close>, \<open>k\<close> per piece.\<close>

definition piece :: "('c, 'w, 'n) tx \<Rightarrow> nat \<Rightarrow> nat \<Rightarrow> nat \<Rightarrow> bool" where
  "piece t b m k \<longleftrightarrow> unat (tx_offset t) = b \<and> unat (tx_blkremains t) = m \<and> unat (tx_bufblksz t) = k
     \<and> unat (tx_byteread t) = k * bs \<and> k * bs \<le> MAX_REQUEST_SIZE cfg \<and> (b + m) * bs < 2 ^ 64"

lemma clamp_piece:
  assumes "piece t b m k"
  shows "piece (clamp blocksize t) b m (min m k)"
    and "tx_sendflag (clamp blocksize t) = (if m \<le> k then 0 else tx_sendflag t)"
proof -
  have le: "tx_blkremains t < tx_bufblksz t \<longleftrightarrow> m < k" "tx_blkremains t \<le> tx_bufblksz t \<longleftrightarrow> m \<le> k"
    using assms by (simp_all add: piece_def word_less_nat_alt word_le_nat_alt)
  have mult: "unat (tx_blkremains t * blocksize) = m * bs" if "m < k"
  proof -
    have "m * bs \<le> k * bs" using that by simp
    then have "m * bs \<le> unat (CONFIG_NBD_BUFFER_LEN cfg)"
      using assms unfolding piece_def MAX_REQUEST_SIZE_def by linarith
    then show ?thesis
      using assms unat_mult_le [of "tx_blkremains t" blocksize "CONFIG_NBD_BUFFER_LEN cfg"] block(1)
      by (simp add: piece_def)
  qed
  have small: "m * bs \<le> MAX_REQUEST_SIZE cfg" if "m < k"
    using that assms mult_le_mono1 [of m k bs] unfolding piece_def by linarith
  show "piece (clamp blocksize t) b m (min m k)"
    using assms le mult small by (auto simp: piece_def clamp_def Let_def min_def)
  show "tx_sendflag (clamp blocksize t) = (if m \<le> k then 0 else tx_sendflag t)"
    using assms le by (auto simp: clamp_def Let_def piece_def word_le_nat_alt)
qed

lemma clamp_frame [simp]:
  "tx_ctx (clamp bz t) = tx_ctx t" "tx_lw (clamp bz t) = tx_lw t" "tx_net (clamp bz t) = tx_net t"
  "tx_buffer (clamp bz t) = tx_buffer t" "tx_request (clamp bz t) = tx_request t"
  "tx_error (clamp bz t) = tx_error t" "tx_retry (clamp bz t) = tx_retry t"
  by (simp_all add: clamp_def Let_def)

lemma advance_piece:
  assumes "piece t b m k" and "k \<le> m"
  shows "piece (advance cfg t) (b + k) (m - k) k"
proof -
  have "(b + k) * bs \<le> (b + m) * bs" using assms(2) by simp
  then have "(b + k) * bs < 2 ^ 64" using assms(1) unfolding piece_def by linarith
  moreover have "b + k \<le> (b + k) * bs" using block(2) by simp
  ultimately have "b + k < 2 ^ 64" by linarith
  moreover have "tx_bufblksz t \<le> tx_blkremains t"
    using assms by (simp add: piece_def word_le_nat_alt)
  ultimately show ?thesis
    using assms by (simp add: piece_def advance_def unat_add_u32 unat_sub_le)
qed

lemma advance_frame [simp]:
  "tx_ctx (advance c t) = tx_ctx t" "tx_lw (advance c t) = tx_lw t" "tx_net (advance c t) = tx_net t"
  "tx_buffer (advance c t) = tx_buffer t" "tx_request (advance c t) = tx_request t"
  "tx_error (advance c t) = tx_error t" "tx_sendflag (advance c t) = tx_sendflag t"
  by (simp_all add: advance_def)

lemma read_piece:
  fixes t :: "('c, 'w, 'n) tx"
  assumes rd: "ready t" and pc: "piece t b m k" and le: "(b + m) * bs \<le> length (disk t)"
  obtains t' where "read_body cfg io blocksize t = ret (Next, t')" and "ready t'" and "kept t t'"
    and "disk t' = disk t" and "inp (tx_net t') = inp (tx_net t)"
    and "out (tx_net t') = out (tx_net t) @ take (min m k * bs) (drop (b * bs) (disk t))"
    and "piece t' (b + min m k) (m - min m k) (min m k)"
    and "tx_sendflag t' = (if m \<le> k then 0 else tx_sendflag t)"
    and "tx_request t' = tx_request t"
proof -
  let ?j = "min m k" and ?t1 = "clamp blocksize t"
  let ?h = "ctx_handle (tx_ctx t)" and ?w = "world (tx_lw t)"
  let ?d = "take (?j * bs) (drop (b * bs) (disk t))"
  have p1: "piece ?t1 b m ?j" by (rule clamp_piece(1) [OF pc])
  then have off: "unat (tx_offset ?t1) = b" and blk: "unat (tx_bufblksz ?t1) = ?j"
    and byt: "unat (tx_byteread ?t1) = ?j * bs" and buf: "?j * bs \<le> MAX_REQUEST_SIZE cfg"
    by (simp_all add: piece_def)
  have jm: "(b + ?j) * bs \<le> (b + m) * bs" by simp
  then have len: "(b + ?j) * bs \<le> length (disk t)" using le by linarith
  then have ld: "length ?d = ?j * bs" by (simp add: add_mult_distrib)
  obtain pl where pl: "plugin_of (tx_lw t) (tx_ctx t) = Inr pl" "pl_pread pl = Some pread"
    and okw: "ok ?h ?w" and link: "link (tx_net t)" and lb: "length (tx_buffer t) = MAX_REQUEST_SIZE cfg"
    and lr: "length (tx_request t) = 28" and sz: "unat (ctx_exportsize (tx_ctx t)) = length (disk t)"
    using rd by (auto simp: ready_def plugin_calls_def)
  obtain w' where w': "pread ?h (tx_bufblksz ?t1) (tx_offset ?t1) 0 ?w = Inr (0, ?d, w')"
    "ok ?h w'" "content ?h w' = disk t"
    using pread_ok [OF okw, of "tx_offset ?t1" "tx_bufblksz ?t1" 0] off blk len by (auto simp: disk_def)
  obtain n' where n': "sync_send_cb io (nc_sock (tx_ctx t)) ?d (tx_sendflag ?t1) (tx_net t)
      = ret (int (length ?d), n')" "inp n' = inp (tx_net t)" "out n' = out (tx_net t) @ ?d" "link n'"
    using sendE [OF link] .
  define t2 where "t2 = ?t1\<lparr>tx_lw := (tx_lw t)\<lparr>world := w'\<rparr>,
    tx_buffer := map Some ?d @ drop (length ?d) (tx_buffer t), tx_net := n'\<rparr>"
  have sent: "word_of_int (int (length ?d)) = tx_byteread ?t1"
    using word_of_int_unat [of "tx_byteread ?t1"] byt ld by metis
  have "read_body cfg io blocksize t = ret (Next, advance cfg t2)"
    using pl w' n' lb ld buf byt sent
    by (simp add: read_body_def lwnbd_pread_def Let_def t2_def)
  moreover have "piece t2 b m ?j" using p1 by (simp add: t2_def piece_def)
  then have "piece (advance cfg t2) (b + ?j) (m - ?j) ?j" by (rule advance_piece) simp
  moreover have "disk (advance cfg t2) = disk t" using w' by (simp add: t2_def disk_def)
  moreover have "ready (advance cfg t2)"
    using rd w' n' lb ld buf calculation(3) by (simp add: ready_def t2_def)
  moreover have "kept t (advance cfg t2)" by (auto simp: kept_def t2_def)
  ultimately show thesis
    using that [of "advance cfg t2"] n' clamp_piece(2) [OF pc] by (simp add: t2_def)
qed

text \<open>The whole loop: every remaining block is sent, in order and once.\<close>

lemma read_loop:
  fixes t :: "('c, 'w, 'n) tx"
  assumes "ready t" and "piece t b m k" and "(b + m) * bs \<le> length (disk t)"
    and "0 < k" and "tx_sendflag t \<noteq> 0"
  shows "\<exists>t'. while_flow sending (read_body cfg io blocksize) t = ret (Next, t')
    \<and> ready t' \<and> kept t t' \<and> disk t' = disk t \<and> inp (tx_net t') = inp (tx_net t)
    \<and> out (tx_net t') = out (tx_net t) @ take (m * bs) (drop (b * bs) (disk t)) \<and> tx_sendflag t' = 0
    \<and> tx_request t' = tx_request t"
  using assms
proof (induction m arbitrary: t b rule: less_induct)
  case (less m)
  obtain t' where r: "read_body cfg io blocksize t = ret (Next, t')" and t': "ready t'" "kept t t'"
    "disk t' = disk t" "inp (tx_net t') = inp (tx_net t)"
    "out (tx_net t') = out (tx_net t) @ take (min m k * bs) (drop (b * bs) (disk t))"
    "piece t' (b + min m k) (m - min m k) (min m k)"
    "tx_sendflag t' = (if m \<le> k then 0 else tx_sendflag t)" "tx_request t' = tx_request t"
    using read_piece [OF less.prems(1-3)] .
  have step: "while_flow sending (read_body cfg io blocksize) t
      = while_flow sending (read_body cfg io blocksize) t'"
    by (rule while_flow_next) (use less.prems(5) r in \<open>simp_all add: sending_def ret_def\<close>)
  show ?case
  proof (cases "m \<le> k")
    case True
    then have "while_flow sending (read_body cfg io blocksize) t' = ret (Next, t')"
      using t'(7) by (simp add: sending_def ret_def)
    then show ?thesis using step t' True by (simp add: min_def)
  next
    case False
    have mk: "m - k < m" using False less.prems(4) by simp
    obtain t'' where t'': "while_flow sending (read_body cfg io blocksize) t' = ret (Next, t'')"
      "ready t''" "kept t' t''" "disk t'' = disk t'" "inp (tx_net t'') = inp (tx_net t')"
      "out (tx_net t'') = out (tx_net t') @ take ((m - k) * bs) (drop ((b + k) * bs) (disk t'))"
      "tx_sendflag t'' = 0" "tx_request t'' = tx_request t'"
      using less.IH [OF mk t'(1), of "b + k"] t' False less.prems(3-5) by (auto simp: min_def)
    have "take (k * bs) (drop (b * bs) (disk t)) @ take ((m - k) * bs) (drop ((b + k) * bs) (disk t))
        = take (m * bs) (drop (b * bs) (disk t))"
      using pread_split [of k "m - k" b "disk t"] False by simp
    then have "out (tx_net t'') = out (tx_net t) @ take (m * bs) (drop (b * bs) (disk t))"
      using t''(6) t'(3,5) False by (simp add: min_def)
    then show ?thesis
      using step t'' t' False kept_trans [OF t'(2) t''(3)] by simp
  qed
qed

subsection \<open>The request\<close>

text \<open>Between two requests the loop variables are dead, provided that no flag is left over.\<close>

definition idle :: "('c, 'w, 'n) tx \<Rightarrow> bool" where
  "idle t \<longleftrightarrow> ready t \<and> tx_sendflag t = 0"

definition same_server :: "('c, 'w, 'n) tx \<Rightarrow> ('c, 'w, 'n) tx \<Rightarrow> bool" where
  "same_server t t' \<longleftrightarrow> tx_ctx t' = tx_ctx t \<and> (\<exists>w. tx_lw t' = (tx_lw t)\<lparr>world := w\<rparr>)"

lemma past_end_iff:
  assumes "ready t" and "unat (rq_offset q) + unat (rq_count q) < 2 ^ 64"
  shows "past_end q (tx_ctx t) \<longleftrightarrow> length (disk t) < unat (rq_offset q) + unat (rq_count q)"
  using assms by (simp add: past_end_def ready_def word_less_nat_alt unat_add_u32)

lemma start_piece:
  assumes "ready t" and "unat (rq_offset q) + unat (rq_count q) \<le> length (disk t)"
  obtains t1 where "start cfg blocksize q t = Inr t1" and "ready t1" and "disk t1 = disk t"
    and "same_server t t1" and "tx_error t1 = NBD_SUCCESS" and "tx_sendflag t1 = MSG_MORE"
    and "tx_net t1 = tx_net t" and "tx_request t1 = tx_request t" and "tx_buffer t1 = tx_buffer t"
    and "piece t1 (unat (rq_offset q) div bs) (unat (rq_count q) div bs) (MAX_REQUEST_SIZE cfg div bs)"
    and "(unat (rq_offset q) div bs + unat (rq_count q) div bs) * bs \<le> length (disk t)"
    and "0 < MAX_REQUEST_SIZE cfg div bs"
proof -
  let ?len = "CONFIG_NBD_BUFFER_LEN cfg" and ?o = "unat (rq_offset q)" and ?c = "unat (rq_count q)"
  define t1 where "t1 = t\<lparr>tx_error := NBD_SUCCESS, tx_sendflag := MSG_MORE,
     tx_bufblksz := ?len div blocksize, tx_blkremains := rq_count q div blocksize,
     tx_offset := rq_offset q div ucast blocksize, tx_byteread := ?len div blocksize * blocksize\<rparr>"
  have bz: "blocksize \<noteq> 0" using block by auto
  have mult: "unat (?len div blocksize) * unat blocksize \<le> unat ?len" by (simp add: unat_div)
  have le: "(?o div bs + ?c div bs) * bs \<le> length (disk t)"
  proof -
    have "?o div bs * bs \<le> ?o" "?c div bs * bs \<le> ?c" by simp_all
    then show ?thesis using assms(2) unfolding add_mult_distrib by linarith
  qed
  have lim: "length (disk t) < 2 ^ 64"
    using assms(1) unsigned_less [of "ctx_exportsize (tx_ctx t)", where ?'a = nat]
    by (simp add: ready_def)
  have pc: "piece t1 (?o div bs) (?c div bs) (MAX_REQUEST_SIZE cfg div bs)"
    using mult unat_mult_le [OF mult] le lim block(1)
    by (simp add: piece_def t1_def MAX_REQUEST_SIZE_def unat_div unat_ucast_u32)
  have st: "start cfg blocksize q t = Inr t1" using bz by (simp add: start_def t1_def Let_def)
  have pos: "0 < MAX_REQUEST_SIZE cfg div bs" using block by (simp add: div_greater_zero_iff)
  have ss: "same_server t t1" by (auto simp: same_server_def t1_def intro: exI [of _ "world (tx_lw t)"])
  have "ready t1" "disk t1 = disk t" using assms(1) by (simp_all add: ready_def disk_def t1_def)
  then show thesis using that [OF st _ _ ss _ _ _ _ _ pc le pos] by (simp add: t1_def)
qed

lemma send_replyE:
  assumes "ready t"
  obtains n' where "send_reply io q err fl t = ret (t\<lparr>tx_net := n'\<rparr>)" and "inp n' = inp (tx_net t)"
    and "out n' = out (tx_net t) @ simple_reply q err" and "link n'"
proof -
  have "link (tx_net t)" using assms by (simp add: ready_def)
  then obtain n' where "sync_send_cb io (nc_sock (tx_ctx t)) (simple_reply q err) fl (tx_net t)
      = ret (int (length (simple_reply q err)), n')" "inp n' = inp (tx_net t)"
    "out n' = out (tx_net t) @ simple_reply q err" "link n'"
    by (rule sendE)
  then show thesis using that by (simp add: send_reply_def)
qed

lemma ready_net: "ready t \<Longrightarrow> link n \<Longrightarrow> ready (t\<lparr>tx_net := n\<rparr>)"
  by (simp add: ready_def disk_def)

lemma disk_net [simp]: "disk (t\<lparr>tx_net := n\<rparr>) = disk t"
  by (simp add: disk_def)

text \<open>A READ inside the export: success, then the blocks it covers.\<close>

lemma cmd_read_inside:
  fixes t :: "('c, 'w, 'n) tx"
  assumes "ready t" and "unat (rq_offset q) + unat (rq_count q) \<le> length (disk t)"
  shows "\<exists>t'. cmd_read cfg io blocksize q t = ret (Next, t') \<and> idle t' \<and> same_server t t'
    \<and> disk t' = disk t \<and> inp (tx_net t') = inp (tx_net t) \<and> tx_request t' = tx_request t
    \<and> out (tx_net t') = out (tx_net t) @ simple_reply q NBD_SUCCESS
        @ take (unat (rq_count q) div bs * bs) (drop (unat (rq_offset q) div bs * bs) (disk t))"
proof -
  have "unat (rq_offset q) + unat (rq_count q) < 2 ^ 64"
    using assms unsigned_less [of "ctx_exportsize (tx_ctx t)", where ?'a = nat] by (simp add: ready_def)
  then have in_: "\<not> past_end q (tx_ctx t)" using past_end_iff [OF assms(1)] assms(2) by simp
  obtain t1 where t1: "start cfg blocksize q t = Inr t1" "ready t1" "disk t1 = disk t"
    "same_server t t1" "tx_error t1 = NBD_SUCCESS" "tx_sendflag t1 = MSG_MORE"
    "tx_net t1 = tx_net t" "tx_request t1 = tx_request t"
    and pc: "piece t1 (unat (rq_offset q) div bs) (unat (rq_count q) div bs) (MAX_REQUEST_SIZE cfg div bs)"
    and le: "(unat (rq_offset q) div bs + unat (rq_count q) div bs) * bs \<le> length (disk t)"
    and pos: "0 < MAX_REQUEST_SIZE cfg div bs"
    using start_piece [OF assms] by metis
  obtain n' where n': "send_reply io q NBD_SUCCESS MSG_MORE t1 = ret (t1\<lparr>tx_net := n'\<rparr>)"
    "inp n' = inp (tx_net t1)" "out n' = out (tx_net t1) @ simple_reply q NBD_SUCCESS" "link n'"
    using send_replyE [OF t1(2)] .
  let ?t2 = "t1\<lparr>tx_net := n'\<rparr>"
  have p2: "piece ?t2 (unat (rq_offset q) div bs) (unat (rq_count q) div bs) (MAX_REQUEST_SIZE cfg div bs)"
    using pc by (simp add: piece_def)
  obtain t' where t': "while_flow sending (read_body cfg io blocksize) ?t2 = ret (Next, t')"
    "ready t'" "kept ?t2 t'" "disk t' = disk ?t2" "inp (tx_net t') = inp (tx_net ?t2)"
    "out (tx_net t') = out (tx_net ?t2) @ take (unat (rq_count q) div bs * bs)
       (drop (unat (rq_offset q) div bs * bs) (disk ?t2))" "tx_sendflag t' = 0" "tx_request t' = tx_request ?t2"
    using read_loop [OF ready_net [OF t1(2) n'(4)] p2 _ pos] le t1(3,6) by (auto simp: MSG_MORE_def)
  have "cmd_read cfg io blocksize q t = ret (Next, t')"
    using in_ t1(1,5,6) n'(1) t'(1) by (simp add: cmd_read_def)
  moreover have "same_server t t'" using t1(4) t'(3) by (auto simp: same_server_def kept_def)
  ultimately show ?thesis using t' t1 n' by (simp add: idle_def)
qed

text \<open>A READ past the end of the export: the error, and no data.\<close>

lemma cmd_read_outside:
  fixes t :: "('c, 'w, 'n) tx"
  assumes "idle t" and "past_end q (tx_ctx t)"
  shows "\<exists>t'. cmd_read cfg io blocksize q t = ret (Next, t') \<and> idle t' \<and> same_server t t'
    \<and> disk t' = disk t \<and> inp (tx_net t') = inp (tx_net t) \<and> tx_request t' = tx_request t
    \<and> out (tx_net t') = out (tx_net t) @ simple_reply q NBD_EIO"
proof -
  let ?t1 = "t\<lparr>tx_error := NBD_EIO\<rparr>"
  have r: "ready ?t1" using assms(1) by (simp add: idle_def ready_def disk_def)
  obtain n' where n': "send_reply io q NBD_EIO 0 ?t1 = ret (?t1\<lparr>tx_net := n'\<rparr>)"
    "inp n' = inp (tx_net ?t1)" "out n' = out (tx_net ?t1) @ simple_reply q NBD_EIO" "link n'"
    using send_replyE [OF r] .
  have "cmd_read cfg io blocksize q t = ret (Next, ?t1\<lparr>tx_net := n'\<rparr>)"
    using assms n'(1) by (simp add: cmd_read_def idle_def sending_def ret_def)
  moreover have "ready (?t1\<lparr>tx_net := n'\<rparr>)" by (rule ready_net [OF r n'(4)])
  moreover have "same_server t (?t1\<lparr>tx_net := n'\<rparr>)"
    by (auto simp: same_server_def intro: exI [of _ "world (tx_lw t)"])
  ultimately show ?thesis using assms(1) n' by (simp add: idle_def disk_def)
qed

end

end
