(* ===== verification/Transmission_Write.thy ===== *)
theory Transmission_Write
  imports Transmission_Read
begin

text \<open>
  The pieces of a WRITE, the flush and the turn of the outer loop.  The locale \<open>nbd_export\<close> adds a
  plugin that writes to \<open>nbd_export_ro\<close>; the lemmas follow the loop of \<^verbatim>\<open>NBD_CMD_WRITE\<close>.
\<close>

definition plugin_writes ::
  "(handle \<Rightarrow> byte list \<Rightarrow> u32 \<Rightarrow> u64 \<Rightarrow> u32 \<Rightarrow> 'w \<Rightarrow> (int \<times> 'w) result)
    \<Rightarrow> (handle \<Rightarrow> u32 \<Rightarrow> 'w \<Rightarrow> (int \<times> 'w) result) \<Rightarrow> nbd_context \<Rightarrow> ('c, 'w) lwnbd \<Rightarrow> bool" where
  "plugin_writes pwrite flush ctx lw \<longleftrightarrow>
     (\<exists>p. plugin_of lw ctx = Inr p \<and> pl_pwrite p = Some pwrite \<and> pl_flush p = Some flush)"

lemma plugin_writes_world [simp]:
  "plugin_writes pwrite flush ctx (lw\<lparr>world := w\<rparr>) = plugin_writes pwrite flush ctx lw"
  by (simp add: plugin_writes_def)

locale nbd_export =
  nbd_export_ro io inp out link pread bs content ok cfg blocksize
  + block_device pread bs content ok pwrite flush
  for io :: "'n transport"
    and inp :: "'n \<Rightarrow> byte list"
    and out :: "'n \<Rightarrow> byte list"
    and link :: "'n \<Rightarrow> bool"
    and pread :: "handle \<Rightarrow> u32 \<Rightarrow> u64 \<Rightarrow> u32 \<Rightarrow> 'w \<Rightarrow> (int \<times> byte list \<times> 'w) result"
    and bs :: nat
    and content :: "handle \<Rightarrow> 'w \<Rightarrow> byte list"
    and ok :: "handle \<Rightarrow> 'w \<Rightarrow> bool"
    and cfg :: nbd_config
    and blocksize :: u32
    and pwrite :: "handle \<Rightarrow> byte list \<Rightarrow> u32 \<Rightarrow> u64 \<Rightarrow> u32 \<Rightarrow> 'w \<Rightarrow> (int \<times> 'w) result"
    and flush :: "handle \<Rightarrow> u32 \<Rightarrow> 'w \<Rightarrow> (int \<times> 'w) result"
begin

definition ready_rw :: "('c, 'w, 'n) tx \<Rightarrow> bool" where
  "ready_rw t \<longleftrightarrow> ready t \<and> plugin_writes pwrite flush (tx_ctx t) (tx_lw t)
     \<and> nc_eflags (tx_ctx t) AND NBD_FLAG_READ_ONLY = 0"

lemma write_piece:
  fixes t :: "('c, 'w, 'n) tx"
  assumes rd: "ready_rw t" and pc: "piece t b m k" and le: "(b + m) * bs \<le> length (disk t)"
    and input: "inp (tx_net t) = d @ r" and ld: "length d = min m k * bs" and mk: "0 < m" "0 < k"
  obtains t' where "write_body cfg io blocksize t = ret (Next, t')" and "ready_rw t'" and "kept t t'"
    and "disk t' = splice (b * bs) d (disk t)" and "inp (tx_net t') = r"
    and "out (tx_net t') = out (tx_net t)" and "tx_request t' = tx_request t"
    and "piece t' (b + min m k) (m - min m k) (min m k)"
    and "tx_sendflag t' = (if m \<le> k then 0 else tx_sendflag t)"
proof -
  let ?j = "min m k" and ?t1 = "clamp blocksize t"
  let ?h = "ctx_handle (tx_ctx t)" and ?w = "world (tx_lw t)"
  have p1: "piece ?t1 b m ?j" by (rule clamp_piece(1) [OF pc])
  then have off: "unat (tx_offset ?t1) = b" and blk: "unat (tx_bufblksz ?t1) = ?j"
    and byt: "unat (tx_byteread ?t1) = length d" and buf: "length d \<le> MAX_REQUEST_SIZE cfg"
    using ld by (simp_all add: piece_def)
  have "(b + ?j) * bs \<le> (b + m) * bs" by simp
  then have len: "(b + ?j) * bs \<le> length (disk t)" using le by linarith
  obtain pl where pl: "plugin_of (tx_lw t) (tx_ctx t) = Inr pl" "pl_pwrite pl = Some pwrite"
    and okw: "ok ?h ?w" and link: "link (tx_net t)" and lb: "length (tx_buffer t) = MAX_REQUEST_SIZE cfg"
    using rd by (auto simp: ready_rw_def ready_def plugin_calls_def plugin_writes_def)
  have "length d < 2 ^ 32" using byt unsigned_less [of "tx_byteread ?t1", where ?'a = nat] by simp
  then have l63: "length d < 2 ^ 63" by simp
  obtain n' where n': "sync_recv_cb io (nc_sock (tx_ctx t)) (length d) 0 (tx_net t)
      = ret (int (length d), d, n')" "inp n' = r" "out n' = out (tx_net t)" "link n'"
    using recv_fullE [OF link input l63] .
  let ?buf = "map Some d @ drop (length d) (tx_buffer t)"
  have "length d \<le> length (filled ?buf)" by (rule length_filled_ge)
  then have fill: "unat (tx_bufblksz ?t1) * bs \<le> length (filled ?buf)" using blk ld by simp
  have tk: "take (unat (tx_bufblksz ?t1) * bs) (filled ?buf) = d" using take_filled blk ld by simp
  obtain w' where w': "pwrite ?h (filled ?buf) (tx_bufblksz ?t1) (tx_offset ?t1) 0 ?w = Inr (0, w')"
    "ok ?h w'" "content ?h w' = splice (b * bs) d (disk t)"
    using pwrite_ok [OF okw _ fill, of "tx_offset ?t1" 0] off blk len tk mk by (auto simp: disk_def)
  define t2 where "t2 = ?t1\<lparr>tx_net := n', tx_buffer := ?buf, tx_lw := (tx_lw t)\<lparr>world := w'\<rparr>\<rparr>"
  have got: "word_of_int (int (length d)) = tx_byteread ?t1"
    using word_of_int_unat [of "tx_byteread ?t1"] byt by metis
  have run: "write_body cfg io blocksize t = ret (Next, advance cfg t2)"
    using pl w'(1) n'(1) lb buf byt got
    by (simp add: write_body_def lwnbd_pwrite_def Let_def t2_def)
  have "piece t2 b m ?j" using p1 by (simp add: t2_def piece_def)
  then have pc2: "piece (advance cfg t2) (b + ?j) (m - ?j) ?j" by (rule advance_piece) simp
  have dk: "disk (advance cfg t2) = splice (b * bs) d (disk t)"
    using w'(3) by (simp add: t2_def disk_def)
  have "b * bs + length d \<le> length (disk t)" using len ld by (simp add: add_mult_distrib)
  then have "ready_rw (advance cfg t2)"
    using rd w' n' lb buf dk by (simp add: ready_rw_def ready_def t2_def)
  moreover have "kept t (advance cfg t2)" by (auto simp: kept_def t2_def)
  ultimately show thesis
    using that [OF run _ _ dk] n' pc2 clamp_piece(2) [OF pc] by (simp add: t2_def)
qed

text \<open>The whole loop: the payload lands on the blocks of the request, all of it and nothing else.\<close>

lemma write_loop:
  fixes t :: "('c, 'w, 'n) tx"
  assumes "ready_rw t" and "piece t b m k" and "(b + m) * bs \<le> length (disk t)"
    and "0 < k" and "tx_sendflag t \<noteq> 0"
    and "inp (tx_net t) = d @ r" and "length d = m * bs" and "0 < m"
  shows "\<exists>t'. while_flow sending (write_body cfg io blocksize) t = ret (Next, t')
    \<and> ready_rw t' \<and> kept t t' \<and> disk t' = splice (b * bs) d (disk t) \<and> inp (tx_net t') = r
    \<and> out (tx_net t') = out (tx_net t) \<and> tx_sendflag t' = 0 \<and> tx_request t' = tx_request t"
  using assms
proof (induction m arbitrary: t b d rule: less_induct)
  case (less m)
  let ?d = "take (min m k * bs) d" and ?e = "drop (min m k * bs) d"
  have jm: "min m k * bs \<le> m * bs" by simp
  have ld: "length ?d = min m k * bs" using less.prems(7) jm by simp
  have input: "inp (tx_net t) = ?d @ ?e @ r" using less.prems(6) by simp
  obtain t' where r: "write_body cfg io blocksize t = ret (Next, t')" and t': "ready_rw t'" "kept t t'"
    "disk t' = splice (b * bs) ?d (disk t)" "inp (tx_net t') = ?e @ r"
    "out (tx_net t') = out (tx_net t)" "tx_request t' = tx_request t"
    "piece t' (b + min m k) (m - min m k) (min m k)"
    "tx_sendflag t' = (if m \<le> k then 0 else tx_sendflag t)"
    using write_piece [OF less.prems(1-3) input ld less.prems(8,4)] .
  have step: "while_flow sending (write_body cfg io blocksize) t
      = while_flow sending (write_body cfg io blocksize) t'"
    by (rule while_flow_next) (use less.prems(5) r in \<open>simp_all add: sending_def ret_def\<close>)
  show ?case
  proof (cases "m \<le> k")
    case True
    then have "while_flow sending (write_body cfg io blocksize) t' = ret (Next, t')"
      using t'(8) by (simp add: sending_def ret_def)
    then show ?thesis using step t' True less.prems(7) by (simp add: min_def)
  next
    case False
    have le: "b * bs + length d \<le> length (disk t)"
      using less.prems(3,7) by (simp add: add_mult_distrib)
    then have "b * bs + length ?d \<le> length (disk t)" by simp
    then have lt: "length (disk t') = length (disk t)" using t'(3) by simp
    have mk: "m - k < m" using False less.prems(4) by simp
    have bk: "b + k + (m - k) = b + m" using False by simp
    obtain t'' where t'': "while_flow sending (write_body cfg io blocksize) t' = ret (Next, t'')"
      "ready_rw t''" "kept t' t''" "disk t'' = splice ((b + k) * bs) ?e (disk t')"
      "inp (tx_net t'') = r" "out (tx_net t'') = out (tx_net t')"
      "tx_sendflag t'' = 0" "tx_request t'' = tx_request t'"
      using less.IH [OF mk t'(1), of "b + k" ?e] t' False less.prems(3-7) lt bk
      by (auto simp: min_def diff_mult_distrib)
    have "splice (b * bs + length ?d) ?e (splice (b * bs) ?d (disk t)) = splice (b * bs) (?d @ ?e) (disk t)"
      by (rule splice_splice) (use le in simp)
    then have "disk t'' = splice (b * bs) d (disk t)"
      using t''(4) t'(3) ld False by (simp add: min_def add_mult_distrib)
    then show ?thesis
      using step t'' t' False kept_trans [OF t'(2) t''(3)] by simp
  qed
qed

section \<open>The requests\<close>

definition idle_rw :: "('c, 'w, 'n) tx \<Rightarrow> bool" where
  "idle_rw t \<longleftrightarrow> ready_rw t \<and> tx_sendflag t = 0"

lemma idle_rw_iff: "idle_rw t \<longleftrightarrow> idle t \<and> plugin_writes pwrite flush (tx_ctx t) (tx_lw t)
     \<and> nc_eflags (tx_ctx t) AND NBD_FLAG_READ_ONLY = 0"
  by (auto simp: idle_rw_def ready_rw_def idle_def)

lemma idle_rw_same_server: "idle_rw t \<Longrightarrow> idle t' \<Longrightarrow> same_server t t' \<Longrightarrow> idle_rw t'"
  by (auto simp: idle_rw_iff same_server_def)

text \<open>A WRITE inside the export: the whole blocks of its payload are stored, then success.\<close>

lemma cmd_write_inside:
  fixes t :: "('c, 'w, 'n) tx"
  assumes "ready_rw t" and "unat (rq_offset q) + unat (rq_count q) \<le> length (disk t)"
    and "inp (tx_net t) = d @ r" and "length d = unat (rq_count q) div bs * bs"
    and "0 < unat (rq_count q) div bs"
  shows "\<exists>t'. cmd_write cfg io blocksize q t = ret (Next, t') \<and> idle_rw t' \<and> same_server t t'
    \<and> disk t' = splice (unat (rq_offset q) div bs * bs) d (disk t) \<and> inp (tx_net t') = r
    \<and> tx_request t' = tx_request t \<and> out (tx_net t') = out (tx_net t) @ simple_reply q NBD_SUCCESS"
proof -
  have rd: "ready t" and rw: "nc_eflags (tx_ctx t) AND NBD_FLAG_READ_ONLY = 0"
    using assms(1) by (simp_all add: ready_rw_def)
  have "unat (rq_offset q) + unat (rq_count q) < 2 ^ 64"
    using rd assms(2) unsigned_less [of "ctx_exportsize (tx_ctx t)", where ?'a = nat] by (simp add: ready_def)
  then have in_: "\<not> past_end q (tx_ctx t)" using past_end_iff [OF rd] assms(2) by simp
  obtain t1 where t1: "start cfg blocksize q t = Inr t1" "ready t1" "disk t1 = disk t"
    "same_server t t1" "tx_error t1 = NBD_SUCCESS" "tx_sendflag t1 = MSG_MORE"
    "tx_net t1 = tx_net t" "tx_request t1 = tx_request t"
    and pc: "piece t1 (unat (rq_offset q) div bs) (unat (rq_count q) div bs) (MAX_REQUEST_SIZE cfg div bs)"
    and le: "(unat (rq_offset q) div bs + unat (rq_count q) div bs) * bs \<le> length (disk t)"
    and pos: "0 < MAX_REQUEST_SIZE cfg div bs"
    using start_piece [OF rd assms(2)] by metis
  have r1: "ready_rw t1" using assms(1) t1(2,4) by (auto simp: ready_rw_def same_server_def)
  obtain t2 where t2: "while_flow sending (write_body cfg io blocksize) t1 = ret (Next, t2)"
    "ready_rw t2" "kept t1 t2" "disk t2 = splice (unat (rq_offset q) div bs * bs) d (disk t1)"
    "inp (tx_net t2) = r" "out (tx_net t2) = out (tx_net t1)" "tx_sendflag t2 = 0"
    "tx_request t2 = tx_request t1"
    using write_loop [OF r1 pc _ pos _ _ assms(4,5)] le t1(3,6,7) assms(3) by (auto simp: MSG_MORE_def)
  have r2: "ready t2" using t2(2) by (simp add: ready_rw_def)
  obtain n' where n': "send_reply io q NBD_SUCCESS 0 t2 = ret (t2\<lparr>tx_net := n'\<rparr>)"
    "inp n' = inp (tx_net t2)" "out n' = out (tx_net t2) @ simple_reply q NBD_SUCCESS" "link n'"
    using send_replyE [OF r2] .
  have "tx_error t2 = NBD_SUCCESS" using t2(3) t1(5) by (simp add: kept_def)
  then have "cmd_write cfg io blocksize q t = ret (Next, t2\<lparr>tx_net := n'\<rparr>)"
    using in_ rw t1(1) t2(1) n'(1) by (simp add: cmd_write_def)
  moreover have "same_server t t2" using t1(4) t2(3) by (auto simp: same_server_def kept_def)
  then have "same_server t (t2\<lparr>tx_net := n'\<rparr>)" by (simp add: same_server_def)
  moreover have "idle_rw (t2\<lparr>tx_net := n'\<rparr>)"
    using t2(2,7) ready_net [OF r2 n'(4)] by (simp add: idle_rw_def ready_rw_def)
  ultimately show ?thesis using t1 t2 n' by simp
qed

text \<open>The replies without data: all that changes is what was sent.\<close>

lemma reply_only:
  fixes t :: "('c, 'w, 'n) tx"
  assumes "idle t"
  obtains t' where "send_reply io q err 0 t = ret t'" and "idle t'" and "same_server t t'"
    and "disk t' = disk t" and "inp (tx_net t') = inp (tx_net t)" and "tx_request t' = tx_request t"
    and "out (tx_net t') = out (tx_net t) @ simple_reply q err"
proof -
  have rd: "ready t" using assms by (simp add: idle_def)
  obtain n' where n': "send_reply io q err 0 t = ret (t\<lparr>tx_net := n'\<rparr>)" "inp n' = inp (tx_net t)"
    "out n' = out (tx_net t) @ simple_reply q err" "link n'"
    using send_replyE [OF rd] .
  have "idle (t\<lparr>tx_net := n'\<rparr>)" using assms ready_net [OF rd n'(4)] by (simp add: idle_def)
  moreover have "same_server t (t\<lparr>tx_net := n'\<rparr>)"
    by (auto simp: same_server_def intro: exI [of _ "world (tx_lw t)"])
  ultimately show thesis using that [OF n'(1)] n' by simp
qed

text \<open>A WRITE that is refused leaves its payload in the stream.\<close>

lemma cmd_write_refused:
  fixes t :: "('c, 'w, 'n) tx"
  assumes "idle t"
    and "err = (if nc_eflags (tx_ctx t) AND NBD_FLAG_READ_ONLY \<noteq> 0 then NBD_EPERM else NBD_ENOSPC)"
    and "nc_eflags (tx_ctx t) AND NBD_FLAG_READ_ONLY \<noteq> 0 \<or> past_end q (tx_ctx t)"
  shows "\<exists>t'. cmd_write cfg io blocksize q t = ret (Next, t') \<and> idle t' \<and> same_server t t'
    \<and> disk t' = disk t \<and> inp (tx_net t') = inp (tx_net t) \<and> tx_request t' = tx_request t
    \<and> out (tx_net t') = out (tx_net t) @ simple_reply q err"
proof -
  let ?t1 = "t\<lparr>tx_error := err\<rparr>"
  have "idle ?t1" using assms(1) by (simp add: idle_def ready_def disk_def)
  then obtain t' where t': "send_reply io q err 0 ?t1 = ret t'" "idle t'" "same_server ?t1 t'"
    "disk t' = disk ?t1" "inp (tx_net t') = inp (tx_net ?t1)" "tx_request t' = tx_request ?t1"
    "out (tx_net t') = out (tx_net ?t1) @ simple_reply q err"
    using reply_only by metis
  have "cmd_write cfg io blocksize q t = ret (Next, t')"
    using assms t'(1)
    by (cases "nc_eflags (tx_ctx t) AND NBD_FLAG_READ_ONLY = 0")
      (simp_all add: cmd_write_def idle_def sending_def ret_def)
  then show ?thesis using t' by (simp add: same_server_def disk_def)
qed

lemma cmd_flush_done:
  fixes t :: "('c, 'w, 'n) tx"
  assumes "idle_rw t"
  shows "\<exists>t'. cmd_flush io q t = ret (Next, t') \<and> idle_rw t' \<and> same_server t t'
    \<and> disk t' = disk t \<and> inp (tx_net t') = inp (tx_net t) \<and> tx_request t' = tx_request t
    \<and> out (tx_net t') = out (tx_net t) @ simple_reply q NBD_SUCCESS"
proof -
  let ?h = "ctx_handle (tx_ctx t)"
  obtain pl where pl: "plugin_of (tx_lw t) (tx_ctx t) = Inr pl" "pl_flush pl = Some flush"
    and okw: "ok ?h (world (tx_lw t))"
    using assms by (auto simp: idle_rw_def ready_rw_def ready_def plugin_writes_def)
  obtain w' where w': "flush ?h 0 (world (tx_lw t)) = Inr (0, w')" "ok ?h w'" "content ?h w' = disk t"
    using flush_ok [OF okw] by (auto simp: disk_def)
  let ?t1 = "t\<lparr>tx_lw := (tx_lw t)\<lparr>world := w'\<rparr>, tx_error := NBD_SUCCESS\<rparr>"
  have dk: "disk ?t1 = disk t" using w'(3) by (simp add: disk_def)
  have i1: "idle ?t1" using assms w' dk by (simp add: idle_rw_iff idle_def ready_def)
  obtain t' where t': "send_reply io q NBD_SUCCESS 0 ?t1 = ret t'" "idle t'" "same_server ?t1 t'"
    "disk t' = disk ?t1" "inp (tx_net t') = inp (tx_net ?t1)" "tx_request t' = tx_request ?t1"
    "out (tx_net t') = out (tx_net ?t1) @ simple_reply q NBD_SUCCESS"
    using reply_only [OF i1] by metis
  have "cmd_flush io q t = ret (Next, t')"
    using pl w'(1) t'(1) by (simp add: cmd_flush_def lwnbd_flush_def Let_def)
  moreover have "same_server t t'" using t'(3) by (auto simp: same_server_def)
  ultimately show ?thesis using t' dk idle_rw_same_server [OF assms t'(2)] by simp
qed

end

end
