(* ===== verification/Transmission_Session.thy ===== *)
theory Transmission_Session
  imports Transmission_Write
begin

text \<open>
  Whole sessions.  A client sends commands; the abstract server \<open>serve\<close> is what the NBD protocol
  asks for, on a byte array.  The lemmas show that the transmission phase refines it: on the
  stream of any list of commands that are legal for the export it answers with the replies of
  \<open>serve\<close> and leaves its array.
\<close>

section \<open>The abstract server\<close>

datatype command =
    Read u16 u64 u64 u32
  | Write u16 u64 u64 "byte list"
  | Flush u16 u64
  | Other u16 u16 u64 u64 u32

text \<open>The header of a command on the wire, and what follows it.\<close>

fun request_of :: "command \<Rightarrow> nbd_request" where
  "request_of (Read fl h off n) = \<lparr>rq_magic = NBD_REQUEST_MAGIC, rq_flags = fl, rq_type = NBD_CMD_READ,
     rq_handle = h, rq_offset = off, rq_count = n\<rparr>"
| "request_of (Write fl h off d) = \<lparr>rq_magic = NBD_REQUEST_MAGIC, rq_flags = fl, rq_type = NBD_CMD_WRITE,
     rq_handle = h, rq_offset = off, rq_count = of_nat (length d)\<rparr>"
| "request_of (Flush fl h) = \<lparr>rq_magic = NBD_REQUEST_MAGIC, rq_flags = fl, rq_type = NBD_CMD_FLUSH,
     rq_handle = h, rq_offset = 0, rq_count = 0\<rparr>"
| "request_of (Other ty fl h off n) = \<lparr>rq_magic = NBD_REQUEST_MAGIC, rq_flags = fl, rq_type = ty,
     rq_handle = h, rq_offset = off, rq_count = n\<rparr>"

fun payload :: "command \<Rightarrow> byte list" where
  "payload (Write fl h off d) = d"
| "payload _ = []"

definition wire :: "command \<Rightarrow> byte list" where
  "wire c = enc_nbd_request (request_of c) @ payload c"

definition disconnect :: "u16 \<Rightarrow> u64 \<Rightarrow> byte list" where
  "disconnect fl h = enc_nbd_request \<lparr>rq_magic = NBD_REQUEST_MAGIC, rq_flags = fl,
     rq_type = NBD_CMD_DISC, rq_handle = h, rq_offset = 0, rq_count = 0\<rparr>"

text \<open>The reply of a command and the array after it.\<close>

fun serve :: "command \<Rightarrow> byte list \<Rightarrow> byte list \<times> byte list" where
  "serve (Read fl h off n) d =
     (if unat off + unat n \<le> length d
      then (simple_reply (request_of (Read fl h off n)) NBD_SUCCESS @ take (unat n) (drop (unat off) d), d)
      else (simple_reply (request_of (Read fl h off n)) NBD_EIO, d))"
| "serve (Write fl h off b) d =
     (simple_reply (request_of (Write fl h off b)) NBD_SUCCESS, splice (unat off) b d)"
| "serve (Flush fl h) d = (simple_reply (request_of (Flush fl h)) NBD_SUCCESS, d)"
| "serve (Other ty fl h off n) d = (simple_reply (request_of (Other ty fl h off n)) NBD_EINVAL, d)"

fun serve_all :: "command list \<Rightarrow> byte list \<Rightarrow> byte list \<times> byte list" where
  "serve_all [] d = ([], d)"
| "serve_all (c # cs) d =
     (let (a, d1) = serve c d; (b, d2) = serve_all cs d1 in (a @ b, d2))"

text \<open>
  What the client may send to an export of \<open>len\<close> bytes in blocks of \<open>bs\<close>: reads that do not wrap
  around and, inside the export, cover whole blocks; writes of at least one whole block inside the export; the
  commands that the server knows but does not support.
\<close>

fun legal :: "nat \<Rightarrow> nat \<Rightarrow> command \<Rightarrow> bool" where
  "legal bs len (Read fl h off n) \<longleftrightarrow> unat off + unat n < 2 ^ 64
     \<and> (unat off + unat n \<le> len \<longrightarrow> bs dvd unat off \<and> bs dvd unat n)"
| "legal bs len (Write fl h off b) \<longleftrightarrow> unat off + length b \<le> len \<and> length b < 2 ^ 32
     \<and> bs dvd unat off \<and> bs dvd length b \<and> b \<noteq> []"
| "legal bs len (Flush fl h) \<longleftrightarrow> True"
| "legal bs len (Other ty fl h off n) \<longleftrightarrow> 4 \<le> unat ty \<and> unat ty < 8"

lemma length_serve: "legal bs (length d) c \<Longrightarrow> length (snd (serve c d)) = length d"
  by (cases c) auto

lemma request_of_magic [simp]: "rq_magic (request_of c) = NBD_REQUEST_MAGIC"
  by (cases c) simp_all

lemma legal_type: "legal bs len c \<Longrightarrow> unat (rq_type (request_of c)) < 8"
  by (cases c) (auto simp: nbd_consts word_less_nat_alt)

section \<open>One turn of the outer loop\<close>

lemma commands_known: "unat f < 8 \<Longrightarrow> \<exists>s. nbd_commands_to_string f = Inr s"
  by (simp add: nbd_commands_to_string_def nbd_commands_def)

lemma length_host_request [simp]: "length (host_request q) = 28"
  by (simp add: host_request_def)

lemma rd32_magic: "rq_magic q = m \<Longrightarrow> rd32 0 (take 4 (enc_nbd_request q)) = m"
  by (simp add: enc_nbd_request_def packed)

context nbd_export
begin

lemma request_step:
  fixes t :: "('c, 'w, 'n) tx"
  assumes "idle t" and "inp (tx_net t) = enc_nbd_request q @ r" and "rq_magic q = NBD_REQUEST_MAGIC"
    and "unat (rq_type q) < 8"
  obtains t1 where "request_body cfg io blocksize t = dispatch cfg io blocksize q t1"
    and "idle t1" and "same_server t t1" and "disk t1 = disk t" and "inp (tx_net t1) = r"
    and "out (tx_net t1) = out (tx_net t)"
proof -
  let ?b = "enc_nbd_request q"
  have lb: "length ?b = 28" using request.enc_length [of q] by simp
  have l63: "length ?b < 2 ^ 63" using lb by simp
  have link: "link (tx_net t)" and lr: "length (tx_request t) = 28"
    using assms(1) by (simp_all add: idle_def ready_def)
  obtain n' where n': "sync_recv_cb io (nc_sock (tx_ctx t)) 28 0 (tx_net t) = ret (28, ?b, n')"
    "inp n' = r" "out n' = out (tx_net t)" "link n'"
    using recv_fullE [OF link assms(2) l63, of "nc_sock (tx_ctx t)" 0] lb by auto
  define t1 where "t1 = t\<lparr>tx_net := n', tx_request := map Some (host_request q)\<rparr>"
  obtain s where s: "nbd_commands_to_string (rq_type q) = Inr s" using commands_known [OF assms(4)] by blast
  have st: "store ?b (tx_request t) = Inr (map Some ?b)" using lb lr by simp
  have f28: "fetch 28 (map Some ?b) = Inr ?b" using fetch_prefix [of ?b 28 "[]"] lb by simp
  have "map Some ?b = map Some (take 4 ?b) @ map Some (drop 4 ?b)"
    by (metis append_take_drop_id map_append)
  then have f4: "fetch 4 (map Some ?b) = Inr (take 4 ?b)"
    using fetch_prefix [of "take 4 ?b" 4 "map Some (drop 4 ?b)"] lb by simp
  have dec: "dec_nbd_request ?b = q" by (rule request.dec_enc) simp
  have "request_body cfg io blocksize t = dispatch cfg io blocksize q t1"
    using n'(1) st f28 f4 s dec rd32_magic [OF assms(3)] lt_size_of_nat [of 28 28]
    by (simp add: request_body_def t1_def Let_def)
  moreover have "idle t1" "disk t1 = disk t"
    using assms(1) n'(4) by (simp_all add: idle_def ready_def disk_def t1_def)
  moreover have "same_server t t1"
    by (auto simp: same_server_def t1_def intro: exI [of _ "world (tx_lw t)"])
  ultimately show thesis using that n' by (simp add: t1_def)
qed

text \<open>A legal command takes its bytes off the stream and does what the abstract server does.\<close>

lemma command_step:
  fixes t :: "('c, 'w, 'n) tx"
  assumes "idle_rw t" and "legal bs (length (disk t)) c" and "inp (tx_net t) = wire c @ r"
  shows "\<exists>t'. request_body cfg io blocksize t = ret (Next, t') \<and> idle_rw t' \<and> same_server t t'
    \<and> disk t' = snd (serve c (disk t)) \<and> inp (tx_net t') = r
    \<and> out (tx_net t') = out (tx_net t) @ fst (serve c (disk t))"
proof -
  have it: "idle t" using assms(1) by (simp add: idle_rw_iff)
  have input: "inp (tx_net t) = enc_nbd_request (request_of c) @ (payload c @ r)"
    using assms(3) by (simp add: wire_def)
  obtain t1 where t1: "request_body cfg io blocksize t = dispatch cfg io blocksize (request_of c) t1"
    "idle t1" "same_server t t1" "disk t1 = disk t" "inp (tx_net t1) = payload c @ r"
    "out (tx_net t1) = out (tx_net t)"
    using request_step [OF it input request_of_magic legal_type [OF assms(2)]] .
  have i1: "idle_rw t1" by (rule idle_rw_same_server [OF assms(1) t1(2,3)])
  have r1: "ready t1" using t1(2) by (simp add: idle_def)
  have "\<exists>t'. dispatch cfg io blocksize (request_of c) t1 = ret (Next, t') \<and> idle t' \<and> same_server t1 t'
    \<and> disk t' = snd (serve c (disk t)) \<and> inp (tx_net t') = r
    \<and> out (tx_net t') = out (tx_net t1) @ fst (serve c (disk t))"
  proof (cases c)
    case (Read fl h off n)
    have wrap: "unat off + unat n < 2 ^ 64" using assms(2) Read by simp
    show ?thesis
    proof (cases "unat off + unat n \<le> length (disk t)")
      case True
      then have "unat off div bs * bs = unat off" "unat n div bs * bs = unat n"
        using assms(2) Read by simp_all
      then show ?thesis
        using cmd_read_inside [OF r1, of "request_of c"] Read True t1(4,5)
        by (auto simp: dispatch_def)
    next
      case False
      have "past_end (request_of c) (tx_ctx t1)"
        using past_end_iff [OF r1, of "request_of c"] Read wrap False t1(4) by simp
      then show ?thesis
        using cmd_read_outside [OF t1(2)] Read False t1(4,5) by (auto simp: dispatch_def)
    qed
  next
    case (Write fl h off b)
    let ?q = "request_of c"
    have n: "unat (rq_count ?q) = length b" and off: "unat (rq_offset ?q) = unat off"
      using assms(2) Write by (simp_all add: unat_of_nat)
    have al: "unat off div bs * bs = unat off" "length b div bs * bs = length b"
      using assms(2) Write by simp_all
    have rw: "ready_rw t1" using i1 by (simp add: idle_rw_def)
    have pos: "0 < length b div bs" using al(2) assms(2) Write by (cases "length b div bs") auto
    obtain t' where t': "cmd_write cfg io blocksize ?q t1 = ret (Next, t')" "idle_rw t'"
      "same_server t1 t'" "disk t' = splice (unat off) b (disk t)" "inp (tx_net t') = r"
      "out (tx_net t') = out (tx_net t1) @ simple_reply ?q NBD_SUCCESS"
      using cmd_write_inside [OF rw, of ?q b r] assms(2) Write t1(4,5) al pos
      unfolding n off by auto
    have "dispatch cfg io blocksize ?q t1 = cmd_write cfg io blocksize ?q t1"
      using Write by (simp add: dispatch_def nbd_consts)
    then show ?thesis using t' Write by (auto simp: idle_rw_iff)
  next
    case (Flush fl h)
    then show ?thesis
      using cmd_flush_done [OF i1, of "request_of c"] t1(4,5)
      by (auto simp: dispatch_def nbd_consts idle_rw_def idle_def ready_rw_def)
  next
    case (Other ty fl h off n)
    have "ty \<noteq> 0" "ty \<noteq> 1" "ty \<noteq> 2" "ty \<noteq> 3" using assms(2) Other by auto
    then have "dispatch cfg io blocksize (request_of c) t1
        = bindp (send_reply io (request_of c) NBD_EINVAL 0 t1) (\<lambda>t'. ret (Next, t'))"
      using Other by (simp add: dispatch_def nbd_consts)
    moreover obtain t' where "send_reply io (request_of c) NBD_EINVAL 0 t1 = ret t'" "idle t'"
      "same_server t1 t'" "disk t' = disk t1" "inp (tx_net t') = inp (tx_net t1)"
      "out (tx_net t') = out (tx_net t1) @ simple_reply (request_of c) NBD_EINVAL"
      using reply_only [OF t1(2)] by metis
    ultimately show ?thesis using Other t1(4,5) by simp
  qed
  then obtain t' where t': "dispatch cfg io blocksize (request_of c) t1 = ret (Next, t')" "idle t'"
    "same_server t1 t'" "disk t' = snd (serve c (disk t))" "inp (tx_net t') = r"
    "out (tx_net t') = out (tx_net t1) @ fst (serve c (disk t))" by blast
  have ss: "same_server t t'" using t1(3) t'(3) by (auto simp: same_server_def)
  show ?thesis
    using t' t1(1,6) ss idle_rw_same_server [OF assms(1) t'(2) ss] by auto
qed

text \<open>The session: commands, then \<^verbatim>\<open>NBD_CMD_DISC\<close>, which gets no reply and ends the phase.\<close>

lemma session:
  fixes t :: "('c, 'w, 'n) tx"
  assumes "idle_rw t" and "\<forall>c \<in> set cs. legal bs (length (disk t)) c"
    and "inp (tx_net t) = concat (map wire cs) @ disconnect fl h @ r"
  shows "\<exists>t'. while_flow (\<lambda>_. True) (request_body cfg io blocksize) t = ret (Return 0, t')
    \<and> tx_ctx t' = (tx_ctx t)\<lparr>nc_state := ABORT\<rparr> \<and> (\<exists>w. tx_lw t' = (tx_lw t)\<lparr>world := w\<rparr>)
    \<and> disk t' = snd (serve_all cs (disk t)) \<and> inp (tx_net t') = r
    \<and> out (tx_net t') = out (tx_net t) @ fst (serve_all cs (disk t)) \<and> link (tx_net t')"
  using assms
proof (induction cs arbitrary: t)
  case Nil
  let ?q = "\<lparr>rq_magic = NBD_REQUEST_MAGIC, rq_flags = fl,
     rq_type = NBD_CMD_DISC, rq_handle = h, rq_offset = 0, rq_count = 0\<rparr>"
  have it: "idle t" using Nil.prems(1) by (simp add: idle_rw_iff)
  have input: "inp (tx_net t) = enc_nbd_request ?q @ r" using Nil.prems(3) by (simp add: disconnect_def)
  obtain t1 where t1: "request_body cfg io blocksize t = dispatch cfg io blocksize ?q t1"
    "idle t1" "same_server t t1" "disk t1 = disk t" "inp (tx_net t1) = r" "out (tx_net t1) = out (tx_net t)"
    by (rule request_step [OF it input]) (simp_all add: nbd_consts)
  let ?t' = "t1\<lparr>tx_ctx := (tx_ctx t1)\<lparr>nc_state := ABORT\<rparr>\<rparr>"
  have "request_body cfg io blocksize t = Some (Inr (Return 0, ?t'))"
    using t1(1) by (simp add: dispatch_def nbd_consts ret_def)
  then have "while_flow (\<lambda>_. True) (request_body cfg io blocksize) t = ret (Return 0, ?t')"
    by (simp add: while_flow_return ret_def)
  then show ?case using t1 by (auto simp: same_server_def disk_def idle_def ready_def)
next
  case (Cons c cs)
  have input: "inp (tx_net t) = wire c @ (concat (map wire cs) @ disconnect fl h @ r)"
    using Cons.prems(3) by simp
  have lc: "legal bs (length (disk t)) c" using Cons.prems(2) by simp
  obtain t' where t': "request_body cfg io blocksize t = ret (Next, t')" "idle_rw t'" "same_server t t'"
    "disk t' = snd (serve c (disk t))" "inp (tx_net t') = concat (map wire cs) @ disconnect fl h @ r"
    "out (tx_net t') = out (tx_net t) @ fst (serve c (disk t))"
    using command_step [OF Cons.prems(1) lc input] by blast
  have "\<forall>c \<in> set cs. legal bs (length (disk t')) c"
    using Cons.prems(2) length_serve [OF lc] t'(4) by simp
  note ih = Cons.IH [OF t'(2) this t'(5)]
  have "while_flow (\<lambda>_. True) (request_body cfg io blocksize) t
      = while_flow (\<lambda>_. True) (request_body cfg io blocksize) t'"
    using t'(1) by (simp add: while_flow_next ret_def)
  then show ?case
    using ih t' by (auto simp: same_server_def case_prod_beta)
qed

end

end
