(* ===== verification/Handles.thy ===== *)
theory Handles
  imports Contexts
begin

text \<open>
  The table of handles that the plugins \<^verbatim>\<open>memory\<close>, \<^verbatim>\<open>file\<close>, \<^verbatim>\<open>command\<close>, \<^verbatim>\<open>pcmstream\<close>, \<^verbatim>\<open>tty\<close> and the NBD
  server repeat: a static array of handles and one of their states.
\<close>

datatype handle_state = HANDLE_FREE | HANDLE_CREATED

text \<open>
  The scan at the head of a constructor.  A full table is not an error there: the index it yields
  is the length of the array.
\<close>

definition take_handle :: "handle_state list \<Rightarrow> nat \<times> handle_state list" where
  "take_handle st =
     (let i = find_slot (\<lambda>s. s = HANDLE_FREE) st in (i, st[i := HANDLE_CREATED]))"

text \<open>\<^verbatim>\<open>h = &handles[i]\<close> or \<^verbatim>\<open>h = handle\<close>, and a store through it.\<close>

definition handle_at :: "'h list \<Rightarrow> handle \<Rightarrow> 'h result" where
  "handle_at hs h = bindr (deref h) (\<lambda>i. if i < length hs then Inr (hs ! i) else Inl Out_Of_Bounds)"

definition set_handle :: "nat \<Rightarrow> 'h \<Rightarrow> 'h list \<Rightarrow> 'h list result" where
  "set_handle i x hs = (if i < length hs then Inr (hs[i := x]) else Inl Out_Of_Bounds)"

text \<open>\<^verbatim>\<open>strcpy(c->name, s)\<close>, with the context a pointer.\<close>

definition set_name :: "lwnbd_context option \<Rightarrow> string \<Rightarrow> lwnbd_context result" where
  "set_name c s = bindr (deref c) (\<lambda>c. bindr (strcpy_field 32 s) (\<lambda>n. Inr (c\<lparr>ctx_name := n\<rparr>)))"

text \<open>\<^verbatim>\<open>%d\<close> of a device number below 1000.\<close>

definition digits :: "nat \<Rightarrow> string" where
  "digits n = (if n < 10 then [char_of (48 + n)]
     else if n < 100 then [char_of (48 + n div 10), char_of (48 + n mod 10)]
     else [char_of (48 + n div 100), char_of (48 + n div 10 mod 10), char_of (48 + n mod 10)])"

lemma handle_at_Some [simp]: "i < length hs \<Longrightarrow> handle_at hs (Some i) = Inr (hs ! i)"
  by (simp add: handle_at_def)

lemma handle_at_Inr: "handle_at hs h = Inr x \<longleftrightarrow> (\<exists>i. h = Some i \<and> i < length hs \<and> x = hs ! i)"
  by (auto simp: handle_at_def deref_def split: option.splits)

lemma set_handle_in [simp]: "i < length hs \<Longrightarrow> set_handle i x hs = Inr (hs[i := x])"
  by (simp add: set_handle_def)

lemma set_handle_full [simp]: "set_handle (length hs) x hs = Inl Out_Of_Bounds"
  by (simp add: set_handle_def)

section \<open>The table as a pool\<close>

definition alloc_handle :: "handle_state list \<Rightarrow> nat option \<times> handle_state list" where
  "alloc_handle st =
     (let (i, st') = take_handle st in if i = length st then (None, st) else (Some i, st'))"

interpretation hpool: slot_pool cap "\<lambda>st i. st ! i = HANDLE_FREE" "\<lambda>st. length st = cap" alloc_handle
  unfolding alloc_handle_def take_handle_def Let_def case_prod_conv
  using slot_pool_list [of "\<lambda>s. s = HANDLE_FREE" HANDLE_CREATED cap]
  by (simp add: Let_def)

lemma take_handle_first:
  assumes "take_handle st = (i, st')" and "HANDLE_FREE \<in> set st"
  shows "i < length st \<and> st ! i = HANDLE_FREE \<and> (\<forall>j < i. st ! j = HANDLE_CREATED)
    \<and> st' = st[i := HANDLE_CREATED]"
proof -
  have i: "i = find_slot (\<lambda>s. s = HANDLE_FREE) st" and st': "st' = st[i := HANDLE_CREATED]"
    using assms(1) by (auto simp: take_handle_def Let_def)
  have "i \<noteq> length st"
    using assms(2) find_slot_full [of "\<lambda>s. s = HANDLE_FREE" st] i by (auto simp: in_set_conv_nth)
  then have "i < length st" using find_slot_le [of "\<lambda>s. s = HANDLE_FREE" st] i by simp
  moreover have "st ! j = HANDLE_CREATED" if "j < i" for j
    using find_slot_before [of j "\<lambda>s. s = HANDLE_FREE" st] that i by (cases "st ! j") simp_all
  ultimately show ?thesis using find_slot_free [of "\<lambda>s. s = HANDLE_FREE" st] i st' by simp
qed

lemma take_handle_full:
  assumes "take_handle st = (i, st')" and "HANDLE_FREE \<notin> set st"
  shows "i = length st \<and> st' = st"
proof -
  have "find_slot (\<lambda>s. s = HANDLE_FREE) st = length st"
    using assms(2) by (auto simp: find_slot_full in_set_conv_nth)
  moreover have "st[length st := HANDLE_CREATED] = st" by (rule list_update_beyond) simp
  ultimately show ?thesis using assms(1) by (auto simp: take_handle_def Let_def)
qed

end
