(* ===== verification/File_Plugin.thy ===== *)
theory File_Plugin
  imports Handles Loops Plugins Block_Device
begin

text \<open>
  The file plugin, \<^verbatim>\<open>plugins/file/file.c\<close>.  The system calls are the parameter \<open>posix_fs\<close> over the
  state \<open>'f\<close> of the file system; the locale \<open>posix_file\<close> states what the plugin relies on, and gives
  the contract \<open>block_device\<close> with blocks of one byte for its callbacks.
\<close>

section \<open>System calls\<close>

text \<open>\<open>None\<close> stands for the result \<open>-1\<close>; a read gives the bytes it stored, none at the end of the file.\<close>

record 'f posix_fs =
  sys_pread :: "int \<Rightarrow> nat \<Rightarrow> int \<Rightarrow> 'f \<Rightarrow> byte list option \<times> 'f"
  sys_pwrite :: "int \<Rightarrow> byte list \<Rightarrow> int \<Rightarrow> 'f \<Rightarrow> nat option \<times> 'f"
  sys_fdatasync :: "int \<Rightarrow> 'f \<Rightarrow> int \<times> 'f"
  sys_open :: "string option \<Rightarrow> int \<Rightarrow> 'f \<Rightarrow> int \<times> 'f"
  sys_close_file :: "int \<Rightarrow> 'f \<Rightarrow> int \<times> 'f"
  sys_fstat :: "int \<Rightarrow> 'f \<Rightarrow> u64 option \<times> 'f"

definition O_RDONLY :: int where "O_RDONLY = 0"
definition O_RDWR :: int where "O_RDWR = 2"
definition O_CLOEXEC :: int where "O_CLOEXEC = 0x80000"

text \<open>\<^verbatim>\<open>basename\<close> of POSIX: the last component of a path, without the slashes behind it.\<close>

definition basename :: "string \<Rightarrow> string" where
  "basename path =
     (let p = rev (dropWhile (\<lambda>c. c = CHR ''/'') (rev path))
      in if path = [] then ''.''
         else if p = [] then ''/''
         else rev (takeWhile (\<lambda>c. c \<noteq> CHR ''/'') (rev p)))"

section \<open>The code\<close>

definition FILE_DRIVER_MAX_DEVICES :: nat where "FILE_DRIVER_MAX_DEVICES = 10"

record file_handle =
  fh_fd :: int
  fh_flags :: int
  fh_filename :: "string option"

record 'f file_state =
  fl_handles :: "file_handle list"
  fl_in_use :: "handle_state list"
  fl_os :: 'f

definition file_state_init :: "'f \<Rightarrow> 'f file_state" where
  "file_state_init f =
     \<lparr>fl_handles = replicate FILE_DRIVER_MAX_DEVICES \<lparr>fh_fd = 0, fh_flags = 0, fh_filename = None\<rparr>,
      fl_in_use = replicate FILE_DRIVER_MAX_DEVICES HANDLE_FREE, fl_os = f\<rparr>"

text \<open>The variables of the loops of \<^verbatim>\<open>file_pread\<close> and \<^verbatim>\<open>file_pwrite\<close>; \<open>io_data\<close> is what was stored, or is left.\<close>

record 'f io_vars =
  io_count :: u32
  io_offset :: u64
  io_data :: "byte list"
  io_os :: 'f

definition pread_body :: "'f posix_fs \<Rightarrow> int \<Rightarrow> 'f io_vars \<Rightarrow> (flow \<times> 'f io_vars) run" where
  "pread_body os fd v =
     (let (d, f) = sys_pread os fd (unat (io_count v)) (sint (io_offset v)) (io_os v)
      in case d of
           None \<Rightarrow> ret (Return (- 1), v\<lparr>io_os := f\<rparr>)
         | Some b \<Rightarrow>
             if b = [] then ret (Return (- 1), v\<lparr>io_os := f\<rparr>)
             else ret (Next, v\<lparr>io_count := io_count v - of_nat (length b),
                               io_offset := io_offset v + of_nat (length b),
                               io_data := io_data v @ b, io_os := f\<rparr>))"

definition pwrite_body :: "'f posix_fs \<Rightarrow> int \<Rightarrow> 'f io_vars \<Rightarrow> (flow \<times> 'f io_vars) run" where
  "pwrite_body os fd v =
     bindp (lift (mem_read 0 (unat (io_count v)) (io_data v))) (\<lambda>b.
     let (r, f) = sys_pwrite os fd b (sint (io_offset v)) (io_os v)
     in case r of
          None \<Rightarrow> ret (Return (- 1), v\<lparr>io_os := f\<rparr>)
        | Some k \<Rightarrow> ret (Next, v\<lparr>io_count := io_count v - of_nat k,
                                 io_offset := io_offset v + of_nat k,
                                 io_data := drop k (io_data v), io_os := f\<rparr>))"

definition io_pending :: "'f io_vars \<Rightarrow> bool" where
  "io_pending v = (0 < io_count v)"

definition flow_result :: "flow \<Rightarrow> int" where
  "flow_result fl = (case fl of Return r \<Rightarrow> r | _ \<Rightarrow> 0)"

definition file_pread ::
  "'f posix_fs \<Rightarrow> handle \<Rightarrow> u32 \<Rightarrow> u64 \<Rightarrow> u32 \<Rightarrow> 'f file_state \<Rightarrow> (int \<times> byte list \<times> 'f file_state) result" where
  "file_pread os handle count offset flags st =
     bindr (handle_at (fl_handles st) handle) (\<lambda>h.
     bindr (settle (while_flow io_pending (pread_body os (fh_fd h))
              \<lparr>io_count = count, io_offset = offset, io_data = [], io_os = fl_os st\<rparr>)) (\<lambda>(fl, v).
     Inr (flow_result fl, io_data v, st\<lparr>fl_os := io_os v\<rparr>)))"

definition file_pwrite ::
  "'f posix_fs \<Rightarrow> handle \<Rightarrow> byte list \<Rightarrow> u32 \<Rightarrow> u64 \<Rightarrow> u32 \<Rightarrow> 'f file_state \<Rightarrow> (int \<times> 'f file_state) result" where
  "file_pwrite os handle buf count offset flags st =
     bindr (handle_at (fl_handles st) handle) (\<lambda>h.
     bindr (settle (while_flow io_pending (pwrite_body os (fh_fd h))
              \<lparr>io_count = count, io_offset = offset, io_data = buf, io_os = fl_os st\<rparr>)) (\<lambda>(fl, v).
     Inr (flow_result fl, st\<lparr>fl_os := io_os v\<rparr>)))"

definition file_flush ::
  "'f posix_fs \<Rightarrow> handle \<Rightarrow> u32 \<Rightarrow> 'f file_state \<Rightarrow> (int \<times> 'f file_state) result" where
  "file_flush os handle flags st =
     bindr (handle_at (fl_handles st) handle) (\<lambda>h.
     let (r, f) = sys_fdatasync os (fh_fd h) (fl_os st)
     in Inr (if r = - 1 then - 1 else 0, st\<lparr>fl_os := f\<rparr>))"

definition file_open :: "'f posix_fs \<Rightarrow> handle \<Rightarrow> int \<Rightarrow> 'f file_state \<Rightarrow> 'f file_state result" where
  "file_open os handle readonly st =
     bindr (deref handle) (\<lambda>i.
     bindr (handle_at (fl_handles st) handle) (\<lambda>h.
     let flags = (if readonly \<noteq> 0 then O_RDONLY + O_CLOEXEC else O_RDWR + O_CLOEXEC);
         (fd, f) = sys_open os (fh_filename h) flags (fl_os st)
     in Inr (st\<lparr>fl_handles := (fl_handles st)[i := h\<lparr>fh_flags := flags, fh_fd := fd\<rparr>], fl_os := f\<rparr>)))"

definition file_ctor ::
  "string \<Rightarrow> lwnbd_context option \<Rightarrow> 'f file_state \<Rightarrow> (int \<times> lwnbd_context option \<times> 'f file_state) result" where
  "file_ctor filename c st =
     (let (i, in_use) = take_handle (fl_in_use st); bname = basename filename
      in bindr (handle_at (fl_handles st) (Some i)) (\<lambda>h.
         bindr (set_handle i (h\<lparr>fh_filename := Some bname\<rparr>) (fl_handles st)) (\<lambda>hs.
         bindr (set_name (map_option (\<lambda>c. c\<lparr>ctx_handle := Some i\<rparr>) c) bname) (\<lambda>c'.
         Inr (0, Some c', st\<lparr>fl_handles := hs, fl_in_use := in_use\<rparr>)))))"

definition file_close :: "'f posix_fs \<Rightarrow> handle \<Rightarrow> 'f file_state \<Rightarrow> 'f file_state result" where
  "file_close os handle st =
     bindr (handle_at (fl_handles st) handle) (\<lambda>h.
     let (_, f) = sys_close_file os (fh_fd h) (fl_os st) in Inr (st\<lparr>fl_os := f\<rparr>))"

definition file_get_size :: "'f posix_fs \<Rightarrow> handle \<Rightarrow> 'f file_state \<Rightarrow> (u64 \<times> 'f file_state) result" where
  "file_get_size os handle st =
     bindr (file_open os handle 0 st) (\<lambda>st1.
     bindr (handle_at (fl_handles st1) handle) (\<lambda>h.
     let (sz, f) = sys_fstat os (fh_fd h) (fl_os st1)
     in Inr (case sz of None \<Rightarrow> - 1 | Some n \<Rightarrow> n, st1\<lparr>fl_os := f\<rparr>)))"

definition file_block_size :: "handle \<Rightarrow> 'f file_state \<Rightarrow> (int \<times> u32 \<times> u32 \<times> u32) result" where
  "file_block_size handle st = Inr (0, 1, 1, 1)"

definition file_plugin :: "'f posix_fs \<Rightarrow> (string, 'f file_state) lwnbd_plugin_t" where
  "file_plugin os = null_plugin
     \<lparr>pl_name := ''file'', pl_longname := ''lwnbd file plugin'', pl_version := ''TODO'',
      pl_ctor := Some file_ctor, pl_open := Some (file_open os), pl_close := Some (file_close os),
      pl_pread := Some (file_pread os), pl_pwrite := Some (file_pwrite os),
      pl_flush := Some (file_flush os), pl_get_size := Some (file_get_size os),
      pl_block_size := Some file_block_size\<rparr>"

text \<open>The plugin keeps to what the registry relies on.\<close>

interpretation file_content: content_plugin "file_plugin os"
  by unfold_locales (auto simp: file_plugin_def file_ctor_def null_plugin_def set_name_def bindr_Inr_iff
      deref_def Let_def split: option.splits prod.splits if_splits)

section \<open>The contract of the system calls\<close>

text \<open>
  \<open>inode fd f\<close> is the content behind an open descriptor.  A read or a write inside the file handles at
  least one byte of what it was asked for, perhaps not all; nothing here makes the file longer.
\<close>

locale posix_file =
  fixes os :: "'f posix_fs"
    and inode :: "int \<Rightarrow> 'f \<Rightarrow> byte list option"
  assumes pread_some: "inode fd f = Some d \<Longrightarrow> 0 < n \<Longrightarrow> off + n \<le> length d \<Longrightarrow>
      \<exists>k f'. sys_pread os fd n (int off) f = (Some (take k (drop off d)), f') \<and> 0 < k \<and> k \<le> n
        \<and> inode fd f' = Some d"
    and pwrite_some: "inode fd f = Some d \<Longrightarrow> b \<noteq> [] \<Longrightarrow> off + length b \<le> length d \<Longrightarrow>
      \<exists>k f'. sys_pwrite os fd b (int off) f = (Some k, f') \<and> 0 < k \<and> k \<le> length b
        \<and> inode fd f' = Some (splice off (take k b) d)"
    and fdatasync_ok: "inode fd f = Some d \<Longrightarrow> \<exists>f'. sys_fdatasync os fd f = (0, f') \<and> inode fd f' = Some d"
begin

text \<open>A handle is usable when its descriptor is open on a file of less than \<open>2 ^ 63\<close> bytes.\<close>

definition open_on :: "handle \<Rightarrow> 'f file_state \<Rightarrow> int \<Rightarrow> byte list \<Rightarrow> bool" where
  "open_on h st fd d \<longleftrightarrow> (\<exists>fh. handle_at (fl_handles st) h = Inr fh \<and> fh_fd fh = fd)
     \<and> inode fd (fl_os st) = Some d \<and> length d < 2 ^ 63"

definition usable :: "handle \<Rightarrow> 'f file_state \<Rightarrow> bool" where
  "usable h st \<longleftrightarrow> (\<exists>fd d. open_on h st fd d)"

definition data :: "handle \<Rightarrow> 'f file_state \<Rightarrow> byte list" where
  "data h st = (case handle_at (fl_handles st) h of Inl _ \<Rightarrow> []
     | Inr fh \<Rightarrow> (case inode (fh_fd fh) (fl_os st) of None \<Rightarrow> [] | Some d \<Rightarrow> d))"

lemma data_open [simp]: "open_on h st fd d \<Longrightarrow> data h st = d"
  by (auto simp: open_on_def data_def)

lemma open_on_os: "open_on h st fd d \<Longrightarrow> inode fd f = Some e \<Longrightarrow> length e = length d \<Longrightarrow>
    open_on h (st\<lparr>fl_os := f\<rparr>) fd e"
  by (auto simp: open_on_def)

text \<open>The variables of a loop: \<open>n\<close> bytes remain at offset \<open>off\<close> of the file \<open>d\<close>.\<close>

definition at :: "int \<Rightarrow> 'f io_vars \<Rightarrow> nat \<Rightarrow> nat \<Rightarrow> byte list \<Rightarrow> bool" where
  "at fd v n off d \<longleftrightarrow> unat (io_count v) = n \<and> unat (io_offset v) = off \<and> off + n \<le> length d
     \<and> length d < 2 ^ 63 \<and> inode fd (io_os v) = Some d"

lemma at_sint: "at fd v n off d \<Longrightarrow> sint (io_offset v) = int off"
  by (subst sint_small) (simp_all add: at_def)

lemma at_step:
  assumes "at fd v n off d" and "k \<le> n" and "inode fd f = Some e" and "length e = length d"
  shows "at fd (v\<lparr>io_count := io_count v - of_nat k, io_offset := io_offset v + of_nat k,
      io_data := x, io_os := f\<rparr>) (n - k) (off + k) e"
proof -
  have n: "n < 2 ^ 32" and off: "off + n < 2 ^ 63"
    using assms(1) unsigned_less [of "io_count v", where ?'a = nat] by (auto simp: at_def)
  have k32: "unat (of_nat k :: u32) = k" using n assms(2) by (simp add: unat_of_nat)
  have k64: "unat (of_nat k :: u64) = k" using n assms(2) by (simp add: unat_of_nat)
  have "of_nat k \<le> io_count v" using assms(1,2) k32 by (simp add: at_def word_le_nat_alt)
  then have "unat (io_count v - of_nat k) = n - k"
    using assms(1) k32 by (simp add: at_def unat_sub)
  moreover have "unat (io_offset v + of_nat k) = off + k"
    using assms(1,2) k64 off by (simp add: at_def unat_word_ariths)
  ultimately show ?thesis using assms by (simp add: at_def)
qed

lemma pread_loop:
  assumes "at fd v n off d"
  shows "\<exists>v'. while_flow io_pending (pread_body os fd) v = ret (Next, v')
    \<and> io_data v' = io_data v @ take n (drop off d) \<and> inode fd (io_os v') = Some d"
  using assms
proof (induction n arbitrary: v off rule: less_induct)
  case (less n)
  show ?case
  proof (cases "n = 0")
    case True
    then have "\<not> io_pending v" using less.prems by (simp add: io_pending_def at_def unat_eq_0)
    then show ?thesis using True less.prems by (simp add: ret_def at_def)
  next
    case False
    then have pend: "io_pending v" using less.prems by (simp add: io_pending_def at_def word_less_nat_alt)
    have n: "unat (io_count v) = n" and le: "off + n \<le> length d" and fl: "inode fd (io_os v) = Some d"
      using less.prems by (simp_all add: at_def)
    obtain k f' where k: "sys_pread os fd n (int off) (io_os v) = (Some (take k (drop off d)), f')"
      "0 < k" "k \<le> n" "inode fd f' = Some d"
      using pread_some [OF fl _ le] False by auto
    let ?b = "take k (drop off d)"
    have lb: "length ?b = k" "?b \<noteq> []" using k le by auto
    let ?v = "v\<lparr>io_count := io_count v - of_nat k, io_offset := io_offset v + of_nat k,
      io_data := io_data v @ ?b, io_os := f'\<rparr>"
    have "pread_body os fd v = Some (Inr (Next, ?v))"
      using k(1) lb n at_sint [OF less.prems] by (simp add: pread_body_def ret_def)
    then have step: "while_flow io_pending (pread_body os fd) v = while_flow io_pending (pread_body os fd) ?v"
      using while_flow_next [of io_pending v] pend by blast
    have "at fd ?v (n - k) (off + k) d" by (rule at_step [OF less.prems k(3,4)]) simp
    then obtain v' where "while_flow io_pending (pread_body os fd) ?v = ret (Next, v')"
      "io_data v' = io_data ?v @ take (n - k) (drop (off + k) d)" "inode fd (io_os v') = Some d"
      using less.IH [of "n - k" ?v "off + k"] k(2) False by auto
    moreover have "?b @ take (n - k) (drop (off + k) d) = take n (drop off d)"
      using take_drop_append [of k "n - k" off d] k(3) by simp
    ultimately show ?thesis using step by simp
  qed
qed

lemma pwrite_loop:
  assumes "at fd v n off d" and "n \<le> length (io_data v)"
  shows "\<exists>v'. while_flow io_pending (pwrite_body os fd) v = ret (Next, v')
    \<and> inode fd (io_os v') = Some (splice off (take n (io_data v)) d)"
  using assms
proof (induction n arbitrary: v off d rule: less_induct)
  case (less n)
  show ?case
  proof (cases "n = 0")
    case True
    then have "\<not> io_pending v" using less.prems by (simp add: io_pending_def at_def unat_eq_0)
    then show ?thesis using True less.prems by (simp add: ret_def at_def)
  next
    case False
    then have pend: "io_pending v" using less.prems by (simp add: io_pending_def at_def word_less_nat_alt)
    have n: "unat (io_count v) = n" and le: "off + n \<le> length d" and fl: "inode fd (io_os v) = Some d"
      using less.prems by (simp_all add: at_def)
    let ?b = "take n (io_data v)"
    have lb: "length ?b = n" "?b \<noteq> []" using less.prems(2) False by auto
    then obtain k f' where k: "sys_pwrite os fd ?b (int off) (io_os v) = (Some k, f')"
      "0 < k" "k \<le> n" "inode fd f' = Some (splice off (take k ?b) d)"
      using pwrite_some [OF fl lb(2), of off] le by auto
    let ?e = "splice off (take k ?b) d"
    have le_k: "off + length (take k ?b) \<le> length d" using k(3) le lb by simp
    let ?v = "v\<lparr>io_count := io_count v - of_nat k, io_offset := io_offset v + of_nat k,
      io_data := drop k (io_data v), io_os := f'\<rparr>"
    have "pwrite_body os fd v = Some (Inr (Next, ?v))"
      using k(1) n at_sint [OF less.prems(1)] less.prems(2)
      by (simp add: pwrite_body_def ret_def mem_read_def)
    then have step: "while_flow io_pending (pwrite_body os fd) v = while_flow io_pending (pwrite_body os fd) ?v"
      using while_flow_next [of io_pending v] pend by blast
    have "at fd ?v (n - k) (off + k) ?e" by (rule at_step [OF less.prems(1) k(3,4)]) (use le_k in simp)
    moreover have "n - k \<le> length (io_data ?v)" using less.prems(2) by simp
    ultimately obtain v' where v': "while_flow io_pending (pwrite_body os fd) ?v = ret (Next, v')"
      "inode fd (io_os v') = Some (splice (off + k) (take (n - k) (io_data ?v)) ?e)"
      using less.IH [of "n - k" ?v "off + k" ?e] k(2) False by auto
    have "splice (off + length (take k ?b)) (take (n - k) (io_data ?v)) (splice off (take k ?b) d)
        = splice off (take k ?b @ take (n - k) (io_data ?v)) d"
      by (rule splice_splice) (use le k(3) less.prems(2) in simp)
    moreover have "take k ?b @ take (n - k) (io_data ?v) = ?b"
      using k(3) take_add [of k "n - k" "io_data v"] by (simp add: min_def)
    moreover have "length (take k ?b) = k" using lb k(3) by simp
    ultimately show ?thesis using step v' by simp
  qed
qed

end

sublocale posix_file \<subseteq> dev: block_device "file_pread os" 1 data usable "file_pwrite os" "file_flush os"
proof
  fix h and st :: "'f file_state" and off :: u64 and n fl :: u32 and buf
  assume u: "usable h st"
  then obtain fd d where o: "open_on h st fd d" by (auto simp: usable_def)
  then obtain fh where fh: "handle_at (fl_handles st) h = Inr fh" "fh_fd fh = fd"
    and fd: "inode fd (fl_os st) = Some d" and ld: "length d < 2 ^ 63"
    by (auto simp: open_on_def)
  have at0: "at fd \<lparr>io_count = n, io_offset = off, io_data = x, io_os = fl_os st\<rparr> (unat n) (unat off) d"
    if "(unat off + unat n) * 1 \<le> length (data h st)" for x
    using that fd ld o by (simp add: at_def)
  show "\<exists>st'. file_pread os h n off fl st = Inr (0, take (unat n * 1) (drop (unat off * 1) (data h st)), st')
      \<and> usable h st' \<and> data h st' = data h st"
    if le: "(unat off + unat n) * 1 \<le> length (data h st)"
  proof -
    obtain v' where v': "while_flow io_pending (pread_body os fd)
        \<lparr>io_count = n, io_offset = off, io_data = [], io_os = fl_os st\<rparr> = ret (Next, v')"
      "io_data v' = take (unat n) (drop (unat off) d)" "inode fd (io_os v') = Some d"
      using pread_loop [OF at0 [OF le, of "[]"]] by auto
    have "open_on h (st\<lparr>fl_os := io_os v'\<rparr>) fd d" by (rule open_on_os [OF o v'(3)]) simp
    then show ?thesis using v' fh o by (auto simp: file_pread_def flow_result_def usable_def)
  qed
  show "\<exists>st'. file_pwrite os h buf n off fl st = Inr (0, st') \<and> usable h st'
      \<and> data h st' = splice (unat off * 1) (take (unat n * 1) buf) (data h st)"
    if le: "(unat off + unat n) * 1 \<le> length (data h st)" and lb: "unat n * 1 \<le> length buf"
      and "0 < unat n"
  proof -
    obtain v' where v': "while_flow io_pending (pwrite_body os fd)
        \<lparr>io_count = n, io_offset = off, io_data = buf, io_os = fl_os st\<rparr> = ret (Next, v')"
      "inode fd (io_os v') = Some (splice (unat off) (take (unat n) buf) d)"
      using pwrite_loop [OF at0 [OF le, of buf]] lb by auto
    have "open_on h (st\<lparr>fl_os := io_os v'\<rparr>) fd (splice (unat off) (take (unat n) buf) d)"
      by (rule open_on_os [OF o v'(2)]) (use le lb o in simp)
    then show ?thesis using v' fh o by (auto simp: file_pwrite_def flow_result_def usable_def)
  qed
  show "\<exists>st'. file_flush os h fl st = Inr (0, st') \<and> usable h st' \<and> data h st' = data h st"
  proof -
    obtain f' where f': "sys_fdatasync os fd (fl_os st) = (0, f')" "inode fd f' = Some d"
      using fdatasync_ok [OF fd] by blast
    have "open_on h (st\<lparr>fl_os := f'\<rparr>) fd d" by (rule open_on_os [OF o f'(2)]) simp
    then show ?thesis using f' fh o by (auto simp: file_flush_def usable_def)
  qed
qed

context posix_file
begin

lemma write_read:
  assumes u: "usable h st" and le: "unat offset + unat count \<le> length (data h st)"
    and lb: "length buf = unat count"
  shows "\<exists>st' st''. file_pwrite os h buf count offset fl st = Inr (0, st')
    \<and> data h st' = splice (unat offset) buf (data h st)
    \<and> file_pread os h count offset fl' st' = Inr (0, buf, st'') \<and> data h st'' = data h st'"
proof -
  obtain st' where w: "file_pwrite os h buf count offset fl st = Inr (0, st')" "usable h st'"
    "data h st' = splice (unat offset) buf (data h st)"
  proof (cases "unat count = 0")
    case True
    then have "count = 0" "buf = []" using lb by (simp_all add: unat_eq_0)
    moreover obtain fh where "handle_at (fl_handles st) h = Inr fh"
      using u by (auto simp: usable_def open_on_def)
    ultimately show thesis
      using that [of st] u by (simp add: file_pwrite_def io_pending_def flow_result_def)
  next
    case False
    then show thesis using that dev.pwrite_ok [OF u, of offset count buf fl] le lb by auto
  qed
  have "length (data h st') = length (data h st)" using w(3) le lb by simp
  then obtain st'' where "file_pread os h count offset fl' st'
      = Inr (0, take (unat count) (drop (unat offset) (data h st')), st'')" "data h st'' = data h st'"
    using dev.pread_ok [OF w(2), of offset count fl'] le by auto
  moreover have "take (unat count) (drop (unat offset) (data h st')) = buf"
    using w(3) slice_splice_same [of "unat offset" buf "data h st"] le lb by simp
  ultimately show ?thesis using w by auto
qed

end

section \<open>A file system in memory\<close>

text \<open>
  An instance of the system calls: named files, descriptors that index them, and calls that
  handle at most \<open>Suc rf_chunk\<close> bytes.
\<close>

record ramfs =
  rf_files :: "(string \<times> byte list) list"
  rf_fds :: "nat list"
  rf_chunk :: nat

definition ram_inode :: "int \<Rightarrow> ramfs \<Rightarrow> byte list option" where
  "ram_inode fd f =
     (if 0 \<le> fd \<and> nat fd < length (rf_fds f) \<and> rf_fds f ! nat fd < length (rf_files f)
      then Some (snd (rf_files f ! (rf_fds f ! nat fd))) else None)"

definition ram_pread :: "int \<Rightarrow> nat \<Rightarrow> int \<Rightarrow> ramfs \<Rightarrow> byte list option \<times> ramfs" where
  "ram_pread fd n off f =
     (map_option (\<lambda>d. take (min n (Suc (rf_chunk f))) (drop (nat off) d)) (ram_inode fd f), f)"

definition ram_pwrite :: "int \<Rightarrow> byte list \<Rightarrow> int \<Rightarrow> ramfs \<Rightarrow> nat option \<times> ramfs" where
  "ram_pwrite fd b off f =
     (case ram_inode fd f of
        None \<Rightarrow> (None, f)
      | Some d \<Rightarrow>
          let k = min (length b) (Suc (rf_chunk f)); i = rf_fds f ! nat fd
          in (Some k, f\<lparr>rf_files := (rf_files f)[i := (fst (rf_files f ! i), splice (nat off) (take k b) d)]\<rparr>))"

definition ram_open :: "string option \<Rightarrow> int \<Rightarrow> ramfs \<Rightarrow> int \<times> ramfs" where
  "ram_open nm fl f =
     (let i = find_slot (\<lambda>e. Some (fst e) = nm) (rf_files f)
      in if i = length (rf_files f) then (- 1, f)
         else (int (length (rf_fds f)), f\<lparr>rf_fds := rf_fds f @ [i]\<rparr>))"

definition ram_os :: "ramfs posix_fs" where
  "ram_os = \<lparr>sys_pread = ram_pread, sys_pwrite = ram_pwrite, sys_fdatasync = (\<lambda>fd f. (0, f)),
     sys_open = ram_open, sys_close_file = (\<lambda>fd f. (0, f)),
     sys_fstat = (\<lambda>fd f. (map_option (\<lambda>d. of_nat (length d)) (ram_inode fd f), f))\<rparr>"

interpretation ram: posix_file ram_os ram_inode
proof
  fix fd f d n b and off :: nat
  assume fd: "ram_inode fd f = Some d"
  show "0 < n \<Longrightarrow> off + n \<le> length d \<Longrightarrow>
      \<exists>k f'. sys_pread ram_os fd n (int off) f = (Some (take k (drop off d)), f') \<and> 0 < k \<and> k \<le> n
        \<and> ram_inode fd f' = Some d"
    using fd by (intro exI [of _ "min n (Suc (rf_chunk f))"]) (simp add: ram_os_def ram_pread_def)
  show "\<exists>f'. sys_fdatasync ram_os fd f = (0, f') \<and> ram_inode fd f' = Some d"
    using fd by (simp add: ram_os_def)
  show "b \<noteq> [] \<Longrightarrow> off + length b \<le> length d \<Longrightarrow>
      \<exists>k f'. sys_pwrite ram_os fd b (int off) f = (Some k, f') \<and> 0 < k \<and> k \<le> length b
        \<and> ram_inode fd f' = Some (splice off (take k b) d)"
    using fd by (intro exI [of _ "min (length b) (Suc (rf_chunk f))"])
      (auto simp: ram_os_def ram_pwrite_def ram_inode_def Let_def split: if_splits)
qed

section \<open>Properties of the plugin\<close>

text \<open>
  C20.  Whatever pieces the system calls work in, \<^verbatim>\<open>file_pwrite\<close> inside the file stores the first
  \<open>count\<close> bytes of the buffer at \<open>offset\<close> and nothing else, \<^verbatim>\<open>file_pread\<close> inside the file returns exactly
  the bytes there, and both return 0; so reading back gives what was written.
\<close>

theorem file_read_back:
  assumes "posix_file os inode" and "posix_file.usable inode h st"
    and "unat offset + unat count \<le> length (posix_file.data inode h st)" and "length buf = unat count"
  shows "\<exists>st' st''. file_pwrite os h buf count offset fl st = Inr (0, st')
    \<and> posix_file.data inode h st' = splice (unat offset) buf (posix_file.data inode h st)
    \<and> file_pread os h count offset fl' st' = Inr (0, buf, st'')
    \<and> posix_file.data inode h st'' = posix_file.data inode h st'"
  by (rule posix_file.write_read [OF assms])

definition demo_file :: "ramfs file_state" where
  "demo_file = (file_state_init \<lparr>rf_files = [(''disk'', ''0123456789'')], rf_fds = [0], rf_chunk = 1\<rparr>)"

lemma demo_file_usable: "ram.usable (Some 0) demo_file" "ram.data (Some 0) demo_file = ''0123456789''"
proof -
  have "ram.open_on (Some 0) demo_file 0 ''0123456789''"
    by (simp add: ram.open_on_def demo_file_def file_state_init_def FILE_DRIVER_MAX_DEVICES_def ram_inode_def)
  then show "ram.usable (Some 0) demo_file" "ram.data (Some 0) demo_file = ''0123456789''"
    by (auto simp: ram.usable_def)
qed

theorem file_read_back_witness:
  "\<exists>st' st''. file_pwrite ram_os (Some 0) ''abc'' 3 4 0 demo_file = Inr (0, st')
    \<and> ram.data (Some 0) st' = ''0123abc789''
    \<and> file_pread ram_os (Some 0) 3 4 0 st' = Inr (0, ''abc'', st'')"
  using file_read_back [OF ram.posix_file_axioms, where h = "Some 0" and st = demo_file
      and offset = 4 and count = 3 and buf = "''abc''" and fl = 0 and fl' = 0]
  by (auto simp: demo_file_usable splice_def)

text \<open>
  \<^verbatim>\<open>file_ctor\<close> takes the first free handle, remembers the last component of the path there and
  names the context by it; it fails only by overrunning its table of 10 handles or the 32 bytes of the
  name.
\<close>

theorem file_ctor_correct:
  assumes "length (fl_handles st) = 10" and "length (fl_in_use st) = 10"
  shows "case file_ctor path (Some c) st of
      Inl f \<Rightarrow> f = Out_Of_Bounds \<and> (HANDLE_FREE \<notin> set (fl_in_use st) \<or> 32 \<le> length (basename path))
    | Inr (r, c', st') \<Rightarrow> \<exists>i < 10. r = 0 \<and> fl_in_use st ! i = HANDLE_FREE
        \<and> (\<forall>j < i. fl_in_use st ! j = HANDLE_CREATED)
        \<and> c' = Some (c\<lparr>ctx_handle := Some i, ctx_name := basename path\<rparr>)
        \<and> fl_in_use st' = (fl_in_use st)[i := HANDLE_CREATED]
        \<and> fh_filename (fl_handles st' ! i) = Some (basename path)"
proof -
  obtain i u where t: "take_handle (fl_in_use st) = (i, u)" by fastforce
  show ?thesis
  proof (cases "HANDLE_FREE \<in> set (fl_in_use st)")
    case True
    then show ?thesis
      using take_handle_first [OF t True] assms t
      by (cases "length (basename path) < 32")
        (auto simp: file_ctor_def set_name_def strcpy_field_def bindr_def Let_def)
  next
    case False
    then show ?thesis
      using take_handle_full [OF t False] assms t by (simp add: file_ctor_def handle_at_def Let_def)
  qed
qed

theorem file_ctor_correct_witness:
  "\<exists>c' st'. file_ctor ''/iso/disk'' (Some zero_context) demo_file = Inr (0, Some c', st')
    \<and> ctx_name c' = ''disk''"
proof -
  have l: "length (fl_handles demo_file) = 10" "length (fl_in_use demo_file) = 10"
    by (simp_all add: demo_file_def file_state_init_def FILE_DRIVER_MAX_DEVICES_def)
  have b: "basename ''/iso/disk'' = ''disk''" by (simp add: basename_def)
  have f: "HANDLE_FREE \<in> set (fl_in_use demo_file)"
    by (simp add: demo_file_def file_state_init_def FILE_DRIVER_MAX_DEVICES_def)
  show ?thesis
    using file_ctor_correct [OF l, of "''/iso/disk''" zero_context] b f
    by (cases "file_ctor ''/iso/disk'' (Some zero_context) demo_file") auto
qed

end
