(* ===== verification/Transmission_Claims.thy ===== *)
theory Transmission_Claims
  imports Transmission_Session File_Plugin
begin

text \<open>
  The properties of the transmission phase on sessions, stated over the code alone.  The instance behind the
  witnesses is the file plugin served over a TCP socket that delivers in pieces.
\<close>

section \<open>The file plugin over TCP\<close>

definition demo_lw :: "'f file_state \<Rightarrow> 'f posix_fs \<Rightarrow> (string, 'f file_state) lwnbd" where
  "demo_lw st os = (lwnbd_init st)\<lparr>plugins := (replicate 10 None)[0 := Some (file_plugin os)]\<rparr>"

definition demo_ctx :: nbd_context where
  "demo_ctx = \<lparr>ctx_handle = Some 0, ctx_p = Some 0, ctx_name = ''disk'', ctx_description = ''a file'',
     ctx_exportsize = 10, nc_eflags = 5, nc_minimum_block_size = 1, nc_preferred_block_size = 1,
     nc_maximum_block_size = 1, nc_port = 10809, nc_max_retry = 5, nc_gflags = 0, nc_readonly = 0,
     nc_defaultexport = [], nc_preinit = 0, nc_sock = 3, nc_state = TRANSMISSION\<rparr>"

text \<open>A buffer of 4 bytes, so that a request of 6 takes two pieces.\<close>

definition demo_cfg :: nbd_config where
  "demo_cfg = \<lparr>CONFIG_MAX_RETRIES = 5, CONFIG_NBD_BUFFER_LEN = 4\<rparr>"

lemma demo_cfg_block: "unat (1 :: u32) = 1" "0 < (1 :: nat)" "1 \<le> MAX_REQUEST_SIZE demo_cfg"
  by (simp_all add: demo_cfg_def MAX_REQUEST_SIZE_def)

interpretation demo: nbd_export "tcp_transport sock_os" so_in so_out "\<lambda>_. True" "file_pread ram_os" 1
  ram.data ram.usable demo_cfg 1 "file_pwrite ram_os" "file_flush ram_os"
  by unfold_locales (rule demo_cfg_block)+

definition demo_net :: "byte list \<Rightarrow> sock" where
  "demo_net b = \<lparr>so_in = b, so_out = [], so_chunk = [2, 0, 40]\<rparr>"

lemma demo_plugin_of:
  "plugin_of (demo_lw st os) demo_ctx = Inr (file_plugin os)"
  "pl_pread (file_plugin os) = Some (file_pread os)" "pl_pwrite (file_plugin os) = Some (file_pwrite os)"
  "pl_flush (file_plugin os) = Some (file_flush os)" "world (demo_lw st os) = st"
  by (simp_all add: plugin_of_def demo_lw_def demo_ctx_def file_plugin_def lwnbd_init_def)

section \<open>Sessions\<close>

lemma session_refines:
  fixes lw :: "('c, 'w) lwnbd" and n :: 'n
  assumes "stream_transport io inp out link" and "block_device pread bs content ok pwrite flush"
    and "unat (nc_minimum_block_size ctx) = bs" and "0 < bs" and "bs \<le> MAX_REQUEST_SIZE cfg"
    and "plugin_of lw ctx = Inr p" and "pl_pread p = Some pread" and "pl_pwrite p = Some pwrite"
    and "pl_flush p = Some flush" and "nc_eflags ctx AND NBD_FLAG_READ_ONLY = 0"
    and "ok (ctx_handle ctx) (world lw)" and "link n"
    and "d = content (ctx_handle ctx) (world lw)" and "unat (ctx_exportsize ctx) = length d"
    and "\<forall>c \<in> set cs. legal bs (length d) c"
    and "inp n = concat (map wire cs) @ disconnect fl h @ rest"
  shows "\<exists>w n'. transmission_phase cfg io (Some ctx) lw n
        = ret (0, Some (ctx\<lparr>nc_state := ABORT\<rparr>), lw\<lparr>world := w\<rparr>, n')
    \<and> out n' = out n @ fst (serve_all cs d) \<and> content (ctx_handle ctx) w = snd (serve_all cs d)
    \<and> inp n' = rest \<and> link n'"
proof -
  let ?bz = "nc_minimum_block_size ctx" and ?t = "tx_start cfg ctx lw n"
  have ro: "nbd_export_ro io inp out link pread bs content ok cfg ?bz"
    using assms(1-5) by (simp add: nbd_export_ro_def nbd_export_ro_axioms_def block_device_def)
  have ex: "nbd_export io inp out link pread bs content ok cfg ?bz pwrite flush"
    using ro assms(2) by (simp add: nbd_export_def)
  have disk: "nbd_export_ro.disk content ?t = d"
    using assms(13) by (simp add: nbd_export_ro.disk_def [OF ro] tx_start_def)
  have idle: "nbd_export.idle_rw link pread content ok cfg pwrite flush ?t"
    unfolding nbd_export.idle_rw_def [OF ex] nbd_export.ready_rw_def [OF ex]
      nbd_export_ro.ready_def [OF ro] plugin_calls_def plugin_writes_def disk
    using assms(6-14) by (simp add: tx_start_def)
  have "\<exists>t'. while_flow (\<lambda>_. True) (request_body cfg io ?bz) ?t = ret (Return 0, t')
    \<and> tx_ctx t' = (tx_ctx ?t)\<lparr>nc_state := ABORT\<rparr> \<and> (\<exists>w. tx_lw t' = (tx_lw ?t)\<lparr>world := w\<rparr>)
    \<and> nbd_export_ro.disk content t' = snd (serve_all cs d) \<and> inp (tx_net t') = rest
    \<and> out (tx_net t') = out (tx_net ?t) @ fst (serve_all cs d) \<and> link (tx_net t')"
    using nbd_export.session [OF ex idle, of cs fl h rest] assms(15,16)
    unfolding disk by (simp add: tx_start_def)
  then obtain t' w where t': "while_flow (\<lambda>_. True) (request_body cfg io ?bz) ?t = ret (Return 0, t')"
    "tx_ctx t' = ctx\<lparr>nc_state := ABORT\<rparr>" "tx_lw t' = lw\<lparr>world := w\<rparr>"
    "nbd_export_ro.disk content t' = snd (serve_all cs d)" "inp (tx_net t') = rest"
    "out (tx_net t') = out n @ fst (serve_all cs d)" "link (tx_net t')"
    by (auto simp: tx_start_def)
  have "content (ctx_handle ctx) w = snd (serve_all cs d)"
    using t'(2-4) by (simp add: nbd_export_ro.disk_def [OF ro])
  then show ?thesis using t'
    by (intro exI [of _ w] exI [of _ "tx_net t'"]) (simp add: transmission_phase_def)
qed

text \<open>
  C1.  Over a transport that delivers, and on a plugin that is a block device, the transmission
  phase serves every list of legal commands exactly as the abstract server does: the bytes it sends
  are the replies and the data of \<open>serve\<close> in order, the device holds the array of \<open>serve\<close>, and at
  \<^verbatim>\<open>NBD_CMD_DISC\<close> it returns 0 with the client in the state \<open>ABORT\<close> and the rest of the stream unread.
\<close>

theorem transmission_refines_server:
  fixes lw :: "('c, 'w) lwnbd" and n :: 'n
  assumes "stream_transport io inp out link" and "block_device pread bs content ok pwrite flush"
    and "unat (nc_minimum_block_size ctx) = bs" and "0 < bs" and "bs \<le> MAX_REQUEST_SIZE cfg"
    and "plugin_of lw ctx = Inr p" and "pl_pread p = Some pread" and "pl_pwrite p = Some pwrite"
    and "pl_flush p = Some flush" and "nc_eflags ctx AND NBD_FLAG_READ_ONLY = 0"
    and "ok (ctx_handle ctx) (world lw)" and "link n"
    and "d = content (ctx_handle ctx) (world lw)" and "unat (ctx_exportsize ctx) = length d"
    and "\<forall>c \<in> set cs. legal bs (length d) c"
    and "inp n = concat (map wire cs) @ disconnect fl h @ rest"
  shows "\<exists>w n'. transmission_phase cfg io (Some ctx) lw n
        = ret (0, Some (ctx\<lparr>nc_state := ABORT\<rparr>), lw\<lparr>world := w\<rparr>, n')
    \<and> out n' = out n @ fst (serve_all cs d) \<and> content (ctx_handle ctx) w = snd (serve_all cs d)
    \<and> inp n' = rest"
  using session_refines [OF assms] by blast

text \<open>A client that writes, reads over two pieces, flushes, reads past the end and leaves.\<close>

definition demo_commands :: "command list" where
  "demo_commands = [Write 0 1 2 ''wxyz'', Read 0 2 1 6, Flush 0 3, Read 0 4 8 4]"

theorem transmission_refines_server_witness:
  "\<exists>w n'. transmission_phase demo_cfg (tcp_transport sock_os) (Some demo_ctx) (demo_lw demo_file ram_os)
        (demo_net (concat (map wire demo_commands) @ disconnect 0 5))
      = ret (0, Some (demo_ctx\<lparr>nc_state := ABORT\<rparr>), (demo_lw demo_file ram_os)\<lparr>world := w\<rparr>, n')
    \<and> ram.data (Some 0) w = ''01wxyz6789''
    \<and> so_out n' = simple_reply (request_of (Write 0 1 2 ''wxyz'')) NBD_SUCCESS
        @ simple_reply (request_of (Read 0 2 1 6)) NBD_SUCCESS @ ''1wxyz6''
        @ simple_reply (request_of (Flush 0 3)) NBD_SUCCESS
        @ simple_reply (request_of (Read 0 4 8 4)) NBD_EIO"
proof -
  let ?n = "demo_net (concat (map wire demo_commands) @ disconnect 0 5)"
  let ?d = "''0123456789''"
  have h: "ctx_handle demo_ctx = Some 0" and e: "nc_eflags demo_ctx AND NBD_FLAG_READ_ONLY = 0"
    and z: "unat (nc_minimum_block_size demo_ctx) = 1" and sz: "unat (ctx_exportsize demo_ctx) = length ?d"
    by (simp_all add: demo_ctx_def nbd_consts)
  have leg: "\<forall>c \<in> set demo_commands. legal 1 (length ?d) c"
    by (simp add: demo_commands_def)
  have input: "so_in ?n = concat (map wire demo_commands) @ disconnect 0 5 @ []"
    by (simp add: demo_net_def)
  have sv: "serve_all demo_commands ?d = (simple_reply (request_of (Write 0 1 2 ''wxyz'')) NBD_SUCCESS
        @ simple_reply (request_of (Read 0 2 1 6)) NBD_SUCCESS @ ''1wxyz6''
        @ simple_reply (request_of (Flush 0 3)) NBD_SUCCESS
        @ simple_reply (request_of (Read 0 4 8 4)) NBD_EIO, ''01wxyz6789'')"
    by (simp add: demo_commands_def splice_def)
  have ok: "ram.usable (ctx_handle demo_ctx) (world (demo_lw demo_file ram_os))"
    and dat: "?d = ram.data (ctx_handle demo_ctx) (world (demo_lw demo_file ram_os))"
    using demo_file_usable h by (simp_all add: demo_plugin_of)
  show ?thesis
    using transmission_refines_server [OF sock.tcp.stream_transport_axioms ram.dev.block_device_axioms z
        demo_cfg_block(2,3) demo_plugin_of(1-4) e ok TrueI dat sz leg input] h sv
    by (auto simp: demo_net_def)
qed

end
