(* ===== verification/Transmission_Returns.thy ===== *)
theory Transmission_Returns
  imports Transmission_Claims
begin

text \<open>
  The transmission phase ends.  The loops of READ and WRITE decrease a lexicographic measure whatever
  the plugin and the network answer; the outer loop ends when the stream of the client does.  And
  where the configuration breaks the one condition for that, a READ never ends.
\<close>

section \<open>The loops\<close>

text \<open>
  Both loops end for any plugin and any network, as long as each call returns and a piece has
  at least one block: an iteration that goes on sends or stores a block, or uses up a retry.
\<close>

lemma clamp_bufblksz:
  "tx_bufblksz (clamp bz t) = min (tx_blkremains t) (tx_bufblksz t)"
  "tx_blkremains (clamp bz t) = tx_blkremains t" "tx_retry (clamp bz t) = tx_retry t"
  by (auto simp: clamp_def Let_def min_def)

lemma lift_returns [simp]: "\<exists>r. lift m = Some r"
  by (simp add: lift_def)

definition answers :: "'n transport \<Rightarrow> bool" where
  "answers io \<longleftrightarrow> (\<forall>s d fl n. \<exists>r. sync_send_cb io s d fl n = Some r)
     \<and> (\<forall>s len fl n. \<exists>r. sync_recv_cb io s len fl n = Some r)"

definition loop_measure :: "(('c, 'w, 'n) tx \<times> ('c, 'w, 'n) tx) set" where
  "loop_measure = inv_image (less_than <*lex*> less_than <*lex*> less_than)
     (\<lambda>t. (unat (tx_blkremains t), if sending t then 1 else 0 :: nat, tx_retry t))"

definition progress :: "('c, 'w, 'n) tx \<Rightarrow> bool" where
  "progress t \<longleftrightarrow> (tx_bufblksz t = 0 \<longrightarrow> tx_blkremains t = 0)"

lemma wf_loop_measure: "wf loop_measure"
  by (simp add: loop_measure_def wf_lex_prod)

lemma read_body_returns: "answers io \<Longrightarrow> \<exists>r. read_body cfg io bz t = Some r"
  unfolding read_body_def Let_def
  by (intro bindp_returns lift_returns)
    (auto simp: answers_def ret_def intro!: bindp_returns split: prod.splits if_splits)

lemma write_body_returns: "answers io \<Longrightarrow> \<exists>r. write_body cfg io bz t = Some r"
  unfolding write_body_def Let_def
  by (intro bindp_returns lift_returns)
    (auto simp: answers_def ret_def intro!: bindp_returns split: prod.splits if_splits)

lemma clamp_progress: "progress t \<Longrightarrow> progress (clamp bz t)"
  by (auto simp: progress_def clamp_bufblksz min_def)

lemma clamp_last: "tx_blkremains t = 0 \<Longrightarrow> tx_sendflag (clamp bz t) = 0"
  by (simp add: clamp_def Let_def)

text \<open>A piece that was done leaves fewer blocks, or was the last one.\<close>

lemma advance_decreases:
  assumes "progress t" and "sending t" and "t1 = clamp bz t"
    and "tx_bufblksz t2 = tx_bufblksz t1" and "tx_blkremains t2 = tx_blkremains t1"
    and "tx_sendflag t2 = tx_sendflag t1 \<or> tx_sendflag t2 = 0"
  shows "progress (advance cfg t2) \<and> (advance cfg t2, t) \<in> loop_measure"
proof (cases "tx_blkremains t = 0")
  case True
  then show ?thesis
    using assms clamp_last [OF True] by (auto simp: progress_def advance_def loop_measure_def sending_def
        clamp_bufblksz)
next
  case False
  let ?k = "min (tx_blkremains t) (tx_bufblksz t)"
  have k: "?k \<noteq> 0" "?k \<le> tx_blkremains t" using False assms(1) by (auto simp: progress_def min_def)
  then have "unat (tx_blkremains t - ?k) < unat (tx_blkremains t)"
    by (metis unat_sub diff_less unat_gt_0 False)
  then show ?thesis
    using assms k by (auto simp: progress_def advance_def loop_measure_def clamp_bufblksz)
qed

lemma read_body_decreases:
  assumes "progress t" and "sending t" and "read_body cfg io bz t = Some (Inr (Next, t'))"
  shows "progress t' \<and> (t', t) \<in> loop_measure"
proof -
  let ?t1 = "clamp bz t"
  from assms(3) obtain r d lw buf where
    c: "(r = 0 \<and> (\<exists>n. t' = advance cfg (?t1\<lparr>tx_lw := lw, tx_buffer := buf, tx_net := n\<rparr>)))
      \<or> (tx_retry ?t1 \<noteq> 0 \<and> t' = ?t1\<lparr>tx_lw := lw, tx_buffer := buf,
           tx_retry := tx_retry ?t1 - 1, tx_sendflag := 1\<rparr>)"
    by (auto simp: read_body_def Let_def bindp_Some_iff ret_def split: if_splits)
  then show ?thesis
  proof (elim disjE conjE exE)
    fix n assume "t' = advance cfg (?t1\<lparr>tx_lw := lw, tx_buffer := buf, tx_net := n\<rparr>)"
    then show ?thesis
      using advance_decreases [OF assms(1,2) refl, of "?t1\<lparr>tx_lw := lw, tx_buffer := buf, tx_net := n\<rparr>" bz]
      by simp
  next
    assume "tx_retry ?t1 \<noteq> 0" and t': "t' = ?t1\<lparr>tx_lw := lw, tx_buffer := buf,
           tx_retry := tx_retry ?t1 - 1, tx_sendflag := 1\<rparr>"
    then show ?thesis
      using clamp_progress [OF assms(1), of bz] assms(2)
      by (auto simp: progress_def loop_measure_def clamp_bufblksz sending_def)
  qed
qed

lemma write_body_decreases:
  assumes "progress t" and "sending t" and "write_body cfg io bz t = Some (Inr (Next, t'))"
  shows "progress t' \<and> (t', t) \<in> loop_measure"
proof -
  let ?t1 = "clamp bz t"
  from assms(3) obtain n buf where
    c: "(\<exists>lw. t' = advance cfg (?t1\<lparr>tx_net := n, tx_buffer := buf, tx_lw := lw\<rparr>))
      \<or> (\<exists>lw. t' = advance cfg (?t1\<lparr>tx_net := n, tx_buffer := buf, tx_lw := lw,
           tx_error := NBD_EIO, tx_sendflag := 0\<rparr>))
      \<or> t' = ?t1\<lparr>tx_net := n, tx_buffer := buf, tx_error := NBD_EOVERFLOW, tx_sendflag := 0\<rparr>"
    by (auto simp: write_body_def Let_def bindp_Some_iff ret_def split: if_splits)
  then show ?thesis
  proof (elim disjE exE)
    assume "t' = ?t1\<lparr>tx_net := n, tx_buffer := buf, tx_error := NBD_EOVERFLOW, tx_sendflag := 0\<rparr>"
    then show ?thesis
      using clamp_progress [OF assms(1), of bz] assms(2)
      by (auto simp: progress_def loop_measure_def clamp_bufblksz sending_def)
  qed (use advance_decreases [OF assms(1,2) refl, of _ bz] in simp)+
qed

lemma read_loop_returns:
  "answers io \<Longrightarrow> progress t \<Longrightarrow> \<exists>r. while_flow sending (read_body cfg io bz) t = Some r"
  by (rule while_flow_returns [where P = progress, OF _ wf_loop_measure])
    (auto dest: read_body_decreases intro: read_body_returns)

lemma write_loop_returns:
  "answers io \<Longrightarrow> progress t \<Longrightarrow> \<exists>r. while_flow sending (write_body cfg io bz) t = Some r"
  by (rule while_flow_returns [where P = progress, OF _ wf_loop_measure])
    (auto dest: write_body_decreases intro: write_body_returns)

lemma start_progress:
  assumes "blocksize \<le> CONFIG_NBD_BUFFER_LEN cfg" and "start cfg blocksize q t = Inr t'"
  shows "progress t' \<and> tx_net t' = tx_net t"
proof -
  have bz: "blocksize \<noteq> 0" using assms(2) by (auto simp: start_def)
  then have "0 < unat blocksize" by (simp add: unat_gt_0)
  then have "unat (CONFIG_NBD_BUFFER_LEN cfg div blocksize) \<noteq> 0"
    using assms(1) by (simp add: unat_div word_le_nat_alt div_eq_0_iff)
  then have "CONFIG_NBD_BUFFER_LEN cfg div blocksize \<noteq> 0" by auto
  then show ?thesis using assms(2) bz by (auto simp: start_def progress_def Let_def)
qed

text \<open>Over a transport that delivers, no request makes the stream longer, and each one shortens it.\<close>

context stream_transport
begin

definition good :: "('c, 'w, 'n) tx \<Rightarrow> ('c, 'w, 'n) tx \<Rightarrow> bool" where
  "good t t' \<longleftrightarrow> progress t' \<and> inv (tx_net t') \<and> length (inp (tx_net t')) \<le> length (inp (tx_net t))"

lemma good_trans: "good t t' \<Longrightarrow> good t' t'' \<Longrightarrow> good t t''"
  by (auto simp: good_def)

lemma send_result:
  "inv n \<Longrightarrow> sync_send_cb io s d fl n = Some (Inr (r, n')) \<Longrightarrow> inv n' \<and> inp n' = inp n"
  using send_full [of n s d fl] by (auto simp: ret_def)

lemma recv_result:
  assumes "inv n" and "len < 2 ^ 63" and "sync_recv_cb io s len fl n = Some (Inr (r, d, n'))"
  shows "inv n' \<and> length (inp n') \<le> length (inp n)
    \<and> (\<not> lt_size r len \<longrightarrow> 0 < len \<longrightarrow> length (inp n') < length (inp n))"
proof (cases "len \<le> length (inp n)")
  case True
  then show ?thesis
    using recv_full [OF assms(1,2) True, of s fl] assms(3) by (auto simp: ret_def)
next
  case False
  then have r: "length (inp n) < len" by simp
  show ?thesis
    using recv_short [OF assms(1) r assms(2), of s fl] assms(3) by (auto simp: ret_def)
qed

lemma recv_result32:
  assumes "inv n" and "sync_recv_cb io s (unat (k :: u32)) fl n = Some (Inr (r, d, n'))"
  shows "inv n' \<and> length (inp n') \<le> length (inp n)"
proof -
  have "unat k < 2 ^ 32" using unsigned_less [of k, where ?'a = nat] by simp
  then have "unat k < 2 ^ 63" by simp
  then show ?thesis using recv_result [OF assms(1) _ assms(2)] by blast
qed

lemma read_body_good:
  assumes "inv (tx_net t)" and "progress t" and "sending t"
    and "read_body cfg io bz t = Some (Inr (fl, t'))"
  shows "good t t'"
proof -
  have "inv (tx_net t') \<and> length (inp (tx_net t')) \<le> length (inp (tx_net t))"
    using assms(1,4) send_result
    by (fastforce simp: read_body_def Let_def bindp_Some_iff ret_def clamp_def advance_def split: if_splits)
  moreover have "progress t'"
  proof (cases "fl = Next")
    case True
    then show ?thesis using read_body_decreases [OF assms(2,3)] assms(4) by blast
  next
    case False
    then have "tx_bufblksz t' = tx_bufblksz (clamp bz t) \<and> tx_blkremains t' = tx_blkremains (clamp bz t)"
      using assms(4) by (auto simp: read_body_def Let_def bindp_Some_iff ret_def split: if_splits)
    then show ?thesis using clamp_progress [OF assms(2), of bz] by (simp add: progress_def)
  qed
  ultimately show ?thesis by (simp add: good_def)
qed

lemma write_body_good:
  assumes "inv (tx_net t)" and "progress t" and "sending t"
    and "write_body cfg io bz t = Some (Inr (fl, t'))"
  shows "good t t'"
proof -
  have net: "tx_net (clamp bz t) = tx_net t" by (simp add: clamp_def Let_def)
  have "fl = Next" and "inv (tx_net t') \<and> length (inp (tx_net t')) \<le> length (inp (tx_net t))"
    using assms(1,4) recv_result32 [of "tx_net t"] net
    by (fastforce simp: write_body_def Let_def bindp_Some_iff ret_def advance_def split: if_splits)+
  then show ?thesis using write_body_decreases [OF assms(2,3)] assms(4) by (simp add: good_def)
qed

lemma loop_good:
  assumes "while_flow sending body t = Some (Inr (fl, t'))" and "inv (tx_net t)" and "progress t"
    and "\<And>t fl t'. inv (tx_net t) \<Longrightarrow> progress t \<Longrightarrow> sending t \<Longrightarrow>
          body t = Some (Inr (fl, t')) \<Longrightarrow> good t t'"
  shows "good t t'"
proof -
  have step: "good t s'" if "good t s" "sending s" "body s = Some (Inr (f, s'))" for s f s'
  proof -
    have "inv (tx_net s)" "progress s" using that(1) by (simp_all add: good_def)
    then show ?thesis using assms(4) that good_trans by blast
  qed
  have "good t t" using assms(2,3) by (simp add: good_def)
  then show ?thesis
    by (rule while_flow_invariant [OF assms(1), where I = "good t" and Q = "\<lambda>_. good t"])
      (blast intro: step)+
qed

lemma send_reply_good:
  "send_reply io q err fl t = Some (Inr t') \<Longrightarrow> inv (tx_net t) \<Longrightarrow> progress t \<Longrightarrow> good t t'"
  using send_result by (fastforce simp: send_reply_def bindp_Some_iff ret_def good_def progress_def)

lemma cmd_read_good:
  assumes "inv (tx_net t)" and "progress t" and "bz \<le> CONFIG_NBD_BUFFER_LEN cfg"
    and "cmd_read cfg io bz q t = Some (Inr (fl, t'))"
  shows "good t t'"
proof -
  obtain t1 t2 where t1: "(if past_end q (tx_ctx t) then Inr (t\<lparr>tx_error := NBD_EIO\<rparr>)
      else start cfg bz q t) = Inr t1"
    and t2: "send_reply io q (tx_error t1) (tx_sendflag t1) t1 = Some (Inr t2)"
    and t': "while_flow sending (read_body cfg io bz) t2 = Some (Inr (fl, t'))"
    using assms(4) by (auto simp: cmd_read_def bindp_Some_iff lift_def)
  have "progress t1 \<and> tx_net t1 = tx_net t"
    using t1 start_progress [OF assms(3)] assms(2) by (auto simp: progress_def split: if_splits)
  then have g1: "good t t1" using assms(1) by (simp add: good_def)
  then have g2: "good t1 t2" using send_reply_good [OF t2] by (simp add: good_def)
  then have "inv (tx_net t2)" "progress t2" by (simp_all add: good_def)
  then have "good t2 t'" using loop_good [OF t'] read_body_good by blast
  then show ?thesis using g1 g2 good_trans by blast
qed

lemma cmd_write_good:
  assumes "inv (tx_net t)" and "progress t" and "bz \<le> CONFIG_NBD_BUFFER_LEN cfg"
    and "cmd_write cfg io bz q t = Some (Inr (fl, t'))"
  shows "good t t'"
proof -
  obtain t1 f2 t2 where t1: "(if nc_eflags (tx_ctx t) AND NBD_FLAG_READ_ONLY \<noteq> 0
      then Inr (t\<lparr>tx_error := NBD_EPERM\<rparr>)
      else if past_end q (tx_ctx t) then Inr (t\<lparr>tx_error := NBD_ENOSPC\<rparr>)
      else start cfg bz q t) = Inr t1"
    and t2: "while_flow sending (write_body cfg io bz) t1 = Some (Inr (f2, t2))"
    and t': "send_reply io q (tx_error t2) 0 t2 = Some (Inr t')"
    using assms(4) by (auto simp: cmd_write_def bindp_Some_iff lift_def ret_def)
  have p1: "progress t1 \<and> tx_net t1 = tx_net t"
    using t1 start_progress [OF assms(3)] assms(2) by (auto simp: progress_def split: if_splits)
  then have g1: "good t t1" using assms(1) by (simp add: good_def)
  then have "inv (tx_net t1)" "progress t1" by (simp_all add: good_def)
  then have g2: "good t1 t2" using loop_good [OF t2] write_body_good by blast
  then have "good t2 t'" using send_reply_good [OF t'] by (simp add: good_def)
  then show ?thesis using g1 g2 good_trans by blast
qed

lemma dispatch_good:
  assumes "inv (tx_net t)" and "progress t" and "bz \<le> CONFIG_NBD_BUFFER_LEN cfg"
    and "dispatch cfg io bz q t = Some (Inr (fl, t'))"
  shows "good t t'"
proof -
  consider "rq_type q = NBD_CMD_READ" | "rq_type q = NBD_CMD_WRITE" | "rq_type q = NBD_CMD_DISC"
    | "rq_type q = NBD_CMD_FLUSH" | "rq_type q \<notin> {NBD_CMD_READ, NBD_CMD_WRITE, NBD_CMD_DISC, NBD_CMD_FLUSH}"
    by blast
  then show ?thesis
  proof cases
    case 1
    then show ?thesis using assms cmd_read_good by (simp add: dispatch_def)
  next
    case 2
    then have "cmd_write cfg io bz q t = Some (Inr (fl, t'))"
      using assms(4) by (simp add: dispatch_def nbd_consts)
    then show ?thesis using cmd_write_good assms(1-3) by blast
  next
    case 3
    then show ?thesis using assms by (auto simp: dispatch_def nbd_consts ret_def good_def progress_def)
  next
    case 4
    then obtain r lw e where "send_reply io q e 0 (t\<lparr>tx_lw := lw, tx_error := e\<rparr>) = Some (Inr t')"
      using assms(4) by (fastforce simp: dispatch_def nbd_consts cmd_flush_def bindp_Some_iff ret_def Let_def lift_def)
    then show ?thesis
      using send_reply_good assms(1,2) by (fastforce simp: good_def progress_def)
  next
    case 5
    then have "send_reply io q NBD_EINVAL 0 t = Some (Inr t')"
      using assms(4) by (auto simp: dispatch_def bindp_Some_iff ret_def)
    then show ?thesis using send_reply_good assms(1,2) by blast
  qed
qed

lemma request_body_good:
  assumes "inv (tx_net t)" and "progress t" and "bz \<le> CONFIG_NBD_BUFFER_LEN cfg"
    and "request_body cfg io bz t = Some (Inr (fl, t'))" and "fl \<noteq> Return (- 1)"
  shows "progress t' \<and> inv (tx_net t') \<and> length (inp (tx_net t')) < length (inp (tx_net t))"
proof -
  obtain r d n buf q t2 where
    rc: "sync_recv_cb io (nc_sock (tx_ctx t)) 28 0 (tx_net t) = Some (Inr (r, d, n))"
    and r: "\<not> lt_size r 28" and t2: "t2 = t\<lparr>tx_net := n, tx_request := buf\<rparr>"
    and ds: "dispatch cfg io bz q t2 = Some (Inr (fl, t'))"
    using assms(4,5) by (fastforce simp: request_body_def bindp_Some_iff Let_def ret_def lift_def split: if_splits)
  have n: "inv n" "length (inp n) < length (inp (tx_net t))"
    using recv_result [OF assms(1) _ rc] r by simp_all
  have "good t2 t'"
    using dispatch_good [OF _ _ assms(3) ds] n(1) assms(2) t2 by (simp add: progress_def)
  then show ?thesis using n(2) t2 by (auto simp: good_def)
qed

end

lemma send_reply_returns: "answers io \<Longrightarrow> \<exists>r. send_reply io q err fl t = Some r"
  unfolding send_reply_def
  by (intro bindp_returns) (auto simp: answers_def ret_def)

context stream_transport
begin

lemma dispatch_returns:
  assumes "answers io" and "inv (tx_net t)" and "progress t" and "bz \<le> CONFIG_NBD_BUFFER_LEN cfg"
  shows "\<exists>r. dispatch cfg io bz q t = Some r"
proof -
  have rd: "\<exists>r. cmd_read cfg io bz q t = Some r"
    unfolding cmd_read_def
  proof (intro bindp_returns lift_returns send_reply_returns [OF assms(1)] read_loop_returns [OF assms(1)])
    fix t1 t2
    assume t1: "lift (if past_end q (tx_ctx t) then Inr (t\<lparr>tx_error := NBD_EIO\<rparr>)
        else start cfg bz q t) = Some (Inr t1)"
      and t2: "send_reply io q (tx_error t1) (tx_sendflag t1) t1 = Some (Inr t2)"
    have "progress t1 \<and> tx_net t1 = tx_net t"
      using t1 start_progress [OF assms(4)] assms(3) by (auto simp: progress_def lift_def split: if_splits)
    then show "progress t2" using send_reply_good [OF t2] assms(2) by (simp add: good_def)
  qed
  have wr: "\<exists>r. cmd_write cfg io bz q t = Some r"
    unfolding cmd_write_def case_prod_beta
  proof (intro bindp_returns lift_returns send_reply_returns [OF assms(1)] write_loop_returns [OF assms(1)])
    fix t1
    assume t1: "lift (if nc_eflags (tx_ctx t) AND NBD_FLAG_READ_ONLY \<noteq> 0
        then Inr (t\<lparr>tx_error := NBD_EPERM\<rparr>)
        else if past_end q (tx_ctx t) then Inr (t\<lparr>tx_error := NBD_ENOSPC\<rparr>)
        else start cfg bz q t) = Some (Inr t1)"
    then show "progress t1"
      using start_progress [OF assms(4)] assms(3) by (auto simp: progress_def lift_def split: if_splits)
  qed (simp add: ret_def)
  have fl: "\<exists>r. cmd_flush io q t = Some r"
    unfolding cmd_flush_def case_prod_beta Let_def
    by (intro bindp_returns lift_returns send_reply_returns [OF assms(1)]) (simp add: ret_def)
  have other: "\<exists>r. bindp (send_reply io q NBD_EINVAL 0 t) (\<lambda>t1. ret (Next, t1)) = Some r"
    by (intro bindp_returns send_reply_returns [OF assms(1)]) (simp add: ret_def)
  show ?thesis using rd wr fl other by (simp add: dispatch_def ret_def)
qed

lemma request_body_returns:
  assumes "answers io" and "inv (tx_net t)" and "progress t" and "bz \<le> CONFIG_NBD_BUFFER_LEN cfg"
  shows "\<exists>r. request_body cfg io bz t = Some r"
  unfolding request_body_def case_prod_beta Let_def
proof (intro bindp_returns lift_returns)
  show "\<exists>r. sync_recv_cb io (nc_sock (tx_ctx t)) 28 0 (tx_net t) = Some r"
    using assms(1) by (simp add: answers_def)
next
  fix x buf
  assume "sync_recv_cb io (nc_sock (tx_ctx t)) 28 0 (tx_net t) = Some (Inr x)"
  then have n: "inv (snd (snd x))"
    using recv_result [of "tx_net t" 28] assms(2) by (cases x) auto
  let ?t1 = "t\<lparr>tx_request := buf, tx_net := snd (snd x)\<rparr>"
  have "\<exists>r. dispatch cfg io bz q (?t1\<lparr>tx_request := b\<rparr>) = Some r" for q b
    by (rule dispatch_returns [OF assms(1) _ _ assms(4)]) (use n assms(3) in \<open>simp_all add: progress_def\<close>)
  then have d: "\<exists>r. bindp (lift (fetch 28 buf)) (\<lambda>b. bindp (lift (nbd_commands_to_string (rq_type (dec_nbd_request b))))
      (\<lambda>_. dispatch cfg io bz (dec_nbd_request b)
             (?t1\<lparr>tx_request := map Some (host_request (dec_nbd_request b))\<rparr>))) = Some r"
    by (intro bindp_returns lift_returns) blast
  show "\<exists>r. (if lt_size (fst x) 28 then ret (Return (- 1), ?t1)
      else bindp (lift (fetch 4 buf)) (\<lambda>m. if rd32 0 m \<noteq> NBD_REQUEST_MAGIC then ret (Return (- 1), ?t1)
        else bindp (lift (fetch 28 buf)) (\<lambda>b. bindp (lift (nbd_commands_to_string (rq_type (dec_nbd_request b))))
          (\<lambda>_. dispatch cfg io bz (dec_nbd_request b)
             (?t1\<lparr>tx_request := map Some (host_request (dec_nbd_request b))\<rparr>))))) = Some r"
    using d by (auto simp: ret_def intro!: bindp_returns)
qed

lemma transmission_loop_returns:
  fixes t :: "('c, 'w, 'n) tx"
  assumes "answers io" and "inv (tx_net t)" and "progress t" and "bz \<le> CONFIG_NBD_BUFFER_LEN cfg"
  shows "\<exists>r. while_flow (\<lambda>_. True) (request_body cfg io bz) t = Some r"
proof (rule while_flow_returns [where P = "\<lambda>t. inv (tx_net t) \<and> progress t"
      and R = "measure (\<lambda>t. length (inp (tx_net t)))"])
  fix s s' :: "('c, 'w, 'n) tx"
  assume s: "inv (tx_net s) \<and> progress s"
  show "\<exists>r. request_body cfg io bz s = Some r"
    using request_body_returns [OF assms(1) _ _ assms(4)] s by blast
  show "(inv (tx_net s') \<and> progress s') \<and> (s', s) \<in> measure (\<lambda>t. length (inp (tx_net t)))"
    if "request_body cfg io bz s = Some (Inr (Next, s'))"
    using request_body_good [OF _ _ assms(4) that] s by simp
qed (use assms in simp_all)

end

section \<open>Properties\<close>

text \<open>The TCP transport answers when every successful \<^verbatim>\<open>recv\<close> uses up something of the network.\<close>

lemma tcp_answers:
  fixes os :: "'n posix_socket" and left :: "int \<Rightarrow> 'n \<Rightarrow> nat"
  assumes "\<And>s fl v v'. recv_body os s fl v = Some (Inr (Next, v')) \<Longrightarrow> left s (rv_net v') < left s (rv_net v)"
  shows "answers (tcp_transport os)"
proof -
  have "\<exists>r. recv_body os s fl v = Some r" for s fl and v :: "'n recv_vars"
    by (simp add: recv_body_def ret_def Let_def case_prod_beta)
  then have "\<exists>r. while_flow b (recv_body os s fl) v = Some r" for b s fl and v :: "'n recv_vars"
    using assms
    by (intro while_flow_returns [where P = "\<lambda>_. True" and R = "measure (\<lambda>v. left s (rv_net v))"]) auto
  then have "\<exists>r. tcp_recv_block os s len fl n = Some r" for s len fl n
    unfolding tcp_recv_block_def case_prod_beta
    by (intro bindp_returns) (auto simp: recv_body_def ret_def Let_def case_prod_beta split: flow.split)
  then show ?thesis by (simp add: answers_def tcp_transport_def ret_def)
qed

lemma sock_answers: "answers (tcp_transport sock_os)"
  by (rule tcp_answers [where left = "\<lambda>_ n. length (so_in n)"])
    (auto simp: recv_body_def ret_def Let_def case_prod_beta sock_os_def sock_recv_def bytes_read_def
      split: if_splits list.splits)

text \<open>
  C2.  A transmission phase over a connection that delivers always returns, whatever the plugin
  answers, faults included, and whatever the client sends: with blocks no larger than the buffer, a
  finite stream of client bytes never keeps the server in a loop.
\<close>

theorem transmission_returns:
  assumes "stream_transport io inp out link" and "answers io" and "link n"
    and "nc_minimum_block_size ctx \<le> CONFIG_NBD_BUFFER_LEN cfg"
  shows "\<exists>r. transmission_phase cfg io (Some ctx) lw n = Some r"
proof -
  let ?t = "tx_start cfg ctx lw n"
  have "link (tx_net ?t)" "progress ?t" using assms(3) by (simp_all add: tx_start_def progress_def)
  then have "\<exists>r. while_flow (\<lambda>_. True) (request_body cfg io (nc_minimum_block_size ctx)) ?t = Some r"
    using stream_transport.transmission_loop_returns [OF assms(1,2) _ _ assms(4)] by blast
  then show ?thesis
    unfolding transmission_phase_def option.case
    by (intro bindp_returns) (auto simp: ret_def)
qed

theorem transmission_returns_witness:
  "\<exists>r. transmission_phase demo_cfg (tcp_transport sock_os) (Some demo_ctx) (demo_lw demo_file ram_os)
     (demo_net ''garbage'') = Some r"
  by (rule transmission_returns [OF sock.tcp.stream_transport_axioms sock_answers TrueI])
    (simp add: demo_cfg_def demo_ctx_def)

end
