(* ===== verification/Transmission_Errors.thy ===== *)
theory Transmission_Errors
  imports Transmission_Returns
begin

text \<open>
  The transmission phase off the straight path: headers that are short, wrong or unknown, a
  plugin that fails, the bounds check, and a configuration whose buffer is smaller than a block.
\<close>

section \<open>Headers\<close>

text \<open>The magic of a request and a simple reply, as bytes on the wire.\<close>

definition request_magic :: "byte list" where
  "request_magic = [CHR 0x25, CHR 0x60, CHR 0x95, CHR 0x13]"

definition wire_reply :: "nat \<Rightarrow> u64 \<Rightarrow> byte list" where
  "wire_reply err h = [CHR 0x67, CHR 0x44, CHR 0x66, CHR 0x98, CHR 0x00, CHR 0x00, CHR 0x00, char_of err] @ be64 h"

text \<open>What can be told of a turn from outside: the bytes left, the bytes sent, the context and the library.\<close>

definition observe ::
  "('n \<Rightarrow> byte list) \<Rightarrow> ('n \<Rightarrow> byte list) \<Rightarrow> (flow \<times> ('c, 'w, 'n) tx) run
    \<Rightarrow> (flow \<times> byte list \<times> byte list \<times> nbd_context \<times> ('c, 'w) lwnbd) run" where
  "observe inp out m = bindp m (\<lambda>(fl, t). ret (fl, inp (tx_net t), out (tx_net t), tx_ctx t, tx_lw t))"

lemma simple_reply_wire: "unat err < 256 \<Longrightarrow> simple_reply q err = wire_reply (unat err) (rq_handle q)"
  by (simp add: simple_reply_def enc_nbd_simple_reply_def wire_reply_def be32_def enc_be_numeral nbd_consts
    char_of_eq_iff take_bit_eq_mod)

lemma past_end_nat:
  "past_end q ctx \<longleftrightarrow> unat (ctx_exportsize ctx) < (unat (rq_offset q) + unat (rq_count q)) mod 2 ^ 64"
  by (simp add: past_end_def word_less_nat_alt unat_word_ariths unat_ucast_u32)

lemma observe_ret: "observe inp out (ret (fl, t)) = ret (fl, inp (tx_net t), out (tx_net t), tx_ctx t, tx_lw t)"
  by (simp add: observe_def)

lemma read_only_bit: "NBD_FLAG_READ_ONLY = 2"
  by (simp add: nbd_consts)

context stream_transport
begin

lemma header_received:
  assumes "inv (tx_net t)" and "inp (tx_net t) = b @ r" and "length b = 28"
    and "length (tx_request t) = 28"
  obtains n where "inv n" and "inp n = r" and "out n = out (tx_net t)"
    and "request_body cfg io bz t =
      (let t1 = t\<lparr>tx_request := map Some b, tx_net := n\<rparr>; q = dec_nbd_request b
       in if rd32 0 b \<noteq> NBD_REQUEST_MAGIC then ret (Return (- 1), t1)
          else if 8 \<le> unat (rq_type q) then Some (Inl Out_Of_Bounds)
          else dispatch cfg io bz q (t1\<lparr>tx_request := map Some (host_request q)\<rparr>))"
proof -
  have l63: "length b < 2 ^ 63" using assms(3) by simp
  obtain n where n: "sync_recv_cb io (nc_sock (tx_ctx t)) 28 0 (tx_net t) = ret (28, b, n)"
    "inp n = r" "out n = out (tx_net t)" "inv n"
    using recv_fullE [OF assms(1,2) l63, of "nc_sock (tx_ctx t)" 0] assms(3) by auto
  have st: "store b (tx_request t) = Inr (map Some b)" using assms(3,4) by simp
  have f28: "fetch 28 (map Some b) = Inr b" using fetch_prefix [of b 28 "[]"] assms(3) by simp
  have "map Some b = map Some (take 4 b) @ map Some (drop 4 b)"
    by (metis append_take_drop_id map_append)
  then have f4: "fetch 4 (map Some b) = Inr (take 4 b)"
    using fetch_prefix [of "take 4 b" 4 "map Some (drop 4 b)"] assms(3) by simp
  have rd: "rd32 0 (take 4 b) = rd32 0 b" by (simp add: rd32_def)
  have "request_body cfg io bz t =
      (let t1 = t\<lparr>tx_request := map Some b, tx_net := n\<rparr>; q = dec_nbd_request b
       in if rd32 0 b \<noteq> NBD_REQUEST_MAGIC then ret (Return (- 1), t1)
          else if 8 \<le> unat (rq_type q) then Some (Inl Out_Of_Bounds)
          else dispatch cfg io bz q (t1\<lparr>tx_request := map Some (host_request q)\<rparr>))"
    using n(1) st f28 f4 rd lt_size_of_nat [of 28 28]
    by (simp add: request_body_def nbd_commands_to_string_def nbd_commands_def Let_def lift_def)
  then show thesis using that n(2-4) by blast
qed

text \<open>A header given field by field, behind the magic as it stands on the wire.\<close>

lemma magic_wire: "be32 0x25609513 = request_magic"
  by (simp add: be32_def enc_be_numeral request_magic_def char_of_eq_iff take_bit_eq_mod)

lemma header_decoded:
  assumes "inv (tx_net t)" and "length (tx_request t) = 28"
    and "inp (tx_net t) = magic @ be16 fl @ be16 ty @ be64 h @ be64 off @ be32 cnt @ r" and "length magic = 4"
  obtains n where "inp n = r" and "out n = out (tx_net t)" and "inv n"
    and "magic \<noteq> request_magic \<Longrightarrow> \<exists>b. request_body cfg io bz t = ret (Return (- 1), t\<lparr>tx_request := b, tx_net := n\<rparr>)"
    and "magic = request_magic \<Longrightarrow> \<exists>b. request_body cfg io bz t =
      (if 8 \<le> unat ty then Some (Inl Out_Of_Bounds)
       else dispatch cfg io bz \<lparr>rq_magic = 0x25609513, rq_flags = fl, rq_type = ty, rq_handle = h,
              rq_offset = off, rq_count = cnt\<rparr> (t\<lparr>tx_net := n, tx_request := b\<rparr>))"
proof -
  let ?b = "magic @ be16 fl @ be16 ty @ be64 h @ be64 off @ be32 cnt"
  let ?q = "\<lparr>rq_magic = 0x25609513, rq_flags = fl, rq_type = ty, rq_handle = h, rq_offset = off, rq_count = cnt\<rparr>"
  have i: "inp (tx_net t) = ?b @ r" and l: "length ?b = 28" using assms(3,4) by simp_all
  obtain n where n: "inv n" "inp n = r" "out n = out (tx_net t)" and run: "request_body cfg io bz t =
      (let t1 = t\<lparr>tx_request := map Some ?b, tx_net := n\<rparr>; q = dec_nbd_request ?b
       in if rd32 0 ?b \<noteq> NBD_REQUEST_MAGIC then ret (Return (- 1), t1)
          else if 8 \<le> unat (rq_type q) then Some (Inl Out_Of_Bounds)
          else dispatch cfg io bz q (t1\<lparr>tx_request := map Some (host_request q)\<rparr>))"
    by (rule header_received [OF assms(1) i l assms(2)])
  note m = magic_wire
  have "be32 (rd32 0 ?b) = take 4 (drop 0 ?b)" by (rule be_rd(2)) (use l in simp)
  then have "magic = be32 (rd32 0 ?b)" using assms(4) by simp
  then have bad: "rd32 0 ?b \<noteq> NBD_REQUEST_MAGIC" if "magic \<noteq> request_magic"
    using that m by (auto simp: nbd_consts)
  have rd: "rd32 0 ?b = NBD_REQUEST_MAGIC" if "magic = request_magic"
    using that rd32_be(1) [of "0x25609513"] by (simp add: nbd_consts m)
  have "?b = enc_nbd_request ?q" if "magic = request_magic"
    using that m by (simp add: enc_nbd_request_def)
  then have dec: "dec_nbd_request ?b = ?q" if "magic = request_magic"
    using that request.dec_enc [of ?q] by simp
  show thesis
  proof (rule that [OF n(2,3,1)])
    show "\<exists>b. request_body cfg io bz t = ret (Return (- 1), t\<lparr>tx_request := b, tx_net := n\<rparr>)"
      if "magic \<noteq> request_magic"
      unfolding run Let_def if_P [OF bad [OF that]] by blast
    show "\<exists>b. request_body cfg io bz t = (if 8 \<le> unat ty then Some (Inl Out_Of_Bounds)
        else dispatch cfg io bz ?q (t\<lparr>tx_net := n, tx_request := b\<rparr>))" if "magic = request_magic"
      unfolding run Let_def dec [OF that] using rd [OF that] by (intro exI [of _ "map Some (host_request ?q)"]) simp
  qed
qed

lemma send_reply_wire:
  assumes "inv (tx_net t)" and "unat err < 256"
  obtains n where "send_reply io q err fl t = ret (t\<lparr>tx_net := n\<rparr>)" and "inp n = inp (tx_net t)"
    and "out n = out (tx_net t) @ wire_reply (unat err) (rq_handle q)" and "inv n"
proof -
  obtain n where n: "sync_send_cb io (nc_sock (tx_ctx t)) (simple_reply q err) fl (tx_net t)
      = ret (int (length (simple_reply q err)), n)" "inp n = inp (tx_net t)"
    "out n = out (tx_net t) @ simple_reply q err" "inv n"
    using sendE [OF assms(1)] .
  then show thesis using that simple_reply_wire [OF assms(2)] by (simp add: send_reply_def)
qed

text \<open>READ and WRITE of a count that fits the buffer: one piece.\<close>

lemma clamp_one:
  assumes "tx_blkremains t = k" and "tx_bufblksz t = m" and "tx_byteread t = m * bz" and "k \<le> m"
  shows "clamp bz t = t\<lparr>tx_bufblksz := k, tx_byteread := k * bz, tx_sendflag := 0\<rparr>"
  using assms by (cases "k < m") (auto simp: clamp_def Let_def)

lemma unat_blocks: "bz \<noteq> 0 \<Longrightarrow> unat (c div bz * bz :: u32) = unat c div unat bz * unat bz"
  using unat_mult_le [of "c div bz" bz c] by (simp add: unat_div)

lemma piece_fits:
  assumes "cnt div bz \<le> CONFIG_NBD_BUFFER_LEN cfg div bz" and "bz \<noteq> 0"
  shows "unat (cnt div bz * bz) \<le> MAX_REQUEST_SIZE cfg"
proof -
  have "unat cnt div unat bz * unat bz \<le> unat (CONFIG_NBD_BUFFER_LEN cfg) div unat bz * unat bz"
    using assms(1) by (simp add: word_le_nat_alt unat_div)
  also have "\<dots> \<le> unat (CONFIG_NBD_BUFFER_LEN cfg)" by simp
  finally show ?thesis using unat_blocks [OF assms(2), of cnt] by (simp add: MAX_REQUEST_SIZE_def)
qed

lemma read_one_piece:
  assumes "inv (tx_net t)" and "\<not> past_end q (tx_ctx t)" and "bz \<noteq> 0"
    and "rq_count q div bz \<le> CONFIG_NBD_BUFFER_LEN cfg div bz"
    and "lwnbd_pread (tx_lw t) (tx_ctx t) (rq_count q div bz) (rq_offset q div ucast bz) 0 = Inr (0, d, lw)"
    and "length d = unat (rq_count q div bz * bz)" and "length (tx_buffer t) = MAX_REQUEST_SIZE cfg"
  shows "observe inp out (cmd_read cfg io bz q t) =
    ret (Next, inp (tx_net t), out (tx_net t) @ wire_reply 0 (rq_handle q) @ d, tx_ctx t, lw)"
proof -
  let ?k = "rq_count q div bz" and ?m = "CONFIG_NBD_BUFFER_LEN cfg div bz"
  let ?t1 = "t\<lparr>tx_error := NBD_SUCCESS, tx_sendflag := MSG_MORE, tx_bufblksz := ?m,
    tx_blkremains := ?k, tx_offset := rq_offset q div ucast bz, tx_byteread := ?m * bz\<rparr>"
  have st: "start cfg bz q t = Inr ?t1" using assms(3) by (simp add: start_def Let_def)
  have l1: "inv (tx_net ?t1)" and e0: "unat NBD_SUCCESS < 256" using assms(1) by (simp_all add: nbd_consts)
  obtain n where n: "send_reply io q NBD_SUCCESS MSG_MORE ?t1 = ret (?t1\<lparr>tx_net := n\<rparr>)"
    "inp n = inp (tx_net t)" "out n = out (tx_net t) @ wire_reply 0 (rq_handle q)" "inv n"
    using send_reply_wire [OF l1 e0, of q MSG_MORE] by (auto simp: nbd_consts)
  let ?t2 = "?t1\<lparr>tx_net := n\<rparr>"
  let ?t3 = "?t2\<lparr>tx_bufblksz := ?k, tx_byteread := ?k * bz, tx_sendflag := 0\<rparr>"
  have cl: "clamp bz ?t2 = ?t3" by (subst clamp_one [where k = ?k and m = ?m]) (use assms(4) in simp_all)
  obtain n' where n': "sync_send_cb io (nc_sock (tx_ctx t)) d 0 n = ret (int (length d), n')"
    "inp n' = inp n" "out n' = out n @ d"
    using sendE [OF n(4)] .
  have le: "length d \<le> length (tx_buffer t)" using piece_fits [OF assms(4,3)] assms(6,7) by simp
  have ok: "word_of_int (int (length d)) = ?k * bz"
    unfolding assms(6) by (rule word_of_int_unat)
  define t4 where "t4 = ?t3\<lparr>tx_lw := lw, tx_buffer := map Some d @ drop (length d) (tx_buffer t), tx_net := n'\<rparr>"
  have "read_body cfg io bz ?t2 = ret (Next, advance cfg t4)"
    unfolding read_body_def cl using assms(5,6) n'(1) le ok by (simp add: Let_def t4_def)
  moreover have "sending ?t2" "\<not> sending (advance cfg t4)" by (simp_all add: sending_def MSG_MORE_def t4_def)
  ultimately have "while_flow sending (read_body cfg io bz) ?t2 = ret (Next, advance cfg t4)"
    by (simp add: while_flow_next ret_def)
  then have "cmd_read cfg io bz q t = ret (Next, advance cfg t4)"
    using assms(2) st n(1) by (simp add: cmd_read_def)
  then show ?thesis using n(2,3) n'(2,3) by (simp add: observe_def t4_def)
qed

lemma write_one_piece:
  assumes "inv (tx_net t)" and "\<not> past_end q (tx_ctx t)" and "nc_eflags (tx_ctx t) AND NBD_FLAG_READ_ONLY = 0"
    and "bz \<noteq> 0" and "rq_count q div bz \<le> CONFIG_NBD_BUFFER_LEN cfg div bz"
    and "\<forall>b. take (length d) b = d \<longrightarrow>
      lwnbd_pwrite (tx_lw t) (tx_ctx t) b (rq_count q div bz) (rq_offset q div ucast bz) 0 = Inr (e, lw)"
    and "length d = unat (rq_count q div bz * bz)" and "length (tx_buffer t) = MAX_REQUEST_SIZE cfg"
    and "inp (tx_net t) = d @ r"
  shows "observe inp out (cmd_write cfg io bz q t) =
    ret (Next, r, out (tx_net t) @ wire_reply (if e = 0 then 0 else 5) (rq_handle q), tx_ctx t, lw)"
proof -
  let ?k = "rq_count q div bz" and ?m = "CONFIG_NBD_BUFFER_LEN cfg div bz"
  let ?t1 = "t\<lparr>tx_error := NBD_SUCCESS, tx_sendflag := MSG_MORE, tx_bufblksz := ?m,
    tx_blkremains := ?k, tx_offset := rq_offset q div ucast bz, tx_byteread := ?m * bz\<rparr>"
  have st: "start cfg bz q t = Inr ?t1" using assms(4) by (simp add: start_def Let_def)
  let ?t3 = "?t1\<lparr>tx_bufblksz := ?k, tx_byteread := ?k * bz, tx_sendflag := 0\<rparr>"
  have cl: "clamp bz ?t1 = ?t3" by (subst clamp_one [where k = ?k and m = ?m]) (use assms(5) in simp_all)
  have l63: "length d < 2 ^ 63"
    using assms(7) unsigned_less [of "rq_count q div bz * bz", where ?'a = nat] by simp
  obtain n where n: "sync_recv_cb io (nc_sock (tx_ctx t)) (length d) 0 (tx_net t) = ret (int (length d), d, n)"
    "inp n = r" "out n = out (tx_net t)" "inv n"
    using recv_fullE [OF assms(1,9) l63] .
  have le: "length d \<le> length (tx_buffer t)" using piece_fits [OF assms(5,4)] assms(7,8) by simp
  have ok: "word_of_int (int (length d)) = ?k * bz"
    unfolding assms(7) by (rule word_of_int_unat)
  have ul: "unat (?k * bz) = length d" using assms(7) by simp
  let ?buf = "map Some d @ drop (length d) (tx_buffer t)"
  have pw: "lwnbd_pwrite (tx_lw t) (tx_ctx t) (filled ?buf) ?k (rq_offset q div ucast bz) 0 = Inr (e, lw)"
    using assms(6) take_filled by blast
  define t4 where "t4 = (let t = ?t3\<lparr>tx_net := n, tx_buffer := ?buf, tx_lw := lw\<rparr>
    in if e \<noteq> 0 then t\<lparr>tx_error := NBD_EIO, tx_sendflag := 0\<rparr> else t)"
  have "write_body cfg io bz ?t1 = ret (Next, advance cfg t4)"
    unfolding write_body_def cl using n(1) le ok pw
    by (cases "e = 0") (simp_all add: Let_def t4_def ul)
  moreover have "sending ?t1" "\<not> sending (advance cfg t4)"
    by (simp_all add: sending_def MSG_MORE_def t4_def Let_def)
  ultimately have w: "while_flow sending (write_body cfg io bz) ?t1 = ret (Next, advance cfg t4)"
    by (simp add: while_flow_next ret_def)
  have l4: "inv (tx_net (advance cfg t4))" and e4: "unat (tx_error (advance cfg t4)) < 256"
    using n(4) by (simp_all add: t4_def Let_def nbd_consts)
  obtain n' where n': "send_reply io q (tx_error t4) 0 (advance cfg t4) = ret ((advance cfg t4)\<lparr>tx_net := n'\<rparr>)"
    "inp n' = r" "out n' = out (tx_net t) @ wire_reply (if e = 0 then 0 else 5) (rq_handle q)"
  proof (rule send_reply_wire [OF l4 e4, of q 0])
    fix n'
    assume "send_reply io q (tx_error (advance cfg t4)) 0 (advance cfg t4) = ret ((advance cfg t4)\<lparr>tx_net := n'\<rparr>)"
      "inp n' = inp (tx_net (advance cfg t4))"
      "out n' = out (tx_net (advance cfg t4)) @ wire_reply (unat (tx_error (advance cfg t4))) (rq_handle q)"
    moreover have "inp (tx_net (advance cfg t4)) = r" "out (tx_net (advance cfg t4)) = out (tx_net t)"
      "unat (tx_error (advance cfg t4)) = (if e = 0 then 0 else 5)" "tx_error (advance cfg t4) = tx_error t4"
      using n(2,3) by (simp_all add: t4_def Let_def nbd_consts)
    ultimately show thesis using that by simp
  qed
  have "cmd_write cfg io bz q t = ret (Next, (advance cfg t4)\<lparr>tx_net := n'\<rparr>)"
    using assms(2,3) st w n'(1) by (simp add: cmd_write_def)
  then show ?thesis using n' by (simp add: observe_def t4_def Let_def)
qed

text \<open>The turns, by the bytes of the header.\<close>

lemma header_invalid:
  assumes "inv (tx_net t)" and "length (tx_request t) = 28"
    and "inp (tx_net t) = magic @ be16 fl @ be16 ty @ be64 h @ be64 off @ be32 cnt @ r" and "length magic = 4"
    and "magic \<noteq> request_magic"
  shows "observe inp out (request_body cfg io bz t) = ret (Return (- 1), r, out (tx_net t), tx_ctx t, tx_lw t)"
  by (rule header_decoded [OF assms(1-4), of cfg bz]) (use assms(5) in \<open>auto simp: observe_ret\<close>)

lemma decoded_turn:
  assumes "inv (tx_net t)" and "length (tx_request t) = 28"
    and "inp (tx_net t) = request_magic @ be16 fl @ be16 ty @ be64 h @ be64 off @ be32 cnt @ r"
  obtains n b where "inp n = r" and "out n = out (tx_net t)" and "inv n"
    and "request_body cfg io bz t = (if 8 \<le> unat ty then Some (Inl Out_Of_Bounds)
       else dispatch cfg io bz \<lparr>rq_magic = 0x25609513, rq_flags = fl, rq_type = ty, rq_handle = h,
              rq_offset = off, rq_count = cnt\<rparr> (t\<lparr>tx_net := n, tx_request := b\<rparr>))"
proof -
  have l: "length request_magic = 4" by (simp add: request_magic_def)
  show thesis by (rule header_decoded [OF assms l, of cfg bz]) (use that in blast)
qed

lemma header_control:
  assumes "inv (tx_net t)" and "length (tx_request t) = 28"
    and "inp (tx_net t) = request_magic @ be16 fl @ be16 ty @ be64 h @ be64 off @ be32 cnt @ r"
  shows "8 \<le> unat ty \<Longrightarrow> request_body cfg io bz t = Some (Inl Out_Of_Bounds)"
    and "ty = 2 \<Longrightarrow> observe inp out (request_body cfg io bz t)
      = ret (Return 0, r, out (tx_net t), (tx_ctx t)\<lparr>nc_state := ABORT\<rparr>, tx_lw t)"
    and "4 \<le> unat ty \<Longrightarrow> unat ty < 8 \<Longrightarrow> observe inp out (request_body cfg io bz t)
      = ret (Next, r, out (tx_net t) @ wire_reply 22 h, tx_ctx t, tx_lw t)"
proof -
  let ?q = "\<lparr>rq_magic = 0x25609513, rq_flags = fl, rq_type = ty, rq_handle = h, rq_offset = off, rq_count = cnt\<rparr>"
  obtain n b where n: "inp n = r" "out n = out (tx_net t)" "inv n" and run: "request_body cfg io bz t =
      (if 8 \<le> unat ty then Some (Inl Out_Of_Bounds) else dispatch cfg io bz ?q (t\<lparr>tx_net := n, tx_request := b\<rparr>))"
    by (rule decoded_turn [OF assms])
  show "8 \<le> unat ty \<Longrightarrow> request_body cfg io bz t = Some (Inl Out_Of_Bounds)" using run by simp
  show "ty = 2 \<Longrightarrow> observe inp out (request_body cfg io bz t)
      = ret (Return 0, r, out (tx_net t), (tx_ctx t)\<lparr>nc_state := ABORT\<rparr>, tx_lw t)"
    unfolding run using n by (simp add: dispatch_def nbd_consts observe_ret)
  show "observe inp out (request_body cfg io bz t)
      = ret (Next, r, out (tx_net t) @ wire_reply 22 h, tx_ctx t, tx_lw t)" if ty: "4 \<le> unat ty" "unat ty < 8"
  proof -
    have d: "dispatch cfg io bz ?q u = bindp (send_reply io ?q NBD_EINVAL 0 u) (\<lambda>t1. ret (Next, t1))"
      for u
      using ty(1) by (auto simp: dispatch_def nbd_consts)
    have l: "inv (tx_net (t\<lparr>tx_net := n, tx_request := b\<rparr>))" and e: "unat NBD_EINVAL < 256"
      using n(3) by (simp_all add: nbd_consts)
    obtain n' where "send_reply io ?q NBD_EINVAL 0 (t\<lparr>tx_net := n, tx_request := b\<rparr>)
        = ret ((t\<lparr>tx_net := n, tx_request := b\<rparr>)\<lparr>tx_net := n'\<rparr>)" "inp n' = r"
      "out n' = out (tx_net t) @ wire_reply 22 h"
      using send_reply_wire [OF l e, of ?q 0] n(1,2) by (auto simp: nbd_consts)
    then show ?thesis unfolding run d using ty(2) by (simp add: observe_ret)
  qed
qed

lemma header_refused:
  assumes "inv (tx_net t)" and "length (tx_request t) = 28"
    and "inp (tx_net t) = request_magic @ be16 fl @ be16 ty @ be64 h @ be64 off @ be32 cnt @ r"
    and "tx_sendflag t = 0"
  shows "ty = 0 \<Longrightarrow> unat (ctx_exportsize (tx_ctx t)) < (unat off + unat cnt) mod 2 ^ 64 \<Longrightarrow>
      observe inp out (request_body cfg io bz t) = ret (Next, r, out (tx_net t) @ wire_reply 5 h, tx_ctx t, tx_lw t)"
    and "ty = 1 \<Longrightarrow> nc_eflags (tx_ctx t) AND 2 = 0 \<Longrightarrow>
      unat (ctx_exportsize (tx_ctx t)) < (unat off + unat cnt) mod 2 ^ 64 \<Longrightarrow>
      observe inp out (request_body cfg io bz t) = ret (Next, r, out (tx_net t) @ wire_reply 28 h, tx_ctx t, tx_lw t)"
    and "ty = 1 \<Longrightarrow> nc_eflags (tx_ctx t) AND 2 \<noteq> 0 \<Longrightarrow>
      observe inp out (request_body cfg io bz t) = ret (Next, r, out (tx_net t) @ wire_reply 1 h, tx_ctx t, tx_lw t)"
proof -
  let ?q = "\<lparr>rq_magic = 0x25609513, rq_flags = fl, rq_type = ty, rq_handle = h, rq_offset = off, rq_count = cnt\<rparr>"
  obtain n b where n: "inp n = r" "out n = out (tx_net t)" "inv n" and run: "request_body cfg io bz t =
      (if 8 \<le> unat ty then Some (Inl Out_Of_Bounds) else dispatch cfg io bz ?q (t\<lparr>tx_net := n, tx_request := b\<rparr>))"
    by (rule decoded_turn [OF assms(1-3)])
  let ?u = "\<lambda>err. t\<lparr>tx_net := n, tx_request := b, tx_error := err\<rparr>"
  have rep: "\<exists>n'. send_reply io ?q err 0 (?u err) = ret ((?u err)\<lparr>tx_net := n'\<rparr>) \<and> inp n' = r
      \<and> out n' = out (tx_net t) @ wire_reply (unat err) h" if "unat err < 256" for err
  proof -
    have l: "inv (tx_net (?u err))" using n(3) by simp
    show ?thesis by (rule send_reply_wire [OF l that, of ?q 0]) (use n(1,2) in auto)
  qed
  have idle: "\<not> sending ((?u err)\<lparr>tx_net := n'\<rparr>)" "\<not> sending (?u err)" for err n'
    using assms(4) by (simp_all add: sending_def)
  show "ty = 0 \<Longrightarrow> unat (ctx_exportsize (tx_ctx t)) < (unat off + unat cnt) mod 2 ^ 64 \<Longrightarrow>
      observe inp out (request_body cfg io bz t) = ret (Next, r, out (tx_net t) @ wire_reply 5 h, tx_ctx t, tx_lw t)"
    unfolding run using rep [of NBD_EIO] idle assms(4)
    by (auto simp: dispatch_def nbd_consts cmd_read_def past_end_nat observe_ret ret_def [symmetric])
  show "ty = 1 \<Longrightarrow> nc_eflags (tx_ctx t) AND 2 = 0 \<Longrightarrow>
      unat (ctx_exportsize (tx_ctx t)) < (unat off + unat cnt) mod 2 ^ 64 \<Longrightarrow>
      observe inp out (request_body cfg io bz t) = ret (Next, r, out (tx_net t) @ wire_reply 28 h, tx_ctx t, tx_lw t)"
    unfolding run using rep [of NBD_ENOSPC] idle
    by (auto simp: dispatch_def nbd_consts cmd_write_def past_end_nat observe_ret ret_def [symmetric])
  show "ty = 1 \<Longrightarrow> nc_eflags (tx_ctx t) AND 2 \<noteq> 0 \<Longrightarrow>
      observe inp out (request_body cfg io bz t) = ret (Next, r, out (tx_net t) @ wire_reply 1 h, tx_ctx t, tx_lw t)"
    unfolding run using rep [of NBD_EPERM] idle
    by (auto simp: dispatch_def nbd_consts cmd_write_def observe_ret ret_def [symmetric])
qed

lemma header_flush:
  assumes "inv (tx_net t)" and "length (tx_request t) = 28"
    and "inp (tx_net t) = request_magic @ be16 fl @ be16 ty @ be64 h @ be64 off @ be32 cnt @ r"
    and "ty = 3" and "lwnbd_flush (tx_lw t) (tx_ctx t) 0 = Inr (e, lw)"
  shows "observe inp out (request_body cfg io bz t)
    = ret (Next, r, out (tx_net t) @ wire_reply (if e = 0 then 0 else 5) h, tx_ctx t, lw)"
proof -
  let ?q = "\<lparr>rq_magic = 0x25609513, rq_flags = fl, rq_type = ty, rq_handle = h, rq_offset = off, rq_count = cnt\<rparr>"
  obtain n b where n: "inp n = r" "out n = out (tx_net t)" "inv n" and run: "request_body cfg io bz t =
      (if 8 \<le> unat ty then Some (Inl Out_Of_Bounds) else dispatch cfg io bz ?q (t\<lparr>tx_net := n, tx_request := b\<rparr>))"
    by (rule decoded_turn [OF assms(1-3)])
  let ?err = "if e = 0 then NBD_SUCCESS else NBD_EIO"
  let ?u = "t\<lparr>tx_net := n, tx_request := b, tx_lw := lw, tx_error := ?err\<rparr>"
  have l: "inv (tx_net ?u)" and e: "unat ?err < 256" and v: "unat ?err = (if e = 0 then 0 else 5)"
    using n(3) by (simp_all add: nbd_consts)
  obtain n' where n': "send_reply io ?q ?err 0 ?u = ret (?u\<lparr>tx_net := n'\<rparr>)" "inp n' = r"
    "out n' = out (tx_net t) @ wire_reply (unat ?err) h"
    by (rule send_reply_wire [OF l e, of ?q 0]) (use n(1,2) in auto)
  have "dispatch cfg io bz ?q (t\<lparr>tx_net := n, tx_request := b\<rparr>) = ret (Next, ?u\<lparr>tx_net := n'\<rparr>)"
    using assms(4,5) n'(1) by (simp add: dispatch_def NBD_CMD_READ_def NBD_CMD_WRITE_def NBD_CMD_DISC_def
      NBD_CMD_FLUSH_def cmd_flush_def Let_def)
  then show ?thesis unfolding run using n'(2,3) assms(4) v by (simp add: observe_ret)
qed

lemma header_read:
  assumes "inv (tx_net t)" and "length (tx_request t) = 28"
    and "inp (tx_net t) = request_magic @ be16 fl @ be16 ty @ be64 h @ be64 off @ be32 cnt @ r"
    and "length (tx_buffer t) = MAX_REQUEST_SIZE cfg"
    and "ty = 0" and "(unat off + unat cnt) mod 2 ^ 64 \<le> unat (ctx_exportsize (tx_ctx t))" and "bz \<noteq> 0"
    and "cnt div bz \<le> CONFIG_NBD_BUFFER_LEN cfg div bz" and "length d = unat (cnt div bz * bz)"
    and "lwnbd_pread (tx_lw t) (tx_ctx t) (cnt div bz) (off div ucast bz) 0 = Inr (0, d, lw)"
  shows "observe inp out (request_body cfg io bz t)
    = ret (Next, r, out (tx_net t) @ wire_reply 0 h @ d, tx_ctx t, lw)"
proof -
  let ?q = "\<lparr>rq_magic = 0x25609513, rq_flags = fl, rq_type = ty, rq_handle = h, rq_offset = off, rq_count = cnt\<rparr>"
  obtain n b where n: "inp n = r" "out n = out (tx_net t)" "inv n" and run: "request_body cfg io bz t =
      (if 8 \<le> unat ty then Some (Inl Out_Of_Bounds) else dispatch cfg io bz ?q (t\<lparr>tx_net := n, tx_request := b\<rparr>))"
    by (rule decoded_turn [OF assms(1-3)])
  let ?u = "t\<lparr>tx_net := n, tx_request := b\<rparr>"
  have "observe inp out (cmd_read cfg io bz ?q ?u)
      = ret (Next, inp (tx_net ?u), out (tx_net ?u) @ wire_reply 0 (rq_handle ?q) @ d, tx_ctx ?u, lw)"
    by (rule read_one_piece) (use assms(4,6-10) n(3) in \<open>simp_all add: past_end_nat not_less\<close>)
  then show ?thesis unfolding run using n(1,2) assms(5) by (simp add: dispatch_def NBD_CMD_READ_def)
qed

lemma header_write:
  assumes "inv (tx_net t)" and "length (tx_request t) = 28"
    and "inp (tx_net t) = request_magic @ be16 fl @ be16 ty @ be64 h @ be64 off @ be32 cnt @ r"
    and "length (tx_buffer t) = MAX_REQUEST_SIZE cfg"
    and "ty = 1" and "nc_eflags (tx_ctx t) AND 2 = 0"
    and "(unat off + unat cnt) mod 2 ^ 64 \<le> unat (ctx_exportsize (tx_ctx t))" and "bz \<noteq> 0"
    and "cnt div bz \<le> CONFIG_NBD_BUFFER_LEN cfg div bz" and "length d = unat (cnt div bz * bz)"
    and "r = d @ r'"
    and "\<forall>b. take (length d) b = d \<longrightarrow>
      lwnbd_pwrite (tx_lw t) (tx_ctx t) b (cnt div bz) (off div ucast bz) 0 = Inr (e, lw)"
  shows "observe inp out (request_body cfg io bz t)
    = ret (Next, r', out (tx_net t) @ wire_reply (if e = 0 then 0 else 5) h, tx_ctx t, lw)"
proof -
  let ?q = "\<lparr>rq_magic = 0x25609513, rq_flags = fl, rq_type = ty, rq_handle = h, rq_offset = off, rq_count = cnt\<rparr>"
  obtain n b where n: "inp n = r" "out n = out (tx_net t)" "inv n" and run: "request_body cfg io bz t =
      (if 8 \<le> unat ty then Some (Inl Out_Of_Bounds) else dispatch cfg io bz ?q (t\<lparr>tx_net := n, tx_request := b\<rparr>))"
    by (rule decoded_turn [OF assms(1-3)])
  let ?u = "t\<lparr>tx_net := n, tx_request := b\<rparr>"
  have "observe inp out (cmd_write cfg io bz ?q ?u)
      = ret (Next, r', out (tx_net ?u) @ wire_reply (if e = 0 then 0 else 5) (rq_handle ?q), tx_ctx ?u, lw)"
    by (rule write_one_piece [where d = d])
      (use assms(4,6-12) n(1,3) in \<open>simp_all add: past_end_nat not_less read_only_bit\<close>)
  then show ?thesis unfolding run using n(2) assms(5)
    by (simp add: dispatch_def NBD_CMD_READ_def NBD_CMD_WRITE_def)
qed

end

text \<open>
  C14.  What one turn of the outer loop does with the 28 bytes of a header, given field by field as the
  client sends them, with the bytes \<open>r\<close> behind it.  Without the bytes 25 60 95 13 in front the phase returns
  \<^verbatim>\<open>-1\<close> and sends nothing.  A type from 8 on, which has no name, makes the debug message read past
  the end of the name table.  \<^verbatim>\<open>NBD_CMD_DISC\<close> returns 0 in the state \<open>ABORT\<close>, and TRIM, CACHE, WRITE_ZEROES
  and BLOCK_STATUS are answered with \<^verbatim>\<open>EINVAL\<close> (22).  A READ whose end, modulo \<open>2 ^ 64\<close>, is behind the
  export is answered with \<^verbatim>\<open>EIO\<close> (5), a WRITE with \<^verbatim>\<open>ENOSPC\<close> (28), and a WRITE of a read-only export
  with \<^verbatim>\<open>EPERM\<close> (1); the payload of a refused WRITE stays in the stream.  FLUSH calls the plugin once and
  answers 0 or 5.  A READ of at most a buffer asks the plugin for \<open>cnt div bz\<close> blocks from block
  \<open>off div bz\<close> on and sends a reply without error and the data; such a WRITE hands the payload to the
  plugin and answers 0 or 5.  Every reply begins with 67 44 66 98 and carries the handle of the request.
\<close>

theorem request_header:
  fixes t :: "('c, 'w, 'n) tx"
  assumes "stream_transport io inp out link" and "link (tx_net t)" and "length (tx_request t) = 28"
    and "length (tx_buffer t) = MAX_REQUEST_SIZE cfg" and "tx_sendflag t = 0" and "length magic = 4"
    and "inp (tx_net t) = magic @ be16 fl @ be16 ty @ be64 h @ be64 off @ be32 cnt @ r"
  shows "(magic \<noteq> [CHR 0x25, CHR 0x60, CHR 0x95, CHR 0x13] \<longrightarrow>
      observe inp out (request_body cfg io bz t) = ret (Return (- 1), r, out (tx_net t), tx_ctx t, tx_lw t))
   \<and> (magic = [CHR 0x25, CHR 0x60, CHR 0x95, CHR 0x13] \<longrightarrow>
      (8 \<le> unat ty \<longrightarrow> request_body cfg io bz t = Some (Inl Out_Of_Bounds))
    \<and> (ty = 2 \<longrightarrow> observe inp out (request_body cfg io bz t)
         = ret (Return 0, r, out (tx_net t), (tx_ctx t)\<lparr>nc_state := ABORT\<rparr>, tx_lw t))
    \<and> (4 \<le> unat ty \<and> unat ty < 8 \<longrightarrow> observe inp out (request_body cfg io bz t)
         = ret (Next, r, out (tx_net t) @ wire_reply 22 h, tx_ctx t, tx_lw t))
    \<and> (ty = 0 \<and> unat (ctx_exportsize (tx_ctx t)) < (unat off + unat cnt) mod 2 ^ 64 \<longrightarrow>
         observe inp out (request_body cfg io bz t)
         = ret (Next, r, out (tx_net t) @ wire_reply 5 h, tx_ctx t, tx_lw t))
    \<and> (ty = 1 \<and> nc_eflags (tx_ctx t) AND 2 = 0
         \<and> unat (ctx_exportsize (tx_ctx t)) < (unat off + unat cnt) mod 2 ^ 64 \<longrightarrow>
         observe inp out (request_body cfg io bz t)
         = ret (Next, r, out (tx_net t) @ wire_reply 28 h, tx_ctx t, tx_lw t))
    \<and> (ty = 1 \<and> nc_eflags (tx_ctx t) AND 2 \<noteq> 0 \<longrightarrow> observe inp out (request_body cfg io bz t)
         = ret (Next, r, out (tx_net t) @ wire_reply 1 h, tx_ctx t, tx_lw t))
    \<and> (\<forall>e lw. ty = 3 \<and> lwnbd_flush (tx_lw t) (tx_ctx t) 0 = Inr (e, lw) \<longrightarrow>
         observe inp out (request_body cfg io bz t)
         = ret (Next, r, out (tx_net t) @ wire_reply (if e = 0 then 0 else 5) h, tx_ctx t, lw))
    \<and> (\<forall>d lw. ty = 0 \<and> (unat off + unat cnt) mod 2 ^ 64 \<le> unat (ctx_exportsize (tx_ctx t)) \<and> bz \<noteq> 0
         \<and> cnt div bz \<le> CONFIG_NBD_BUFFER_LEN cfg div bz \<and> length d = unat (cnt div bz * bz)
         \<and> lwnbd_pread (tx_lw t) (tx_ctx t) (cnt div bz) (off div ucast bz) 0 = Inr (0, d, lw) \<longrightarrow>
         observe inp out (request_body cfg io bz t)
         = ret (Next, r, out (tx_net t) @ wire_reply 0 h @ d, tx_ctx t, lw))
    \<and> (\<forall>d r' e lw. ty = 1 \<and> nc_eflags (tx_ctx t) AND 2 = 0
         \<and> (unat off + unat cnt) mod 2 ^ 64 \<le> unat (ctx_exportsize (tx_ctx t)) \<and> bz \<noteq> 0
         \<and> cnt div bz \<le> CONFIG_NBD_BUFFER_LEN cfg div bz \<and> length d = unat (cnt div bz * bz) \<and> r = d @ r'
         \<and> (\<forall>b. take (length d) b = d \<longrightarrow>
              lwnbd_pwrite (tx_lw t) (tx_ctx t) b (cnt div bz) (off div ucast bz) 0 = Inr (e, lw)) \<longrightarrow>
         observe inp out (request_body cfg io bz t)
         = ret (Next, r', out (tx_net t) @ wire_reply (if e = 0 then 0 else 5) h, tx_ctx t, lw)))"
proof (cases "magic = request_magic")
  case False
  then show ?thesis
    using stream_transport.header_invalid [OF assms(1-3,7,6) False] by (simp add: request_magic_def)
next
  case True
  have i: "inp (tx_net t) = request_magic @ be16 fl @ be16 ty @ be64 h @ be64 off @ be32 cnt @ r"
    using assms(7) True by simp
  note turns = stream_transport.header_control [OF assms(1-3) i] stream_transport.header_refused [OF assms(1-3) i assms(5)]
    stream_transport.header_flush [OF assms(1-3) i] stream_transport.header_read [OF assms(1-3) i assms(4)]
    stream_transport.header_write [OF assms(1-3) i assms(4)]
  have m: "magic = [CHR 0x25, CHR 0x60, CHR 0x95, CHR 0x13]" using True by (simp add: request_magic_def)
  show ?thesis
    by (intro conjI impI allI; (elim conjE)?; (rule turns; assumption)?) (simp add: m)
qed

text \<open>A TRIM, then a WRITE of 4 bytes at offset 8 of the 10 bytes, whose payload stays in the stream.\<close>

theorem request_header_witness:
  "(let t = tx_start demo_cfg demo_ctx (demo_lw demo_file ram_os)
       (demo_net (request_magic @ be16 0 @ be16 4 @ be64 7 @ be64 0 @ be32 4 @ ''xyz''))
     in observe so_in so_out (request_body demo_cfg (tcp_transport sock_os) 1 t)
          = ret (Next, ''xyz'', wire_reply 22 7, tx_ctx t, tx_lw t))
   \<and> (let t = tx_start demo_cfg demo_ctx (demo_lw demo_file ram_os)
       (demo_net (request_magic @ be16 0 @ be16 1 @ be64 9 @ be64 8 @ be32 4 @ ''data''))
     in observe so_in so_out (request_body demo_cfg (tcp_transport sock_os) 1 t)
          = ret (Next, ''data'', wire_reply 28 9, tx_ctx t, tx_lw t))"
proof -
  let ?t = "\<lambda>b. tx_start demo_cfg demo_ctx (demo_lw demo_file ram_os) (demo_net b)"
  have st: "length (tx_request (?t b)) = 28" "length (tx_buffer (?t b)) = MAX_REQUEST_SIZE demo_cfg"
    "tx_sendflag (?t b) = 0" "so_in (tx_net (?t b)) = b" "so_out (tx_net (?t b)) = []"
    "unat (ctx_exportsize (tx_ctx (?t b))) = 10" "nc_eflags (tx_ctx (?t b)) AND 2 = 0" for b
    by (simp_all add: tx_start_def demo_net_def demo_ctx_def)
  have m: "length request_magic = 4" "request_magic = [CHR 0x25, CHR 0x60, CHR 0x95, CHR 0x13]"
    by (simp_all add: request_magic_def)
  show ?thesis
    using request_header [OF sock.tcp.stream_transport_axioms TrueI st(1-3) m(1) st(4), of 1 0 4 7 0 4 "''xyz''"]
      request_header [OF sock.tcp.stream_transport_axioms TrueI st(1-3) m(1) st(4), of 1 0 1 9 8 4 "''data''"]
    by (simp add: m(2) st Let_def)
qed

lemma host_magic_swapped: "rq_magic q = NBD_REQUEST_MAGIC \<Longrightarrow> rd32 0 (take 4 (host_request q)) \<noteq> NBD_REQUEST_MAGIC"
  by (simp add: rd32_def dec_be_def host_request_def be32_def enc_be_numeral nbd_consts)

text \<open>
  C18.  A reception that fails with \<^verbatim>\<open>-1\<close> passes the test of its length, because \<^verbatim>\<open>sizeof\<close> makes the
  comparison unsigned.  As the first request of a client the code then reads bytes that were never
  written; after a request that was decoded it finds the magic in host order and returns \<^verbatim>\<open>-1\<close>.
\<close>

theorem failed_reception:
  assumes "sync_recv_cb io (nc_sock (tx_ctx t)) 28 0 (tx_net t) = ret (- 1, [], n)"
  shows "(tx_request t = fresh 28 \<longrightarrow> request_body cfg io bz t = Some (Inl Uninitialised))
    \<and> (tx_request t = map Some (host_request q) \<and> rq_magic q = NBD_REQUEST_MAGIC \<longrightarrow>
         request_body cfg io bz t = ret (Return (- 1), t\<lparr>tx_net := n\<rparr>))"
proof (intro conjI impI; (elim conjE)?)
  assume "tx_request t = fresh 28"
  then show "request_body cfg io bz t = Some (Inl Uninitialised)"
    using assms by (simp add: request_body_def fetch_def mem_read_def fresh_def store_def mem_write_def Let_def)
next
  assume tr: "tx_request t = map Some (host_request q)" and m: "rq_magic q = NBD_REQUEST_MAGIC"
  have "map Some (host_request q) = map Some (take 4 (host_request q)) @ map Some (drop 4 (host_request q))"
    by (metis append_take_drop_id map_append)
  then have "fetch 4 (map Some (host_request q)) = Inr (take 4 (host_request q))"
    using fetch_prefix [of "take 4 (host_request q)" 4 "map Some (drop 4 (host_request q))"] by simp
  moreover have "t\<lparr>tx_request := map Some (host_request q), tx_net := n\<rparr> = t\<lparr>tx_net := n\<rparr>"
    using tr by simp
  ultimately show "request_body cfg io bz t = ret (Return (- 1), t\<lparr>tx_net := n\<rparr>)"
    using assms tr host_magic_swapped [OF m] by (simp add: request_body_def store_def mem_write_def Let_def)
qed

text \<open>A transport whose connection is broken.\<close>

definition broken :: "unit transport" where
  "broken = \<lparr>sync_recv_cb = (\<lambda>s len fl n. ret (- 1, [], n)), sync_send_cb = (\<lambda>s d fl n. ret (- 1, n))\<rparr>"

theorem failed_reception_witness:
  "request_body demo_cfg broken 1 (tx_start demo_cfg demo_ctx (demo_lw demo_file ram_os) ())
     = Some (Inl Uninitialised)"
  using failed_reception [of broken "tx_start demo_cfg demo_ctx (demo_lw demo_file ram_os) ()" "()" demo_cfg 1]
  by (simp add: broken_def tx_start_def)

section \<open>The bounds check\<close>

text \<open>
  C16.  The check of a request against the export is made modulo \<open>2 ^ 64\<close>: it rejects exactly the
  requests whose wrapped end is behind the size.  It is exact for the requests that do not wrap
  around, and a request that does is accepted whenever its end wraps to inside the export.
\<close>

theorem bounds_check:
  "(past_end q ctx \<longleftrightarrow> unat (ctx_exportsize ctx) < (unat (rq_offset q) + unat (rq_count q)) mod 2 ^ 64)
   \<and> (unat (rq_offset q) + unat (rq_count q) < 2 ^ 64 \<longrightarrow>
        (past_end q ctx \<longleftrightarrow> unat (ctx_exportsize ctx) < unat (rq_offset q) + unat (rq_count q)))
   \<and> (rq_offset q = - 1 \<and> rq_count q = 1 \<longrightarrow> \<not> past_end q ctx)"
proof (intro conjI impI)
  show a: "past_end q ctx \<longleftrightarrow>
      unat (ctx_exportsize ctx) < (unat (rq_offset q) + unat (rq_count q)) mod 2 ^ 64"
    by (rule past_end_nat)
  show "past_end q ctx \<longleftrightarrow> unat (ctx_exportsize ctx) < unat (rq_offset q) + unat (rq_count q)"
    if "unat (rq_offset q) + unat (rq_count q) < 2 ^ 64"
    using a that by simp
  show "\<not> past_end q ctx" if "rq_offset q = - 1 \<and> rq_count q = 1"
    using that by (simp add: past_end_def)
qed

text \<open>The request of the last byte of the address space, which every export accepts.\<close>

definition last_byte :: nbd_request where
  "last_byte = \<lparr>rq_magic = NBD_REQUEST_MAGIC, rq_flags = 0, rq_type = NBD_CMD_READ, rq_handle = 0,
     rq_offset = - 1, rq_count = 1\<rparr>"

theorem bounds_check_witness: "\<not> past_end last_byte demo_ctx"
  using bounds_check [of last_byte demo_ctx, THEN conjunct2, THEN conjunct2] by (simp add: last_byte_def)

section \<open>A plugin that fails\<close>

context stream_transport
begin

lemma failing_loop:
  fixes t :: "('c, 'w, 'n) tx"
  assumes "inv (tx_net t)" and "tx_retry t = k" and "sending t"
    and "plugin_of (tx_lw t) (tx_ctx t) = Inr p" and "pl_pread p = Some f"
    and fails: "\<And>n off fl w. f (ctx_handle (tx_ctx t)) n off fl w = Inr (r, [], step w)" and "r \<noteq> 0"
  shows "\<exists>t'. while_flow sending (read_body cfg io bz) t = ret (Return (- 1), t')
    \<and> tx_net t' = tx_net t \<and> tx_retry t' = 0 \<and> tx_ctx t' = tx_ctx t
    \<and> tx_lw t' = (tx_lw t)\<lparr>world := (step ^^ Suc k) (world (tx_lw t))\<rparr>"
  using assms
proof (induction k arbitrary: t)
  case 0
  let ?t' = "(clamp bz t)\<lparr>tx_lw := (tx_lw t)\<lparr>world := step (world (tx_lw t))\<rparr>\<rparr>"
  have "read_body cfg io bz t = Some (Inr (Return (- 1), ?t'))"
    using 0 by (simp add: read_body_def lwnbd_pread_def clamp_def Let_def ret_def)
  then have "while_flow sending (read_body cfg io bz) t = ret (Return (- 1), ?t')"
    using while_flow_return [of sending t "read_body cfg io bz"] 0(3) by (simp add: ret_def)
  then show ?case using 0(2) by (simp add: clamp_def Let_def)
next
  case (Suc k)
  let ?t' = "(clamp bz t)\<lparr>tx_lw := (tx_lw t)\<lparr>world := step (world (tx_lw t))\<rparr>,
    tx_retry := k, tx_sendflag := 1\<rparr>"
  have "read_body cfg io bz t = Some (Inr (Next, ?t'))"
    using Suc.prems by (simp add: read_body_def lwnbd_pread_def clamp_def Let_def ret_def)
  then have st: "while_flow sending (read_body cfg io bz) t = while_flow sending (read_body cfg io bz) ?t'"
    using while_flow_next [of sending t "read_body cfg io bz"] Suc.prems(3) by blast
  have snd: "sending ?t'" by (simp add: sending_def)
  have fr: "tx_ctx (clamp bz t) = tx_ctx t" "tx_net (clamp bz t) = tx_net t" by (simp_all add: clamp_def Let_def)
  obtain t'' where "while_flow sending (read_body cfg io bz) ?t' = ret (Return (- 1), t'')"
    "tx_net t'' = tx_net ?t'" "tx_retry t'' = 0" "tx_ctx t'' = tx_ctx ?t'"
    "tx_lw t'' = (tx_lw ?t')\<lparr>world := (step ^^ Suc k) (world (tx_lw ?t'))\<rparr>"
    using Suc.IH [of ?t'] Suc.prems fr snd by auto
  then show ?case using st fr by (simp add: funpow_swap1)
qed

lemma failing_read:
  fixes t :: "('c, 'w, 'n) tx"
  assumes "inv (tx_net t)" and "bz \<noteq> 0" and "\<not> past_end q (tx_ctx t)"
    and "plugin_of (tx_lw t) (tx_ctx t) = Inr p" and "pl_pread p = Some f"
    and fails: "\<And>n off fl w. f (ctx_handle (tx_ctx t)) n off fl w = Inr (r, [], step w)" and "r \<noteq> 0"
  shows "\<exists>t'. cmd_read cfg io bz q t = ret (Return (- 1), t')
    \<and> out (tx_net t') = out (tx_net t) @ simple_reply q NBD_SUCCESS
    \<and> world (tx_lw t') = (step ^^ Suc (tx_retry t)) (world (tx_lw t))"
proof -
  obtain t1 where t1: "start cfg bz q t = Inr t1" "tx_error t1 = NBD_SUCCESS" "tx_sendflag t1 = MSG_MORE"
    "tx_net t1 = tx_net t" "tx_ctx t1 = tx_ctx t" "tx_lw t1 = tx_lw t" "tx_retry t1 = tx_retry t"
    using assms(2) by (simp add: start_def Let_def)
  obtain n where n: "sync_send_cb io (nc_sock (tx_ctx t)) (simple_reply q NBD_SUCCESS) MSG_MORE (tx_net t)
      = ret (int (length (simple_reply q NBD_SUCCESS)), n)"
    "out n = out (tx_net t) @ simple_reply q NBD_SUCCESS" "inv n"
    using sendE [OF assms(1)] by metis
  let ?t2 = "t1\<lparr>tx_net := n\<rparr>"
  have s: "send_reply io q (tx_error t1) (tx_sendflag t1) t1 = ret ?t2"
    using n(1) t1 by (simp add: send_reply_def)
  have snd: "sending ?t2" using t1(3) by (simp add: sending_def MSG_MORE_def)
  obtain t' where "while_flow sending (read_body cfg io bz) ?t2 = ret (Return (- 1), t')"
    "tx_net t' = n" "tx_lw t' = (tx_lw ?t2)\<lparr>world := (step ^^ Suc (tx_retry t)) (world (tx_lw ?t2))\<rparr>"
    using failing_loop [of ?t2 "tx_retry t" p f r step cfg bz] n(3) t1 assms(4-7) snd by auto
  then show ?thesis using s t1 assms(3) n(2) by (simp add: cmd_read_def)
qed

end

text \<open>
  C15.  When the plugin fails every read, a READ tries it exactly once more than the retries that are
  left, and then ends the phase with \<^verbatim>\<open>-1\<close>; by then it has already told the client that the request
  succeeded, and it sends no data and no error after that.
\<close>

theorem read_retries:
  assumes "stream_transport io inp out link" and "link (tx_net t)" and "bz \<noteq> 0"
    and "\<not> past_end q (tx_ctx t)" and "plugin_of (tx_lw t) (tx_ctx t) = Inr p" and "pl_pread p = Some f"
    and "\<And>n off fl w. f (ctx_handle (tx_ctx t)) n off fl w = Inr (r, [], step w)" and "r \<noteq> 0"
  shows "\<exists>t'. cmd_read cfg io bz q t = ret (Return (- 1), t')
    \<and> out (tx_net t') = out (tx_net t) @ simple_reply q NBD_SUCCESS
    \<and> world (tx_lw t') = (step ^^ Suc (tx_retry t)) (world (tx_lw t))"
  by (rule stream_transport.failing_read [OF assms])

text \<open>A plugin that counts the calls and fails them all.\<close>

definition failing_plugin :: "(string, nat) lwnbd_plugin_t" where
  "failing_plugin = null_plugin\<lparr>pl_pread := Some (\<lambda>h n off fl w. Inr (- 1, [], Suc w))\<rparr>"

theorem read_retries_witness:
  "\<exists>t'. cmd_read demo_cfg (tcp_transport sock_os) 1 (request_of (Read 0 7 0 4))
      (tx_start demo_cfg demo_ctx ((lwnbd_init 0)\<lparr>plugins := [Some failing_plugin]\<rparr>) (demo_net []))
      = ret (Return (- 1), t') \<and> world (tx_lw t') = 6"
proof -
  let ?t = "tx_start demo_cfg demo_ctx ((lwnbd_init 0)\<lparr>plugins := [Some failing_plugin]\<rparr>) (demo_net [])"
  let ?q = "request_of (Read 0 7 0 4)"
  have pe: "\<not> past_end ?q (tx_ctx ?t)" by (simp add: past_end_def tx_start_def demo_ctx_def)
  have p: "plugin_of (tx_lw ?t) (tx_ctx ?t) = Inr failing_plugin"
    and f: "pl_pread failing_plugin = Some (\<lambda>h n off fl w. Inr (- 1, [], Suc w))"
    by (simp_all add: plugin_of_def tx_start_def demo_ctx_def failing_plugin_def)
  have s: "(Suc ^^ Suc (tx_retry ?t)) (world (tx_lw ?t)) = 6"
    by (simp add: tx_start_def demo_cfg_def lwnbd_init_def numeral_eq_Suc)
  show ?thesis
    using read_retries [OF sock.tcp.stream_transport_axioms TrueI _ pe p f, of 1 "- 1" Suc demo_cfg] s
    by auto
qed

section \<open>A buffer smaller than a block\<close>

context stream_transport
begin

lemma stuck_loop:
  fixes t :: "('c, 'w, 'n) tx"
  assumes "inv (tx_net t)" and "sending t" and "tx_bufblksz t = 0" and "tx_byteread t = 0"
    and "tx_blkremains t \<noteq> 0" and "plugin_of (tx_lw t) (tx_ctx t) = Inr p" and "pl_pread p = Some f"
    and none: "\<And>off w. \<exists>w'. f (ctx_handle (tx_ctx t)) 0 off 0 w = Inr (0, [], w')"
  shows "while_flow sending (read_body cfg io bz) t = None"
proof -
  define P :: "('c, 'w, 'n) tx \<Rightarrow> bool" where
    "P t' \<longleftrightarrow> inv (tx_net t') \<and> sending t' \<and> tx_bufblksz t' = 0 \<and> tx_byteread t' = 0
       \<and> tx_blkremains t' \<noteq> 0 \<and> tx_ctx t' = tx_ctx t \<and> plugin_of (tx_lw t') (tx_ctx t) = Inr p" for t'
  have "sending t' \<and> (\<exists>t''. read_body cfg io bz t' = Some (Inr (Next, t'')) \<and> P t'')" if P: "P t'" for t'
  proof
    show "sending t'" using P by (simp add: P_def)
    have cl: "clamp bz t' = t'" using P by (simp add: P_def clamp_def Let_def word_gt_0)
    obtain w where w: "f (ctx_handle (tx_ctx t)) 0 (tx_offset t') 0 (world (tx_lw t')) = Inr (0, [], w)"
      using none by blast
    have "inv (tx_net t')" using P by (simp add: P_def)
    then obtain n where n: "sync_send_cb io (nc_sock (tx_ctx t)) [] (tx_sendflag t') (tx_net t')
        = ret (int (length ([] :: byte list)), n)" "inv n"
      by (rule sendE)
    have ft: "fetch 0 b = Inr []" for b by (simp add: fetch_def mem_read_def)
    let ?t'' = "advance cfg (t'\<lparr>tx_lw := (tx_lw t')\<lparr>world := w\<rparr>, tx_buffer := tx_buffer t', tx_net := n\<rparr>)"
    have "read_body cfg io bz t' = Some (Inr (Next, ?t''))"
      using P assms(7) w n(1) by (simp add: read_body_def cl P_def lwnbd_pread_def ft Let_def ret_def)
    moreover have "P ?t''" using P n(2) by (simp add: P_def advance_def sending_def)
    ultimately show "\<exists>t''. read_body cfg io bz t' = Some (Inr (Next, t'')) \<and> P t''" by blast
  qed
  moreover have "P t" using assms by (simp add: P_def)
  ultimately show ?thesis using while_flow_diverges [of P t sending "read_body cfg io bz"] by blast
qed

lemma stuck_read:
  fixes t :: "('c, 'w, 'n) tx"
  assumes "inv (tx_net t)" and "CONFIG_NBD_BUFFER_LEN cfg < bz" and "\<not> past_end q (tx_ctx t)"
    and "bz \<le> rq_count q" and "plugin_of (tx_lw t) (tx_ctx t) = Inr p" and "pl_pread p = Some f"
    and none: "\<And>off w. \<exists>w'. f (ctx_handle (tx_ctx t)) 0 off 0 w = Inr (0, [], w')"
  shows "cmd_read cfg io bz q t = None"
proof -
  have "unat (CONFIG_NBD_BUFFER_LEN cfg div bz) = 0"
    using assms(2) by (simp add: unat_div word_less_nat_alt)
  then have b0: "CONFIG_NBD_BUFFER_LEN cfg div bz = 0" by (simp add: unat_eq_0)
  have bz: "bz \<noteq> 0" using assms(2) by auto
  have "unat (rq_count q div bz) \<noteq> 0"
    using assms(4) bz by (simp add: unat_div word_le_nat_alt div_eq_0_iff unat_gt_0)
  then have c: "rq_count q div bz \<noteq> 0" by auto
  obtain t1 where t1: "start cfg bz q t = Inr t1" "tx_error t1 = NBD_SUCCESS" "tx_sendflag t1 = MSG_MORE"
    "tx_net t1 = tx_net t" "tx_ctx t1 = tx_ctx t" "tx_lw t1 = tx_lw t"
    "tx_bufblksz t1 = 0" "tx_byteread t1 = 0" "tx_blkremains t1 \<noteq> 0"
    using bz b0 c by (simp add: start_def Let_def)
  obtain n where n: "sync_send_cb io (nc_sock (tx_ctx t)) (simple_reply q NBD_SUCCESS) MSG_MORE (tx_net t)
      = ret (int (length (simple_reply q NBD_SUCCESS)), n)" "inv n"
    using sendE [OF assms(1)] by metis
  have s: "send_reply io q (tx_error t1) (tx_sendflag t1) t1 = ret (t1\<lparr>tx_net := n\<rparr>)"
    using n(1) t1 by (simp add: send_reply_def)
  have "while_flow sending (read_body cfg io bz) (t1\<lparr>tx_net := n\<rparr>) = None"
    by (rule stuck_loop [where p = p and f = f])
      (use n(2) t1 assms(5-7) in \<open>simp_all add: sending_def MSG_MORE_def\<close>)
  then show ?thesis using s t1(1) assms(3) by (simp add: cmd_read_def)
qed

end

text \<open>
  C17.  The condition on the buffer is needed: when it is smaller than one block, a READ of at least a
  block inside the export never returns.  It reads no block, sends no byte and never gets nearer
  to its end, for every plugin that takes a read of nothing well.
\<close>

theorem small_buffer_diverges:
  assumes "stream_transport io inp out link" and "link (tx_net t)"
    and "CONFIG_NBD_BUFFER_LEN cfg < bz" and "\<not> past_end q (tx_ctx t)"
    and "bz \<le> rq_count q" and "plugin_of (tx_lw t) (tx_ctx t) = Inr p" and "pl_pread p = Some f"
    and "\<And>off w. \<exists>w'. f (ctx_handle (tx_ctx t)) 0 off 0 w = Inr (0, [], w')"
  shows "cmd_read cfg io bz q t = None"
  by (rule stream_transport.stuck_read [OF assms])

definition quiet_plugin :: "(string, unit) lwnbd_plugin_t" where
  "quiet_plugin = null_plugin\<lparr>pl_pread := Some (\<lambda>h n off fl w. Inr (0, [], w))\<rparr>"

theorem small_buffer_diverges_witness:
  "cmd_read demo_cfg (tcp_transport sock_os) 8 (request_of (Read 0 7 0 8))
      (tx_start demo_cfg demo_ctx ((lwnbd_init ())\<lparr>plugins := [Some quiet_plugin]\<rparr>) (demo_net []))
    = None"
  by (rule small_buffer_diverges [OF sock.tcp.stream_transport_axioms TrueI,
        where p = quiet_plugin and f = "\<lambda>h n off fl w. Inr (0, [], w)"])
    (simp_all add: demo_cfg_def past_end_def tx_start_def demo_ctx_def plugin_of_def quiet_plugin_def)

section \<open>A plugin that stores nothing\<close>

text \<open>
  The sound plugin answers a read with 0 and stores nothing.  On a buffer that was never filled the server
  then sends bytes nobody wrote.
\<close>

context stream_transport
begin

lemma read_of_nothing:
  assumes "inv (tx_net t)" and "\<not> past_end q (tx_ctx t)" and "bz \<noteq> 0"
    and "rq_count q div bz \<le> CONFIG_NBD_BUFFER_LEN cfg div bz" and "rq_count q div bz * bz \<noteq> 0"
    and "lwnbd_pread (tx_lw t) (tx_ctx t) (rq_count q div bz) (rq_offset q div ucast bz) 0 = Inr (0, [], lw)"
    and "tx_buffer t = fresh (MAX_REQUEST_SIZE cfg)"
  shows "cmd_read cfg io bz q t = Some (Inl Uninitialised)"
proof -
  let ?k = "rq_count q div bz" and ?m = "CONFIG_NBD_BUFFER_LEN cfg div bz"
  let ?t1 = "t\<lparr>tx_error := NBD_SUCCESS, tx_sendflag := MSG_MORE, tx_bufblksz := ?m,
    tx_blkremains := ?k, tx_offset := rq_offset q div ucast bz, tx_byteread := ?m * bz\<rparr>"
  have st: "start cfg bz q t = Inr ?t1" using assms(3) by (simp add: start_def Let_def)
  have l1: "inv (tx_net ?t1)" and e0: "unat NBD_SUCCESS < 256" using assms(1) by (simp_all add: nbd_consts)
  obtain n where n: "send_reply io q NBD_SUCCESS MSG_MORE ?t1 = ret (?t1\<lparr>tx_net := n\<rparr>)"
    using send_reply_wire [OF l1 e0, of q MSG_MORE] by blast
  let ?t2 = "?t1\<lparr>tx_net := n\<rparr>"
  have cl: "clamp bz ?t2 = ?t2\<lparr>tx_bufblksz := ?k, tx_byteread := ?k * bz, tx_sendflag := 0\<rparr>"
    by (subst clamp_one [where k = ?k and m = ?m]) (use assms(4) in simp_all)
  obtain j where j: "unat (?k * bz) = Suc j" using assms(5) by (metis unat_eq_zero not0_implies_Suc)
  have "Suc j \<le> MAX_REQUEST_SIZE cfg" using piece_fits [OF assms(4,3)] j by simp
  then have f: "fetch (unat (?k * bz)) (fresh (MAX_REQUEST_SIZE cfg)) = Inl Uninitialised"
    unfolding j by (simp add: fetch_def mem_read_def fresh_def)
  have "read_body cfg io bz ?t2 = Some (Inl Uninitialised)"
    unfolding read_body_def cl using assms(6,7) f by (simp add: Let_def store_def mem_write_def)
  then have "while_flow sending (read_body cfg io bz) ?t2 = Some (Inl Uninitialised)"
    by (intro while_flow_fault) (simp_all add: sending_def MSG_MORE_def)
  then show ?thesis using assms(2) st n by (simp add: cmd_read_def)
qed

end

end
