(* ===== verification/Handshake.thy ===== *)
theory Handshake
  imports Contexts_Uri Piconbd
begin

text \<open>
  The negotiation of the NBD server, \<^verbatim>\<open>servers/nbd/protocol-handshake.c\<close>: the greeting, the flags of
  the client and the loop over its options, which ends when it picks an export or gives up.  The
  option and the buffer are locals that live across the turns of the loop.
\<close>

section \<open>The code\<close>

definition nbd_options :: "string option list" where
  "nbd_options = [None, Some ''NBD_OPT_EXPORT_NAME'', Some ''NBD_OPT_ABORT'', Some ''NBD_OPT_LIST'',
     Some ''NBD_OPT_STARTTLS'', Some ''NBD_OPT_INFO'', Some ''NBD_OPT_GO'',
     Some ''NBD_OPT_STRUCTURED_REPLY'', Some ''NBD_OPT_LIST_META_CONTEXT'',
     Some ''NBD_OPT_SET_META_CONTEXT'']"

definition nbd_option_to_string :: "u32 \<Rightarrow> string option result" where
  "nbd_option_to_string f =
     (if unat f < length nbd_options then Inr (nbd_options ! unat f) else Inl Out_Of_Bounds)"

record ('c, 'w, 'n) hs =
  hs_opt :: buffer
  hs_buffer :: buffer
  hs_ctx :: nbd_context
  hs_client :: nbd_client
  hs_lw :: "('c, 'w) lwnbd"
  hs_net :: 'n

text \<open>The option as the conversions to host order leave it in memory.\<close>

definition host_option :: "nbd_new_option \<Rightarrow> byte list" where
  "host_option q = rev (be64 (no_version q)) @ rev (be32 (no_option q)) @ rev (be32 (no_optlen q))"

text \<open>Statements in sequence: the next one runs unless the first one returned.\<close>

definition andthen :: "(flow \<times> 's) run \<Rightarrow> ('s \<Rightarrow> (flow \<times> 's) run) \<Rightarrow> (flow \<times> 's) run" where
  "andthen m k = bindp m (\<lambda>(fl, s). case fl of Next \<Rightarrow> k s | _ \<Rightarrow> ret (fl, s))"

text \<open>\<^verbatim>\<open>size = ctx->sync_send_cb(sock, d, sizeof d, flags); if (size < sizeof d) return -1;\<close>\<close>

definition hs_send ::
  "'n transport \<Rightarrow> int \<Rightarrow> byte list \<Rightarrow> int \<Rightarrow> ('c, 'w, 'n) hs \<Rightarrow> (flow \<times> ('c, 'w, 'n) hs) run" where
  "hs_send io sock d flags t =
     bindp (sync_send_cb io sock d flags (hs_net t)) (\<lambda>(r, n).
     ret (if lt_size r (length d) then Return (- 1) else Next, t\<lparr>hs_net := n\<rparr>))"

definition fixed_reply :: "u32 \<Rightarrow> u32 \<Rightarrow> u32 \<Rightarrow> byte list" where
  "fixed_reply opt rep len =
     enc_nbd_fixed_new_option_reply
       \<lparr>fr_magic = NBD_REP_MAGIC, fr_option = opt, fr_reply = rep, fr_replylen = len\<rparr>"

text \<open>The bytes of \<^verbatim>\<open>nbd_buffer\<close> as a C string for the dispatcher, which reads up to the NUL.\<close>

definition string_buffer :: "buffer \<Rightarrow> byte list result" where
  "string_buffer buf =
     (let b = filled buf
      in if NUL \<in> set b then Inr b
         else if length b < length buf then Inl Uninitialised else Inl Out_Of_Bounds)"

text \<open>The data of an option.  \<^verbatim>\<open>size < newopt.optlen\<close> compares 32-bit unsigned numbers.\<close>

definition option_data ::
  "'n transport \<Rightarrow> u32 \<Rightarrow> ('c, 'w, 'n) hs \<Rightarrow> (flow \<times> ('c, 'w, 'n) hs) run" where
  "option_data io optlen t =
     (if optlen = 0 then ret (Next, t)
      else bindp (sync_recv_cb io (cl_sock (hs_client t)) (unat optlen) 0 (hs_net t)) (\<lambda>(r, d, n).
           bindp (lift (store d (hs_buffer t))) (\<lambda>buf.
           if word_of_int r < optlen then ret (Return (- 1), t\<lparr>hs_buffer := buf, hs_net := n\<rparr>)
           else bindp (lift (mem_write (unat optlen) [Some NUL] buf)) (\<lambda>buf.
                ret (Next, t\<lparr>hs_buffer := buf, hs_net := n\<rparr>)))))"

text \<open>\<^verbatim>\<open>case NBD_OPT_EXPORT_NAME\<close>.  The reply describes the context of the server, not the chosen one.\<close>

definition export_name_reply :: "nbd_context \<Rightarrow> u32 \<Rightarrow> byte list" where
  "export_name_reply ctx cflags =
     (let r = enc_nbd_export_name_option_reply
                \<lparr>en_exportsize = ctx_exportsize ctx,
                 en_eflags = (if nc_readonly ctx \<noteq> 0 then nc_eflags ctx OR NBD_FLAG_READ_ONLY
                              else nc_eflags ctx),
                 en_zeroes = replicate 124 NUL\<rparr>
      in if cflags AND NBD_FLAG_NO_ZEROES \<noteq> 0 then take 10 r else r)"

definition option_export ::
  "'n transport \<Rightarrow> u32 \<Rightarrow> u32 \<Rightarrow> ('c, 'w, 'n) hs \<Rightarrow> (flow \<times> ('c, 'w, 'n) hs) run" where
  "option_export io cflags optlen t =
     bindp (lift (if 0 < optlen
                  then bindr (string_buffer (hs_buffer t)) (\<lambda>b.
                       bindr (lwnbd_get_context (hs_lw t) b 0) (\<lambda>(c, _, lw).
                       Inr (t\<lparr>hs_client := (hs_client t)\<lparr>cl_ctx := c\<rparr>, hs_lw := lw\<rparr>)))
                  else Inr t)) (\<lambda>t1.
     if cl_ctx (hs_client t1) = None then ret (Return (- 1), t1)
     else andthen (hs_send io (nc_sock (hs_ctx t1)) (export_name_reply (hs_ctx t1) cflags) 0 t1) (\<lambda>t2.
          ret (Return 0, t2\<lparr>hs_ctx := (hs_ctx t2)\<lparr>nc_state := TRANSMISSION\<rparr>\<rparr>)))"

definition option_abort ::
  "'n transport \<Rightarrow> u32 \<Rightarrow> ('c, 'w, 'n) hs \<Rightarrow> (flow \<times> ('c, 'w, 'n) hs) run" where
  "option_abort io opt t =
     andthen (hs_send io (nc_sock (hs_ctx t)) (fixed_reply opt NBD_REP_ACK 0) 0 t) (\<lambda>t1.
     ret (Return 0, t1\<lparr>hs_ctx := (hs_ctx t1)\<lparr>nc_state := ABORT\<rparr>\<rparr>))"

text \<open>\<^verbatim>\<open>case NBD_OPT_LIST\<close>: one turn of its loop, and the loop with \<open>n\<close> turns left.\<close>

definition list_entry ::
  "'n transport \<Rightarrow> u32 \<Rightarrow> nat \<Rightarrow> ('c, 'w, 'n) hs \<Rightarrow> (flow \<times> ('c, 'w, 'n) hs) run" where
  "list_entry io opt i t =
     (let context = lwnbd_get_context_i (hs_lw t) i;
          name_len = length (ctx_name context);
          desc_len = length (ctx_description context);
          sock = nc_sock (hs_ctx t)
      in andthen (hs_send io sock (fixed_reply opt NBD_REP_SERVER (of_nat (name_len + 4 + desc_len)))
                    MSG_MORE t) (\<lambda>t.
         andthen (hs_send io sock (be32 (of_nat name_len)) MSG_MORE t) (\<lambda>t.
         andthen (hs_send io sock (ctx_name context) MSG_MORE t) (\<lambda>t.
         hs_send io sock (ctx_description context) MSG_MORE t))))"

fun list_loop ::
  "'n transport \<Rightarrow> u32 \<Rightarrow> nat \<Rightarrow> nat \<Rightarrow> ('c, 'w, 'n) hs \<Rightarrow> (flow \<times> ('c, 'w, 'n) hs) run" where
  "list_loop io opt i 0 t = ret (Next, t)"
| "list_loop io opt i (Suc n) t = andthen (list_entry io opt i t) (list_loop io opt (Suc i) n)"

definition option_list ::
  "'n transport \<Rightarrow> u32 \<Rightarrow> ('c, 'w, 'n) hs \<Rightarrow> (flow \<times> ('c, 'w, 'n) hs) run" where
  "option_list io opt t =
     andthen (list_loop io opt 0 (lwnbd_contexts_count (hs_lw t)) t) (\<lambda>t.
     hs_send io (nc_sock (hs_ctx t)) (fixed_reply opt NBD_REP_ACK 0) 0 t)"

definition option_unsupported ::
  "'n transport \<Rightarrow> u32 \<Rightarrow> ('c, 'w, 'n) hs \<Rightarrow> (flow \<times> ('c, 'w, 'n) hs) run" where
  "option_unsupported io opt t =
     hs_send io (nc_sock (hs_ctx t)) (fixed_reply opt NBD_REP_ERR_UNSUP 0) 0 t"

definition option_switch ::
  "'n transport \<Rightarrow> u32 \<Rightarrow> nbd_new_option \<Rightarrow> ('c, 'w, 'n) hs \<Rightarrow> (flow \<times> ('c, 'w, 'n) hs) run" where
  "option_switch io cflags q t =
     (if no_option q = NBD_OPT_EXPORT_NAME then option_export io cflags (no_optlen q) t
      else if no_option q = NBD_OPT_ABORT then option_abort io (no_option q) t
      else if no_option q = NBD_OPT_LIST then option_list io (no_option q) t
      else option_unsupported io (no_option q) t)"

text \<open>One turn of the option loop.\<close>

definition option_body ::
  "nbd_config \<Rightarrow> 'n transport \<Rightarrow> u32 \<Rightarrow> ('c, 'w, 'n) hs \<Rightarrow> (flow \<times> ('c, 'w, 'n) hs) run" where
  "option_body cfg io cflags t =
     bindp (sync_recv_cb io (cl_sock (hs_client t)) 16 0 (hs_net t)) (\<lambda>(r, d, n).
     bindp (lift (store d (hs_opt t))) (\<lambda>buf.
     let t1 = t\<lparr>hs_opt := buf, hs_net := n\<rparr>
     in if lt_size r 16 then ret (Return (- 1), t1)
        else bindp (lift (fetch 8 buf)) (\<lambda>v.
             if rd64 0 v \<noteq> NBD_NEW_VERSION then ret (Return (- 1), t1)
             else bindp (lift (fetch 16 buf)) (\<lambda>b.
                  let q = dec_nbd_new_option b;
                      t2 = t1\<lparr>hs_opt := map Some (host_option q)\<rparr>
                  in bindp (lift (nbd_option_to_string (no_option q))) (\<lambda>_.
                     if MAX_REQUEST_SIZE cfg < unat (no_optlen q) then ret (Return (- 1), t2)
                     else andthen (option_data io (no_optlen q) t2) (option_switch io cflags q))))))"

text \<open>The greeting, and the flags of the client, which must be those of the server.\<close>

definition greeting :: "nbd_context \<Rightarrow> byte list" where
  "greeting ctx =
     enc_nbd_new_handshake \<lparr>nh_nbdmagic = NBD_MAGIC, nh_version = NBD_NEW_VERSION,
                            nh_gflags = ucast (nc_gflags ctx)\<rparr>"

definition hs_start ::
  "nbd_config \<Rightarrow> nbd_context \<Rightarrow> nbd_client \<Rightarrow> ('c, 'w) lwnbd \<Rightarrow> 'n \<Rightarrow> ('c, 'w, 'n) hs" where
  "hs_start cfg ctx c lw n =
     \<lparr>hs_opt = fresh 16, hs_buffer = fresh (MAX_REQUEST_SIZE cfg), hs_ctx = ctx, hs_client = c,
      hs_lw = lw, hs_net = n\<rparr>"

definition hs_run ::
  "nbd_config \<Rightarrow> 'n transport \<Rightarrow> ('c, 'w, 'n) hs \<Rightarrow> (flow \<times> ('c, 'w, 'n) hs) run" where
  "hs_run cfg io t =
     andthen (hs_send io (cl_sock (hs_client t)) (greeting (hs_ctx t)) 0 t) (\<lambda>t1.
     bindp (sync_recv_cb io (cl_sock (hs_client t1)) 4 0 (hs_net t1)) (\<lambda>(r, d, n).
     let t2 = t1\<lparr>hs_net := n\<rparr>
     in if lt_size r 4 then ret (Return (- 1), t2)
        else bindp (lift (store d (fresh 4))) (\<lambda>buf.
             bindp (lift (fetch 4 buf)) (\<lambda>b.
             let cflags = rd32 0 b
             in if cflags \<noteq> nc_gflags (hs_ctx t2) then ret (Return (- 1), t2)
                else while_flow (\<lambda>_. True) (option_body cfg io cflags) t2))))"

definition protocol_handshake ::
  "nbd_config \<Rightarrow> 'n transport \<Rightarrow> nbd_context \<Rightarrow> nbd_client \<Rightarrow> ('c, 'w) lwnbd \<Rightarrow> 'n
    \<Rightarrow> (int \<times> nbd_context \<times> nbd_client \<times> ('c, 'w) lwnbd \<times> 'n) run" where
  "protocol_handshake cfg io ctx c lw n =
     bindp (hs_run cfg io (hs_start cfg ctx c lw n)) (\<lambda>(fl, t).
     ret (case fl of Return r \<Rightarrow> r | _ \<Rightarrow> 0, hs_ctx t, hs_client t, hs_lw t, hs_net t))"

section \<open>The abstract negotiation\<close>

text \<open>An option on the wire, and the answer to one that does not end the negotiation.\<close>

definition option_wire :: "u32 \<times> byte list \<Rightarrow> byte list" where
  "option_wire o' =
     enc_nbd_new_option \<lparr>no_version = NBD_NEW_VERSION, no_option = fst o',
                         no_optlen = of_nat (length (snd o'))\<rparr> @ snd o'"

definition server_entry :: "u32 \<Rightarrow> lwnbd_context \<Rightarrow> byte list" where
  "server_entry opt c =
     fixed_reply opt NBD_REP_SERVER (of_nat (length (ctx_name c) + 4 + length (ctx_description c)))
     @ be32 (of_nat (length (ctx_name c))) @ ctx_name c @ ctx_description c"

definition answer :: "('c, 'w) lwnbd \<Rightarrow> u32 \<times> byte list \<Rightarrow> byte list" where
  "answer lw o' =
     (if fst o' = NBD_OPT_LIST
      then concat (map (\<lambda>i. server_entry (fst o') (contexts lw ! i)) [0..<lwnbd_contexts_count lw])
           @ fixed_reply (fst o') NBD_REP_ACK 0
      else fixed_reply (fst o') NBD_REP_ERR_UNSUP 0)"

text \<open>The options of the loop: they have a name in the table, and their data leaves room for a NUL.\<close>

definition haggling :: "nbd_config \<Rightarrow> u32 \<times> byte list \<Rightarrow> bool" where
  "haggling cfg o' \<longleftrightarrow> fst o' \<notin> {NBD_OPT_EXPORT_NAME, NBD_OPT_ABORT} \<and> unat (fst o') < 10
     \<and> length (snd o') < MAX_REQUEST_SIZE cfg"

lemma andthen_simps [simp]:
  "andthen (ret (Next, s)) k = k s" "andthen (ret (Return r, s)) k = ret (Return r, s)"
  "andthen (ret (Break, s)) k = ret (Break, s)" "andthen (Some (Inl f)) k = Some (Inl f)"
  "andthen None k = None"
  by (simp_all add: andthen_def)

lemma max_request_bound: "MAX_REQUEST_SIZE cfg < 2 ^ 32"
  unfolding MAX_REQUEST_SIZE_def using unsigned_less [of "CONFIG_NBD_BUFFER_LEN cfg", where ?'a = nat] by simp

lemma length_fixed_reply [simp]: "length (fixed_reply opt rep len) = 20"
  by (simp add: fixed_reply_def opt_reply.enc_length)

lemma wf_context_text:
  assumes "wf_lwnbd s" and "i < MAX_CONTEXTS"
  shows "length (ctx_name (contexts s ! i)) < 2 ^ 64" "length (ctx_description (contexts s ! i)) < 2 ^ 64"
  using wf_context_nth [OF assms] by (simp_all add: wf_context_def)

lemma contexts_count_le: "wf_lwnbd s \<Longrightarrow> lwnbd_contexts_count s \<le> MAX_CONTEXTS"
  unfolding lwnbd_contexts_count_def using find_slot_le wf_lengths(2) by metis

section \<open>The code over a transport that delivers\<close>

text \<open>What the turns of the loop leave alone, with the bytes sent and received.\<close>

context stream_transport
begin

definition sent :: "byte list \<Rightarrow> ('c, 'w, 'n) hs \<Rightarrow> ('c, 'w, 'n) hs \<Rightarrow> bool" where
  "sent d t t' \<longleftrightarrow> (\<exists>n'. t' = t\<lparr>hs_net := n'\<rparr> \<and> inp n' = inp (hs_net t) \<and> out n' = out (hs_net t) @ d \<and> inv n')"

lemma sent_trans: "sent d t t' \<Longrightarrow> sent e t' t'' \<Longrightarrow> sent (d @ e) t t''"
  by (auto simp: sent_def)

lemma hs_send_ok:
  assumes "inv (hs_net t)" and "length d < 2 ^ 64"
  obtains t' where "hs_send io s d fl t = ret (Next, t')" and "sent d t t'" and "inv (hs_net t')"
    and "hs_ctx t' = hs_ctx t" and "hs_lw t' = hs_lw t"
proof -
  obtain n' where n': "sync_send_cb io s d fl (hs_net t) = ret (int (length d), n')"
    "inp n' = inp (hs_net t)" "out n' = out (hs_net t) @ d" "inv n'"
    using sendE [OF assms(1)] .
  then have "hs_send io s d fl t = ret (Next, t\<lparr>hs_net := n'\<rparr>)"
    using assms(2) by (simp add: hs_send_def)
  then show thesis using that [of "t\<lparr>hs_net := n'\<rparr>"] n' by (auto simp: sent_def)
qed

lemma list_entry_ok:
  assumes "inv (hs_net t)" and "wf_lwnbd (hs_lw t)" and "i < MAX_CONTEXTS"
  obtains t' where "list_entry io opt i t = ret (Next, t')"
    and "sent (server_entry opt (contexts (hs_lw t) ! i)) t t'" and "inv (hs_net t')"
    and "hs_ctx t' = hs_ctx t" and "hs_lw t' = hs_lw t"
proof -
  let ?c = "contexts (hs_lw t) ! i" and ?s = "nc_sock (hs_ctx t)"
  let ?n = "length (ctx_name ?c)" and ?d = "length (ctx_description ?c)"
  obtain t1 where t1: "hs_send io ?s (fixed_reply opt NBD_REP_SERVER (of_nat (?n + 4 + ?d))) MSG_MORE t = ret (Next, t1)"
    "sent (fixed_reply opt NBD_REP_SERVER (of_nat (?n + 4 + ?d))) t t1" "inv (hs_net t1)"
    "hs_ctx t1 = hs_ctx t" "hs_lw t1 = hs_lw t"
    using hs_send_ok [OF assms(1), of "fixed_reply opt NBD_REP_SERVER (of_nat (?n + 4 + ?d))"] by auto
  obtain t2 where t2: "hs_send io ?s (be32 (of_nat ?n)) MSG_MORE t1 = ret (Next, t2)"
    "sent (be32 (of_nat ?n)) t1 t2" "inv (hs_net t2)" "hs_ctx t2 = hs_ctx t1" "hs_lw t2 = hs_lw t1"
    using hs_send_ok [OF t1(3), of "be32 (of_nat ?n)"] by auto
  obtain t3 where t3: "hs_send io ?s (ctx_name ?c) MSG_MORE t2 = ret (Next, t3)"
    "sent (ctx_name ?c) t2 t3" "inv (hs_net t3)" "hs_ctx t3 = hs_ctx t2" "hs_lw t3 = hs_lw t2"
    using hs_send_ok [OF t2(3) wf_context_text(1) [OF assms(2,3)]] .
  obtain t4 where t4: "hs_send io ?s (ctx_description ?c) MSG_MORE t3 = ret (Next, t4)"
    "sent (ctx_description ?c) t3 t4" "inv (hs_net t4)" "hs_ctx t4 = hs_ctx t3" "hs_lw t4 = hs_lw t3"
    using hs_send_ok [OF t3(3) wf_context_text(2) [OF assms(2,3)]] .
  have "list_entry io opt i t = ret (Next, t4)"
    using t1(1) t2(1) t3(1) t4(1) by (simp add: list_entry_def lwnbd_get_context_i_def Let_def)
  moreover have "sent (server_entry opt ?c) t t4"
    using sent_trans [OF t1(2) sent_trans [OF t2(2) sent_trans [OF t3(2) t4(2)]]]
    by (simp add: server_entry_def)
  ultimately show thesis using that t1 t2 t3 t4 by simp
qed

lemma list_loop_ok:
  assumes "inv (hs_net t)" and "wf_lwnbd (hs_lw t)" and "i + n \<le> MAX_CONTEXTS"
  shows "\<exists>t'. list_loop io opt i n t = ret (Next, t')
    \<and> sent (concat (map (\<lambda>k. server_entry opt (contexts (hs_lw t) ! k)) [i..<i + n])) t t'
    \<and> inv (hs_net t') \<and> hs_ctx t' = hs_ctx t \<and> hs_lw t' = hs_lw t"
  using assms
proof (induction n arbitrary: i t)
  case 0
  then show ?case by (auto simp: sent_def intro!: exI [of _ "hs_net t"])
next
  case (Suc n)
  obtain t1 where t1: "list_entry io opt i t = ret (Next, t1)"
    "sent (server_entry opt (contexts (hs_lw t) ! i)) t t1" "inv (hs_net t1)"
    "hs_ctx t1 = hs_ctx t" "hs_lw t1 = hs_lw t"
    using list_entry_ok [OF Suc.prems(1,2), of i] Suc.prems(3) by auto
  obtain t2 where t2: "list_loop io opt (Suc i) n t1 = ret (Next, t2)"
    "sent (concat (map (\<lambda>k. server_entry opt (contexts (hs_lw t1) ! k)) [Suc i..<Suc i + n])) t1 t2"
    "inv (hs_net t2)" "hs_ctx t2 = hs_ctx t1" "hs_lw t2 = hs_lw t1"
    using Suc.IH [of t1 "Suc i"] t1 Suc.prems by auto
  have "[i..<i + Suc n] = i # [Suc i..<Suc i + n]" by (simp add: upt_conv_Cons)
  then show ?case using t1 t2 sent_trans [OF t1(2) t2(2)] by simp
qed

text \<open>The answer to an option of the loop.\<close>

lemma option_switch_ok:
  assumes "inv (hs_net t)" and "no_option q \<notin> {NBD_OPT_EXPORT_NAME, NBD_OPT_ABORT}"
    and "wf_lwnbd (hs_lw t)"
  obtains t' where "option_switch io cflags q t = ret (Next, t')"
    and "sent (answer (hs_lw t) (no_option q, b)) t t'" and "inv (hs_net t')"
proof (cases "no_option q = NBD_OPT_LIST")
  case True
  let ?n = "lwnbd_contexts_count (hs_lw t)" and ?o = "no_option q"
  obtain t1 where t1: "list_loop io ?o 0 ?n t = ret (Next, t1)"
    "sent (concat (map (\<lambda>k. server_entry ?o (contexts (hs_lw t) ! k)) [0..<?n])) t t1"
    "inv (hs_net t1)" "hs_ctx t1 = hs_ctx t"
    using list_loop_ok [OF assms(1,3), of 0 ?n ?o] contexts_count_le [OF assms(3)] by auto
  obtain t2 where t2: "hs_send io (nc_sock (hs_ctx t1)) (fixed_reply ?o NBD_REP_ACK 0) 0 t1 = ret (Next, t2)"
    "sent (fixed_reply ?o NBD_REP_ACK 0) t1 t2" "inv (hs_net t2)"
    using hs_send_ok [OF t1(3), of "fixed_reply ?o NBD_REP_ACK 0" "nc_sock (hs_ctx t1)" 0] by auto
  have "option_switch io cflags q t = ret (Next, t2)"
    using True assms(2) t1(1) t2(1) by (simp add: option_switch_def option_list_def)
  then show thesis using that t2(3) sent_trans [OF t1(2) t2(2)] True by (simp add: answer_def)
next
  case False
  obtain t1 where t1: "hs_send io (nc_sock (hs_ctx t)) (fixed_reply (no_option q) NBD_REP_ERR_UNSUP 0) 0 t = ret (Next, t1)"
    "sent (fixed_reply (no_option q) NBD_REP_ERR_UNSUP 0) t t1" "inv (hs_net t1)"
    using hs_send_ok [OF assms(1), of "fixed_reply (no_option q) NBD_REP_ERR_UNSUP 0" "nc_sock (hs_ctx t)" 0] by auto
  have "option_switch io cflags q t = ret (Next, t1)"
    using False assms(2) t1(1) by (simp add: option_switch_def option_unsupported_def)
  then show thesis using that t1 False by (simp add: answer_def)
qed

text \<open>The option at the head of the loop: its header and its data come off the stream.\<close>

lemma option_data_ok:
  assumes "inv (hs_net t)" and "inp (hs_net t) = d @ r" and "length d < MAX_REQUEST_SIZE cfg"
    and "length (hs_buffer t) = MAX_REQUEST_SIZE cfg"
  obtains buf n' where "option_data io (of_nat (length d)) t = ret (Next, t\<lparr>hs_buffer := buf, hs_net := n'\<rparr>)"
    and "inp n' = r" and "out n' = out (hs_net t)" and "inv n'" and "length buf = MAX_REQUEST_SIZE cfg"
    and "d \<noteq> [] \<Longrightarrow> \<exists>z. buf = map Some (d @ [NUL]) @ z"
proof (cases "d = []")
  case True
  then have "option_data io (of_nat (length d)) t = ret (Next, t\<lparr>hs_buffer := hs_buffer t, hs_net := hs_net t\<rparr>)"
    by (simp add: option_data_def)
  then show thesis by (rule that) (use True assms in simp_all)
next
  case False
  let ?n = "of_nat (length d) :: u32"
  have un: "unat ?n = length d" using assms(3) max_request_bound [of cfg] by (simp add: unat_of_nat)
  then have nz: "?n \<noteq> 0" using False by auto
  have l: "length d < 2 ^ 63" using assms(3) max_request_bound [of cfg] by simp
  obtain n' where n': "sync_recv_cb io (cl_sock (hs_client t)) (length d) 0 (hs_net t) = ret (int (length d), d, n')"
    "inp n' = r" "out n' = out (hs_net t)" "inv n'"
    using recv_fullE [OF assms(1,2) l] .
  let ?b = "map Some d @ drop (length d) (hs_buffer t)"
  obtain y z where yz: "drop (length d) (hs_buffer t) = y # z"
    using assms(3,4) by (metis Cons_nth_drop_Suc)
  have w: "mem_write (length d) [Some NUL] ?b = Inr (map Some (d @ [NUL]) @ z)"
    using yz by (simp add: mem_write_def splice_def)
  have lb: "length (map Some (d @ [NUL]) @ z) = MAX_REQUEST_SIZE cfg"
    using arg_cong [OF yz, of length] assms(3,4) by simp
  have "option_data io ?n t = ret (Next, t\<lparr>hs_buffer := map Some (d @ [NUL]) @ z, hs_net := n'\<rparr>)"
    using nz un n'(1) w assms(3,4) by (simp add: option_data_def)
  then show thesis by (rule that) (use n' lb in simp_all)
qed

text \<open>Between two turns of the loop.\<close>

definition haggles :: "nbd_config \<Rightarrow> ('c, 'w, 'n) hs \<Rightarrow> bool" where
  "haggles cfg t \<longleftrightarrow> inv (hs_net t) \<and> wf_lwnbd (hs_lw t) \<and> length (hs_opt t) = 16
     \<and> length (hs_buffer t) = MAX_REQUEST_SIZE cfg"

definition same_peer :: "('c, 'w, 'n) hs \<Rightarrow> ('c, 'w, 'n) hs \<Rightarrow> bool" where
  "same_peer t t' \<longleftrightarrow> hs_ctx t' = hs_ctx t \<and> hs_client t' = hs_client t \<and> hs_lw t' = hs_lw t"

lemma option_received:
  fixes t :: "('c, 'w, 'n) hs" and opt len :: u32
  defines "q \<equiv> \<lparr>no_version = NBD_NEW_VERSION, no_option = opt, no_optlen = len\<rparr>"
  assumes "haggles cfg t" and "inp (hs_net t) = enc_nbd_new_option q @ r"
  obtains t1 where "option_body cfg io cflags t =
      bindp (lift (nbd_option_to_string opt)) (\<lambda>_.
        if MAX_REQUEST_SIZE cfg < unat len then ret (Return (- 1), t1)
        else andthen (option_data io len t1) (option_switch io cflags q))"
    and "haggles cfg t1" and "same_peer t t1" and "inp (hs_net t1) = r" and "out (hs_net t1) = out (hs_net t)"
proof -
  let ?b = "enc_nbd_new_option q"
  have lb: "length ?b = 16" by (simp add: newopt.enc_length)
  have inv: "inv (hs_net t)" and lo: "length (hs_opt t) = 16"
    using assms(2) by (simp_all add: haggles_def)
  obtain n' where n': "sync_recv_cb io (cl_sock (hs_client t)) 16 0 (hs_net t) = ret (16, ?b, n')"
    "inp n' = r" "out n' = out (hs_net t)" "inv n'"
    using recv_fullE [OF inv assms(3), of "cl_sock (hs_client t)" 0] lb by auto
  define t1 where "t1 = t\<lparr>hs_net := n', hs_opt := map Some (host_option q)\<rparr>"
  have st: "store ?b (hs_opt t) = Inr (map Some ?b)" using lb lo by simp
  have f16: "fetch 16 (map Some ?b) = Inr ?b" using fetch_prefix [of ?b 16 "[]"] lb by simp
  have "map Some ?b = map Some (take 8 ?b) @ map Some (drop 8 ?b)"
    by (metis append_take_drop_id map_append)
  then have f8: "fetch 8 (map Some ?b) = Inr (take 8 ?b)"
    using fetch_prefix [of "take 8 ?b" 8 "map Some (drop 8 ?b)"] lb by simp
  have v: "rd64 0 (take 8 ?b) = NBD_NEW_VERSION" by (simp add: enc_nbd_new_option_def q_def packed)
  have dec: "dec_nbd_new_option ?b = q" by (rule newopt.dec_enc) simp
  have qs: "no_option q = opt" "no_optlen q = len" by (simp_all add: q_def)
  show thesis
  proof (rule that [of t1])
    show "option_body cfg io cflags t =
      bindp (lift (nbd_option_to_string opt)) (\<lambda>_.
        if MAX_REQUEST_SIZE cfg < unat len then ret (Return (- 1), t1)
        else andthen (option_data io len t1) (option_switch io cflags q))"
      using n'(1) st f16 f8 v dec lt_size_of_nat [of 16 16]
      by (simp add: option_body_def t1_def qs Let_def)
  qed (use assms(2) n' in \<open>simp_all add: haggles_def same_peer_def t1_def host_option_def\<close>)
qed

lemma option_head:
  fixes t :: "('c, 'w, 'n) hs"
  assumes "haggles cfg t" and "inp (hs_net t) = option_wire (opt, d) @ r" and "unat opt < 10"
    and "length d < MAX_REQUEST_SIZE cfg"
  obtains t1 q where "option_body cfg io cflags t = option_switch io cflags q t1"
    and "haggles cfg t1" and "same_peer t t1" and "inp (hs_net t1) = r"
    and "out (hs_net t1) = out (hs_net t)" and "no_option q = opt"
    and "no_optlen q = of_nat (length d)" and "d \<noteq> [] \<Longrightarrow> \<exists>z. hs_buffer t1 = map Some (d @ [NUL]) @ z"
proof -
  define q where "q = \<lparr>no_version = NBD_NEW_VERSION, no_option = opt, no_optlen = of_nat (length d)\<rparr>"
  have i: "inp (hs_net t) = enc_nbd_new_option q @ d @ r"
    using assms(2) by (simp add: option_wire_def q_def)
  obtain t1 where t1: "option_body cfg io cflags t =
      bindp (lift (nbd_option_to_string opt)) (\<lambda>_.
        if MAX_REQUEST_SIZE cfg < unat (of_nat (length d) :: u32) then ret (Return (- 1), t1)
        else andthen (option_data io (of_nat (length d)) t1) (option_switch io cflags q))"
    "haggles cfg t1" "same_peer t t1" "inp (hs_net t1) = d @ r" "out (hs_net t1) = out (hs_net t)"
    using option_received [OF assms(1) i [unfolded q_def]] unfolding q_def by metis
  obtain nm where nm: "nbd_option_to_string opt = Inr nm"
    using assms(3) by (simp add: nbd_option_to_string_def nbd_options_def)
  have ul: "unat (of_nat (length d) :: u32) = length d"
    using assms(4) max_request_bound [of cfg] by (simp add: unat_of_nat)
  have i1: "inv (hs_net t1)" "length (hs_buffer t1) = MAX_REQUEST_SIZE cfg"
    using t1(2) by (simp_all add: haggles_def)
  obtain buf n'' where d: "option_data io (of_nat (length d)) t1 = ret (Next, t1\<lparr>hs_buffer := buf, hs_net := n''\<rparr>)"
    "inp n'' = r" "out n'' = out (hs_net t1)" "inv n''" "length buf = MAX_REQUEST_SIZE cfg"
    "d \<noteq> [] \<Longrightarrow> \<exists>z. buf = map Some (d @ [NUL]) @ z"
    using option_data_ok [OF i1(1) t1(4) assms(4) i1(2)] by metis
  let ?t2 = "t1\<lparr>hs_buffer := buf, hs_net := n''\<rparr>"
  have "option_body cfg io cflags t = option_switch io cflags q ?t2"
    using t1(1) nm ul assms(4) d(1) by simp
  moreover have "haggles cfg ?t2" "same_peer t ?t2" "out (hs_net ?t2) = out (hs_net t)"
    using t1 d by (simp_all add: haggles_def same_peer_def)
  ultimately show thesis using that [of q ?t2] d by (simp add: q_def)
qed

lemma haggles_sent: "haggles cfg t \<Longrightarrow> sent d t t' \<Longrightarrow> haggles cfg t' \<and> same_peer t t'"
  by (auto simp: haggles_def sent_def same_peer_def)

lemma option_step:
  fixes t :: "('c, 'w, 'n) hs"
  assumes "haggles cfg t" and "inp (hs_net t) = option_wire opt @ r" and "haggling cfg opt"
  obtains t' where "option_body cfg io cflags t = ret (Next, t')" and "haggles cfg t'"
    and "same_peer t t'" and "inp (hs_net t') = r"
    and "out (hs_net t') = out (hs_net t) @ answer (hs_lw t) opt"
proof -
  obtain op d where opt: "opt = (op, d)" by (cases opt)
  have w: "inp (hs_net t) = option_wire (op, d) @ r" and l: "unat op < 10" "length d < MAX_REQUEST_SIZE cfg"
    using assms(2,3) opt by (simp_all add: haggling_def)
  obtain t1 q where t1: "option_body cfg io cflags t = option_switch io cflags q t1"
    "haggles cfg t1" "same_peer t t1" "inp (hs_net t1) = r" "out (hs_net t1) = out (hs_net t)"
    "no_option q = op"
    using option_head [OF assms(1) w l(1,2), where cflags = cflags] by metis
  have "inv (hs_net t1)" "wf_lwnbd (hs_lw t1)" using t1(2) by (simp_all add: haggles_def)
  moreover have "no_option q \<notin> {NBD_OPT_EXPORT_NAME, NBD_OPT_ABORT}"
    using assms(3) opt t1(6) by (simp add: haggling_def)
  ultimately obtain t2 where t2: "option_switch io cflags q t1 = ret (Next, t2)"
    "sent (answer (hs_lw t1) (no_option q, d)) t1 t2"
    using option_switch_ok by metis
  have "haggles cfg t2" "same_peer t t2"
    using haggles_sent [OF t1(2) t2(2)] t1(3) by (simp_all add: same_peer_def)
  then show thesis
    using that [of t2] t1 t2 opt by (auto simp: sent_def same_peer_def)
qed

lemma options_loop:
  fixes t :: "('c, 'w, 'n) hs"
  assumes "haggles cfg t" and "inp (hs_net t) = concat (map option_wire opts) @ r"
    and "\<forall>opt \<in> set opts. haggling cfg opt"
  shows "\<exists>t'. while_flow (\<lambda>_. True) (option_body cfg io cflags) t
        = while_flow (\<lambda>_. True) (option_body cfg io cflags) t'
    \<and> haggles cfg t' \<and> same_peer t t' \<and> inp (hs_net t') = r
    \<and> out (hs_net t') = out (hs_net t) @ concat (map (answer (hs_lw t)) opts)"
  using assms
proof (induction opts arbitrary: t)
  case Nil
  then show ?case by (auto simp: same_peer_def)
next
  case (Cons opt opts)
  obtain t1 where t1: "option_body cfg io cflags t = ret (Next, t1)" "haggles cfg t1" "same_peer t t1"
    "inp (hs_net t1) = concat (map option_wire opts) @ r"
    "out (hs_net t1) = out (hs_net t) @ answer (hs_lw t) opt"
    using option_step [OF Cons.prems(1), of opt "concat (map option_wire opts) @ r" cflags] Cons.prems(2,3)
    by auto
  have w: "while_flow (\<lambda>_. True) (option_body cfg io cflags) t
      = while_flow (\<lambda>_. True) (option_body cfg io cflags) t1"
    by (rule while_flow_next) (use t1(1) in \<open>simp_all add: ret_def\<close>)
  have l: "hs_lw t1 = hs_lw t" using t1(3) by (simp add: same_peer_def)
  show ?case
    using Cons.IH [OF t1(2,4)] Cons.prems(3) t1(3,5) w l by (auto simp: same_peer_def)
qed

text \<open>From the greeting to the option that ends the negotiation.\<close>

lemma greeted:
  fixes t :: "('c, 'w, 'n) hs"
  assumes "haggles cfg t" and "inp (hs_net t) = be32 (nc_gflags (hs_ctx t)) @ r"
  obtains t' where "hs_run cfg io t = while_flow (\<lambda>_. True) (option_body cfg io (nc_gflags (hs_ctx t))) t'"
    and "haggles cfg t'" and "same_peer t t'" and "inp (hs_net t') = r"
    and "out (hs_net t') = out (hs_net t) @ greeting (hs_ctx t)"
proof -
  let ?g = "greeting (hs_ctx t)" and ?f = "be32 (nc_gflags (hs_ctx t))" and ?s = "cl_sock (hs_client t)"
  have lg: "length ?g < 2 ^ 64" by (simp add: greeting_def newhs.enc_length)
  have inv: "inv (hs_net t)" using assms(1) by (simp add: haggles_def)
  obtain t1 where t1: "hs_send io ?s ?g 0 t = ret (Next, t1)" "sent ?g t t1" "inv (hs_net t1)"
    by (rule hs_send_ok [OF inv lg, of ?s 0])
  have i1: "inp (hs_net t1) = ?f @ r" using t1(2) assms(2) by (auto simp: sent_def)
  have h1: "haggles cfg t1" "same_peer t t1" using haggles_sent [OF assms(1) t1(2)] by simp_all
  have lf: "length ?f < 2 ^ 63" by simp
  obtain n' where n': "sync_recv_cb io ?s 4 0 (hs_net t1) = ret (4, ?f, n')"
    "inp n' = r" "out n' = out (hs_net t1)" "inv n'"
    using recv_fullE [OF t1(3) i1 lf, of ?s 0] by auto
  have f4: "fetch 4 (map Some ?f) = Inr ?f" using fetch_prefix [of ?f 4 "[]"] by simp
  have st: "store ?f (fresh 4) = Inr (map Some ?f)" by simp
  have p: "hs_client t1 = hs_client t" "hs_ctx t1 = hs_ctx t" using h1(2) by (simp_all add: same_peer_def)
  have "hs_run cfg io t = while_flow (\<lambda>_. True) (option_body cfg io (nc_gflags (hs_ctx t))) (t1\<lparr>hs_net := n'\<rparr>)"
    using t1(1) n'(1) f4 st lt_size_of_nat [of 4 4] p
    by (simp add: hs_run_def Let_def packed del: store_fits)
  moreover have "haggles cfg (t1\<lparr>hs_net := n'\<rparr>)" "same_peer t (t1\<lparr>hs_net := n'\<rparr>)"
    "out n' = out (hs_net t) @ ?g"
    using h1 n' t1(2) by (auto simp: haggles_def same_peer_def sent_def)
  ultimately show thesis using that n' by simp
qed

lemma negotiated:
  fixes lw :: "('c, 'w) lwnbd"
  assumes "inv n" and "wf_lwnbd lw" and "\<forall>opt \<in> set opts. haggling cfg opt"
    and "inp n = be32 (nc_gflags ctx) @ concat (map option_wire opts) @ r"
  obtains t where "protocol_handshake cfg io ctx c lw n
      = bindp (while_flow (\<lambda>_. True) (option_body cfg io (nc_gflags ctx)) t) (\<lambda>(fl, t).
        ret (case fl of Return r \<Rightarrow> r | _ \<Rightarrow> 0, hs_ctx t, hs_client t, hs_lw t, hs_net t))"
    and "haggles cfg t" and "hs_ctx t = ctx" and "hs_client t = c" and "hs_lw t = lw"
    and "inp (hs_net t) = r"
    and "out (hs_net t) = out n @ greeting ctx @ concat (map (answer lw) opts)"
proof -
  let ?t = "hs_start cfg ctx c lw n"
  have h: "haggles cfg ?t" and i: "inp (hs_net ?t) = be32 (nc_gflags (hs_ctx ?t)) @ concat (map option_wire opts) @ r"
    using assms by (simp_all add: haggles_def hs_start_def)
  obtain t1 where t1: "hs_run cfg io ?t = while_flow (\<lambda>_. True) (option_body cfg io (nc_gflags ctx)) t1"
    "haggles cfg t1" "same_peer ?t t1" "inp (hs_net t1) = concat (map option_wire opts) @ r"
    "out (hs_net t1) = out n @ greeting ctx"
    using greeted [OF h i] by (auto simp: hs_start_def)
  obtain t2 where t2: "while_flow (\<lambda>_. True) (option_body cfg io (nc_gflags ctx)) t1
      = while_flow (\<lambda>_. True) (option_body cfg io (nc_gflags ctx)) t2"
    "haggles cfg t2" "same_peer t1 t2" "inp (hs_net t2) = r"
    "out (hs_net t2) = out (hs_net t1) @ concat (map (answer (hs_lw t1)) opts)"
    using options_loop [OF t1(2,4) assms(3)] by blast
  have p: "hs_ctx t2 = ctx" "hs_client t2 = c" "hs_lw t2 = lw" "hs_lw t1 = lw"
    using t1(3) t2(3) by (simp_all add: same_peer_def hs_start_def)
  show thesis
    by (rule that [OF _ t2(2)]) (use t1 t2 p in \<open>simp_all add: protocol_handshake_def\<close>)
qed

text \<open>\<^verbatim>\<open>NBD_OPT_EXPORT_NAME\<close>: its data reaches the dispatcher as a C string.\<close>

lemma export_lookup:
  fixes t :: "('c, 'w, 'n) hs"
  assumes "haggles cfg t" and "inp (hs_net t) = option_wire (NBD_OPT_EXPORT_NAME, name) @ r"
    and "name \<noteq> []" and "NUL \<notin> set name" and "length name < MAX_REQUEST_SIZE cfg"
  obtains t1 len b where "option_body cfg io cflags t = option_export io cflags (len) t1"
    and "haggles cfg t1" and "same_peer t t1" and "inp (hs_net t1) = r" and "out (hs_net t1) = out (hs_net t)"
    and "len \<noteq> 0" and "string_buffer (hs_buffer t1) = Inr b"
    and "bindr (lwnbd_get_context (hs_lw t) b 0) (\<lambda>(r, _, s'). Inr (r, s')) = uri_dispatch (hs_lw t) name"
proof -
  have op: "unat NBD_OPT_EXPORT_NAME < 10" by (simp add: nbd_consts)
  obtain t1 q where t1: "option_body cfg io cflags t = option_switch io cflags q t1"
    "haggles cfg t1" "same_peer t t1" "inp (hs_net t1) = r" "out (hs_net t1) = out (hs_net t)"
    "no_option q = NBD_OPT_EXPORT_NAME" "no_optlen q = of_nat (length name)"
    "\<exists>z. hs_buffer t1 = map Some (name @ [NUL]) @ z"
    using option_head [OF assms(1,2) op assms(5), where cflags = cflags] assms(3) by metis
  obtain z where z: "hs_buffer t1 = map Some (name @ [NUL]) @ z" using t1(8) by blast
  let ?b = "filled (hs_buffer t1)"
  have b: "\<exists>y. ?b = name @ NUL # y"
  proof -
    have "take (Suc (length name)) ?b = name @ [NUL]"
      unfolding z by (rule take_filled) simp
    then show ?thesis by (metis append.assoc append_Cons append_Nil append_take_drop_id)
  qed
  then have sb: "string_buffer (hs_buffer t1) = Inr ?b" and cs: "cstr ?b 0 = name"
    using assms(4) by (auto simp: string_buffer_def Let_def cstr_def takeWhile_append)
  have nz: "(of_nat (length name) :: u32) \<noteq> 0"
  proof
    assume "(of_nat (length name) :: u32) = 0"
    then have "unat (of_nat (length name) :: u32) = 0" by simp
    then show False using assms(3,5) max_request_bound [of cfg] by (simp add: unat_of_nat)
  qed
  show thesis
    by (rule that [of "of_nat (length name)" t1, OF _ t1(2-5) nz sb])
      (use t1(1,6,7) dispatch_on_strings [of "hs_lw t" ?b 0] cs in \<open>simp_all add: option_switch_def\<close>)
qed

lemma export_option:
  fixes t :: "('c, 'w, 'n) hs"
  assumes "haggles cfg t" and "inp (hs_net t) = option_wire (NBD_OPT_EXPORT_NAME, name) @ r"
    and "name \<noteq> []" and "NUL \<notin> set name" and "length name < MAX_REQUEST_SIZE cfg"
    and "uri_dispatch (hs_lw t) name = Inr (ex, lw')"
  obtains t' where "option_body cfg io cflags t
      = ret (if ex = None then Return (- 1) else Return 0, t')"
    and "hs_ctx t' = (if ex = None then hs_ctx t else (hs_ctx t)\<lparr>nc_state := TRANSMISSION\<rparr>)"
    and "hs_client t' = (hs_client t)\<lparr>cl_ctx := ex\<rparr>" and "hs_lw t' = lw'" and "inp (hs_net t') = r"
    and "out (hs_net t') = out (hs_net t) @ (if ex = None then [] else export_name_reply (hs_ctx t) cflags)"
    and "inv (hs_net t')"
proof -
  obtain t1 len b where t1: "option_body cfg io cflags t = option_export io cflags (len) t1"
    "haggles cfg t1" "same_peer t t1" "inp (hs_net t1) = r" "out (hs_net t1) = out (hs_net t)"
    and nz: "len \<noteq> 0" and sb: "string_buffer (hs_buffer t1) = Inr b"
    and d: "bindr (lwnbd_get_context (hs_lw t) b 0) (\<lambda>(r, _, s'). Inr (r, s')) = uri_dispatch (hs_lw t) name"
    by (rule export_lookup [OF assms(1-5), where cflags = cflags])
  obtain b' where g: "lwnbd_get_context (hs_lw t1) b 0 = Inr (ex, b', lw')"
    using d assms(6) t1(3) by (auto simp: bindr_Inr_iff same_peer_def)
  let ?t2 = "t1\<lparr>hs_client := (hs_client t1)\<lparr>cl_ctx := ex\<rparr>, hs_lw := lw'\<rparr>"
  have sw: "option_export io cflags (len) t1 =
      (if ex = None then ret (Return (- 1), ?t2)
       else andthen (hs_send io (nc_sock (hs_ctx ?t2)) (export_name_reply (hs_ctx ?t2) cflags) 0 ?t2) (\<lambda>t2.
          ret (Return 0, t2\<lparr>hs_ctx := (hs_ctx t2)\<lparr>nc_state := TRANSMISSION\<rparr>\<rparr>)))"
    using nz g sb by (simp add: option_export_def word_neq_0_conv)
  show thesis
  proof (cases ex)
    case None
    then show thesis using that [of ?t2] sw t1 by (simp add: same_peer_def haggles_def)
  next
    case (Some k)
    have l: "length (export_name_reply (hs_ctx ?t2) cflags) < 2 ^ 64"
      by (simp add: export_name_reply_def Let_def export_reply.enc_length)
    have i2: "inv (hs_net ?t2)" using t1(2) by (simp add: haggles_def)
    obtain t3 where t3: "hs_send io (nc_sock (hs_ctx ?t2)) (export_name_reply (hs_ctx ?t2) cflags) 0 ?t2 = ret (Next, t3)"
      "sent (export_name_reply (hs_ctx ?t2) cflags) ?t2 t3"
      by (rule hs_send_ok [OF i2 l, of "nc_sock (hs_ctx ?t2)" 0])
    let ?t4 = "t3\<lparr>hs_ctx := (hs_ctx t3)\<lparr>nc_state := TRANSMISSION\<rparr>\<rparr>"
    show thesis
      by (rule that [of ?t4]) (use Some sw t1 t3 in \<open>auto simp: sent_def same_peer_def\<close>)
  qed
qed

text \<open>A name on which the dispatcher faults takes the server down.\<close>

lemma export_faults:
  fixes t :: "('c, 'w, 'n) hs"
  assumes "haggles cfg t" and "inp (hs_net t) = option_wire (NBD_OPT_EXPORT_NAME, name) @ r"
    and "name \<noteq> []" and "NUL \<notin> set name" and "length name < MAX_REQUEST_SIZE cfg"
    and "uri_dispatch (hs_lw t) name = Inl f"
  shows "option_body cfg io cflags t = Some (Inl f)"
proof -
  obtain t1 len b where t1: "option_body cfg io cflags t = option_export io cflags (len) t1" "same_peer t t1"
    and nz: "len \<noteq> 0" and sb: "string_buffer (hs_buffer t1) = Inr b"
    and d: "bindr (lwnbd_get_context (hs_lw t) b 0) (\<lambda>(r, _, s'). Inr (r, s')) = uri_dispatch (hs_lw t) name"
    by (rule export_lookup [OF assms(1-5), where cflags = cflags])
  have "lwnbd_get_context (hs_lw t1) b 0 = Inl f"
    using d assms(6) t1(2) by (cases "lwnbd_get_context (hs_lw t) b 0") (auto simp: same_peer_def)
  then show ?thesis using t1(1) nz sb by (simp add: option_export_def word_neq_0_conv)
qed

lemma abort_option:
  fixes t :: "('c, 'w, 'n) hs"
  assumes "haggles cfg t" and "inp (hs_net t) = option_wire (NBD_OPT_ABORT, d) @ r"
    and "length d < MAX_REQUEST_SIZE cfg"
  obtains t' where "option_body cfg io cflags t = ret (Return 0, t')"
    and "hs_ctx t' = (hs_ctx t)\<lparr>nc_state := ABORT\<rparr>"
    and "hs_client t' = hs_client t" and "hs_lw t' = hs_lw t" and "inp (hs_net t') = r"
    and "out (hs_net t') = out (hs_net t) @ fixed_reply NBD_OPT_ABORT NBD_REP_ACK 0"
proof -
  have op: "unat NBD_OPT_ABORT < 10" by (simp add: nbd_consts)
  have ne: "NBD_OPT_ABORT \<noteq> NBD_OPT_EXPORT_NAME" by (simp add: nbd_consts)
  obtain t1 q where t1: "option_body cfg io cflags t = option_switch io cflags q t1"
    "haggles cfg t1" "same_peer t t1" "inp (hs_net t1) = r" "out (hs_net t1) = out (hs_net t)"
    "no_option q = NBD_OPT_ABORT"
    using option_head [OF assms(1,2) op assms(3), where cflags = cflags] by metis
  have i: "inv (hs_net t1)" using t1(2) by (simp add: haggles_def)
  have l: "length (fixed_reply NBD_OPT_ABORT NBD_REP_ACK 0) < 2 ^ 64" by simp
  obtain t2 where t2: "hs_send io (nc_sock (hs_ctx t1)) (fixed_reply NBD_OPT_ABORT NBD_REP_ACK 0) 0 t1 = ret (Next, t2)"
    "sent (fixed_reply NBD_OPT_ABORT NBD_REP_ACK 0) t1 t2"
    by (rule hs_send_ok [OF i l, of "nc_sock (hs_ctx t1)" 0])
  show thesis
    by (rule that [of "t2\<lparr>hs_ctx := (hs_ctx t2)\<lparr>nc_state := ABORT\<rparr>\<rparr>"])
      (use t1 t2 ne in \<open>auto simp: sent_def same_peer_def option_switch_def option_abort_def\<close>)
qed

text \<open>An option without a name in the table, and one whose data fills the buffer.\<close>

lemma option_unnamed:
  fixes t :: "('c, 'w, 'n) hs"
  assumes "haggles cfg t" and "10 \<le> unat opt"
    and "inp (hs_net t) = enc_nbd_new_option
           \<lparr>no_version = NBD_NEW_VERSION, no_option = opt, no_optlen = len\<rparr> @ r"
  shows "option_body cfg io cflags t = Some (Inl Out_Of_Bounds)"
proof -
  have n: "nbd_option_to_string opt = Inl Out_Of_Bounds"
    using assms(2) by (simp add: nbd_option_to_string_def nbd_options_def)
  show ?thesis using option_received [OF assms(1,3), where cflags = cflags] n by (metis bindp_simps(6))
qed

lemma option_fills_buffer:
  fixes t :: "('c, 'w, 'n) hs"
  assumes "haggles cfg t" and "unat opt < 10" and "length d = MAX_REQUEST_SIZE cfg" and "d \<noteq> []"
    and "inp (hs_net t) = option_wire (opt, d) @ r"
  shows "option_body cfg io cflags t = Some (Inl Out_Of_Bounds)"
proof -
  let ?l = "of_nat (length d) :: u32"
  let ?q = "\<lparr>no_version = NBD_NEW_VERSION, no_option = opt, no_optlen = ?l\<rparr>"
  have i: "inp (hs_net t) = enc_nbd_new_option ?q @ d @ r" using assms(5) by (simp add: option_wire_def)
  obtain t1 where t1: "option_body cfg io cflags t =
      bindp (lift (nbd_option_to_string opt)) (\<lambda>_.
        if MAX_REQUEST_SIZE cfg < unat ?l then ret (Return (- 1), t1)
        else andthen (option_data io ?l t1) (option_switch io cflags ?q))"
    "haggles cfg t1" "inp (hs_net t1) = d @ r"
    using option_received [OF assms(1) i, where cflags = cflags] by metis
  obtain nm where nm: "nbd_option_to_string opt = Inr nm"
    using assms(2) by (simp add: nbd_option_to_string_def nbd_options_def)
  have ul: "unat ?l = length d" using assms(3) max_request_bound [of cfg] by (simp add: unat_of_nat)
  then have nz: "?l \<noteq> 0" using assms(4) by auto
  have l: "length d < 2 ^ 63" using assms(3) max_request_bound [of cfg] by simp
  have inv: "inv (hs_net t1)" "length (hs_buffer t1) = length d"
    using t1(2) assms(3) by (simp_all add: haggles_def)
  obtain n' where n': "sync_recv_cb io (cl_sock (hs_client t1)) (length d) 0 (hs_net t1) = ret (int (length d), d, n')"
    using recv_fullE [OF inv(1) t1(3) l] .
  have "option_data io ?l t1 = Some (Inl Out_Of_Bounds)"
    using nz ul n' inv(2) by (simp add: option_data_def mem_write_def)
  then show ?thesis using t1(1) nm ul assms(3) by simp
qed

text \<open>A client whose flags are not those of the server.\<close>

lemma flags_refused:
  fixes lw :: "('c, 'w) lwnbd"
  assumes "inv n" and "inp n = f @ r" and "length f = 4" and "rd32 0 f \<noteq> nc_gflags ctx"
  shows "\<exists>n'. protocol_handshake cfg io ctx c lw n = ret (- 1, ctx, c, lw, n')
    \<and> inp n' = r \<and> out n' = out n @ greeting ctx \<and> inv n'"
proof -
  let ?t = "hs_start cfg ctx c lw n" and ?s = "cl_sock c"
  have lg: "length (greeting ctx) < 2 ^ 64" by (simp add: greeting_def newhs.enc_length)
  have i: "inv (hs_net ?t)" using assms(1) by (simp add: hs_start_def)
  obtain t1 where t1: "hs_send io ?s (greeting ctx) 0 ?t = ret (Next, t1)" "sent (greeting ctx) ?t t1" "inv (hs_net t1)"
    by (rule hs_send_ok [OF i lg, of ?s 0])
  have p: "hs_client t1 = c" "hs_ctx t1 = ctx" "hs_lw t1 = lw" "inp (hs_net t1) = f @ r"
    "out (hs_net t1) = out n @ greeting ctx"
    using t1(2) assms(2) by (auto simp: sent_def hs_start_def)
  have lf: "length f < 2 ^ 63" using assms(3) by simp
  obtain n' where n': "sync_recv_cb io ?s 4 0 (hs_net t1) = ret (4, f, n')"
    "inp n' = r" "out n' = out (hs_net t1)" "inv n'"
    using recv_fullE [OF t1(3) p(4) lf, of ?s 0] assms(3) by auto
  have f4: "fetch 4 (map Some f) = Inr f" using fetch_prefix [of f 4 "[]"] assms(3) by simp
  have st: "store f (fresh 4) = Inr (map Some f)" using assms(3) by simp
  have "hs_run cfg io ?t = ret (Return (- 1), t1\<lparr>hs_net := n'\<rparr>)"
    using t1(1) n'(1) f4 st lt_size_of_nat [of 4 4] p assms(4)
    by (simp add: hs_run_def hs_start_def Let_def del: store_fits)
  then show ?thesis using p n' by (intro exI [of _ n']) (simp add: protocol_handshake_def)
qed

end

end
