(* ===== verification/Handshake_Claims.thy ===== *)
theory Handshake_Claims
  imports Handshake
begin

text \<open>
  The properties of the negotiation, stated over the code alone.  The instance behind the witnesses
  is a library with one context, \<open>disk\<close>, over a TCP socket that delivers in pieces.
\<close>

section \<open>A server with one export\<close>

definition disk_plugin :: "(unit, unit) lwnbd_plugin_t" where
  "disk_plugin = null_plugin\<lparr>pl_pread := Some (\<lambda>h n off fl w. Inr (0, replicate (unat n) CHR ''x'', w)),
     pl_get_size := Some (\<lambda>h w. Inr (4096, w))\<rparr>"

definition disk_context :: lwnbd_context where
  "disk_context = zero_context\<lparr>ctx_p := Some 0, ctx_name := ''disk'', ctx_description := ''demo''\<rparr>"

definition disk_lw :: "(unit, unit) lwnbd" where
  "disk_lw = \<lparr>contexts = disk_context # replicate 49 zero_context,
     contexts_status = CONTEXT_CREATED # replicate 49 CONTEXT_FREE,
     plugins = Some disk_plugin # replicate 9 None,
     plugins_status = PLUGIN_CREATED # replicate 9 PLUGIN_FREE, world = ()\<rparr>"

definition disk_ctx :: nbd_context where
  "disk_ctx = \<lparr>ctx_handle = None, ctx_p = None, ctx_name = [], ctx_description = [],
     ctx_exportsize = 0, nc_eflags = 0, nc_minimum_block_size = 0, nc_preferred_block_size = 0,
     nc_maximum_block_size = 0, nc_port = 0, nc_max_retry = 0, nc_gflags = 3, nc_readonly = 0,
     nc_defaultexport = [], nc_preinit = 0, nc_sock = 0, nc_state = HANDSHAKE\<rparr>"

definition disk_client :: nbd_client where
  "disk_client = \<lparr>cl_sock = 3, cl_state = HANDSHAKE, cl_ctx = None\<rparr>"

definition disk_cfg :: nbd_config where
  "disk_cfg = \<lparr>CONFIG_MAX_RETRIES = 5, CONFIG_NBD_BUFFER_LEN = 8\<rparr>"

definition disk_net :: "byte list \<Rightarrow> sock" where
  "disk_net b = \<lparr>so_in = b, so_out = [], so_chunk = [1, 0, 7]\<rparr>"

lemma disk_lw_wf: "wf_lwnbd disk_lw"
  unfolding wf_lwnbd_def
proof (intro conjI ballI allI impI)
  show "wf_context disk_lw c" if "c \<in> set (contexts disk_lw)" for c
    using that by (auto simp: disk_lw_def wf_context_def disk_context_def zero_context_def MAX_NUM_PLUGINS_def)
  show "\<exists>p f. plugins disk_lw ! k = Some p \<and> pl_pread p = Some f"
    if "k < MAX_NUM_PLUGINS" "plugins_status disk_lw ! k = PLUGIN_CREATED" for k
    using that by (cases k) (auto simp: disk_lw_def disk_plugin_def MAX_NUM_PLUGINS_def)
qed (simp_all add: disk_lw_def MAX_CONTEXTS_def MAX_NUM_PLUGINS_def)

lemma disk_count: "lwnbd_contexts_count disk_lw = 1"
  unfolding lwnbd_contexts_count_def
  by (rule find_slot_eqI) (simp_all add: disk_lw_def)

lemma disk_by_name: "lwnbd_get_context_string disk_lw ''disk'' = Some 0"
  unfolding lwnbd_get_context_string_def disk_count
  by (simp add: lwnbd_get_context_i_def disk_lw_def disk_context_def zero_context_def strncmp_eq_def)

lemma disk_none: "lwnbd_get_context_string disk_lw ''none'' = None"
  unfolding lwnbd_get_context_string_def disk_count
  by (simp add: lwnbd_get_context_i_def disk_lw_def disk_context_def zero_context_def strncmp_eq_def)

lemma disk_calls:
  "plugin_of disk_lw (contexts disk_lw ! 0) = Inr disk_plugin" "pl_query disk_plugin = None"
  "\<exists>s'. lwnbd_update_size (disk_lw\<lparr>world := ()\<rparr>) 0 = Inr (4096, s')"
proof -
  show p: "plugin_of disk_lw (contexts disk_lw ! 0) = Inr disk_plugin"
    by (simp add: plugin_of_def disk_lw_def disk_context_def)
  show "pl_query disk_plugin = None" by (simp add: disk_plugin_def null_plugin_def)
  have g: "pl_get_size disk_plugin = Some (\<lambda>h w. Inr (4096, w))" by (simp add: disk_plugin_def)
  have "plugin_of (disk_lw\<lparr>world := ()\<rparr>) (contexts disk_lw ! 0) = Inr disk_plugin"
    by (simp add: plugin_of_def disk_lw_def disk_context_def)
  then show "\<exists>s'. lwnbd_update_size (disk_lw\<lparr>world := ()\<rparr>) 0 = Inr (4096, s')"
    by (simp add: lwnbd_update_size_def g)
qed

lemma disk_dispatch:
  "\<exists>lw'. uri_dispatch disk_lw ''disk'' = Inr (Some 0, lw')" "uri_dispatch disk_lw ''none'' = Inr (None, disk_lw)"
proof -
  have u: "uri_path ''disk'' = ''disk''" "uri_query ''disk'' = None"
    "uri_path ''none'' = ''none''" "uri_query ''none'' = None"
    by (simp_all add: uri_path_def uri_query_def cut_def)
  obtain s' where "lwnbd_update_size (disk_lw\<lparr>world := ()\<rparr>) 0 = Inr (4096, s')" using disk_calls(3) by blast
  then show "\<exists>lw'. uri_dispatch disk_lw ''disk'' = Inr (Some 0, lw')"
    by (simp add: uri_dispatch_def disk_by_name u query_params_def disk_calls)
  show "uri_dispatch disk_lw ''none'' = Inr (None, disk_lw)"
    by (simp add: uri_dispatch_def disk_none u)
qed

lemma disk_haggling:
  "\<forall>opt \<in> set [(NBD_OPT_LIST, []), (NBD_OPT_GO, ''disk'')]. haggling disk_cfg opt"
  by (simp add: haggling_def nbd_consts disk_cfg_def MAX_REQUEST_SIZE_def)

section \<open>Properties of the negotiation\<close>

lemma negotiation_export:
  fixes lw :: "('c, 'w) lwnbd" and n :: 'n
  assumes "stream_transport io inp out link" and "link n" and "wf_lwnbd lw"
    and "\<forall>opt \<in> set opts. haggling cfg opt"
    and "name \<noteq> []" and "NUL \<notin> set name" and "length name < MAX_REQUEST_SIZE cfg"
    and "uri_dispatch lw name = Inr (export, lw')"
    and "inp n = be32 (nc_gflags ctx) @ concat (map option_wire opts)
                 @ option_wire (NBD_OPT_EXPORT_NAME, name) @ rest"
  shows "\<exists>n'. protocol_handshake cfg io ctx c lw n
        = ret (if export = None then - 1 else 0,
               if export = None then ctx else ctx\<lparr>nc_state := TRANSMISSION\<rparr>, c\<lparr>cl_ctx := export\<rparr>, lw', n')
    \<and> inp n' = rest \<and> link n'
    \<and> out n' = out n @ greeting ctx @ concat (map (answer lw) opts)
               @ (if export = None then [] else export_name_reply ctx (nc_gflags ctx))"
proof -
  note tr = assms(1)
  let ?body = "option_body cfg io (nc_gflags ctx)"
  obtain t where t: "protocol_handshake cfg io ctx c lw n
      = bindp (while_flow (\<lambda>_. True) ?body t) (\<lambda>(fl, t).
        ret (case fl of Return r \<Rightarrow> r | _ \<Rightarrow> 0, hs_ctx t, hs_client t, hs_lw t, hs_net t))"
    "stream_transport.haggles link cfg t" "hs_ctx t = ctx" "hs_client t = c" "hs_lw t = lw"
    "inp (hs_net t) = option_wire (NBD_OPT_EXPORT_NAME, name) @ rest"
    "out (hs_net t) = out n @ greeting ctx @ concat (map (answer lw) opts)"
    by (rule stream_transport.negotiated [OF tr assms(2-4,9)])
  obtain t' where t': "?body t = ret (if export = None then Return (- 1) else Return 0, t')"
    "hs_ctx t' = (if export = None then hs_ctx t else (hs_ctx t)\<lparr>nc_state := TRANSMISSION\<rparr>)"
    "hs_client t' = (hs_client t)\<lparr>cl_ctx := export\<rparr>" "hs_lw t' = lw'" "inp (hs_net t') = rest"
    "out (hs_net t') = out (hs_net t) @ (if export = None then [] else export_name_reply (hs_ctx t) (nc_gflags ctx))"
    "link (hs_net t')"
    by (rule stream_transport.export_option [OF tr t(2,6) assms(5-7) assms(8) [folded t(5)]])
  have "while_flow (\<lambda>_. True) ?body t = ret (Return (if export = None then - 1 else 0), t')"
    using while_flow_return [of "\<lambda>_. True" t ?body "if export = None then - 1 else 0" t'] t'(1)
    by (simp add: ret_def split: if_splits)
  then show ?thesis using t t' by (intro exI [of _ "hs_net t'"]) simp
qed

text \<open>
  A client that takes the greeting, sends back the flags of the server, sends any options that
  the loop answers (LIST, and the ones it does not support) and then names an export gets the
  greeting, the answer to each option in order and the export reply, and the server returns 0 in
  state \<open>TRANSMISSION\<close> with the context the dispatcher found; when the dispatcher finds none it
  returns \<open>-1\<close> and sends nothing more.  It has read exactly these bytes.
\<close>

theorem handshake_export:
  fixes lw :: "('c, 'w) lwnbd" and n :: 'n
  assumes "stream_transport io inp out link" and "link n" and "wf_lwnbd lw"
    and "\<forall>opt \<in> set opts. haggling cfg opt"
    and "name \<noteq> []" and "NUL \<notin> set name" and "length name < MAX_REQUEST_SIZE cfg"
    and "uri_dispatch lw name = Inr (export, lw')"
    and "inp n = be32 (nc_gflags ctx) @ concat (map option_wire opts)
                 @ option_wire (NBD_OPT_EXPORT_NAME, name) @ rest"
  shows "\<exists>n'. protocol_handshake cfg io ctx c lw n
        = ret (if export = None then - 1 else 0,
               if export = None then ctx else ctx\<lparr>nc_state := TRANSMISSION\<rparr>, c\<lparr>cl_ctx := export\<rparr>, lw', n')
    \<and> inp n' = rest
    \<and> out n' = out n @ greeting ctx @ concat (map (answer lw) opts)
               @ (if export = None then [] else export_name_reply ctx (nc_gflags ctx))"
  using negotiation_export [OF assms, of c] by blast

theorem handshake_export_witness:
  "(\<exists>n' lw'. protocol_handshake disk_cfg (tcp_transport sock_os) disk_ctx disk_client disk_lw
       (disk_net (be32 3 @ option_wire (NBD_OPT_LIST, []) @ option_wire (NBD_OPT_GO, ''disk'')
                  @ option_wire (NBD_OPT_EXPORT_NAME, ''disk'')))
     = ret (0, disk_ctx\<lparr>nc_state := TRANSMISSION\<rparr>, disk_client\<lparr>cl_ctx := Some 0\<rparr>, lw', n')
     \<and> so_out n' = greeting disk_ctx @ answer disk_lw (NBD_OPT_LIST, [])
         @ fixed_reply NBD_OPT_GO NBD_REP_ERR_UNSUP 0 @ export_name_reply disk_ctx 3)"
proof -
  obtain lw' where d: "uri_dispatch disk_lw ''disk'' = Inr (Some 0, lw')" using disk_dispatch(1) by blast
  have len: "length ''disk'' < MAX_REQUEST_SIZE disk_cfg" and nn: "NUL \<notin> set ''disk''"
    by (simp_all add: disk_cfg_def MAX_REQUEST_SIZE_def NUL_def)
  let ?o = "[(NBD_OPT_LIST, []), (NBD_OPT_GO, ''disk'')]"
  have i: "so_in (disk_net (be32 3 @ option_wire (NBD_OPT_LIST, []) @ option_wire (NBD_OPT_GO, ''disk'')
                  @ option_wire (NBD_OPT_EXPORT_NAME, ''disk'')))
      = be32 (nc_gflags disk_ctx) @ concat (map option_wire ?o) @ option_wire (NBD_OPT_EXPORT_NAME, ''disk'') @ []"
    by (simp add: disk_net_def disk_ctx_def)
  have go: "answer disk_lw (NBD_OPT_GO, ''disk'') = fixed_reply NBD_OPT_GO NBD_REP_ERR_UNSUP 0"
    by (simp add: answer_def nbd_consts)
  have f: "nc_gflags disk_ctx = 3" "so_out (disk_net b) = []" for b
    by (simp_all add: disk_net_def disk_ctx_def)
  have ne: "''disk'' \<noteq> []" by simp
  note h = handshake_export [where inp = so_in and out = so_out and opts = ?o and name = "''disk''" and rest = "[]", OF sock.tcp.stream_transport_axioms TrueI disk_lw_wf disk_haggling ne nn len d i,
      where c = disk_client]
  from h obtain n' where "protocol_handshake disk_cfg (tcp_transport sock_os) disk_ctx disk_client disk_lw
       (disk_net (be32 3 @ option_wire (NBD_OPT_LIST, []) @ option_wire (NBD_OPT_GO, ''disk'')
                  @ option_wire (NBD_OPT_EXPORT_NAME, ''disk'')))
     = ret (0, disk_ctx\<lparr>nc_state := TRANSMISSION\<rparr>, disk_client\<lparr>cl_ctx := Some 0\<rparr>, lw', n')"
    "so_out n' = greeting disk_ctx @ concat (map (answer disk_lw) ?o) @ export_name_reply disk_ctx 3"
    unfolding f by force
  then show ?thesis using go by (intro exI [of _ n'] exI [of _ lw'] conjI) simp_all
qed

text \<open>
  A client that ends the options with ABORT gets its acknowledgement after the answers, and the
  server returns 0 in state \<open>ABORT\<close> with the client and the library as they were.
\<close>

theorem handshake_abort:
  fixes lw :: "('c, 'w) lwnbd" and n :: 'n
  assumes "stream_transport io inp out link" and "link n" and "wf_lwnbd lw"
    and "\<forall>opt \<in> set opts. haggling cfg opt" and "length d < MAX_REQUEST_SIZE cfg"
    and "inp n = be32 (nc_gflags ctx) @ concat (map option_wire opts) @ option_wire (NBD_OPT_ABORT, d) @ rest"
  shows "\<exists>n'. protocol_handshake cfg io ctx c lw n = ret (0, ctx\<lparr>nc_state := ABORT\<rparr>, c, lw, n')
    \<and> inp n' = rest
    \<and> out n' = out n @ greeting ctx @ concat (map (answer lw) opts) @ fixed_reply NBD_OPT_ABORT NBD_REP_ACK 0"
proof -
  note tr = assms(1)
  let ?body = "option_body cfg io (nc_gflags ctx)"
  obtain t where t: "protocol_handshake cfg io ctx c lw n
      = bindp (while_flow (\<lambda>_. True) ?body t) (\<lambda>(fl, t).
        ret (case fl of Return r \<Rightarrow> r | _ \<Rightarrow> 0, hs_ctx t, hs_client t, hs_lw t, hs_net t))"
    "stream_transport.haggles link cfg t" "hs_ctx t = ctx" "hs_client t = c" "hs_lw t = lw"
    "inp (hs_net t) = option_wire (NBD_OPT_ABORT, d) @ rest"
    "out (hs_net t) = out n @ greeting ctx @ concat (map (answer lw) opts)"
    by (rule stream_transport.negotiated [OF tr assms(2-4,6)])
  obtain t' where t': "?body t = ret (Return 0, t')" "hs_ctx t' = (hs_ctx t)\<lparr>nc_state := ABORT\<rparr>"
    "hs_client t' = hs_client t" "hs_lw t' = hs_lw t" "inp (hs_net t') = rest"
    "out (hs_net t') = out (hs_net t) @ fixed_reply NBD_OPT_ABORT NBD_REP_ACK 0"
    by (rule stream_transport.abort_option [OF tr t(2,6) assms(5)])
  have "while_flow (\<lambda>_. True) ?body t = ret (Return 0, t')"
    using while_flow_return [of "\<lambda>_. True" t ?body 0 t'] t'(1) by (simp add: ret_def)
  then show ?thesis using t t' by (intro exI [of _ "hs_net t'"]) simp
qed

theorem handshake_abort_witness:
  "\<exists>n'. protocol_handshake disk_cfg (tcp_transport sock_os) disk_ctx disk_client disk_lw
      (disk_net (be32 3 @ option_wire (NBD_OPT_ABORT, [])))
    = ret (0, disk_ctx\<lparr>nc_state := ABORT\<rparr>, disk_client, disk_lw, n')
    \<and> so_out n' = greeting disk_ctx @ fixed_reply NBD_OPT_ABORT NBD_REP_ACK 0"
proof -
  have len: "length [] < MAX_REQUEST_SIZE disk_cfg" by (simp add: disk_cfg_def MAX_REQUEST_SIZE_def)
  have i: "so_in (disk_net (be32 3 @ option_wire (NBD_OPT_ABORT, [])))
      = be32 (nc_gflags disk_ctx) @ concat (map option_wire []) @ option_wire (NBD_OPT_ABORT, []) @ []"
    by (simp add: disk_net_def disk_ctx_def)
  show ?thesis
    using handshake_abort [OF sock.tcp.stream_transport_axioms TrueI disk_lw_wf _ len i, where c = disk_client]
    by (auto simp: disk_net_def)
qed

text \<open>
  C19.  The two ways a client crashes the negotiation: an option number of 10 or more, of which
  \<^verbatim>\<open>NBD_OPT_SET_META_CONTEXT\<close> is one that clients send, indexes the table of names out of bounds;
  and an option whose data is exactly as long as the buffer passes the test, and its terminating
  NUL is written behind the buffer.
\<close>

theorem handshake_overruns:
  fixes lw :: "('c, 'w) lwnbd" and n :: 'n
  assumes "stream_transport io inp out link" and "link n" and "wf_lwnbd lw"
    and "\<forall>opt \<in> set opts. haggling cfg opt"
    and "inp n = be32 (nc_gflags ctx) @ concat (map option_wire opts) @ option_wire (opt, d) @ rest"
    and "10 \<le> unat opt \<or> d \<noteq> [] \<and> length d = MAX_REQUEST_SIZE cfg"
  shows "protocol_handshake cfg io ctx c lw n = Some (Inl Out_Of_Bounds)"
proof -
  note tr = assms(1)
  let ?body = "option_body cfg io (nc_gflags ctx)"
  obtain t where t: "protocol_handshake cfg io ctx c lw n
      = bindp (while_flow (\<lambda>_. True) ?body t) (\<lambda>(fl, t).
        ret (case fl of Return r \<Rightarrow> r | _ \<Rightarrow> 0, hs_ctx t, hs_client t, hs_lw t, hs_net t))"
    "stream_transport.haggles link cfg t" "hs_ctx t = ctx" "hs_client t = c" "hs_lw t = lw"
    "inp (hs_net t) = option_wire (opt, d) @ rest"
    "out (hs_net t) = out n @ greeting ctx @ concat (map (answer lw) opts)"
    by (rule stream_transport.negotiated [OF tr assms(2-5)])
  have "?body t = Some (Inl Out_Of_Bounds)"
  proof (cases "10 \<le> unat opt")
    case True
    then show ?thesis
      using stream_transport.option_unnamed [OF tr t(2) True, of "of_nat (length d)" "d @ rest"] t(6)
      by (simp add: option_wire_def)
  next
    case False
    then show ?thesis
      using stream_transport.option_fills_buffer [OF tr t(2) _ _ _ t(6)] assms(6) by simp
  qed
  then have "while_flow (\<lambda>_. True) ?body t = Some (Inl Out_Of_Bounds)"
    using while_flow_fault [of "\<lambda>_. True" t ?body] by simp
  then show ?thesis using t(1) by simp
qed

theorem handshake_overruns_witness:
  "protocol_handshake disk_cfg (tcp_transport sock_os) disk_ctx disk_client disk_lw
      (disk_net (be32 3 @ option_wire (NBD_OPT_SET_META_CONTEXT, []))) = Some (Inl Out_Of_Bounds)
   \<and> protocol_handshake disk_cfg (tcp_transport sock_os) disk_ctx disk_client disk_lw
      (disk_net (be32 3 @ option_wire (NBD_OPT_EXPORT_NAME, ''disk5678''))) = Some (Inl Out_Of_Bounds)"
proof -
  have i: "so_in (disk_net (be32 3 @ option_wire x))
      = be32 (nc_gflags disk_ctx) @ concat (map option_wire []) @ option_wire x @ []" for x
    by (simp add: disk_net_def disk_ctx_def)
  have "protocol_handshake disk_cfg (tcp_transport sock_os) disk_ctx disk_client disk_lw
      (disk_net (be32 3 @ option_wire (op, d))) = Some (Inl Out_Of_Bounds)"
    if "10 \<le> unat op \<or> d \<noteq> [] \<and> length d = MAX_REQUEST_SIZE disk_cfg" for op d
    by (rule handshake_overruns [OF sock.tcp.stream_transport_axioms TrueI disk_lw_wf _ i that]) simp
  then show ?thesis by (simp add: nbd_consts disk_cfg_def MAX_REQUEST_SIZE_def)
qed

end
