(* ===== verification/Nbd_Server.thy ===== *)
theory Nbd_Server
  imports Handshake_Claims Transmission_Claims
begin

text \<open>
  The NBD server, \<^verbatim>\<open>servers/nbd/nbd.c\<close>: its table of three contexts, its options, the socket it
  listens on, and the thread of a client, which runs the two phases of the protocol.  The thread
  reads \<^verbatim>\<open>s->preinit\<close> of a variable that the file does not declare, which the model takes for the
  context of the server, and calls \<^verbatim>\<open>lwnbd_get_defaultexport\<close>, whose only definition is commented
  out, and which is a parameter here.
\<close>

section \<open>The code\<close>

definition NBD_SERVER_MAX_DEVICES :: nat where "NBD_SERVER_MAX_DEVICES = 3"
definition NBDDEFAULTPORT :: u16 where "NBDDEFAULTPORT = 10809"

record nbd_servers =
  nb_handles :: "nbd_context list"
  nb_in_use :: "handle_state list"

definition zero_nbd_context :: nbd_context where
  "zero_nbd_context = lwnbd_context.extend zero_context
     \<lparr>nc_eflags = 0, nc_minimum_block_size = 0, nc_preferred_block_size = 0,
      nc_maximum_block_size = 0, nc_port = 0, nc_max_retry = 0, nc_gflags = 0, nc_readonly = 0,
      nc_defaultexport = [], nc_preinit = 0, nc_sock = 0, nc_state = HANDSHAKE\<rparr>"

definition nbd_servers_init :: nbd_servers where
  "nbd_servers_init =
     \<lparr>nb_handles = replicate NBD_SERVER_MAX_DEVICES zero_nbd_context,
      nb_in_use = replicate NBD_SERVER_MAX_DEVICES HANDLE_FREE\<rparr>"

text \<open>The flags and block sizes that the plugin of a context stands for.\<close>

definition nbdify_context :: "('c, 'w) lwnbd \<Rightarrow> nbd_context \<Rightarrow> nbd_context result" where
  "nbdify_context s ctx =
     bindr (plugin_of s ctx) (\<lambda>p.
     let e0 = NBD_FLAG_HAS_FLAGS;
         e1 = (if pl_pwrite p = None then e0 OR NBD_FLAG_READ_ONLY else e0);
         e2 = (if pl_flush p \<noteq> None then e1 OR NBD_FLAG_SEND_FLUSH else e1)
     in bindr (case pl_block_size p of
                 Some f \<Rightarrow> f (ctx_handle ctx) (world s)
               | None \<Rightarrow> Inr (0, 512, 512, 512)) (\<lambda>(_, minimum, preferred, maximum).
        Inr (ctx\<lparr>nc_eflags := e2, nc_minimum_block_size := minimum,
                 nc_preferred_block_size := preferred, nc_maximum_block_size := maximum\<rparr>)))"

text \<open>The calls that make a listening socket.  The descriptor is a local of \<^verbatim>\<open>nbd_server_create\<close>.\<close>

record 'n listen_sys =
  sys_socket :: "'n \<Rightarrow> int \<times> 'n"
  sys_bind :: "int \<Rightarrow> u16 \<Rightarrow> u32 \<Rightarrow> 'n \<Rightarrow> int \<times> 'n"
  sys_listen :: "int \<Rightarrow> nat \<Rightarrow> 'n \<Rightarrow> int \<times> 'n"
  sys_close_socket :: "int \<Rightarrow> 'n \<Rightarrow> int \<times> 'n"

definition nbd_server_create :: "'n listen_sys \<Rightarrow> 'n \<Rightarrow> int \<times> 'n" where
  "nbd_server_create os n =
     (let (sock, n1) = sys_socket os n;
          error_trap = (\<lambda>n. (- 1, snd (sys_close_socket os sock n)))
      in if sock < 0 then error_trap n1
         else let (r, n2) = sys_bind os sock 10809 0 n1
              in if r < 0 then error_trap n2
                 else let (r, n3) = sys_listen os sock MAX_NUM_CLIENTS n2
                      in if r < 0 then error_trap n3 else (0, n3))"

subsection \<open>The thread of a client\<close>

record ('c, 'w, 'n) ct =
  ct_r :: int
  ct_ctx :: nbd_context
  ct_client :: nbd_client
  ct_lw :: "('c, 'w) lwnbd"
  ct_net :: 'n

definition client_body ::
  "nbd_config \<Rightarrow> 'n transport \<Rightarrow> ('c, 'w, 'n) ct \<Rightarrow> (flow \<times> ('c, 'w, 'n) ct) run" where
  "client_body cfg io t =
     (case cl_state (ct_client t) of
        HANDSHAKE \<Rightarrow>
          bindp (protocol_handshake cfg io (ct_ctx t) (ct_client t) (ct_lw t) (ct_net t)) (\<lambda>(r, ctx, c, lw, n).
          ret (Next, t\<lparr>ct_r := r, ct_ctx := ctx, ct_client := c, ct_lw := lw, ct_net := n\<rparr>))
      | TRANSMISSION \<Rightarrow>
          bindp (transmission_phase cfg io (Some (ct_ctx t)) (ct_lw t) (ct_net t)) (\<lambda>(r, ctx, lw, n).
          ret (Next, t\<lparr>ct_r := r, ct_ctx := (case ctx of None \<Rightarrow> ct_ctx t | Some c \<Rightarrow> c),
                       ct_lw := lw, ct_net := n\<rparr>))
      | ABORT \<Rightarrow> ret (Next, t\<lparr>ct_r := - 1\<rparr>))"

definition client_run ::
  "nbd_config \<Rightarrow> 'n transport \<Rightarrow> ('c, 'w, 'n) ct
    \<Rightarrow> (int \<times> nbd_context \<times> nbd_client \<times> ('c, 'w) lwnbd \<times> 'n) run" where
  "client_run cfg io t =
     bindp (while_flow (\<lambda>t. ct_r t = 0) (client_body cfg io) t) (\<lambda>(_, t).
     ret (ct_r t, ct_ctx t, ct_client t, ct_lw t, ct_net t))"

definition nbd_synchronous_client_thread_cb ::
  "nbd_config \<Rightarrow> 'n transport \<Rightarrow> (('c, 'w) lwnbd \<Rightarrow> nat option) \<Rightarrow> nbd_context \<Rightarrow> int
    \<Rightarrow> ('c, 'w) lwnbd \<Rightarrow> 'n \<Rightarrow> (int \<times> nbd_context \<times> nbd_client \<times> ('c, 'w) lwnbd \<times> 'n) run" where
  "nbd_synchronous_client_thread_cb cfg io lwnbd_get_defaultexport ctx sock lw n =
     (if nc_preinit ctx = 0 then
        (case lwnbd_new_context lw of
           (None, lw1) \<Rightarrow> ret (- 1, ctx, \<lparr>cl_sock = sock, cl_state = HANDSHAKE, cl_ctx = None\<rparr>, lw1, n)
         | (Some k, lw1) \<Rightarrow>
             client_run cfg io \<lparr>ct_r = 0, ct_ctx = ctx,
               ct_client = \<lparr>cl_sock = sock, cl_state = HANDSHAKE, cl_ctx = Some k\<rparr>,
               ct_lw = lw1, ct_net = n\<rparr>)
      else
        (case lwnbd_get_defaultexport lw of
           None \<Rightarrow> ret (- 1, ctx, \<lparr>cl_sock = sock, cl_state = HANDSHAKE, cl_ctx = None\<rparr>, lw, n)
         | Some k \<Rightarrow>
             client_run cfg io \<lparr>ct_r = 0, ct_ctx = ctx,
               ct_client = \<lparr>cl_sock = sock, cl_state = TRANSMISSION, cl_ctx = Some k\<rparr>,
               ct_lw = lw, ct_net = n\<rparr>))"

subsection \<open>Options\<close>

definition nbd_server_set_preinit :: "nbd_context \<Rightarrow> u8 \<Rightarrow> nbd_context" where
  "nbd_server_set_preinit h preinit = h\<lparr>nc_preinit := preinit\<rparr>"

definition nbd_server_get_preinit :: "nbd_context \<Rightarrow> u8" where
  "nbd_server_get_preinit h = nc_preinit h"

definition nbd_server_get_gflags :: "nbd_context \<Rightarrow> u32" where
  "nbd_server_get_gflags h = nc_gflags h"

text \<open>\<^verbatim>\<open>nbd_config\<close>: \<open>handle\<close> points into \<^verbatim>\<open>handles\<close>; the value of an option is not looked at.\<close>

definition nbd_config_cb :: "handle \<Rightarrow> string \<Rightarrow> string \<Rightarrow> nbd_servers \<Rightarrow> (int \<times> nbd_servers) result" where
  "nbd_config_cb handle key value st =
     (let store_option = (\<lambda>f. bindr (handle_at (nb_handles st) handle) (\<lambda>s.
            bindr (set_handle (the handle) (f s) (nb_handles st)) (\<lambda>hs.
            Inr (0, st\<lparr>nb_handles := hs\<rparr>))))
      in if key = ''readonly'' then store_option (\<lambda>s. s\<lparr>nc_readonly := 1\<rparr>)
         else if key = ''preinit'' then store_option (\<lambda>s. s\<lparr>nc_preinit := 1\<rparr>)
         else Inr (- 1, st))"

text \<open>The defaults are not copied into the context, and neither are the settings.\<close>

record nbdsettings =
  ns_port :: u16
  ns_max_retry :: u16
  ns_gflags :: u32
  ns_readonly :: u8
  ns_preinit :: u8

definition default_nbd_server :: "nbd_config \<Rightarrow> nbdsettings" where
  "default_nbd_server cfg = \<lparr>ns_port = NBDDEFAULTPORT, ns_max_retry = of_nat (CONFIG_MAX_RETRIES cfg),
     ns_gflags = NBD_FLAG_FIXED_NEWSTYLE OR NBD_FLAG_NO_ZEROES, ns_readonly = 0, ns_preinit = 0\<rparr>"

definition nbd_ctor :: "handle \<Rightarrow> nbdsettings option \<Rightarrow> nbd_servers \<Rightarrow> (int \<times> nbd_servers) result" where
  "nbd_ctor handle settings st = Inr (0, st)"

text \<open>\<^verbatim>\<open>&handles[i]\<close>, which is one past the end when all are taken.\<close>

definition nbd_new :: "nbd_servers \<Rightarrow> handle \<times> nbd_servers" where
  "nbd_new st = (let (i, in_use) = take_handle (nb_in_use st) in (Some i, st\<lparr>nb_in_use := in_use\<rparr>))"

section \<open>The loop of the thread\<close>

lemma client_turn:
  assumes "ct_r t = 0" and "client_body cfg io t = ret (Next, t')"
  shows "client_run cfg io t = client_run cfg io t'"
  using while_flow_next [of "\<lambda>t. ct_r t = 0" t "client_body cfg io" t'] assms
  by (simp add: client_run_def ret_def)

lemma client_stop:
  "ct_r t \<noteq> 0 \<Longrightarrow> client_run cfg io t = ret (ct_r t, ct_ctx t, ct_client t, ct_lw t, ct_net t)"
  by (simp add: client_run_def)

text \<open>A transmission phase whose peer has gone.\<close>

context stream_transport
begin

lemma transmission_at_end:
  fixes lw :: "('c, 'w) lwnbd"
  assumes "inv n" and "inp n = []"
  shows "\<exists>n'. transmission_phase cfg io (Some ctx) lw n = ret (- 1, Some ctx, lw, n')
    \<and> inp n' = [] \<and> out n' = out n \<and> inv n'"
proof -
  let ?t = "tx_start cfg ctx lw n" and ?b = "request_body cfg io (nc_minimum_block_size ctx)"
  obtain n' where n': "sync_recv_cb io (nc_sock ctx) 28 0 n = ret (0, [], n')" "inp n' = []" "out n' = out n" "inv n'"
    using recv_short [OF assms(1), of 28 "nc_sock ctx" 0] assms(2) by auto
  let ?t' = "?t\<lparr>tx_net := n'\<rparr>"
  have "?b ?t = ret (Return (- 1), ?t')"
    using n'(1) by (simp add: request_body_def tx_start_def Let_def)
  then have "while_flow (\<lambda>_. True) ?b ?t = ret (Return (- 1), ?t')"
    using while_flow_return [of "\<lambda>_. True" ?t ?b "- 1" ?t'] by (simp add: ret_def)
  then show ?thesis using n' by (simp add: transmission_phase_def tx_start_def)
qed

end

section \<open>Properties of the server\<close>

text \<open>
  After a handshake that picked an export, the thread does not serve it: the handshake sets
  the state of the server's context and the thread tests the state of the client, which is still
  \<open>HANDSHAKE\<close>.  The client is sent a second greeting, its first request is taken for the flags of
  the client, and unless its first four bytes happen to be those flags the thread ends with \<open>-1\<close>
  and no reply to the request.
\<close>

theorem client_never_served:
  fixes lw lw1 :: "('c, 'w) lwnbd" and n :: 'n
  assumes "stream_transport io inp out link" and "link n" and "nc_preinit ctx = 0"
    and "lwnbd_new_context lw = (Some k, lw1)" and "wf_lwnbd lw"
    and "name \<noteq> []" and "NUL \<notin> set name" and "length name < MAX_REQUEST_SIZE cfg"
    and "uri_dispatch lw1 name = Inr (Some export, lw2)"
    and "inp n = be32 (nc_gflags ctx) @ option_wire (NBD_OPT_EXPORT_NAME, name) @ request @ rest"
    and "length request = 4" and "rd32 0 request \<noteq> nc_gflags ctx"
  shows "\<exists>n'. nbd_synchronous_client_thread_cb cfg io dflt ctx sock lw n
      = ret (- 1, ctx\<lparr>nc_state := TRANSMISSION\<rparr>,
             \<lparr>cl_sock = sock, cl_state = HANDSHAKE, cl_ctx = Some export\<rparr>, lw2, n')
    \<and> inp n' = rest
    \<and> out n' = out n @ greeting ctx @ export_name_reply ctx (nc_gflags ctx) @ greeting ctx"
proof -
  let ?c = "\<lparr>cl_sock = sock, cl_state = HANDSHAKE, cl_ctx = Some k\<rparr>"
  let ?c2 = "\<lparr>cl_sock = sock, cl_state = HANDSHAKE, cl_ctx = Some export\<rparr>"
  let ?ctx2 = "ctx\<lparr>nc_state := TRANSMISSION\<rparr>"
  define t where "t = \<lparr>ct_r = 0, ct_ctx = ctx, ct_client = ?c, ct_lw = lw1, ct_net = n\<rparr>"
  have i: "inp n = be32 (nc_gflags ctx) @ concat (map option_wire [])
      @ option_wire (NBD_OPT_EXPORT_NAME, name) @ request @ rest"
    using assms(10) by simp
  have wf: "wf_lwnbd lw1" by (rule new_context_wf [OF assms(5,4)])
  obtain n1 where n1: "protocol_handshake cfg io ctx ?c lw1 n = ret (0, ?ctx2, ?c2, lw2, n1)"
    "inp n1 = request @ rest" "out n1 = out n @ greeting ctx @ export_name_reply ctx (nc_gflags ctx)"
    "link n1"
    using negotiation_export [OF assms(1,2) wf _ assms(6-9) i, where c = ?c] by auto
  have g: "nc_gflags ?ctx2 = nc_gflags ctx" "greeting ?ctx2 = greeting ctx" by (simp_all add: greeting_def)
  obtain n2 where n2: "protocol_handshake cfg io ?ctx2 ?c2 lw2 n1 = ret (- 1, ?ctx2, ?c2, lw2, n2)"
    "inp n2 = rest" "out n2 = out n1 @ greeting ctx"
    using stream_transport.flags_refused [OF assms(1) n1(4,2) assms(11), where ctx = ?ctx2 and cfg = cfg
        and c = ?c2 and lw = lw2] assms(12) g by auto
  define t1 where "t1 = \<lparr>ct_r = 0, ct_ctx = ?ctx2, ct_client = ?c2, ct_lw = lw2, ct_net = n1\<rparr>"
  have "client_run cfg io t = client_run cfg io t1"
    by (rule client_turn) (use n1(1) in \<open>simp_all add: client_body_def t_def t1_def\<close>)
  also have "\<dots> = client_run cfg io \<lparr>ct_r = - 1, ct_ctx = ?ctx2, ct_client = ?c2, ct_lw = lw2, ct_net = n2\<rparr>"
    by (rule client_turn) (use n2(1) in \<open>simp_all add: client_body_def t1_def\<close>)
  also have "\<dots> = ret (- 1, ?ctx2, ?c2, lw2, n2)" by (simp add: client_stop)
  finally show ?thesis
    using assms(3,4) n1 n2 by (intro exI [of _ n2]) (simp add: nbd_synchronous_client_thread_cb_def t_def)
qed

lemma disk_second:
  obtains lw1 lw2 where "lwnbd_new_context disk_lw = (Some 1, lw1)"
    and "uri_dispatch lw1 ''disk'' = Inr (Some 0, lw2)"
proof -
  let ?lw1 = "disk_lw\<lparr>contexts_status := CONTEXT_CREATED # CONTEXT_CREATED # replicate 48 CONTEXT_FREE\<rparr>"
  have st: "(CONTEXT_CREATED # replicate 49 CONTEXT_FREE)[1 := CONTEXT_CREATED]
      = CONTEXT_CREATED # CONTEXT_CREATED # replicate 48 CONTEXT_FREE"
  proof -
    have "replicate 49 CONTEXT_FREE = CONTEXT_FREE # replicate 48 CONTEXT_FREE"
      by (simp add: replicate_Suc [symmetric])
    then show ?thesis by simp
  qed
  have f: "find_slot (\<lambda>st. st = CONTEXT_FREE) (contexts_status disk_lw) = 1"
    using disk_count by (simp add: lwnbd_contexts_count_def)
  have n: "lwnbd_new_context disk_lw = (Some 1, ?lw1)"
    unfolding lwnbd_new_context_def f using st by (simp add: MAX_CONTEXTS_def disk_lw_def)
  have c: "lwnbd_contexts_count ?lw1 = 2"
    unfolding lwnbd_contexts_count_def
    by (rule find_slot_eqI) (auto simp: nth_Cons split: nat.splits)
  have name: "lwnbd_get_context_string ?lw1 ''disk'' = Some 0"
    unfolding lwnbd_get_context_string_def c
    by (simp add: lwnbd_get_context_i_def disk_lw_def disk_context_def zero_context_def strncmp_eq_def
        numeral_2_eq_2)
  have p: "plugin_of (?lw1\<lparr>world := ()\<rparr>) (contexts disk_lw ! 0) = Inr disk_plugin"
    "plugin_of ?lw1 (contexts disk_lw ! 0) = Inr disk_plugin"
    by (simp_all add: plugin_of_def disk_lw_def disk_context_def)
  have g: "pl_get_size disk_plugin = Some (\<lambda>h w. Inr (4096, w))" by (simp add: disk_plugin_def)
  have "\<exists>s'. lwnbd_update_size (?lw1\<lparr>world := ()\<rparr>) 0 = Inr (4096, s')"
    using p(1) by (simp add: lwnbd_update_size_def g)
  then obtain s' where u: "lwnbd_update_size (?lw1\<lparr>world := ()\<rparr>) 0 = Inr (4096, s')" by blast
  have "uri_path ''disk'' = ''disk''" "uri_query ''disk'' = None"
    by (simp_all add: uri_path_def uri_query_def cut_def)
  then have "uri_dispatch ?lw1 ''disk'' = Inr (Some 0, s')"
    using u p(2) by (simp add: uri_dispatch_def name query_params_def disk_calls)
  then show thesis using that n by blast
qed

theorem client_never_served_witness:
  "\<exists>n' lw2. nbd_synchronous_client_thread_cb disk_cfg (tcp_transport sock_os) (\<lambda>_. None) disk_ctx 3 disk_lw
      (disk_net (be32 3 @ option_wire (NBD_OPT_EXPORT_NAME, ''disk'') @ be32 NBD_REQUEST_MAGIC @ ''more''))
     = ret (- 1, disk_ctx\<lparr>nc_state := TRANSMISSION\<rparr>,
            \<lparr>cl_sock = 3, cl_state = HANDSHAKE, cl_ctx = Some 0\<rparr>, lw2, n') \<and> so_in n' = ''more''
     \<and> so_out n' = greeting disk_ctx @ export_name_reply disk_ctx 3 @ greeting disk_ctx"
proof -
  obtain lw1 lw2 where l: "lwnbd_new_context disk_lw = (Some 1, lw1)"
    "uri_dispatch lw1 ''disk'' = Inr (Some 0, lw2)"
    by (rule disk_second)
  have len: "length ''disk'' < MAX_REQUEST_SIZE disk_cfg" and nn: "NUL \<notin> set ''disk''"
    and ne: "''disk'' \<noteq> []" and pre: "nc_preinit disk_ctx = 0"
    by (simp_all add: disk_cfg_def MAX_REQUEST_SIZE_def NUL_def disk_ctx_def)
  let ?b = "be32 3 @ option_wire (NBD_OPT_EXPORT_NAME, ''disk'') @ be32 NBD_REQUEST_MAGIC @ ''more''"
  have i: "so_in (disk_net ?b) = be32 (nc_gflags disk_ctx) @ option_wire (NBD_OPT_EXPORT_NAME, ''disk'')
      @ be32 NBD_REQUEST_MAGIC @ ''more''" and f: "nc_gflags disk_ctx = 3" "so_out (disk_net ?b) = []"
    by (simp_all add: disk_net_def disk_ctx_def)
  have lr: "length (be32 NBD_REQUEST_MAGIC) = 4" and ng: "rd32 0 (be32 NBD_REQUEST_MAGIC) \<noteq> nc_gflags disk_ctx"
    by (simp_all add: packed f nbd_consts)
  note h = client_never_served [where inp = so_in and out = so_out, OF sock.tcp.stream_transport_axioms TrueI
      pre l(1) disk_lw_wf ne nn len l(2) i lr ng, where dflt = "\<lambda>_. None" and sock = 3]
  show ?thesis using h unfolding f by force
qed

text \<open>The thread with \<^verbatim>\<open>preinit\<close>, which also reads the stream to its end.\<close>

lemma preinit_serves:
  fixes lw :: "('c, 'w) lwnbd" and n :: 'n
  assumes "nc_preinit ctx \<noteq> 0" and "dflt lw = Some k"
    and "stream_transport io inp out link" and "block_device pread bs content ok pwrite flush"
    and "unat (nc_minimum_block_size ctx) = bs" and "0 < bs" and "bs \<le> MAX_REQUEST_SIZE cfg"
    and "plugin_of lw ctx = Inr p" and "pl_pread p = Some pread" and "pl_pwrite p = Some pwrite"
    and "pl_flush p = Some flush" and "nc_eflags ctx AND NBD_FLAG_READ_ONLY = 0"
    and "ok (ctx_handle ctx) (world lw)" and "link n"
    and "d = content (ctx_handle ctx) (world lw)" and "unat (ctx_exportsize ctx) = length d"
    and "\<forall>c \<in> set cs. legal bs (length d) c"
    and "inp n = concat (map wire cs) @ disconnect fl h"
  shows "\<exists>w n'. nbd_synchronous_client_thread_cb cfg io dflt ctx sock lw n
      = ret (- 1, ctx\<lparr>nc_state := ABORT\<rparr>, \<lparr>cl_sock = sock, cl_state = TRANSMISSION, cl_ctx = Some k\<rparr>,
             lw\<lparr>world := w\<rparr>, n')
    \<and> out n' = out n @ fst (serve_all cs d) \<and> content (ctx_handle ctx) w = snd (serve_all cs d)
    \<and> inp n' = [] \<and> link n'"
proof -
  let ?c = "\<lparr>cl_sock = sock, cl_state = TRANSMISSION, cl_ctx = Some k\<rparr>"
  let ?ctx2 = "ctx\<lparr>nc_state := ABORT\<rparr>"
  have i: "inp n = concat (map wire cs) @ disconnect fl h @ []" using assms(18) by simp
  obtain w n1 where n1: "transmission_phase cfg io (Some ctx) lw n = ret (0, Some ?ctx2, lw\<lparr>world := w\<rparr>, n1)"
    "out n1 = out n @ fst (serve_all cs d)" "content (ctx_handle ctx) w = snd (serve_all cs d)"
    "inp n1 = []" "link n1"
    using session_refines [OF assms(3-17) i] by blast
  obtain n2 where n2: "transmission_phase cfg io (Some ?ctx2) (lw\<lparr>world := w\<rparr>) n1
      = ret (- 1, Some ?ctx2, lw\<lparr>world := w\<rparr>, n2)" "out n2 = out n1" "inp n2 = []" "link n2"
    using stream_transport.transmission_at_end [OF assms(3) n1(5,4)] by blast
  define t where "t = \<lparr>ct_r = 0, ct_ctx = ctx, ct_client = ?c, ct_lw = lw, ct_net = n\<rparr>"
  define t1 where "t1 = \<lparr>ct_r = 0, ct_ctx = ?ctx2, ct_client = ?c, ct_lw = lw\<lparr>world := w\<rparr>, ct_net = n1\<rparr>"
  have "client_run cfg io t = client_run cfg io t1"
    by (rule client_turn) (use n1(1) in \<open>simp_all add: client_body_def t_def t1_def\<close>)
  also have "\<dots> = client_run cfg io
      \<lparr>ct_r = - 1, ct_ctx = ?ctx2, ct_client = ?c, ct_lw = lw\<lparr>world := w\<rparr>, ct_net = n2\<rparr>"
    by (rule client_turn) (use n2(1) in \<open>simp_all add: client_body_def t1_def\<close>)
  also have "\<dots> = ret (- 1, ?ctx2, ?c, lw\<lparr>world := w\<rparr>, n2)" by (simp add: client_stop)
  finally show ?thesis
    using assms(1,2) n1 n2
    by (intro exI [of _ w] exI [of _ n2]) (simp add: nbd_synchronous_client_thread_cb_def t_def)
qed

text \<open>
  With \<^verbatim>\<open>preinit\<close> the thread skips the handshake and serves the context of the server: on the stream
  of any list of legal commands and \<^verbatim>\<open>NBD_CMD_DISC\<close> it sends the replies of the abstract server.
  After the disconnection it waits for another request, and ends with \<open>-1\<close> when the peer has closed.
\<close>

theorem preinit_session:
  fixes lw :: "('c, 'w) lwnbd" and n :: 'n
  assumes "nc_preinit ctx \<noteq> 0" and "dflt lw = Some k"
    and "stream_transport io inp out link" and "block_device pread bs content ok pwrite flush"
    and "unat (nc_minimum_block_size ctx) = bs" and "0 < bs" and "bs \<le> MAX_REQUEST_SIZE cfg"
    and "plugin_of lw ctx = Inr p" and "pl_pread p = Some pread" and "pl_pwrite p = Some pwrite"
    and "pl_flush p = Some flush" and "nc_eflags ctx AND NBD_FLAG_READ_ONLY = 0"
    and "ok (ctx_handle ctx) (world lw)" and "link n"
    and "d = content (ctx_handle ctx) (world lw)" and "unat (ctx_exportsize ctx) = length d"
    and "\<forall>c \<in> set cs. legal bs (length d) c"
    and "inp n = concat (map wire cs) @ disconnect fl h"
  shows "\<exists>w n'. nbd_synchronous_client_thread_cb cfg io dflt ctx sock lw n
      = ret (- 1, ctx\<lparr>nc_state := ABORT\<rparr>, \<lparr>cl_sock = sock, cl_state = TRANSMISSION, cl_ctx = Some k\<rparr>,
             lw\<lparr>world := w\<rparr>, n')
    \<and> out n' = out n @ fst (serve_all cs d) \<and> content (ctx_handle ctx) w = snd (serve_all cs d)"
  using preinit_serves [where dflt = dflt and inp = inp and link = link and ok = ok and content = content, OF assms]
  by blast

definition demo_pre :: nbd_context where "demo_pre = demo_ctx\<lparr>nc_preinit := 1\<rparr>"

theorem preinit_session_witness:
  "\<exists>w n'. nbd_synchronous_client_thread_cb demo_cfg (tcp_transport sock_os) (\<lambda>_. Some 0) demo_pre 3
        (demo_lw demo_file ram_os) (demo_net (concat (map wire demo_commands) @ disconnect 0 5))
      = ret (- 1, demo_pre\<lparr>nc_state := ABORT\<rparr>, \<lparr>cl_sock = 3, cl_state = TRANSMISSION, cl_ctx = Some 0\<rparr>,
             (demo_lw demo_file ram_os)\<lparr>world := w\<rparr>, n')
    \<and> so_out n' = fst (serve_all demo_commands ''0123456789'')
    \<and> ram.data (Some 0) w = ''01wxyz6789''"
proof -
  let ?n = "demo_net (concat (map wire demo_commands) @ disconnect 0 5)"
  let ?d = "''0123456789''"
  have h: "ctx_handle demo_pre = Some 0" and e: "nc_eflags demo_pre AND NBD_FLAG_READ_ONLY = 0"
    and z: "unat (nc_minimum_block_size demo_pre) = 1" and sz: "unat (ctx_exportsize demo_pre) = length ?d"
    and pre: "nc_preinit demo_pre \<noteq> 0"
    by (simp_all add: demo_pre_def demo_ctx_def nbd_consts)
  have pl: "plugin_of (demo_lw demo_file ram_os) demo_pre = Inr (file_plugin ram_os)"
    using demo_plugin_of(1) by (simp add: demo_pre_def plugin_of_def)
  have leg: "\<forall>c \<in> set demo_commands. legal 1 (length ?d) c"
    by (simp add: demo_commands_def)
  have input: "so_in ?n = concat (map wire demo_commands) @ disconnect 0 5"
    and o0: "so_out ?n = []" by (simp_all add: demo_net_def)
  have sv: "snd (serve_all demo_commands ?d) = ''01wxyz6789''"
    by (simp add: demo_commands_def splice_def)
  have ok: "ram.usable (ctx_handle demo_pre) (world (demo_lw demo_file ram_os))"
    and dat: "?d = ram.data (ctx_handle demo_pre) (world (demo_lw demo_file ram_os))"
    using demo_file_usable h by (simp_all add: demo_plugin_of)
  note r = preinit_session [where dflt = "\<lambda>_. Some 0" and inp = so_in and out = so_out and sock = 3,
      OF pre refl sock.tcp.stream_transport_axioms ram.dev.block_device_axioms z demo_cfg_block(2,3)
        pl demo_plugin_of(2-4) e ok TrueI dat sz leg input]
  show ?thesis using r unfolding o0 h sv by force
qed

text \<open>
  \<^verbatim>\<open>nbdify_context\<close> sets the flags from the callbacks of the plugin: read-only exactly when it
  has no \<^verbatim>\<open>pwrite\<close>, flush exactly when it has \<^verbatim>\<open>flush\<close>, \<^verbatim>\<open>HAS_FLAGS\<close> always; the block sizes are
  those of its \<^verbatim>\<open>block_size\<close> callback or 512.  Nothing else of the context changes.
\<close>

theorem nbdify_flags:
  assumes "plugin_of s ctx = Inr p" and "nbdify_context s ctx = Inr ctx'"
  shows "(nc_eflags ctx' AND NBD_FLAG_READ_ONLY \<noteq> 0) = (pl_pwrite p = None)
    \<and> (nc_eflags ctx' AND NBD_FLAG_SEND_FLUSH \<noteq> 0) = (pl_flush p \<noteq> None)
    \<and> nc_eflags ctx' AND NBD_FLAG_HAS_FLAGS \<noteq> 0
    \<and> (pl_block_size p = None \<longrightarrow> nc_minimum_block_size ctx' = 512
         \<and> nc_preferred_block_size ctx' = 512 \<and> nc_maximum_block_size ctx' = 512)
    \<and> (\<forall>f r mi pr ma. pl_block_size p = Some f \<and> f (ctx_handle ctx) (world s) = Inr (r, mi, pr, ma) \<longrightarrow>
         nc_minimum_block_size ctx' = mi \<and> nc_preferred_block_size ctx' = pr \<and> nc_maximum_block_size ctx' = ma)
    \<and> lwnbd_context.truncate ctx' = lwnbd_context.truncate ctx \<and> nc_state ctx' = nc_state ctx"
proof -
  let ?e1 = "if pl_pwrite p = None then NBD_FLAG_HAS_FLAGS OR NBD_FLAG_READ_ONLY else NBD_FLAG_HAS_FLAGS"
  let ?e2 = "if pl_flush p \<noteq> None then ?e1 OR NBD_FLAG_SEND_FLUSH else ?e1"
  obtain r mi pr ma where b: "(case pl_block_size p of Some f \<Rightarrow> f (ctx_handle ctx) (world s)
       | None \<Rightarrow> Inr (0, 512, 512, 512)) = Inr (r, mi, pr, ma)"
    and c: "ctx' = ctx\<lparr>nc_eflags := ?e2, nc_minimum_block_size := mi,
                 nc_preferred_block_size := pr, nc_maximum_block_size := ma\<rparr>"
    using assms by (auto simp: nbdify_context_def Let_def bindr_Inr_iff)
  have e: "nc_eflags ctx' = ?e2" using c by simp
  have f: "(?e2 AND NBD_FLAG_READ_ONLY \<noteq> 0) = (pl_pwrite p = None)"
    "(?e2 AND NBD_FLAG_SEND_FLUSH \<noteq> 0) = (pl_flush p \<noteq> None)" "?e2 AND NBD_FLAG_HAS_FLAGS \<noteq> 0"
    by (cases "pl_pwrite p = None"; cases "pl_flush p = None"; simp add: nbd_consts)+
  show ?thesis
    unfolding e using f b c by (auto simp: lwnbd_context.defs)
qed

theorem nbdify_flags_witness:
  "\<exists>ctx'. nbdify_context disk_lw (disk_ctx\<lparr>ctx_p := Some 0\<rparr>) = Inr ctx'
     \<and> nc_eflags ctx' AND NBD_FLAG_READ_ONLY \<noteq> 0 \<and> nc_minimum_block_size ctx' = 512"
proof -
  let ?ctx = "disk_ctx\<lparr>ctx_p := Some 0\<rparr>"
  have p: "plugin_of disk_lw ?ctx = Inr disk_plugin" by (simp add: plugin_of_def disk_lw_def)
  have n: "pl_pwrite disk_plugin = None" "pl_block_size disk_plugin = None"
    by (simp_all add: disk_plugin_def null_plugin_def)
  obtain ctx' where r: "nbdify_context disk_lw ?ctx = Inr ctx'"
    using p n by (simp add: nbdify_context_def Let_def)
  show ?thesis using nbdify_flags [OF p r] r n by blast
qed

text \<open>
  While one of the three contexts of the server is free, \<^verbatim>\<open>nbd_new\<close> returns the first one and
  takes it.  When none is free it returns a pointer behind the array, and the first use of it, such
  as setting an option, is out of bounds.
\<close>

theorem nbd_new_correct:
  assumes "length (nb_handles st) = NBD_SERVER_MAX_DEVICES" and "length (nb_in_use st) = NBD_SERVER_MAX_DEVICES"
    and "nbd_new st = (h, st')"
  shows "if HANDLE_FREE \<in> set (nb_in_use st)
    then \<exists>i < NBD_SERVER_MAX_DEVICES. h = Some i \<and> nb_in_use st ! i = HANDLE_FREE
      \<and> (\<forall>j < i. nb_in_use st ! j = HANDLE_CREATED) \<and> nb_handles st' = nb_handles st
      \<and> nb_in_use st' = (nb_in_use st)[i := HANDLE_CREATED]
    else st' = st \<and> nbd_config_cb h ''preinit'' v st' = Inl Out_Of_Bounds"
proof -
  obtain i u where t: "take_handle (nb_in_use st) = (i, u)" by fastforce
  have r: "h = Some i" "st' = st\<lparr>nb_in_use := u\<rparr>" using assms(3) t by (auto simp: nbd_new_def)
  show ?thesis
  proof (cases "HANDLE_FREE \<in> set (nb_in_use st)")
    case True
    then show ?thesis using take_handle_first [OF t True] r assms(2) by auto
  next
    case False
    then show ?thesis using take_handle_full [OF t False] r assms(1,2)
      by (simp add: nbd_config_cb_def handle_at_def)
  qed
qed

theorem nbd_new_correct_witness:
  "nbd_new nbd_servers_init = (Some 0, nbd_servers_init\<lparr>nb_in_use := [HANDLE_CREATED, HANDLE_FREE, HANDLE_FREE]\<rparr>)
   \<and> (let st = nbd_servers_init\<lparr>nb_in_use := replicate 3 HANDLE_CREATED\<rparr>; (h, st') = nbd_new st
      in nbd_config_cb h ''preinit'' [] st' = Inl Out_Of_Bounds)"
proof
  obtain h st' where n: "nbd_new nbd_servers_init = (h, st')" by fastforce
  have i: "nb_in_use nbd_servers_init = [HANDLE_FREE, HANDLE_FREE, HANDLE_FREE]"
    "length (nb_handles nbd_servers_init) = NBD_SERVER_MAX_DEVICES"
    by (simp_all add: nbd_servers_init_def NBD_SERVER_MAX_DEVICES_def numeral_3_eq_3)
  have r: "\<exists>i<3. h = Some i \<and> (\<forall>j < i. nb_in_use nbd_servers_init ! j = HANDLE_CREATED)
      \<and> nb_handles st' = nb_handles nbd_servers_init
      \<and> nb_in_use st' = (nb_in_use nbd_servers_init)[i := HANDLE_CREATED]"
    using nbd_new_correct [OF i(2) _ n] i(1) by (auto simp: NBD_SERVER_MAX_DEVICES_def)
  then obtain k where k: "h = Some k" "\<forall>j < k. nb_in_use nbd_servers_init ! j = HANDLE_CREATED"
    "nb_handles st' = nb_handles nbd_servers_init"
    "nb_in_use st' = (nb_in_use nbd_servers_init)[k := HANDLE_CREATED]" by blast
  have "k = 0" using k(2) i(1) by (cases k) auto
  then show "nbd_new nbd_servers_init = (Some 0, nbd_servers_init\<lparr>nb_in_use := [HANDLE_CREATED, HANDLE_FREE, HANDLE_FREE]\<rparr>)"
    using n k i(1) by simp
next
  let ?st = "nbd_servers_init\<lparr>nb_in_use := replicate 3 HANDLE_CREATED\<rparr>"
  obtain h st' where n: "nbd_new ?st = (h, st')" by fastforce
  have l: "length (nb_handles ?st) = NBD_SERVER_MAX_DEVICES" "length (nb_in_use ?st) = NBD_SERVER_MAX_DEVICES"
    by (simp_all add: nbd_servers_init_def NBD_SERVER_MAX_DEVICES_def)
  show "let st = ?st; (h, st') = nbd_new st in nbd_config_cb h ''preinit'' [] st' = Inl Out_Of_Bounds"
    using nbd_new_correct [OF l n] n by (auto simp: Let_def)
qed

end
