(* ===== verification/Servers.thy ===== *)
theory Servers
  imports Contexts Tcp
begin

text \<open>
  The server registry and the event table, \<^verbatim>\<open>src/servers.c\<close> with the types of
  \<^verbatim>\<open>include/lwnbd/lwnbd.h\<close> and \<^verbatim>\<open>include/lwnbd/lwnbd-server.h\<close>.  A server is a table of callbacks over
  the state \<open>'w\<close> of the servers; \<open>'c\<close> is the type of its settings and \<open>'d\<close> of the client that
  \<^verbatim>\<open>run\<close> is given.  The file keeps two tables: the instances with their states, and the newer list of
  registered servers.
\<close>

section \<open>The code\<close>

datatype server_state = SRV_FREE | SRV_STOPPED | SRV_STARTED

record ('c, 'd, 'w) lwnbd_server =
  sv_struct_size :: u64
  sv_name :: string
  sv_new :: "('w \<Rightarrow> (handle \<times> 'w) result) option"
  sv_start :: "(handle \<Rightarrow> 'w \<Rightarrow> (int \<times> 'w) result) option"
  sv_stop :: "(handle \<Rightarrow> 'w \<Rightarrow> (int \<times> 'w) result) option"
  sv_config :: "(handle \<Rightarrow> string \<Rightarrow> string \<Rightarrow> 'w \<Rightarrow> (int \<times> 'w) result) option"
  sv_ctor :: "(handle \<Rightarrow> 'c \<Rightarrow> 'w \<Rightarrow> (int \<times> 'w) result) option"
  sv_run :: "(handle \<Rightarrow> 'd \<Rightarrow> 'w \<Rightarrow> (int \<times> 'w) run) option"
  sv_handler :: "(int \<Rightarrow> nat option \<Rightarrow> 'w \<Rightarrow> 'w result) option"
  sv_sync_recv_cb :: "(int \<Rightarrow> nat \<Rightarrow> int \<Rightarrow> 'w \<Rightarrow> (int \<times> byte list \<times> 'w) run) option"
  sv_sync_send_cb :: "(int \<Rightarrow> byte list \<Rightarrow> int \<Rightarrow> 'w \<Rightarrow> (int \<times> 'w) run) option"

record ('c, 'd, 'w) server_instance =
  si_handle :: handle
  si_s :: "('c, 'd, 'w) lwnbd_server option"

record ('c, 'd, 'w) server_table =
  servers :: "('c, 'd, 'w) server_instance list"
  servers_status :: "server_state list"
  server_count :: nat
  servers_bis :: "('c, 'd, 'w) lwnbd_server option list"
  srv_world :: 'w

definition servers_init :: "'w \<Rightarrow> ('c, 'd, 'w) server_table" where
  "servers_init w =
     \<lparr>servers = replicate MAX_NUM_SERVERS \<lparr>si_handle = None, si_s = None\<rparr>,
      servers_status = replicate MAX_NUM_SERVERS SRV_FREE, server_count = 0,
      servers_bis = replicate MAX_NUM_SERVERS None, srv_world = w\<rparr>"

subsection \<open>Registered servers\<close>

definition register_server ::
  "('c, 'd, 'w) lwnbd_server \<Rightarrow> ('c, 'd, 'w) server_table \<Rightarrow> int \<times> ('c, 'd, 'w) server_table" where
  "register_server srv s =
     (if MAX_NUM_SERVERS \<le> server_count s then (- 1, s)
      else (0, s\<lparr>servers_bis := (servers_bis s)[server_count s := Some srv],
                 server_count := Suc (server_count s)\<rparr>))"

definition serverbis_init :: "u64 \<Rightarrow> ('c, 'd, 'w) lwnbd_server \<Rightarrow> ('c, 'd, 'w) lwnbd_server" where
  "serverbis_init size_of srv = srv\<lparr>sv_struct_size := size_of\<rparr>"

text \<open>\<open>bis\<close> are the registered servers from index \<open>i\<close> on; the result is the index of the server.\<close>

fun find_server :: "('c, 'd, 'w) lwnbd_server option list \<Rightarrow> string \<Rightarrow> nat \<Rightarrow> nat option result" where
  "find_server [] name i = Inr None"
| "find_server (srv # bis) name i =
     bindr (deref srv) (\<lambda>p. if sv_name p = name then Inr (Some i) else find_server bis name (Suc i))"

definition get_server_by_name :: "string \<Rightarrow> ('c, 'd, 'w) server_table \<Rightarrow> nat option result" where
  "get_server_by_name name s = find_server (take (server_count s) (servers_bis s)) name 0"

text \<open>What \<^verbatim>\<open>lwnbd_servers_init\<close> registers depends on the configuration: \<open>srvs\<close> are those compiled in.\<close>

definition lwnbd_servers_init ::
  "(u64 \<times> ('c, 'd, 'w) lwnbd_server) list \<Rightarrow> ('c, 'd, 'w) server_table \<Rightarrow> int \<times> ('c, 'd, 'w) server_table" where
  "lwnbd_servers_init srvs s =
     (0, fold (\<lambda>(sz, srv) s. snd (register_server (serverbis_init sz srv) s)) srvs s)"

subsection \<open>Instances\<close>

text \<open>\<^verbatim>\<open>return -1\<close> from a function of type \<^verbatim>\<open>lwnbd_server_t\<close>, an unsigned 32-bit number.\<close>

definition server_err :: u32 where "server_err = 0xFFFFFFFF"

definition lwnbd_server_init ::
  "('c, 'd, 'w) lwnbd_server option \<Rightarrow> ('c, 'd, 'w) server_table \<Rightarrow> (u32 \<times> ('c, 'd, 'w) server_table) result" where
  "lwnbd_server_init init s =
     (let i = find_slot (\<lambda>st. st = SRV_FREE) (servers_status s)
      in if i = MAX_NUM_SERVERS then Inr (server_err, s)
         else (case init of
                 None \<Rightarrow> Inr (server_err, s)
               | Some p \<Rightarrow>
                   (case sv_new p of
                      None \<Rightarrow> Inr (server_err, s)
                    | Some new \<Rightarrow>
                        bindr (new (srv_world s)) (\<lambda>(h, w).
                        Inr (of_nat i, s\<lparr>servers := (servers s)[i := \<lparr>si_handle = h, si_s = Some p\<rparr>],
                               servers_status := (servers_status s)[i := SRV_STOPPED], srv_world := w\<rparr>)))))"

text \<open>\<^verbatim>\<open>si = &servers[handle]; s = si->s;\<close>: the handle is not checked, and \<open>s\<close> is dereferenced.\<close>

definition instance_at ::
  "u32 \<Rightarrow> ('c, 'd, 'w) server_table \<Rightarrow> (handle \<times> ('c, 'd, 'w) lwnbd_server) result" where
  "instance_at h s =
     (if unat h < MAX_NUM_SERVERS
      then bindr (deref (si_s (servers s ! unat h))) (\<lambda>p. Inr (si_handle (servers s ! unat h), p))
      else Inl Out_Of_Bounds)"

definition lwnbd_server_config ::
  "u32 \<Rightarrow> string \<Rightarrow> string \<Rightarrow> ('c, 'd, 'w) server_table \<Rightarrow> (int \<times> ('c, 'd, 'w) server_table) result" where
  "lwnbd_server_config h key value s =
     bindr (instance_at h s) (\<lambda>(hd, p).
     case sv_config p of
       None \<Rightarrow> Inr (- 1, s)
     | Some config \<Rightarrow>
         bindr (config hd key value (srv_world s)) (\<lambda>(r, w). Inr (r, s\<lparr>srv_world := w\<rparr>)))"

definition lwnbd_server_new ::
  "u32 \<Rightarrow> 'c \<Rightarrow> ('c, 'd, 'w) server_table \<Rightarrow> (int \<times> ('c, 'd, 'w) server_table) result" where
  "lwnbd_server_new h pconfig s =
     bindr (instance_at h s) (\<lambda>(hd, p).
     bindr (callp (sv_ctor p)) (\<lambda>ctor.
     bindr (ctor hd pconfig (srv_world s)) (\<lambda>(r, w). Inr (r, s\<lparr>srv_world := w\<rparr>))))"

definition lwnbd_server_dump :: "u32 \<Rightarrow> ('c, 'd, 'w) server_table \<Rightarrow> int result" where
  "lwnbd_server_dump h s = bindr (instance_at h s) (\<lambda>_. Inr 0)"

text \<open>\<^verbatim>\<open>st = SRV_STARTED\<close> assigns a local copy of the status.  \<open>s\<close> is dereferenced at the call.\<close>

definition lwnbd_server_run ::
  "u32 \<Rightarrow> 'd \<Rightarrow> ('c, 'd, 'w) server_table \<Rightarrow> ('c, 'd, 'w) server_table run" where
  "lwnbd_server_run h client s =
     (if \<not> unat h < MAX_NUM_SERVERS then Some (Inl Out_Of_Bounds)
      else if servers_status s ! unat h \<noteq> SRV_STOPPED then ret s
      else bindp (lift (instance_at h s)) (\<lambda>(hd, p).
           bindp (lift (callp (sv_run p))) (\<lambda>run.
           bindp (run hd client (srv_world s)) (\<lambda>(_, w). ret (s\<lparr>srv_world := w\<rparr>)))))"

definition lwnbd_server_stop ::
  "u32 \<Rightarrow> ('c, 'd, 'w) server_table \<Rightarrow> (int \<times> ('c, 'd, 'w) server_table) result" where
  "lwnbd_server_stop h s =
     bindr (instance_at h s) (\<lambda>(hd, p).
     bindr (callp (sv_stop p)) (\<lambda>stop.
     bindr (stop hd (srv_world s)) (\<lambda>(_, w).
     Inr (0, s\<lparr>servers_status := (servers_status s)[unat h := SRV_FREE], srv_world := w\<rparr>))))"

definition lwnbd_exit :: int where "lwnbd_exit = 0"

subsection \<open>The event table\<close>

definition MAXFD :: nat where "MAXFD = 1024"

text \<open>\<open>'cb\<close> are the callbacks, \<open>'u\<close> the user data they are given.\<close>

record ('cb, 'u) fd_state =
  want_read :: int
  want_write :: int
  on_read :: "'cb option"
  on_write :: "'cb option"
  userdata :: "'u option"
  last_activity :: int

type_synonym ('cb, 'u) fd_table = "('cb, 'u) fd_state list"

definition zero_fd :: "('cb, 'u) fd_state" where
  "zero_fd = \<lparr>want_read = 0, want_write = 0, on_read = None, on_write = None, userdata = None,
              last_activity = 0\<rparr>"

definition efds_init :: "('cb, 'u) fd_table" where "efds_init = replicate MAXFD zero_fd"

definition at_fd ::
  "int \<Rightarrow> (('cb, 'u) fd_state \<Rightarrow> ('cb, 'u) fd_state) \<Rightarrow> ('cb, 'u) fd_table \<Rightarrow> ('cb, 'u) fd_table result" where
  "at_fd fd f efds =
     (if 0 \<le> fd \<and> fd < int (length efds) then Inr (efds[nat fd := f (efds ! nat fd)]) else Inl Out_Of_Bounds)"

text \<open>\<open>now\<close> is the result of \<^verbatim>\<open>time(NULL)\<close>.\<close>

definition event_watch_readable ::
  "int \<Rightarrow> int \<Rightarrow> 'cb \<Rightarrow> 'u option \<Rightarrow> ('cb, 'u) fd_table \<Rightarrow> ('cb, 'u) fd_table result" where
  "event_watch_readable now fd cb user =
     at_fd fd (\<lambda>e. e\<lparr>want_read := 1, on_read := Some cb, userdata := user, last_activity := now\<rparr>)"

definition event_watch_writable ::
  "int \<Rightarrow> int \<Rightarrow> 'cb \<Rightarrow> 'u option \<Rightarrow> ('cb, 'u) fd_table \<Rightarrow> ('cb, 'u) fd_table result" where
  "event_watch_writable now fd cb user =
     at_fd fd (\<lambda>e. e\<lparr>want_write := 1, on_write := Some cb, userdata := user, last_activity := now\<rparr>)"

definition event_remove :: "int \<Rightarrow> ('cb, 'u) fd_table \<Rightarrow> ('cb, 'u) fd_table result" where
  "event_remove fd =
     at_fd fd (\<lambda>e. e\<lparr>want_read := 0, want_write := 0, on_read := None, on_write := None,
                     userdata := None, last_activity := 0\<rparr>)"

section \<open>Well-formed tables and the instances as a slot table\<close>

definition wf_servers :: "('c, 'd, 'w) server_table \<Rightarrow> bool" where
  "wf_servers s \<longleftrightarrow> length (servers s) = MAX_NUM_SERVERS \<and> length (servers_status s) = MAX_NUM_SERVERS
     \<and> length (servers_bis s) = MAX_NUM_SERVERS \<and> server_count s \<le> MAX_NUM_SERVERS
     \<and> (\<forall>i < server_count s. servers_bis s ! i \<noteq> None)
     \<and> (\<forall>i < MAX_NUM_SERVERS. servers_status s ! i \<noteq> SRV_FREE \<longrightarrow>
          (\<exists>p. si_s (servers s ! i) = Some p \<and> sv_new p \<noteq> None))
     \<and> (\<forall>i < MAX_NUM_SERVERS. servers_status s ! i \<noteq> SRV_STARTED)"

lemma wf_servers_init: "wf_servers (servers_init w)"
  by (simp add: wf_servers_def servers_init_def)

lemma wf_servers_world [simp]: "wf_servers (s\<lparr>srv_world := w\<rparr>) = wf_servers s"
  by (simp add: wf_servers_def)

lemma update_at:
  "i < MAX_NUM_SERVERS \<Longrightarrow> length xs = MAX_NUM_SERVERS \<Longrightarrow> xs[k := v] ! i = (if i = k then v else xs ! i)"
  by (cases "i = k") simp_all

definition server_slot :: "server_state list \<Rightarrow> nat option \<times> server_state list" where
  "server_slot st =
     (let i = find_slot (\<lambda>x. x = SRV_FREE) st
      in if i = length st then (None, st) else (Some i, st[i := SRV_STOPPED]))"

interpretation srvpool: slot_pool MAX_NUM_SERVERS "\<lambda>st i. st ! i = SRV_FREE"
  "\<lambda>st. length st = MAX_NUM_SERVERS" server_slot
  unfolding server_slot_def by (rule slot_pool_list) simp

lemma register_server_wf: "wf_servers s \<Longrightarrow> wf_servers (snd (register_server srv s))"
  by (auto simp: wf_servers_def register_server_def nth_list_update less_Suc_eq)

lemma server_init_wf:
  assumes "wf_servers s" and "lwnbd_server_init init s = Inr (h, s')"
  shows "wf_servers s'"
proof (cases "s' = s")
  case False
  let ?i = "find_slot (\<lambda>st. st = SRV_FREE) (servers_status s)"
  obtain p new hd w where p: "init = Some p" "sv_new p = Some new"
    and s': "s' = s\<lparr>servers := (servers s)[?i := \<lparr>si_handle = hd, si_s = Some p\<rparr>],
                    servers_status := (servers_status s)[?i := SRV_STOPPED], srv_world := w\<rparr>"
    using assms(2) False
    by (auto simp: lwnbd_server_init_def Let_def bindr_Inr_iff split: if_splits option.splits)
  show ?thesis
    using assms(1) p unfolding s' by (auto simp: wf_servers_def update_at)
qed (use assms in simp)

lemma server_stop_wf:
  assumes "wf_servers s" and "lwnbd_server_stop h s = Inr (r, s')"
  shows "wf_servers s'"
  using assms
  by (auto simp: lwnbd_server_stop_def bindr_Inr_iff wf_servers_def update_at split: prod.splits if_splits)

section \<open>Sequences of calls\<close>

text \<open>The calls an application makes on the servers, each of them returning.\<close>

inductive server_call ::
  "('c, 'd, 'w) server_table \<Rightarrow> ('c, 'd, 'w) server_table \<Rightarrow> bool" where
  init: "lwnbd_server_init srv s = Inr (h, s') \<Longrightarrow> server_call s s'"
| register: "register_server p s = (r, s') \<Longrightarrow> server_call s s'"
| config: "lwnbd_server_config h key value s = Inr (r, s') \<Longrightarrow> server_call s s'"
| new: "lwnbd_server_new h pconfig s = Inr (r, s') \<Longrightarrow> server_call s s'"
| run: "lwnbd_server_run h client s = ret s' \<Longrightarrow> server_call s s'"
| stop: "lwnbd_server_stop h s = Inr (r, s') \<Longrightarrow> server_call s s'"

inductive_cases server_callE: "server_call s s'"

lemma server_call_wf:
  assumes "server_call s s'" and "wf_servers s"
  shows "wf_servers s'"
  using assms
proof (induction rule: server_call.induct)
  case (init srv s h s')
  show ?case by (rule server_init_wf [OF init(2,1)])
next
  case (register p s r s')
  then show ?case using register_server_wf [of s p] by simp
next
  case (config h key v s r s')
  then obtain w where "s' = s \<or> s' = s\<lparr>srv_world := w\<rparr>"
    by (auto simp: lwnbd_server_config_def bindr_Inr_iff split: option.splits)
  then show ?case using config.prems by auto
next
  case (new h pconfig s r s')
  then obtain w where "s' = s\<lparr>srv_world := w\<rparr>"
    by (auto simp: lwnbd_server_new_def bindr_Inr_iff)
  then show ?case using new.prems by simp
next
  case (run h client s s')
  then obtain w where "s' = s \<or> s' = s\<lparr>srv_world := w\<rparr>"
    by (auto simp: lwnbd_server_run_def bindp_ret_iff split: if_splits prod.splits)
  then show ?case using run.prems by auto
next
  case (stop h s r s')
  show ?case by (rule server_stop_wf [OF stop(2,1)])
qed

lemma server_calls_wf: "server_call\<^sup>*\<^sup>* s s' \<Longrightarrow> wf_servers s \<Longrightarrow> wf_servers s'"
  by (induction rule: rtranclp_induct) (auto intro: server_call_wf)

section \<open>Properties of the registry\<close>

text \<open>
  \<^verbatim>\<open>lwnbd_server_init\<close>, when it returns, either takes the first free instance, stores the server
  and the handle its \<^verbatim>\<open>new\<close> gave, marks it stopped and returns its index; or it returns \<^verbatim>\<open>-1\<close> and
  changes nothing, and then both instances are in use, or the server is NULL or has no \<^verbatim>\<open>new\<close>.
\<close>

theorem server_init_correct:
  assumes "wf_servers s" and "lwnbd_server_init init s = Inr (h, s')"
  shows "(h = server_err \<and> s' = s
      \<and> ((\<forall>i < MAX_NUM_SERVERS. servers_status s ! i \<noteq> SRV_FREE) \<or> init = None \<or> sv_new (the init) = None))
    \<or> (\<exists>i p new hd w. h = of_nat i \<and> i < MAX_NUM_SERVERS \<and> servers_status s ! i = SRV_FREE
        \<and> (\<forall>j < i. servers_status s ! j \<noteq> SRV_FREE) \<and> init = Some p \<and> sv_new p = Some new
        \<and> new (srv_world s) = Inr (hd, w)
        \<and> s' = s\<lparr>servers := (servers s)[i := \<lparr>si_handle = hd, si_s = Some p\<rparr>],
                 servers_status := (servers_status s)[i := SRV_STOPPED], srv_world := w\<rparr>)"
proof -
  let ?f = "\<lambda>st. st = SRV_FREE" and ?st = "servers_status s"
  let ?i = "find_slot ?f ?st"
  have len: "length ?st = MAX_NUM_SERVERS" using assms(1) by (simp add: wf_servers_def)
  show ?thesis
  proof (cases "?i = MAX_NUM_SERVERS")
    case True
    then have "\<forall>i < MAX_NUM_SERVERS. ?st ! i \<noteq> SRV_FREE" using find_slot_full [of ?f ?st] len by simp
    then show ?thesis using assms(2) True by (simp add: lwnbd_server_init_def Let_def)
  next
    case False
    then have i: "?i < length ?st" using find_slot_le [of ?f ?st] len by simp
    note free = find_slot_free [OF i] and before = find_slot_before [of _ ?f ?st]
    show ?thesis
    proof (cases "init = None \<or> sv_new (the init) = None")
      case True
      then show ?thesis using assms(2) False by (auto simp: lwnbd_server_init_def Let_def split: option.splits)
    next
      case True': False
      then obtain p new where p: "init = Some p" "sv_new p = Some new" by auto
      obtain hd w where w: "new (srv_world s) = Inr (hd, w)" "h = of_nat ?i"
        "s' = s\<lparr>servers := (servers s)[?i := \<lparr>si_handle = hd, si_s = Some p\<rparr>],
                servers_status := ?st[?i := SRV_STOPPED], srv_world := w\<rparr>"
        using assms(2) False p by (auto simp: lwnbd_server_init_def Let_def bindr_Inr_iff)
      show ?thesis
        by (intro disjI2 exI [of _ ?i] exI [of _ p] exI [of _ new] exI [of _ hd] exI [of _ w])
          (use i len free before p w in auto)
    qed
  qed
qed

definition null_server :: "('c, 'd, 'w) lwnbd_server" where
  "null_server = \<lparr>sv_struct_size = 0, sv_name = [], sv_new = None, sv_start = None, sv_stop = None,
     sv_config = None, sv_ctor = None, sv_run = None, sv_handler = None, sv_sync_recv_cb = None,
     sv_sync_send_cb = None\<rparr>"

definition demo_server :: "(unit, unit, nat) lwnbd_server" where
  "demo_server = null_server\<lparr>sv_name := ''demo'', sv_new := Some (\<lambda>w. Inr (Some 0, w)),
     sv_run := Some (\<lambda>h d w. ret (0, Suc w)), sv_stop := Some (\<lambda>h w. Inr (0, w))\<rparr>"

definition demo_table :: "(unit, unit, nat) server_table" where
  "demo_table = \<lparr>servers = [\<lparr>si_handle = Some 0, si_s = Some demo_server\<rparr>, \<lparr>si_handle = None, si_s = None\<rparr>],
     servers_status = [SRV_STOPPED, SRV_FREE], server_count = 0, servers_bis = [None, None], srv_world = 0\<rparr>"

lemma demo_server_init: "lwnbd_server_init (Some demo_server) (servers_init 0) = Inr (0, demo_table)"
  by (simp add: lwnbd_server_init_def servers_init_def demo_table_def demo_server_def null_server_def
      find_slot_def MAX_NUM_SERVERS_def numeral_2_eq_2)

theorem server_init_correct_witness:
  "lwnbd_server_init (Some demo_server) (servers_init 0) = Inr (0, demo_table)
   \<and> (\<exists>i < MAX_NUM_SERVERS. servers_status (servers_init (0 :: nat) :: (unit, unit, nat) server_table) ! i = SRV_FREE
        \<and> servers_status demo_table ! i = SRV_STOPPED)"
proof -
  let ?s = "servers_init 0 :: (unit, unit, nat) server_table"
  have ne: "(0 :: u32) \<noteq> server_err" by (simp add: server_err_def)
  obtain i p hd w where i: "i < MAX_NUM_SERVERS" "servers_status ?s ! i = SRV_FREE"
    "demo_table = ?s\<lparr>servers := (servers ?s)[i := \<lparr>si_handle = hd, si_s = Some p\<rparr>],
                 servers_status := (servers_status ?s)[i := SRV_STOPPED], srv_world := w\<rparr>"
    using server_init_correct [OF wf_servers_init demo_server_init] ne by blast
  have "servers_status demo_table = (servers_status ?s)[i := SRV_STOPPED]" unfolding i(3) by simp
  then have "servers_status demo_table ! i = SRV_STOPPED" using i(1) by (simp add: servers_init_def)
  then show ?thesis using i demo_server_init by blast
qed

text \<open>
  C26.  Whatever calls an application makes, no instance ever becomes \<open>SRV_STARTED\<close>: the status that
  \<^verbatim>\<open>lwnbd_server_run\<close> sets is a local copy.  So a server in use is always stopped as far as the table
  knows, and running it again while it runs is not refused.
\<close>

theorem never_started:
  assumes "server_call\<^sup>*\<^sup>* (servers_init w) s"
  shows "\<forall>i < MAX_NUM_SERVERS. servers_status s ! i \<noteq> SRV_STARTED
    \<and> (servers_status s ! i \<noteq> SRV_FREE \<longrightarrow> (\<exists>p. si_s (servers s ! i) = Some p \<and> sv_new p \<noteq> None))"
  using server_calls_wf [OF assms wf_servers_init] by (simp add: wf_servers_def)

lemma demo_run:
  "lwnbd_server_run 0 () (demo_table\<lparr>srv_world := n\<rparr>) = ret (demo_table\<lparr>srv_world := Suc n\<rparr>)"
  by (simp add: lwnbd_server_run_def demo_table_def MAX_NUM_SERVERS_def instance_at_def demo_server_def)

theorem never_started_witness:
  "\<exists>s :: (unit, unit, nat) server_table. server_call\<^sup>*\<^sup>* (servers_init 0) s \<and> srv_world s = 2
     \<and> servers_status s ! 1 \<noteq> SRV_STARTED"
proof -
  let ?t = "\<lambda>n. demo_table\<lparr>srv_world := n\<rparr>"
  have "demo_table = ?t 0" by (simp add: demo_table_def)
  then have "server_call (servers_init 0) (?t 0)" using server_call.init [OF demo_server_init] by simp
  moreover have "server_call (?t 0) (?t 1)" "server_call (?t 1) (?t 2)"
    using server_call.run [OF demo_run [of 0]] server_call.run [OF demo_run [of 1]]
    by (simp_all add: numeral_2_eq_2)
  ultimately have c: "server_call\<^sup>*\<^sup>* (servers_init 0) (?t 2)"
    by (blast intro: rtranclp.rtrancl_into_rtrancl rtranclp.rtrancl_refl)
  have "servers_status (?t 2) ! 1 \<noteq> SRV_STARTED"
    using never_started [OF c] by (simp add: MAX_NUM_SERVERS_def)
  then show ?thesis using c by (intro exI [of _ "?t 2"]) simp
qed

text \<open>\<open>reg\<close> are the registered servers in order.\<close>

definition registered :: "('c, 'd, 'w) server_table \<Rightarrow> ('c, 'd, 'w) lwnbd_server list" where
  "registered s = map the (take (server_count s) (servers_bis s))"

lemma find_server_spec:
  assumes "\<forall>x \<in> set bis. x \<noteq> None"
  shows "find_server bis name i =
    Inr (if \<exists>p \<in> set (map the bis). sv_name p = name
         then Some (i + length (takeWhile (\<lambda>p. sv_name p \<noteq> name) (map the bis))) else None)"
  using assms by (induction bis arbitrary: i) auto

text \<open>
  \<^verbatim>\<open>register_server\<close> appends to the list of servers until it holds two, and then refuses with
  \<^verbatim>\<open>-1\<close>; \<^verbatim>\<open>get_server_by_name\<close> finds the first server in it with exactly that name, and NULL when
  there is none.
\<close>

theorem registry_correct:
  assumes "wf_servers s"
  shows "register_server p s =
      (if length (registered s) < MAX_NUM_SERVERS
       then (0, s\<lparr>servers_bis := (servers_bis s)[length (registered s) := Some p],
                  server_count := Suc (server_count s)\<rparr>) else (- 1, s))
    \<and> registered (snd (register_server p s))
        = (if length (registered s) < MAX_NUM_SERVERS then registered s @ [p] else registered s)
    \<and> get_server_by_name name s =
        Inr (if \<exists>q \<in> set (registered s). sv_name q = name
             then Some (length (takeWhile (\<lambda>q. sv_name q \<noteq> name) (registered s))) else None)"
proof -
  have l: "length (registered s) = server_count s" "length (servers_bis s) = MAX_NUM_SERVERS"
    using assms by (simp_all add: wf_servers_def registered_def min_def)
  have "\<forall>x \<in> set (take (server_count s) (servers_bis s)). x \<noteq> None"
    using assms by (auto simp: wf_servers_def in_set_conv_nth)
  note f = find_server_spec [OF this, of name 0]
  have "registered (snd (register_server p s))
        = (if length (registered s) < MAX_NUM_SERVERS then registered s @ [p] else registered s)"
    using l by (auto simp: register_server_def registered_def take_Suc_conv_app_nth)
  then show ?thesis using l f by (auto simp: register_server_def get_server_by_name_def registered_def)
qed

theorem registry_correct_witness:
  "\<exists>s :: (unit, unit, nat) server_table. registered s = [demo_server] \<and> get_server_by_name ''demo'' s = Inr (Some 0)
     \<and> get_server_by_name ''none'' s = Inr None"
proof -
  let ?i = "servers_init 0 :: (unit, unit, nat) server_table"
  let ?s = "snd (register_server demo_server ?i)"
  have e: "registered ?i = []" by (simp add: registered_def servers_init_def)
  have r: "registered ?s = [demo_server]"
    using conjunct1 [OF conjunct2 [OF registry_correct [OF wf_servers_init, of demo_server 0]]] e
    by (simp add: MAX_NUM_SERVERS_def)
  have wf: "wf_servers ?s" by (rule register_server_wf [OF wf_servers_init])
  have n: "sv_name demo_server = ''demo''" by (simp add: demo_server_def)
  have "get_server_by_name nm ?s = Inr (if nm = ''demo'' then Some 0 else None)" for nm
    using registry_correct [OF wf, of demo_server nm] r n by auto
  then show ?thesis using r by (intro exI [of _ ?s]) simp
qed

end
