(* ===== verification/Services.thy ===== *)
theory Services
  imports Servers
begin

text \<open>
  The small servers: the character generator \<^verbatim>\<open>servers/chargen.c\<close>, the time of day
  \<^verbatim>\<open>servers/daytime.c\<close> and the PlayStation 2 RPC server \<^verbatim>\<open>servers/sifrpc/sifrpc.c\<close>.  The C library
  and the threads of the IOP are parameters.  \<^verbatim>\<open>lwnbd.h\<close> declares \<^verbatim>\<open>efds\<close> as \<^verbatim>\<open>static\<close>, so
  \<^verbatim>\<open>chargen.c\<close> has an event table of its own beside the one of \<^verbatim>\<open>servers.c\<close>; the model keeps both.
\<close>

section \<open>Character generator\<close>

definition chargen_line :: string where
  "chargen_line = map char_of [33..<127] @ [CHR 0x0A]"

text \<open>\<open>cg_ptr\<close> is the offset of \<^verbatim>\<open>ptr\<close> in \<^verbatim>\<open>chargen_line\<close>.\<close>

record chargen_state =
  cg_ptr :: nat
  cg_len :: nat

datatype service_cb = Chargen_On_Writable

text \<open>The C library: the result of \<^verbatim>\<open>write\<close>, of \<^verbatim>\<open>malloc\<close> (an address, or NULL) and of \<^verbatim>\<open>time\<close>.\<close>

record 'n libc =
  lc_write :: "int \<Rightarrow> byte list \<Rightarrow> 'n \<Rightarrow> int \<times> 'n"
  lc_close :: "int \<Rightarrow> 'n \<Rightarrow> int \<times> 'n"
  lc_malloc :: "'n \<Rightarrow> nat option \<times> 'n"
  lc_time :: "'n \<Rightarrow> int"
  lc_ctime :: "int \<Rightarrow> string"

record 'n chargen =
  cg_heap :: "nat \<Rightarrow> chargen_state option"
  cg_efds :: "(service_cb, nat) fd_table"
  cg_own_efds :: "(service_cb, nat) fd_table"
  cg_os :: 'n

definition chargen_on_writable ::
  "'n libc \<Rightarrow> int \<Rightarrow> nat option \<Rightarrow> 'n chargen \<Rightarrow> 'n chargen result" where
  "chargen_on_writable os fd user s =
     bindr (deref user) (\<lambda>a.
     bindr (deref (cg_heap s a)) (\<lambda>st.
     bindr (mem_read (cg_ptr st) (cg_len st) chargen_line) (\<lambda>d.
     let (n, w) = lc_write os fd d (cg_os s)
     in if n \<le> 0 then
          (let (_, w) = lc_close os fd w
           in bindr (event_remove fd (cg_efds s)) (\<lambda>efds.
              Inr (s\<lparr>cg_heap := (cg_heap s)(a := None), cg_efds := efds, cg_os := w\<rparr>)))
        else
          (let st' = (if nat n < cg_len st
                      then st\<lparr>cg_ptr := cg_ptr st + nat n, cg_len := cg_len st - nat n\<rparr>
                      else st\<lparr>cg_ptr := 0, cg_len := length chargen_line\<rparr>);
               now = lc_time os w
           in bindr (at_fd fd (\<lambda>e. e\<lparr>last_activity := now\<rparr>) (cg_own_efds s)) (\<lambda>own.
              bindr (event_watch_writable now fd Chargen_On_Writable (Some a) (cg_efds s)) (\<lambda>efds.
              Inr (s\<lparr>cg_heap := (cg_heap s)(a := Some st'), cg_efds := efds, cg_own_efds := own, cg_os := w\<rparr>)))))))"

definition service_chargen_new :: "'n libc \<Rightarrow> int \<Rightarrow> 'n chargen \<Rightarrow> 'n chargen result" where
  "service_chargen_new os fd s =
     (let (p, w) = lc_malloc os (cg_os s)
      in bindr (deref p) (\<lambda>a.
         bindr (event_watch_writable (lc_time os w) fd Chargen_On_Writable (Some a) (cg_efds s)) (\<lambda>efds.
         Inr (s\<lparr>cg_heap := (cg_heap s)(a := Some \<lparr>cg_ptr = 0, cg_len = length chargen_line\<rparr>),
                cg_efds := efds, cg_os := w\<rparr>))))"

section \<open>Time of day\<close>

definition daytime_handler :: "'n libc \<Rightarrow> int \<Rightarrow> nat option \<Rightarrow> 'n \<Rightarrow> 'n result" where
  "daytime_handler os fd ctx w =
     (let now = lc_time os w; time_str = lc_ctime os now in Inr (snd (lc_write os fd time_str w)))"

definition daytime_server :: "'n libc \<Rightarrow> ('c, 'd, 'n) lwnbd_server" where
  "daytime_server os = null_server\<lparr>sv_name := ''daytime'', sv_handler := Some (daytime_handler os)\<rparr>"

section \<open>RPC over the SIF\<close>

text \<open>\<open>'h\<close> are the RPC handlers; the threads and the RPC loop of the IOP kernel are parameters.\<close>

record 'h sifrpc_handler =
  sh_sid :: int
  sh_handler :: 'h

record 'h sifrpc_server =
  ss_sid :: int
  ss_handler :: "'h option"
  ss_RpcThreadID :: int

record ('h, 'n) iop_kernel =
  k_CreateThread :: "int \<Rightarrow> nat \<Rightarrow> 'n \<Rightarrow> int \<times> 'n"
  k_StartThread :: "int \<Rightarrow> handle \<Rightarrow> 'n \<Rightarrow> int \<times> 'n"
  k_TerminateThread :: "int \<Rightarrow> 'n \<Rightarrow> int \<times> 'n"
  k_DeleteThread :: "int \<Rightarrow> 'n \<Rightarrow> int \<times> 'n"
  k_GetThreadId :: "'n \<Rightarrow> int"
  k_SifInitRpc :: "int \<Rightarrow> 'n \<Rightarrow> 'n"
  k_SifSetRpcQueue :: "int \<Rightarrow> 'n \<Rightarrow> 'n"
  k_SifRegisterRpc :: "int \<Rightarrow> 'h option \<Rightarrow> 'n \<Rightarrow> 'n"
  k_SifRpcLoop :: "'n \<Rightarrow> 'n run"

text \<open>A handle is NULL or the address of the one static server.\<close>

record ('h, 'n) sifrpc =
  sf_server :: "'h sifrpc_server"
  sf_os :: 'n

definition sifrpc_ctor ::
  "handle \<Rightarrow> 'h sifrpc_handler option \<Rightarrow> ('h, 'n) sifrpc \<Rightarrow> (int \<times> ('h, 'n) sifrpc) result" where
  "sifrpc_ctor handle pconfig s =
     bindr (deref pconfig) (\<lambda>conf.
     bindr (deref handle) (\<lambda>_.
     Inr (0, s\<lparr>sf_server := (sf_server s)\<lparr>ss_sid := sh_sid conf, ss_handler := Some (sh_handler conf)\<rparr>\<rparr>)))"

definition sifrpc_thread :: "('h, 'n) iop_kernel \<Rightarrow> handle \<Rightarrow> ('h, 'n) sifrpc \<Rightarrow> ('h, 'n) sifrpc run" where
  "sifrpc_thread os handle s =
     bindp (lift (deref handle)) (\<lambda>_.
     let h = sf_server s;
         w1 = k_SifInitRpc os 0 (sf_os s);
         w2 = k_SifSetRpcQueue os (k_GetThreadId os w1) w1;
         w3 = k_SifRegisterRpc os (ss_sid h) (ss_handler h) w2
     in bindp (k_SifRpcLoop os w3) (\<lambda>w. ret (s\<lparr>sf_os := w\<rparr>)))"

definition sifrpc_start ::
  "('h, 'n) iop_kernel \<Rightarrow> handle \<Rightarrow> ('h, 'n) sifrpc \<Rightarrow> (int \<times> ('h, 'n) sifrpc) result" where
  "sifrpc_start os handle s =
     bindr (deref handle) (\<lambda>_.
     let (tid, w1) = k_CreateThread os 0x20 0x800 (sf_os s);
         s1 = s\<lparr>sf_server := (sf_server s)\<lparr>ss_RpcThreadID := tid\<rparr>, sf_os := w1\<rparr>
     in if 0 < tid then Inr (0, s1\<lparr>sf_os := snd (k_StartThread os tid handle w1)\<rparr>) else Inr (tid, s1))"

definition sifrpc_stop ::
  "('h, 'n) iop_kernel \<Rightarrow> handle \<Rightarrow> ('h, 'n) sifrpc \<Rightarrow> (int \<times> ('h, 'n) sifrpc) result" where
  "sifrpc_stop os handle s =
     bindr (deref handle) (\<lambda>_.
     let tid = ss_RpcThreadID (sf_server s);
         (_, w1) = k_TerminateThread os tid (sf_os s);
         (_, w2) = k_DeleteThread os tid w1
     in Inr (0, s\<lparr>sf_os := w2\<rparr>))"

definition sifrpc_server_callbacks :: "('h, 'n) iop_kernel \<Rightarrow> ('h sifrpc_handler option, unit, ('h, 'n) sifrpc) lwnbd_server" where
  "sifrpc_server_callbacks os =
     null_server\<lparr>sv_name := ''sifrpc'', sv_start := Some (sifrpc_start os),
                 sv_stop := Some (sifrpc_stop os), sv_ctor := Some sifrpc_ctor\<rparr>"

section \<open>The stream of the character generator\<close>

lemma length_chargen_line: "length chargen_line = 95"
  by (simp add: chargen_line_def)

text \<open>What \<^verbatim>\<open>write\<close> is documented to do: it takes some of the bytes, or fails and takes none.\<close>

locale byte_sink =
  fixes os :: "'n libc" and sunk :: "'n \<Rightarrow> byte list"
  assumes write_some: "lc_write os fd d w = (n, w') \<Longrightarrow> 0 < n \<Longrightarrow>
      nat n \<le> length d \<and> sunk w' = sunk w @ take (nat n) d"
    and write_none: "lc_write os fd d w = (n, w') \<Longrightarrow> n \<le> 0 \<Longrightarrow> sunk w' = sunk w"
    and close_none: "lc_close os fd w = (n, w') \<Longrightarrow> sunk w' = sunk w"
    and malloc_none: "lc_malloc os w = (p, w') \<Longrightarrow> sunk w' = sunk w"
begin

text \<open>The bytes sent so far are whole lines and the part of the next one before \<^verbatim>\<open>ptr\<close>.\<close>

definition generated :: "byte list \<Rightarrow> nat \<Rightarrow> 'n chargen \<Rightarrow> bool" where
  "generated b a s \<longleftrightarrow> (\<exists>k j. sunk (cg_os s) = b @ concat (replicate k chargen_line) @ take j chargen_line
     \<and> (\<forall>st. cg_heap s a = Some st \<longrightarrow> cg_ptr st = j \<and> j + cg_len st = length chargen_line \<and> 0 < cg_len st))"

lemma line_step: "concat (replicate k l) @ l = concat (replicate (Suc k) l)"
  by (induction k) simp_all

lemma writable_step:
  assumes "generated b a s" and "chargen_on_writable os fd (Some a) s = Inr s'"
  shows "generated b a s'"
proof -
  obtain st where st: "cg_heap s a = Some st"
    using assms(2) by (cases "cg_heap s a") (simp_all add: chargen_on_writable_def)
  obtain k where g: "sunk (cg_os s) = b @ concat (replicate k chargen_line) @ take (cg_ptr st) chargen_line"
    and len: "cg_ptr st + cg_len st = length chargen_line" "0 < cg_len st"
    using assms(1) st by (auto simp: generated_def)
  let ?d = "drop (cg_ptr st) chargen_line"
  have d: "mem_read (cg_ptr st) (cg_len st) chargen_line = Inr ?d"
    using len by (simp add: mem_read_def)
  obtain n w where w: "lc_write os fd ?d (cg_os s) = (n, w)" by fastforce
  show ?thesis
  proof (cases "n \<le> 0")
    case True
    obtain r w' where c: "lc_close os fd w = (r, w')" by fastforce
    have "cg_heap s' a = None \<and> cg_os s' = w'"
      using assms(2) st d w c True by (auto simp: chargen_on_writable_def bindr_Inr_iff)
    moreover have "sunk w' = sunk (cg_os s)" using write_none [OF w True] close_none [OF c] by simp
    ultimately show ?thesis using g by (auto simp: generated_def)
  next
    case False
    then have n: "nat n \<le> length ?d" "sunk w = sunk (cg_os s) @ take (nat n) ?d" "0 < nat n"
      using write_some [OF w] by simp_all
    let ?st' = "if nat n < cg_len st
                then st\<lparr>cg_ptr := cg_ptr st + nat n, cg_len := cg_len st - nat n\<rparr>
                else st\<lparr>cg_ptr := 0, cg_len := length chargen_line\<rparr>"
    have s': "cg_heap s' a = Some ?st'" "cg_os s' = w"
      using assms(2) st d w False by (auto simp: chargen_on_writable_def bindr_Inr_iff Let_def)
    show ?thesis
    proof (cases "nat n < cg_len st")
      case True
      have "take (cg_ptr st + nat n) chargen_line = take (cg_ptr st) chargen_line @ take (nat n) ?d"
        by (rule take_add)
      then have "sunk w = b @ concat (replicate k chargen_line) @ take (cg_ptr st + nat n) chargen_line"
        using n(2) g by simp
      then show ?thesis using s' True len by (auto simp: generated_def intro!: exI [of _ k])
    next
      case False
      then have "take (nat n) ?d = ?d" using len by simp
      then have "sunk w = b @ (concat (replicate k chargen_line) @ chargen_line)"
        using n(2) g by simp
      then have "sunk w = b @ concat (replicate (Suc k) chargen_line) @ take 0 chargen_line"
        by (simp only: line_step take_0 append_Nil2)
      then have "sunk (cg_os s') = b @ concat (replicate (Suc k) chargen_line) @ take 0 chargen_line"
        using s'(2) by simp
      moreover have "\<forall>st. cg_heap s' a = Some st \<longrightarrow>
          cg_ptr st = 0 \<and> 0 + cg_len st = length chargen_line \<and> 0 < cg_len st"
        using s'(1) False length_chargen_line by simp
      ultimately show ?thesis unfolding generated_def by blast
    qed
  qed
qed

lemma new_generated:
  assumes "service_chargen_new os fd s = Inr s'"
  obtains a where "cg_heap s' a = Some \<lparr>cg_ptr = 0, cg_len = length chargen_line\<rparr>"
    and "generated (sunk (cg_os s)) a s'"
proof -
  obtain p w where m: "lc_malloc os (cg_os s) = (p, w)" by fastforce
  obtain a where a: "p = Some a" using assms m by (cases p) (simp_all add: service_chargen_new_def)
  have h: "cg_heap s' a = Some \<lparr>cg_ptr = 0, cg_len = length chargen_line\<rparr>" "cg_os s' = w"
    using assms m a by (auto simp: service_chargen_new_def bindr_Inr_iff)
  have "generated (sunk (cg_os s)) a s'"
    unfolding generated_def
    by (intro exI [of _ 0]) (use h malloc_none [OF m] length_chargen_line in simp)
  then show thesis using that h by blast
qed

lemma chargen_generated:
  "(\<lambda>s s'. chargen_on_writable os fd (Some a) s = Inr s')\<^sup>*\<^sup>* s s' \<Longrightarrow> generated b a s \<Longrightarrow> generated b a s'"
  by (induction rule: rtranclp_induct) (auto intro: writable_step)

end

text \<open>A sink that takes at most \<open>k\<close> bytes of a write, as a terminal with a small buffer does.\<close>

definition slow_libc :: "nat \<Rightarrow> byte list libc" where
  "slow_libc k = \<lparr>lc_write = (\<lambda>fd d w. (int (length (take k d)), w @ take k d)), lc_close = (\<lambda>fd w. (0, w)),
     lc_malloc = (\<lambda>w. (Some 0, w)), lc_time = (\<lambda>w. 0), lc_ctime = (\<lambda>t. ''Thu Jan  1 00:00:00 1970'')\<rparr>"

interpretation slow: byte_sink "slow_libc k" "\<lambda>w. w"
  by unfold_locales (auto simp: slow_libc_def min_def split: if_splits)

section \<open>Properties of the services\<close>

text \<open>
  C27.  However \<^verbatim>\<open>write\<close> cuts the writes short, the bytes a client of the character generator gets are
  whole lines of the 95 characters one after the other and the beginning of the next one; while the
  client is served, \<^verbatim>\<open>ptr\<close> and \<^verbatim>\<open>len\<close> name the part of the line that is still to come.
\<close>

theorem chargen_stream:
  assumes "byte_sink os sunk" and "service_chargen_new os fd s0 = Inr s1"
  shows "\<exists>a. cg_heap s1 a = Some \<lparr>cg_ptr = 0, cg_len = length chargen_line\<rparr>
    \<and> (\<forall>s. (\<lambda>s s'. chargen_on_writable os fd (Some a) s = Inr s')\<^sup>*\<^sup>* s1 s \<longrightarrow>
        (\<exists>k j. sunk (cg_os s) = sunk (cg_os s0) @ concat (replicate k chargen_line) @ take j chargen_line
          \<and> (\<forall>st. cg_heap s a = Some st \<longrightarrow>
               cg_ptr st = j \<and> j + cg_len st = length chargen_line \<and> 0 < cg_len st)))"
proof -
  obtain a where a: "cg_heap s1 a = Some \<lparr>cg_ptr = 0, cg_len = length chargen_line\<rparr>"
    "byte_sink.generated sunk (sunk (cg_os s0)) a s1"
    by (rule byte_sink.new_generated [OF assms])
  show ?thesis
    using a(1) byte_sink.chargen_generated [OF assms(1) _ a(2)]
    unfolding byte_sink.generated_def [OF assms(1)] by blast
qed

definition chargen_start :: "byte list chargen" where
  "chargen_start = \<lparr>cg_heap = (\<lambda>_. None), cg_efds = efds_init, cg_own_efds = efds_init, cg_os = []\<rparr>"

theorem chargen_stream_witness:
  "\<exists>s1 a. service_chargen_new (slow_libc 7) 5 chargen_start = Inr s1
     \<and> (\<exists>k j. cg_os s1 = concat (replicate k chargen_line) @ take j chargen_line)
     \<and> cg_heap s1 a = Some \<lparr>cg_ptr = 0, cg_len = length chargen_line\<rparr>"
proof -
  obtain s1 where s1: "service_chargen_new (slow_libc 7) 5 chargen_start = Inr s1"
    by (simp add: service_chargen_new_def slow_libc_def event_watch_writable_def at_fd_def chargen_start_def
        efds_init_def MAXFD_def Let_def)
  have o: "cg_os chargen_start = []" by (simp add: chargen_start_def)
  obtain a where a: "cg_heap s1 a = Some \<lparr>cg_ptr = 0, cg_len = length chargen_line\<rparr>"
    "\<forall>s. (\<lambda>s s'. chargen_on_writable (slow_libc 7) 5 (Some a) s = Inr s')\<^sup>*\<^sup>* s1 s \<longrightarrow>
        (\<exists>k j. cg_os s = cg_os chargen_start @ concat (replicate k chargen_line) @ take j chargen_line
          \<and> (\<forall>st. cg_heap s a = Some st \<longrightarrow>
               cg_ptr st = j \<and> j + cg_len st = length chargen_line \<and> 0 < cg_len st))"
    using chargen_stream [OF slow.byte_sink_axioms s1] by blast
  show ?thesis using s1 a o by (metis append_Nil rtranclp.rtrancl_refl)
qed

end
