(* ===== verification/Log.thy ===== *)
theory Log
  imports Lwnbd_Prelude
begin

text \<open>
  The log of the library, \<^verbatim>\<open>src/log.c\<close>, with the levels of \<^verbatim>\<open>include/lwnbd/lwnbd-common.h\<close>.  The
  formatting of the message is left to \<^verbatim>\<open>vsnprintf\<close>: a call gets the text the format stands for.
  \<open>'o\<close> is the state that the callback writes to.
\<close>

section \<open>The code\<close>

definition LWNBD_LOG_ERROR :: int where "LWNBD_LOG_ERROR = 1"
definition LWNBD_LOG_WARN :: int where "LWNBD_LOG_WARN = 2"
definition LWNBD_LOG_INFO :: int where "LWNBD_LOG_INFO = 3"
definition LWNBD_LOG_DEBUG :: int where "LWNBD_LOG_DEBUG = 4"

definition LWNBD_BUFFER_LEN :: nat where "LWNBD_BUFFER_LEN = 2048"

text \<open>The callback gets the file, the tag, the level, the line, the function and the message.\<close>

type_synonym 'o log_callback = "string \<Rightarrow> string \<Rightarrow> int \<Rightarrow> int \<Rightarrow> string \<Rightarrow> string \<Rightarrow> 'o \<Rightarrow> 'o"

record 'o log_global =
  lg_level :: int
  lg_callback :: "'o log_callback option"

text \<open>\<^verbatim>\<open>printf("[%-5s][%s] %s", level_name, tag, message)\<close>, to a list of characters.\<close>

definition level_name :: "int \<Rightarrow> string" where
  "level_name level =
     (let n0 = ''DEBUG'';
          n1 = (if level = LWNBD_LOG_INFO then ''INFO'' else n0);
          n2 = (if level = LWNBD_LOG_WARN then ''WARN'' else n1)
      in if level = LWNBD_LOG_ERROR then ''ERROR'' else n2)"

definition lwnbd_default_log_callback :: "string log_callback" where
  "lwnbd_default_log_callback f tag level line func message out =
     out @ ''['' @ level_name level @ replicate (5 - length (level_name level)) CHR '' ''
         @ ''][''  @ tag @ ''] '' @ message"

definition log_init :: "int \<Rightarrow> string log_global" where
  "log_init CONFIG_LOG_DEFAULT_LEVEL =
     \<lparr>lg_level = CONFIG_LOG_DEFAULT_LEVEL, lg_callback = Some lwnbd_default_log_callback\<rparr>"

definition lwnbd_log :: "'o log_global \<Rightarrow> int \<Rightarrow> int \<Rightarrow> string \<Rightarrow> string \<Rightarrow> 'o \<Rightarrow> int \<times> 'o" where
  "lwnbd_log g level line func text out =
     (case lg_callback g of
        None \<Rightarrow> (- 1, out)
      | Some cb \<Rightarrow>
          if lg_level g < level then (- 1, out)
          else let message = take (LWNBD_BUFFER_LEN - 1) text
               in (0, cb ''src/log.c'' ''LWNBD'' level line func message out))"

definition lwnbd_set_log_callback :: "'o log_callback option \<Rightarrow> 'o log_global \<Rightarrow> 'o log_global" where
  "lwnbd_set_log_callback callback g = g\<lparr>lg_callback := callback\<rparr>"

definition lwnbd_set_log_level :: "int \<Rightarrow> 'o log_global \<Rightarrow> 'o log_global" where
  "lwnbd_set_log_level level g = g\<lparr>lg_level := level\<rparr>"

text \<open>The macros \<^verbatim>\<open>lwnbd_error\<close> to \<^verbatim>\<open>lwnbd_debug\<close>: one call each with its level.\<close>

definition lwnbd_error :: "'o log_global \<Rightarrow> int \<Rightarrow> string \<Rightarrow> string \<Rightarrow> 'o \<Rightarrow> int \<times> 'o" where
  "lwnbd_error g = lwnbd_log g LWNBD_LOG_ERROR"
definition lwnbd_warn :: "'o log_global \<Rightarrow> int \<Rightarrow> string \<Rightarrow> string \<Rightarrow> 'o \<Rightarrow> int \<times> 'o" where
  "lwnbd_warn g = lwnbd_log g LWNBD_LOG_WARN"
definition lwnbd_info :: "'o log_global \<Rightarrow> int \<Rightarrow> string \<Rightarrow> string \<Rightarrow> 'o \<Rightarrow> int \<times> 'o" where
  "lwnbd_info g = lwnbd_log g LWNBD_LOG_INFO"
definition lwnbd_debug :: "'o log_global \<Rightarrow> int \<Rightarrow> string \<Rightarrow> string \<Rightarrow> 'o \<Rightarrow> int \<times> 'o" where
  "lwnbd_debug g = lwnbd_log g LWNBD_LOG_DEBUG"

section \<open>Properties of the log\<close>

text \<open>A program that logs: the calls in order, with what was set before them.\<close>

fun log_all :: "'o log_global \<Rightarrow> (int \<times> int \<times> string \<times> string) list \<Rightarrow> 'o \<Rightarrow> 'o" where
  "log_all g [] out = out"
| "log_all g ((level, line, func, text) # ms) out = log_all g ms (snd (lwnbd_log g level line func text out))"

definition log_line :: "int \<Rightarrow> string \<Rightarrow> string" where
  "log_line level text =
     ''['' @ level_name level @ replicate (5 - length (level_name level)) CHR '' '' @ ''][LWNBD] '' @ take 2047 text"

lemma log_all_filter:
  "log_all (lwnbd_set_log_level n (log_init dflt)) ms out
   = out @ concat (map (\<lambda>(level, _, _, text). log_line level text) (filter (\<lambda>(level, _). level \<le> n) ms))"
  by (induction ms arbitrary: out)
    (auto simp: lwnbd_log_def lwnbd_set_log_level_def log_init_def lwnbd_default_log_callback_def log_line_def
      LWNBD_BUFFER_LEN_def)

text \<open>
  With the default callback, what a program prints is the messages of its calls in order: those
  with a level up to the one that was set, each cut to 2047 characters and prefixed with its level
  in five columns; after the callback is set to NULL nothing is printed at all.
\<close>

theorem log_filters:
  "log_all (lwnbd_set_log_level n (log_init dflt)) ms out
     = out @ concat (map (\<lambda>(level, _, _, text). log_line level text) (filter (\<lambda>(level, _). level \<le> n) ms))
   \<and> log_all (lwnbd_set_log_callback None (lwnbd_set_log_level n (log_init dflt))) ms out = out"
proof
  show "log_all (lwnbd_set_log_callback None (lwnbd_set_log_level n (log_init dflt))) ms out = out"
    by (induction ms arbitrary: out)
      (auto simp: lwnbd_log_def lwnbd_set_log_callback_def)
qed (rule log_all_filter)

end
