(* ===== verification/Memory_Plugin.thy ===== *)
theory Memory_Plugin
  imports Handles Plugins Block_Device
begin

text \<open>
  The memory plugin, \<^verbatim>\<open>plugins/memory/memory.c\<close>, which exports a region of the address space of the
  process.  The address space is a map from 64-bit addresses to bytes; an access to an address that
  is not mapped is a fault.
\<close>

section \<open>Address space\<close>

type_synonym ram = "u64 \<Rightarrow> byte option"

definition addrs :: "u64 \<Rightarrow> nat \<Rightarrow> u64 list" where
  "addrs a n = map (\<lambda>i. a + of_nat i) [0..<n]"

definition load_bytes :: "ram \<Rightarrow> u64 \<Rightarrow> nat \<Rightarrow> byte list result" where
  "load_bytes m a n =
     (let bs = map m (addrs a n) in if None \<in> set bs then Inl Out_Of_Bounds else Inr (map the bs))"

definition store_bytes :: "u64 \<Rightarrow> byte list \<Rightarrow> ram \<Rightarrow> ram result" where
  "store_bytes a d m =
     (if None \<in> set (map m (addrs a (length d))) then Inl Out_Of_Bounds
      else Inr (\<lambda>x. if unat (x - a) < length d then Some (d ! unat (x - a)) else m x))"

section \<open>The code\<close>

definition MEM_DRIVER_MAX_DEVICES :: nat where "MEM_DRIVER_MAX_DEVICES = 10"

record memory_config =
  mc_base :: u64
  mc_size :: u64
  mc_name :: string
  mc_desc :: string

record memory_state =
  mm_handles :: "memory_config list"
  mm_in_use :: "handle_state list"
  mm_ram :: ram

definition memory_init :: "ram \<Rightarrow> memory_state" where
  "memory_init m =
     \<lparr>mm_handles = replicate MEM_DRIVER_MAX_DEVICES \<lparr>mc_base = 0, mc_size = 0, mc_name = [], mc_desc = []\<rparr>,
      mm_in_use = replicate MEM_DRIVER_MAX_DEVICES HANDLE_FREE, mm_ram = m\<rparr>"

definition memory_pread ::
  "handle \<Rightarrow> u32 \<Rightarrow> u64 \<Rightarrow> u32 \<Rightarrow> memory_state \<Rightarrow> (int \<times> byte list \<times> memory_state) result" where
  "memory_pread handle count offset flags st =
     bindr (handle_at (mm_handles st) handle) (\<lambda>h.
     let addr = mc_base h + offset
     in bindr (load_bytes (mm_ram st) addr (unat count)) (\<lambda>d. Inr (0, d, st)))"

text \<open>\<^verbatim>\<open>memcpy(&addr, buf, count)\<close> writes over the eight bytes of the local variable \<^verbatim>\<open>addr\<close>.\<close>

definition memory_pwrite ::
  "handle \<Rightarrow> byte list \<Rightarrow> u32 \<Rightarrow> u64 \<Rightarrow> u32 \<Rightarrow> memory_state \<Rightarrow> (int \<times> memory_state) result" where
  "memory_pwrite handle buf count offset flags st =
     bindr (handle_at (mm_handles st) handle) (\<lambda>h.
     let addr = mc_base h + offset; local = replicate 8 NUL
     in bindr (mem_read 0 (unat count) buf) (\<lambda>d.
        bindr (mem_write 0 d local) (\<lambda>_. Inr (0, st))))"

definition memory_ctor ::
  "memory_config \<Rightarrow> lwnbd_context option \<Rightarrow> memory_state \<Rightarrow> (int \<times> lwnbd_context option \<times> memory_state) result" where
  "memory_ctor pconfig c st =
     (let (i, in_use) = take_handle (mm_in_use st)
      in bindr (set_handle i pconfig (mm_handles st)) (\<lambda>hs.
         bindr (set_name (map_option (\<lambda>c. c\<lparr>ctx_handle := Some i\<rparr>) c) (mc_name pconfig)) (\<lambda>c1.
         bindr (strcpy_field 64 (mc_desc pconfig)) (\<lambda>d.
         Inr (0, Some (c1\<lparr>ctx_description := d\<rparr>), st\<lparr>mm_handles := hs, mm_in_use := in_use\<rparr>)))))"

definition memory_get_size :: "handle \<Rightarrow> memory_state \<Rightarrow> (u64 \<times> memory_state) result" where
  "memory_get_size handle st = bindr (handle_at (mm_handles st) handle) (\<lambda>h. Inr (mc_size h, st))"

definition fill_region :: "memory_config \<Rightarrow> byte \<Rightarrow> ram \<Rightarrow> ram result" where
  "fill_region h c m = store_bytes (mc_base h) (replicate (unat (mc_size h)) c) m"

text \<open>
  One parameter of a query; \<open>h\<close> is what the handle points to, which only a filter that the plugin knows
  looks at.  The first character of an empty value is its NUL.
\<close>

definition memory_filter :: "memory_config result \<Rightarrow> query_t \<Rightarrow> ram \<Rightarrow> ram result" where
  "memory_filter h q m =
     (if q_key q = ''bzero'' then bindr h (\<lambda>h. fill_region h NUL m)
      else if q_key q = ''memset'' then
        (case q_val q of None \<Rightarrow> Inr m | Some v \<Rightarrow> bindr h (\<lambda>h. fill_region h (hd (v @ [NUL])) m))
      else if q_key q = ''memcpy'' then
        (case q_val q of None \<Rightarrow> Inr m
         | Some v \<Rightarrow> bindr h (\<lambda>h. bindr (fill_region h NUL m) (store_bytes (mc_base h) v)))
      else Inr m)"

text \<open>\<^verbatim>\<open>while (nb_params-- > 0)\<close> with \<open>n\<close> parameters left: the last one comes first.\<close>

fun memory_query_loop :: "memory_config result \<Rightarrow> query_t list \<Rightarrow> nat \<Rightarrow> ram \<Rightarrow> ram result" where
  "memory_query_loop h params 0 m = Inr m"
| "memory_query_loop h params (Suc n) m =
     (if n < length params
      then bindr (memory_filter h (params ! n) m) (memory_query_loop h params n)
      else Inl Uninitialised)"

definition memory_query :: "handle \<Rightarrow> query_t list \<Rightarrow> int \<Rightarrow> memory_state \<Rightarrow> (int \<times> memory_state) result" where
  "memory_query handle params nb_params st =
     bindr (memory_query_loop (handle_at (mm_handles st) handle) params (nat nb_params) (mm_ram st)) (\<lambda>m.
     Inr (0, st\<lparr>mm_ram := m\<rparr>))"

definition memory_plugin :: "(memory_config, memory_state) lwnbd_plugin_t" where
  "memory_plugin = null_plugin
     \<lparr>pl_name := ''memory'', pl_longname := ''lwnbd generic memory plugin'', pl_version := ''TODO'',
      pl_ctor := Some memory_ctor, pl_pread := Some memory_pread, pl_pwrite := Some memory_pwrite,
      pl_flush := Some func_no_error, pl_get_size := Some memory_get_size,
      pl_block_size := Some char_block_size, pl_query := Some memory_query\<rparr>"

text \<open>The plugin keeps to what the registry relies on.\<close>

interpretation memory_content_plugin: content_plugin "memory_plugin"
  by unfold_locales (auto simp: memory_plugin_def memory_ctor_def null_plugin_def set_name_def bindr_Inr_iff
      deref_def Let_def split: option.splits prod.splits if_splits)

section \<open>The region behind a handle\<close>

definition region :: "memory_config \<Rightarrow> ram \<Rightarrow> byte list" where
  "region h m = map (the \<circ> m) (addrs (mc_base h) (unat (mc_size h)))"

definition mapped :: "memory_config \<Rightarrow> ram \<Rightarrow> bool" where
  "mapped h m \<longleftrightarrow> (\<forall>a \<in> set (addrs (mc_base h) (unat (mc_size h))). m a \<noteq> None)"

definition memory_ok :: "handle \<Rightarrow> memory_state \<Rightarrow> bool" where
  "memory_ok hn st \<longleftrightarrow> (\<exists>h. handle_at (mm_handles st) hn = Inr h \<and> mapped h (mm_ram st))"

definition memory_content :: "handle \<Rightarrow> memory_state \<Rightarrow> byte list" where
  "memory_content hn st =
     (case handle_at (mm_handles st) hn of Inl _ \<Rightarrow> [] | Inr h \<Rightarrow> region h (mm_ram st))"

lemma length_region [simp]: "length (region h m) = unat (mc_size h)"
  by (simp add: region_def addrs_def)

lemma addrs_shift: "i + n \<le> k \<Longrightarrow> addrs (a + of_nat i) n = take n (drop i (addrs a k))"
  by (rule nth_equalityI) (simp_all add: addrs_def add.assoc)

lemma no_None: "None \<notin> set (map m as) \<longleftrightarrow> (\<forall>a \<in> set as. m a \<noteq> None)"
  by (induction as) (auto dest: sym)

lemma load_region:
  assumes "mapped h m" and "i + n \<le> unat (mc_size h)"
  shows "load_bytes m (mc_base h + of_nat i) n = Inr (take n (drop i (region h m)))"
proof -
  let ?as = "addrs (mc_base h) (unat (mc_size h))"
  have "set (take n (drop i ?as)) \<subseteq> set ?as" by (meson order_trans set_drop_subset set_take_subset)
  then have "\<forall>a \<in> set (take n (drop i ?as)). m a \<noteq> None" using assms(1) by (auto simp: mapped_def)
  then have "None \<notin> set (map m (take n (drop i ?as)))" by (simp only: no_None)
  then show ?thesis
    unfolding load_bytes_def addrs_shift [OF assms(2)] by (simp add: region_def take_map drop_map Let_def)
qed

lemma unat_offset: "n \<le> 2 ^ 64 \<Longrightarrow> j < n \<Longrightarrow> unat ((a + of_nat j :: u64) - a) = j"
  by (simp add: unat_of_nat)

text \<open>A store at the start of a region that fits into it.\<close>

lemma store_region:
  assumes "mapped h m" and "length d \<le> unat (mc_size h)"
  shows "\<exists>m'. store_bytes (mc_base h) d m = Inr m' \<and> mapped h m'
    \<and> region h m' = d @ drop (length d) (region h m)"
proof -
  let ?n = "unat (mc_size h)" and ?a = "mc_base h"
  let ?m' = "\<lambda>x. if unat (x - ?a) < length d then Some (d ! unat (x - ?a)) else m x"
  have big: "?n \<le> 2 ^ 64" using unsigned_less [of "mc_size h", where ?'a = nat] by simp
  have "set (addrs ?a (length d)) \<subseteq> set (addrs ?a ?n)" using assms(2) by (auto simp: addrs_def)
  then have st: "store_bytes ?a d m = Inr ?m'"
    using assms(1) by (force simp: store_bytes_def mapped_def)
  have at: "?m' (?a + of_nat j) = (if j < length d then Some (d ! j) else m (?a + of_nat j))"
    if "j < ?n" for j
    using unat_offset [OF big that, of ?a] by simp
  have mp: "mapped h ?m'" using assms(1) at by (auto simp: mapped_def addrs_def)
  have "region h ?m' = d @ drop (length d) (region h m)"
  proof (rule nth_equalityI)
    show "length (region h ?m') = length (d @ drop (length d) (region h m))" using assms(2) by simp
    fix j assume "j < length (region h ?m')"
    then have j: "j < ?n" by simp
    have "region h ?m' ! j = the (?m' (?a + of_nat j))" using j by (simp add: region_def addrs_def)
    also have "\<dots> = (d @ drop (length d) (region h m)) ! j"
      using j at [OF j] assms(2) by (simp add: nth_append region_def addrs_def)
    finally show "region h ?m' ! j = (d @ drop (length d) (region h m)) ! j" .
  qed
  then show ?thesis using st mp by blast
qed

interpretation mem: block_device_ro memory_pread 1 memory_content memory_ok
proof
  fix hn st and off :: u64 and n fl :: u32
  assume ok: "memory_ok hn st" and le: "(unat off + unat n) * 1 \<le> length (memory_content hn st)"
  obtain h where h: "handle_at (mm_handles st) hn = Inr h" "mapped h (mm_ram st)"
    using ok by (auto simp: memory_ok_def)
  have "unat off + unat n \<le> unat (mc_size h)" using le h by (simp add: memory_content_def)
  from load_region [OF h(2) this]
  have "load_bytes (mm_ram st) (mc_base h + off) (unat n) = Inr (take (unat n) (drop (unat off) (region h (mm_ram st))))"
    by simp
  then show "\<exists>st'. memory_pread hn n off fl st
      = Inr (0, take (unat n * 1) (drop (unat off * 1) (memory_content hn st)), st')
      \<and> memory_ok hn st' \<and> memory_content hn st' = memory_content hn st"
    using h ok by (auto simp: memory_pread_def memory_content_def)
qed

section \<open>Queries\<close>

text \<open>What a parameter makes of the content.\<close>

definition apply_filter :: "query_t \<Rightarrow> byte list \<Rightarrow> byte list" where
  "apply_filter q d =
     (if q_key q = ''bzero'' then replicate (length d) NUL
      else if q_key q = ''memset'' then
        (case q_val q of None \<Rightarrow> d | Some v \<Rightarrow> replicate (length d) (hd (v @ [NUL])))
      else if q_key q = ''memcpy'' then
        (case q_val q of None \<Rightarrow> d | Some v \<Rightarrow> v @ replicate (length d - length v) NUL)
      else d)"

definition fits :: "nat \<Rightarrow> query_t \<Rightarrow> bool" where
  "fits n q \<longleftrightarrow> (\<forall>v. q_key q = ''memcpy'' \<and> q_val q = Some v \<longrightarrow> length v \<le> n)"

lemma fill_region_ok:
  assumes "mapped h m"
  shows "\<exists>m'. fill_region h c m = Inr m' \<and> mapped h m' \<and> region h m' = replicate (unat (mc_size h)) c"
  using store_region [OF assms, of "replicate (unat (mc_size h)) c"] by (simp add: fill_region_def)

lemma filter_ok:
  assumes "mapped h m" and "fits (unat (mc_size h)) q"
  shows "\<exists>m'. memory_filter (Inr h) q m = Inr m' \<and> mapped h m' \<and> region h m' = apply_filter q (region h m)"
proof (cases "q_key q = ''memcpy'' \<and> q_val q \<noteq> None")
  case True
  then obtain v where v: "q_val q = Some v" "length v \<le> unat (mc_size h)" using assms(2) by (auto simp: fits_def)
  obtain m1 where m1: "fill_region h NUL m = Inr m1" "mapped h m1"
    "region h m1 = replicate (unat (mc_size h)) NUL"
    using fill_region_ok [OF assms(1)] by blast
  show ?thesis
    using store_region [OF m1(2) v(2)] m1 v True by (auto simp: memory_filter_def apply_filter_def)
next
  case False
  then show ?thesis
    using fill_region_ok [OF assms(1)] assms(1)
    by (auto simp: memory_filter_def apply_filter_def split: option.split)
qed

lemma query_loop_ok:
  assumes "mapped h m" and "\<forall>q \<in> set params. fits (unat (mc_size h)) q" and "n \<le> length params"
  shows "\<exists>m'. memory_query_loop (Inr h) params n m = Inr m' \<and> mapped h m'
    \<and> region h m' = foldr apply_filter (take n params) (region h m)"
  using assms
proof (induction n arbitrary: m)
  case (Suc n)
  have n: "n < length params" using Suc.prems(3) by simp
  obtain m1 where m1: "memory_filter (Inr h) (params ! n) m = Inr m1" "mapped h m1"
    "region h m1 = apply_filter (params ! n) (region h m)"
    using filter_ok [OF Suc.prems(1)] Suc.prems(2) n by (meson nth_mem)
  show ?case
    using Suc.IH [OF m1(2) Suc.prems(2)] n m1 by (auto simp: take_Suc_conv_app_nth)
qed simp

section \<open>Properties of the plugin\<close>

text \<open>
  C22.  A query on a mapped region, with values no longer than the region, returns 0 and rewrites the
  region as the filters say, the last parameter first (\<^verbatim>\<open>bzero\<close> and \<^verbatim>\<open>memset\<close> fill it, \<^verbatim>\<open>memcpy\<close> puts the
  value at its start over zeros, unknown ones do nothing); a later read inside the export returns
  the rewritten bytes.
\<close>

theorem memory_query_then_read:
  assumes "memory_ok hn st" and "\<forall>q \<in> set params. fits (length (memory_content hn st)) q"
    and "unat off + unat n \<le> length (memory_content hn st)"
  shows "\<exists>st' st''. memory_query hn params (int (length params)) st = Inr (0, st')
    \<and> memory_pread hn n off fl st' =
        Inr (0, take (unat n) (drop (unat off) (foldr apply_filter params (memory_content hn st))), st'')"
proof -
  obtain h where h: "handle_at (mm_handles st) hn = Inr h" "mapped h (mm_ram st)"
    using assms(1) by (auto simp: memory_ok_def)
  have c: "memory_content hn st = region h (mm_ram st)" using h by (simp add: memory_content_def)
  obtain m' where m': "memory_query_loop (Inr h) params (length params) (mm_ram st) = Inr m'" "mapped h m'"
    "region h m' = foldr apply_filter params (region h (mm_ram st))"
    using query_loop_ok [OF h(2), of params "length params"] assms(2) c by auto
  let ?st' = "st\<lparr>mm_ram := m'\<rparr>"
  have q: "memory_query hn params (int (length params)) st = Inr (0, ?st')"
    using h(1) m'(1) by (simp add: memory_query_def)
  have ok: "memory_ok hn ?st'" and c': "memory_content hn ?st' = foldr apply_filter params (memory_content hn st)"
    using h(1) m' c by (auto simp: memory_ok_def memory_content_def)
  have "length (memory_content hn ?st') = length (memory_content hn st)"
    using h(1) by (simp add: memory_content_def)
  then have le: "(unat off + unat n) * 1 \<le> length (memory_content hn ?st')" using assms(3) by simp
  show ?thesis using mem.pread_ok [OF ok le, of fl] q c' by auto
qed

definition demo_ram :: ram where
  "demo_ram a = (if a < 24 then Some CHR ''.'' else None)"

definition demo_region :: memory_state where
  "demo_region = (memory_init demo_ram)
     \<lparr>mm_handles := [\<lparr>mc_base = 16, mc_size = 8, mc_name = ''test'', mc_desc = []\<rparr>]\<rparr>"

lemma demo_region_ok:
  "memory_ok (Some 0) demo_region" "memory_content (Some 0) demo_region = ''........''"
proof -
  have a: "addrs 16 8 = [16, 17, 18, 19, 20, 21, 22, 23]" by (simp add: addrs_def upt_rec)
  show "memory_ok (Some 0) demo_region" "memory_content (Some 0) demo_region = ''........''"
    by (simp_all add: memory_ok_def memory_content_def demo_region_def memory_init_def mapped_def region_def
        a demo_ram_def)
qed

theorem memory_query_then_read_witness:
  "\<exists>st' st''. memory_query (Some 0) [\<lparr>q_key = ''memcpy'', q_val = Some ''hello''\<rparr>, \<lparr>q_key = ''bzero'', q_val = None\<rparr>] 2
       demo_region = Inr (0, st')
     \<and> memory_pread (Some 0) 6 1 0 st' = Inr (0, ''ello'' @ [NUL, NUL], st'')"
proof -
  let ?ps = "[\<lparr>q_key = ''memcpy'', q_val = Some ''hello''\<rparr>, \<lparr>q_key = ''bzero'', q_val = None\<rparr>]"
  have f: "foldr apply_filter ?ps ''........'' = ''hello'' @ [NUL, NUL, NUL]"
    by (simp add: apply_filter_def numeral_3_eq_3)
  have fit: "\<forall>q \<in> set ?ps. fits (length (memory_content (Some 0) demo_region)) q"
    and le: "unat (1 :: u64) + unat (6 :: u32) \<le> length (memory_content (Some 0) demo_region)"
    by (simp_all add: fits_def demo_region_ok)
  show ?thesis
    using memory_query_then_read [OF demo_region_ok(1) fit le, of 0] unfolding demo_region_ok(2) f by simp
qed

text \<open>
  \<^verbatim>\<open>memory_pwrite\<close> copies over its own local variable: a write of up to eight bytes returns
  success and changes nothing, and a longer one overruns the variable.
\<close>

theorem memory_pwrite_lost:
  assumes "memory_ok hn st" and "unat n \<le> length buf"
  shows "memory_pwrite hn buf n off fl st = (if unat n \<le> 8 then Inr (0, st) else Inl Out_Of_Bounds)"
proof -
  obtain h where "handle_at (mm_handles st) hn = Inr h" using assms(1) by (auto simp: memory_ok_def)
  then show ?thesis using assms(2) by (simp add: memory_pwrite_def mem_read_def mem_write_def min_def)
qed

theorem memory_pwrite_lost_witness:
  "memory_pwrite (Some 0) ''data'' 4 0 0 demo_region = Inr (0, demo_region)
   \<and> memory_pwrite (Some 0) ''more data'' 9 0 0 demo_region = Inl Out_Of_Bounds"
  using memory_pwrite_lost [OF demo_region_ok(1), of 4 "''data''" 0 0]
    memory_pwrite_lost [OF demo_region_ok(1), of 9 "''more data''" 0 0] by simp

end
