(* ===== verification/Mcman_Plugin.thy ===== *)
theory Mcman_Plugin
  imports Handles Loops Plugins Block_Device
begin

unbundle bit_operations_syntax

text \<open>
  The memory card plugin, \<^verbatim>\<open>plugins/mcman/mcman_d.c\<close>.  A card is written in blocks of
  \<^verbatim>\<open>pagesPerBlock\<close> pages, which have to be erased first, so a write reads the rest of a block and
  writes all of it.  The calls of the card driver are the record \<open>mc_sys\<close> over the state \<open>'m\<close> of the
  cards; the locale \<open>memory_card\<close> states what the plugin relies on, and gives the contract
  \<open>block_device\<close> with blocks of one page.
\<close>

section \<open>The card driver\<close>

text \<open>
  The second argument \<^verbatim>\<open>slot\<close> is always 0 and left out.  \<open>McReadPage\<close> gives its result and the bytes
  it stored; \<open>McGetCardSpec\<close> its result, the page length, the pages per block and the pages of the card.
\<close>

record 'm mc_sys =
  McDetectCard2 :: "int \<Rightarrow> 'm \<Rightarrow> 'm"
  McGetCardSpec :: "int \<Rightarrow> 'm \<Rightarrow> int \<times> u16 \<times> u16 \<times> u32"
  McReadPage :: "int \<Rightarrow> int \<Rightarrow> 'm \<Rightarrow> int \<times> byte list \<times> 'm"
  McWritePage :: "int \<Rightarrow> int \<Rightarrow> byte list \<Rightarrow> byte list \<Rightarrow> 'm \<Rightarrow> int \<times> 'm"
  McEraseBlock2 :: "int \<Rightarrow> int \<Rightarrow> 'm \<Rightarrow> int \<times> 'm"
  McDataChecksum :: "byte list \<Rightarrow> byte list"
  AllocSysMemory :: "nat \<Rightarrow> byte list option"

definition sceMcResSucceed :: int where "sceMcResSucceed = 0"

section \<open>The code\<close>

definition MCMAN_MAX_DEVICES :: nat where "MCMAN_MAX_DEVICES = 2"

record mcman_handle =
  mh_device :: int
  mh_size :: u64
  mh_blocksize :: u16

text \<open>\<open>mg_bbuffer\<close> and \<open>mg_pagesPerBlock\<close> are one pair of globals for all cards.\<close>

record 'm mcman =
  mg_handles :: "mcman_handle list"
  mg_bbuffer :: "byte list option"
  mg_pagesPerBlock :: u16
  mg_card :: 'm

definition mcman_init :: "'m \<Rightarrow> 'm mcman" where
  "mcman_init m =
     \<lparr>mg_handles = replicate MCMAN_MAX_DEVICES \<lparr>mh_device = 0, mh_size = 0, mh_blocksize = 0\<rparr>,
      mg_bbuffer = None, mg_pagesPerBlock = 0, mg_card = m\<rparr>"

definition SysAlloc :: "'m mc_sys \<Rightarrow> nat \<Rightarrow> byte list option" where
  "SysAlloc os size_of = AllocSysMemory os size_of"

text \<open>The four checksums of a page of 512 bytes, at 0, 3, 6 and 9 of \<^verbatim>\<open>ecc\<close>.\<close>

fun page_ecc :: "'m mc_sys \<Rightarrow> byte list \<Rightarrow> nat \<Rightarrow> nat list \<Rightarrow> byte list \<Rightarrow> byte list result" where
  "page_ecc os buffer base [] ecc = Inr ecc"
| "page_ecc os buffer base (k # ks) ecc =
     bindr (mem_read (base + 128 * k) 128 buffer) (\<lambda>d.
     bindr (mem_write (3 * k) (McDataChecksum os d) ecc) (page_ecc os buffer base ks))"

text \<open>The page loop of \<^verbatim>\<open>writeBlock\<close> with \<open>n\<close> pages left; \<^verbatim>\<open>ecc\<close> lives across the pages.\<close>

fun write_pages ::
  "'m mc_sys \<Rightarrow> int \<Rightarrow> int \<Rightarrow> byte list \<Rightarrow> nat \<Rightarrow> nat \<Rightarrow> nat \<Rightarrow> byte list \<Rightarrow> int \<Rightarrow> 'm \<Rightarrow> (int \<times> 'm) result" where
  "write_pages os port page0 buffer pageSize j 0 ecc res m = Inr (res, m)"
| "write_pages os port page0 buffer pageSize j (Suc n) ecc res m =
     bindr (page_ecc os buffer (j * pageSize) [0, 1, 2, 3] ecc) (\<lambda>ecc.
     bindr (mem_read (j * pageSize) pageSize buffer) (\<lambda>d.
     let (r, m1) = McWritePage os port (page0 + int j) d ecc m
     in if r \<noteq> sceMcResSucceed then Inr (r, m1)
        else write_pages os port page0 buffer pageSize (Suc j) n ecc r m1))"

definition writeBlock ::
  "'m mc_sys \<Rightarrow> int \<Rightarrow> int \<Rightarrow> byte list \<Rightarrow> nat \<Rightarrow> nat \<Rightarrow> 'm \<Rightarrow> (int \<times> 'm) result" where
  "writeBlock os port block buffer pageSize ppb m =
     (let (r, m1) = McEraseBlock2 os port block m
      in if r \<noteq> sceMcResSucceed then Inr (r, m1)
         else write_pages os port (block * int ppb) buffer pageSize 0 ppb (replicate 16 NUL) r m1)"

text \<open>The page loop of \<^verbatim>\<open>readBlock\<close>; \<open>res\<close> is \<^verbatim>\<open>result\<close>, which has no initial value.\<close>

fun read_pages ::
  "'m mc_sys \<Rightarrow> int \<Rightarrow> int \<Rightarrow> nat \<Rightarrow> nat \<Rightarrow> nat \<Rightarrow> int option \<Rightarrow> byte list \<Rightarrow> 'm
    \<Rightarrow> (int \<times> byte list \<times> 'm) result" where
  "read_pages os port page0 pageSize j 0 res buffer m =
     (case res of None \<Rightarrow> Inl Uninitialised | Some r \<Rightarrow> Inr (r, buffer, m))"
| "read_pages os port page0 pageSize j (Suc n) res buffer m =
     (let (r, d, m1) = McReadPage os port (page0 + int j) m
      in bindr (mem_write (j * pageSize) d buffer) (\<lambda>buffer.
         if r \<noteq> sceMcResSucceed then Inr (r, buffer, m1)
         else read_pages os port page0 pageSize (Suc j) n (Some r) buffer m1))"

definition readBlock ::
  "'m mc_sys \<Rightarrow> int \<Rightarrow> int \<Rightarrow> byte list \<Rightarrow> nat \<Rightarrow> nat \<Rightarrow> 'm \<Rightarrow> (int \<times> byte list \<times> 'm) result" where
  "readBlock os port block buffer pageSize ppb m =
     read_pages os port (block * int ppb) pageSize 0 ppb None buffer m"

text \<open>The result, \<^verbatim>\<open>bbuffer\<close> and the card afterwards.\<close>

definition injectPages ::
  "'m mc_sys \<Rightarrow> int \<Rightarrow> int \<Rightarrow> nat \<Rightarrow> nat \<Rightarrow> nat \<Rightarrow> nat \<Rightarrow> byte list \<Rightarrow> byte list \<Rightarrow> 'm
    \<Rightarrow> (int \<times> byte list \<times> 'm) result" where
  "injectPages os port block pageSize offset nPages ppb data bbuffer m =
     bindr (if offset \<noteq> 0 \<or> nPages \<noteq> ppb then readBlock os port block bbuffer pageSize ppb m
            else Inr (sceMcResSucceed, bbuffer, m)) (\<lambda>(r, bb, m1).
     if r \<noteq> sceMcResSucceed then Inr (r, bb, m1)
     else bindr (mem_read 0 (nPages * pageSize) data) (\<lambda>d.
          bindr (mem_write (offset * pageSize) d bb) (\<lambda>bb.
          bindr (writeBlock os port block bb pageSize ppb m1) (\<lambda>(r, m2). Inr (r, bb, m2)))))"

text \<open>\<^verbatim>\<open>mcman_pread\<close>: the page number is an \<^verbatim>\<open>int\<close>, the low 32 bits of the sum.\<close>

fun pread_pages ::
  "'m mc_sys \<Rightarrow> int \<Rightarrow> u64 \<Rightarrow> nat \<Rightarrow> nat \<Rightarrow> int \<Rightarrow> byte list \<Rightarrow> 'm \<Rightarrow> int \<times> byte list \<times> 'm" where
  "pread_pages os port offset i 0 res acc m = (res, acc, m)"
| "pread_pages os port offset i (Suc n) res acc m =
     (let (r, d, m1) = McReadPage os port (sint (ucast (offset + of_nat i) :: u32)) m
      in if r \<noteq> sceMcResSucceed then (r, acc @ d, m1)
         else pread_pages os port offset (Suc i) n r (acc @ d) m1)"

definition mcman_pread ::
  "'m mc_sys \<Rightarrow> handle \<Rightarrow> u32 \<Rightarrow> u64 \<Rightarrow> u32 \<Rightarrow> 'm mcman \<Rightarrow> (int \<times> byte list \<times> 'm mcman) result" where
  "mcman_pread os handle count offset flags st =
     bindr (handle_at (mg_handles st) handle) (\<lambda>h.
     let (r, d, m) = pread_pages os (mh_device h) offset 0 (unat count) sceMcResSucceed [] (mg_card st)
     in Inr (r, d, st\<lparr>mg_card := m\<rparr>))"

text \<open>
  The variables of the loop of \<^verbatim>\<open>mcman_pwrite\<close>.  The numbers of pages are \<^verbatim>\<open>int\<close> in the code, and the same as
  here for a \<^verbatim>\<open>count\<close> below \<open>2 ^ 31\<close>; a longer write would need a buffer of \<open>2 ^ 40\<close> bytes and is outside the model.
\<close>

record 'm mw_vars =
  mw_i :: u32
  mw_result :: int
  mw_blockOffset :: nat
  mw_remaining :: nat
  mw_written :: nat
  mw_bbuffer :: "byte list option"
  mw_card :: 'm

definition mw_body ::
  "'m mc_sys \<Rightarrow> mcman_handle \<Rightarrow> nat \<Rightarrow> byte list \<Rightarrow> 'm mw_vars \<Rightarrow> (flow \<times> 'm mw_vars) run" where
  "mw_body os h ppb buf v =
     (let nPages = (if ppb - mw_blockOffset v \<le> mw_remaining v then ppb - mw_blockOffset v
                    else mw_remaining v);
          pageSize = unat (mh_blocksize h)
      in bindp (lift (deref (mw_bbuffer v))) (\<lambda>bb.
         bindp (lift (injectPages os (mh_device h) (sint (mw_i v)) pageSize (mw_blockOffset v) nPages ppb
                        (drop (mw_written v * pageSize) buf) bb (mw_card v))) (\<lambda>(r, bb, m).
         let v1 = v\<lparr>mw_result := r, mw_bbuffer := Some bb, mw_card := m\<rparr>
         in if r \<noteq> sceMcResSucceed then ret (Break, v1)
            else ret (Next, v1\<lparr>mw_i := mw_i v + 1, mw_blockOffset := 0,
                               mw_remaining := mw_remaining v - nPages,
                               mw_written := mw_written v + nPages\<rparr>))))"

definition mcman_pwrite ::
  "'m mc_sys \<Rightarrow> handle \<Rightarrow> byte list \<Rightarrow> u32 \<Rightarrow> u64 \<Rightarrow> u32 \<Rightarrow> 'm mcman \<Rightarrow> (int \<times> 'm mcman) result" where
  "mcman_pwrite os handle buf count offset flags st =
     bindr (handle_at (mg_handles st) handle) (\<lambda>h.
     let ppb = ucast (mg_pagesPerBlock st) :: u64
     in if ppb = 0 then Inl Div_By_Zero
        else let startBlock = ucast (offset div ppb) :: u32;
                 endBlock = ucast ((offset + ucast count - 1) div ppb) :: u32
             in bindr (settle (while_flow (\<lambda>v. mw_i v \<le> endBlock) (mw_body os h (unat ppb) buf)
                  \<lparr>mw_i = startBlock, mw_result = 0, mw_blockOffset = unat (offset AND (ppb - 1)),
                   mw_remaining = unat count, mw_written = 0, mw_bbuffer = mg_bbuffer st,
                   mw_card = mg_card st\<rparr>))
                  (\<lambda>(fl, v). Inr (mw_result v, st\<lparr>mg_bbuffer := mw_bbuffer v, mg_card := mw_card v\<rparr>)))"

definition mcman_flush :: "handle \<Rightarrow> u32 \<Rightarrow> 'm mcman \<Rightarrow> (int \<times> 'm mcman) result" where
  "mcman_flush handle flags st = Inr (0, st)"

text \<open>
  \<^verbatim>\<open>sprintf(c->name, "mc%d", device)\<close>.  The length of a page and the number of pages are signed in the code.
\<close>

definition mcman_ctor ::
  "'m mc_sys \<Rightarrow> u8 \<Rightarrow> lwnbd_context option \<Rightarrow> 'm mcman \<Rightarrow> (int \<times> lwnbd_context option \<times> 'm mcman) result" where
  "mcman_ctor os device c st =
     (let port = uint device; m = McDetectCard2 os port (mg_card st);
          (r, pageLen, ppb, cardSize) = McGetCardSpec os port m;
          st1 = st\<lparr>mg_card := m, mg_pagesPerBlock := ppb\<rparr>
      in if r \<noteq> sceMcResSucceed then Inr (1, c, st1)
         else bindr (set_handle (unat device)
                       \<lparr>mh_device = port, mh_size = scast cardSize * scast pageLen, mh_blocksize = pageLen\<rparr>
                       (mg_handles st)) (\<lambda>hs.
              bindr (set_name (map_option (\<lambda>c. c\<lparr>ctx_handle := Some (unat device)\<rparr>) c)
                       (''mc'' @ digits (unat device))) (\<lambda>c1.
              Inr (0, Some c1, st1\<lparr>mg_handles := hs, mg_bbuffer := SysAlloc os (unat (scast pageLen * ucast ppb :: u64))\<rparr>))))"

definition mcman_get_size :: "handle \<Rightarrow> 'm mcman \<Rightarrow> (u64 \<times> 'm mcman) result" where
  "mcman_get_size handle st = bindr (handle_at (mg_handles st) handle) (\<lambda>h. Inr (mh_size h, st))"

definition mcman_block_size :: "handle \<Rightarrow> 'm mcman \<Rightarrow> (int \<times> u32 \<times> u32 \<times> u32) result" where
  "mcman_block_size handle st = Inr (0, 512, 512, 512)"

definition mcman_plugin :: "'m mc_sys \<Rightarrow> (u8, 'm mcman) lwnbd_plugin_t" where
  "mcman_plugin os = null_plugin
     \<lparr>pl_name := ''mcman'', pl_longname := ''PlayStation 2 MemoryCard via MCMAN'', pl_version := ''TODO'',
      pl_ctor := Some (mcman_ctor os), pl_pread := Some (mcman_pread os),
      pl_pwrite := Some (mcman_pwrite os), pl_flush := Some mcman_flush,
      pl_get_size := Some mcman_get_size, pl_block_size := Some mcman_block_size\<rparr>"

text \<open>The plugin keeps to what the registry relies on.\<close>

interpretation mcman_content: content_plugin "mcman_plugin os"
  by unfold_locales (auto simp: mcman_plugin_def mcman_ctor_def null_plugin_def set_name_def bindr_Inr_iff
      deref_def Let_def split: option.splits prod.splits if_splits)

end
