(* ===== verification/Mcman_Card.thy ===== *)
theory Mcman_Card
  imports Mcman_Plugin
begin

unbundle bit_operations_syntax

text \<open>
  What the memory card plugin stores.  The locale \<open>memory_card\<close> states the card driver on a NAND
  flash: pages are read where they are, a page can be written once after the erasure of its block,
  and an erasure leaves the block with any content.  Under these laws a write of pages changes
  exactly those pages, although it erases and rewrites whole blocks, and the plugin is a
  \<open>block_device\<close>.
\<close>

section \<open>Splices\<close>

lemma splice_over:
  "length d = length e \<Longrightarrow> off + length d \<le> length xs \<Longrightarrow> splice off e (splice off d xs) = splice off e xs"
  by (simp add: splice_def)

lemma splice_inner:
  assumes "i + length d \<le> n" and "off + n \<le> length xs"
  shows "splice off (splice i d (take n (drop off xs))) xs = splice (off + i) d xs"
  using assms by (intro nth_equalityI) (auto simp: nth_splice)

lemma splice_pages:
  assumes "(q + m + n) * ps \<le> length xs" and "(m + n) * ps \<le> length buf"
  shows "splice ((q + m) * ps) (take (n * ps) (drop (m * ps) buf)) (splice (q * ps) (take (m * ps) buf) xs)
    = splice (q * ps) (take ((m + n) * ps) buf) xs"
proof -
  have l: "length (take (m * ps) buf) = m * ps" using assms(2) by (simp add: add_mult_distrib)
  have "q * ps + length (take (m * ps) buf) + length (take (n * ps) (drop (m * ps) buf)) \<le> length xs"
    using assms by (simp add: add_mult_distrib)
  from splice_splice [OF this] show ?thesis
    unfolding l by (simp add: add_mult_distrib take_add)
qed

lemma take_drop_splice_outside:
  assumes "off + length d \<le> length xs" and "p + n \<le> off \<or> off + length d \<le> p" and "p + n \<le> length xs"
  shows "take n (drop p (splice off d xs)) = take n (drop p xs)"
  using assms by (intro nth_equalityI) (auto simp: nth_splice)

section \<open>Pages and blocks as words\<close>

lemma ucast_of_nat_u32: "(ucast (w :: u64) :: u32) = of_nat (unat w)"
  by (rule unat_eqD) (simp add: unsigned_ucast_eq unat_of_nat take_bit_eq_mod)

lemma unat_block_mask:
  assumes "unat (p :: u64) = 2 ^ k"
  shows "unat (off AND (p - 1)) = unat off mod 2 ^ k"
proof -
  have "p = 2 ^ k" using unat_eqI_of_nat [OF assms] by simp
  then have e: "off AND (p - 1) = take_bit k off" by (simp add: take_bit_eq_mask mask_eq_exp_minus_1)
  show ?thesis unfolding e unsigned_take_bit_eq by (rule take_bit_eq_mod)
qed

lemma sint_page:
  assumes "unat (off :: u64) + i < 2 ^ 31"
  shows "sint (ucast (off + of_nat i) :: u32) = int (unat off + i)"
proof -
  have w: "unat (off + of_nat i) = unat off + i" using assms by (simp add: unat_word_ariths unat_of_nat)
  have e: "unat (ucast (off + of_nat i) :: u32) = unat off + i"
    unfolding ucast_of_nat_u32 w by (subst unat_of_nat) (use assms in simp)
  have "sint (ucast (off + of_nat i) :: u32) = int (unat (ucast (off + of_nat i) :: u32))"
    by (rule sint_small_u32) (unfold e, rule assms)
  then show ?thesis unfolding e .
qed

section \<open>The card driver\<close>

text \<open>
  \<open>card port\<close> are the pages of the card in a port, one after the other; \<open>erased port page\<close> says that a
  page can be written.  Blocks have \<open>2 ^ k\<close> pages of \<open>ps\<close> bytes.
\<close>

locale memory_card =
  fixes os :: "'m mc_sys" and k ps :: nat
    and card :: "int \<Rightarrow> 'm \<Rightarrow> byte list"
    and card_ok :: "int \<Rightarrow> 'm \<Rightarrow> bool"
    and erased :: "int \<Rightarrow> nat \<Rightarrow> 'm \<Rightarrow> bool"
  assumes pages: "k < 16" "512 \<le> ps" "ps < 2 ^ 16"
    and card_size: "card_ok p m \<Longrightarrow> (2 ^ k * ps) dvd length (card p m) \<and> length (card p m) < 2 ^ 31 * ps"
    and read_page: "card_ok p m \<Longrightarrow> (i + 1) * ps \<le> length (card p m) \<Longrightarrow>
      \<exists>m'. McReadPage os p (int i) m = (0, take ps (drop (i * ps) (card p m)), m')
        \<and> card_ok p m' \<and> card p m' = card p m"
    and erase_block: "card_ok p m \<Longrightarrow> (b + 1) * (2 ^ k * ps) \<le> length (card p m) \<Longrightarrow>
      \<exists>m' e. McEraseBlock2 os p (int b) m = (0, m') \<and> card_ok p m' \<and> length e = 2 ^ k * ps
        \<and> card p m' = splice (b * (2 ^ k * ps)) e (card p m) \<and> (\<forall>i < 2 ^ k. erased p (b * 2 ^ k + i) m')"
    and write_page: "card_ok p m \<Longrightarrow> (i + 1) * ps \<le> length (card p m) \<Longrightarrow> erased p i m \<Longrightarrow> length d = ps \<Longrightarrow>
      length ecc = 16 \<Longrightarrow>
      \<exists>m'. McWritePage os p (int i) d ecc m = (0, m') \<and> card_ok p m' \<and> card p m' = splice (i * ps) d (card p m)
        \<and> (\<forall>j. j \<noteq> i \<longrightarrow> erased p j m \<longrightarrow> erased p j m')"
    and checksum: "length d = 128 \<Longrightarrow> length (McDataChecksum os d) = 3"
begin

lemma ps_pos [simp]: "0 < ps"
  using pages by simp

lemma page_ecc_ok:
  assumes "length ecc = 16" and "base + 512 \<le> length buffer"
  obtains ecc' where "page_ecc os buffer base [0, 1, 2, 3] ecc = Inr ecc'" and "length ecc' = 16"
proof -
  have r: "mem_read (base + 128 * j) 128 buffer = Inr (take 128 (drop (base + 128 * j) buffer))" if "j < 4" for j
    using that assms(2) by (simp add: mem_read_def)
  have c: "length (McDataChecksum os (take 128 (drop (base + 128 * j) buffer))) = 3" if "j < 4" for j
    using that assms(2) by (intro checksum) simp
  define s where "s j = McDataChecksum os (take 128 (drop (base + 128 * j) buffer))" for j
  have c: "length (s j) = 3" if "j < 4" for j using c [OF that] by (simp add: s_def)
  have w: "mem_write (3 * j) (s j) e = Inr (splice (3 * j) (s j) e)" if "length e = 16" "j < 4" for e j
    using that c [OF that(2)] by (simp add: mem_write_def)
  have l: "length (splice (3 * j) (s j) e) = 16" if "length e = 16" "j < 4" for e j
    using that c [OF that(2)] by simp
  show thesis
  proof
    show "page_ecc os buffer base [0, 1, 2, 3] ecc
        = Inr (splice (3 * 3) (s 3) (splice (3 * 2) (s 2) (splice (3 * 1) (s 1) (splice (3 * 0) (s 0) ecc))))"
      using assms(1) by (simp only: page_ecc.simps r bindr_simps s_def [symmetric] w l)
  qed (intro l; simp add: assms(1))
qed

lemma write_pages_ok:
  assumes "card_ok p m" and "length ecc = 16" and "(q + j + n) * ps \<le> length (card p m)"
    and "(j + n) * ps \<le> length buffer" and "\<forall>i. j \<le> i \<and> i < j + n \<longrightarrow> erased p (q + i) m"
  shows "\<exists>m'. write_pages os p (int q) buffer ps j n ecc 0 m = Inr (0, m') \<and> card_ok p m'
    \<and> card p m' = splice ((q + j) * ps) (take (n * ps) (drop (j * ps) buffer)) (card p m)"
  using assms
proof (induction n arbitrary: j ecc m)
  case 0
  then show ?case by simp
next
  case (Suc n)
  have jb: "j * ps + ps \<le> length buffer" using Suc.prems(4) by (simp add: add_mult_distrib)
  have "j * ps + 512 \<le> length buffer" using jb pages(2) by simp
  then obtain ecc' where e: "page_ecc os buffer (j * ps) [0, 1, 2, 3] ecc = Inr ecc'" "length ecc' = 16"
    using page_ecc_ok Suc.prems(2) by blast
  let ?d = "take ps (drop (j * ps) buffer)"
  have d: "mem_read (j * ps) ps buffer = Inr ?d" "length ?d = ps" using jb by (simp_all add: mem_read_def)
  have le: "(q + j + 1) * ps \<le> length (card p m)" using Suc.prems(3) by (simp add: add_mult_distrib)
  have "erased p (q + j) m" using Suc.prems(5) by simp
  from write_page [OF Suc.prems(1) le this d(2) e(2)]
  obtain m1 where w: "McWritePage os p (int (q + j)) ?d ecc' m = (0, m1)" and ok: "card_ok p m1"
    and c: "card p m1 = splice ((q + j) * ps) ?d (card p m)"
    and er: "\<forall>i. i \<noteq> q + j \<longrightarrow> erased p i m \<longrightarrow> erased p i m1" by blast
  have lc: "length (card p m1) = length (card p m)" using c le d(2) by (simp add: add_mult_distrib)
  have "\<exists>m'. write_pages os p (int q) buffer ps (Suc j) n ecc' 0 m1 = Inr (0, m') \<and> card_ok p m'
    \<and> card p m' = splice ((q + Suc j) * ps) (take (n * ps) (drop (Suc j * ps) buffer)) (card p m1)"
    using Suc.prems(3-5) lc er by (intro Suc.IH ok e(2)) auto
  then obtain m' where m': "write_pages os p (int q) buffer ps (Suc j) n ecc' 0 m1 = Inr (0, m')" "card_ok p m'"
    "card p m' = splice ((q + Suc j) * ps) (take (n * ps) (drop (Suc j * ps) buffer)) (card p m1)" by blast
  have "card p m' = splice ((q + j) * ps) (take (Suc n * ps) (drop (j * ps) buffer)) (card p m)"
    using splice_pages [of "q + j" 1 n ps "card p m" "drop (j * ps) buffer"] Suc.prems(3,4)
    by (simp add: m'(3) c add.commute add.left_commute add_mult_distrib)
  then show ?case using e(1) d(1) w m'(1,2) by (simp add: sceMcResSucceed_def)
qed

lemma writeBlock_ok:
  assumes "card_ok p m" and "(b + 1) * (2 ^ k * ps) \<le> length (card p m)" and "length buffer = 2 ^ k * ps"
  shows "\<exists>m'. writeBlock os p (int b) buffer ps (2 ^ k) m = Inr (0, m') \<and> card_ok p m'
    \<and> card p m' = splice (b * (2 ^ k * ps)) buffer (card p m)"
proof -
  from erase_block [OF assms(1,2)] obtain m1 e where er: "McEraseBlock2 os p (int b) m = (0, m1)" "card_ok p m1"
    "length e = 2 ^ k * ps" "card p m1 = splice (b * (2 ^ k * ps)) e (card p m)"
    "\<forall>i < 2 ^ k. erased p (b * 2 ^ k + i) m1" by blast
  have le: "b * (2 ^ k * ps) + length e \<le> length (card p m)" using assms(2) er(3) by simp
  have "\<exists>m'. write_pages os p (int (b * 2 ^ k)) buffer ps 0 (2 ^ k) (replicate 16 NUL) 0 m1 = Inr (0, m')
    \<and> card_ok p m' \<and> card p m' = splice ((b * 2 ^ k + 0) * ps) (take (2 ^ k * ps) (drop (0 * ps) buffer)) (card p m1)"
    using assms(2,3) er le by (intro write_pages_ok) (auto simp: algebra_simps)
  moreover have "int (b * 2 ^ k) = int b * int (2 ^ k)" by simp
  ultimately show ?thesis
    using er le assms(3) by (simp add: writeBlock_def sceMcResSucceed_def splice_over mult.assoc)
qed

lemma read_pages_ok:
  assumes "card_ok p m" and "(q + j + n) * ps \<le> length (card p m)" and "(j + n) * ps \<le> length buffer"
    and "n = 0 \<longrightarrow> res = Some 0"
  shows "\<exists>m'. read_pages os p (int q) ps j n res buffer m
      = Inr (0, splice (j * ps) (take (n * ps) (drop ((q + j) * ps) (card p m))) buffer, m')
    \<and> card_ok p m' \<and> card p m' = card p m"
  using assms
proof (induction n arbitrary: j res buffer m)
  case 0
  then show ?case by simp
next
  case (Suc n)
  have le: "(q + j + 1) * ps \<le> length (card p m)" using Suc.prems(2) by (simp add: add_mult_distrib)
  let ?d = "take ps (drop ((q + j) * ps) (card p m))"
  from read_page [OF Suc.prems(1) le]
  obtain m1 where r: "McReadPage os p (int (q + j)) m = (0, ?d, m1)" and ok: "card_ok p m1"
    and c: "card p m1 = card p m" by blast
  have d: "length ?d = ps" using le by (simp add: add_mult_distrib)
  have jb: "j * ps + ps \<le> length buffer" using Suc.prems(3) by (simp add: add_mult_distrib)
  let ?b = "splice (j * ps) ?d buffer"
  have w: "mem_write (j * ps) ?d buffer = Inr ?b" and lb: "length ?b = length buffer"
    using jb d by (simp_all add: mem_write_def)
  have "\<exists>m'. read_pages os p (int q) ps (Suc j) n (Some 0) ?b m1
      = Inr (0, splice (Suc j * ps) (take (n * ps) (drop ((q + Suc j) * ps) (card p m1))) ?b, m')
    \<and> card_ok p m' \<and> card p m' = card p m1"
    by (rule Suc.IH [OF ok]) (use Suc.prems(2,3) c lb in simp_all)
  moreover have "splice (Suc j * ps) (take (n * ps) (drop ((q + Suc j) * ps) (card p m))) ?b
      = splice (j * ps) (take (Suc n * ps) (drop ((q + j) * ps) (card p m))) buffer"
    using splice_pages [of j 1 n ps buffer "drop ((q + j) * ps) (card p m)"] Suc.prems(2,3)
    by (simp add: add.commute add.left_commute add_mult_distrib)
  ultimately show ?case using r w c by (auto simp: sceMcResSucceed_def)
qed

lemma readBlock_ok:
  assumes "card_ok p m" and "(b + 1) * (2 ^ k * ps) \<le> length (card p m)" and "length buffer = 2 ^ k * ps"
  shows "\<exists>m'. readBlock os p (int b) buffer ps (2 ^ k) m
      = Inr (0, take (2 ^ k * ps) (drop (b * (2 ^ k * ps)) (card p m)), m')
    \<and> card_ok p m' \<and> card p m' = card p m"
proof -
  have "\<exists>m'. read_pages os p (int (b * 2 ^ k)) ps 0 (2 ^ k) None buffer m
      = Inr (0, splice (0 * ps) (take (2 ^ k * ps) (drop ((b * 2 ^ k + 0) * ps) (card p m))) buffer, m')
    \<and> card_ok p m' \<and> card p m' = card p m"
    using assms by (intro read_pages_ok) (auto simp: algebra_simps)
  moreover have "splice 0 (take (2 ^ k * ps) (drop (b * 2 ^ k * ps) (card p m))) buffer
      = take (2 ^ k * ps) (drop (b * 2 ^ k * ps) (card p m))"
    using assms(2,3) by (simp add: splice_def algebra_simps)
  ultimately show ?thesis by (simp add: readBlock_def mult.assoc)
qed

lemma injectPages_ok:
  assumes "card_ok p m" and "(b + 1) * (2 ^ k * ps) \<le> length (card p m)" and "length bb = 2 ^ k * ps"
    and "off + n \<le> 2 ^ k" and "n * ps \<le> length data"
  shows "\<exists>bb' m'. injectPages os p (int b) ps off n (2 ^ k) data bb m = Inr (0, bb', m')
    \<and> length bb' = 2 ^ k * ps \<and> card_ok p m'
    \<and> card p m' = splice ((b * 2 ^ k + off) * ps) (take (n * ps) data) (card p m)"
proof -
  let ?old = "take (2 ^ k * ps) (drop (b * (2 ^ k * ps)) (card p m))"
  have lo: "length ?old = 2 ^ k * ps" using assms(2) by simp
  have "(off + n) * ps \<le> 2 ^ k * ps" using assms(4) by (rule mult_le_mono1)
  then have fit: "off * ps + n * ps \<le> 2 ^ k * ps" by (simp add: add_mult_distrib)
  have ld: "length (take (n * ps) data) = n * ps" using assms(5) by simp
  obtain bb1 m1 where rd: "(if off \<noteq> 0 \<or> n \<noteq> 2 ^ k then readBlock os p (int b) bb ps (2 ^ k) m
        else Inr (sceMcResSucceed, bb, m)) = Inr (0, bb1, m1)"
    and l1: "length bb1 = 2 ^ k * ps" and ok1: "card_ok p m1" and c1: "card p m1 = card p m"
    and same: "splice (off * ps) (take (n * ps) data) bb1 = splice (off * ps) (take (n * ps) data) ?old"
  proof (cases "off \<noteq> 0 \<or> n \<noteq> 2 ^ k")
    case True
    then show ?thesis using readBlock_ok [OF assms(1-3)] that [of ?old] lo by auto
  next
    case False
    then show ?thesis using assms(1,3,5) lo that [of bb m] by (simp add: sceMcResSucceed_def splice_def)
  qed
  let ?bb = "splice (off * ps) (take (n * ps) data) bb1"
  have lb: "length ?bb = 2 ^ k * ps" using fit ld l1 by simp
  have rd2: "mem_read 0 (n * ps) data = Inr (take (n * ps) data)" using assms(5) by (simp add: mem_read_def)
  have wr: "mem_write (off * ps) (take (n * ps) data) bb1 = Inr ?bb" using fit ld l1 by (simp add: mem_write_def)
  from writeBlock_ok [OF ok1 _ lb, of b] assms(2) c1
  obtain m2 where m2: "writeBlock os p (int b) ?bb ps (2 ^ k) m1 = Inr (0, m2)" "card_ok p m2"
    "card p m2 = splice (b * (2 ^ k * ps)) ?bb (card p m)" by auto
  have "card p m2 = splice ((b * 2 ^ k + off) * ps) (take (n * ps) data) (card p m)"
    unfolding m2(3) same
    using splice_inner [of "off * ps" "take (n * ps) data" "2 ^ k * ps" "b * (2 ^ k * ps)" "card p m"] fit ld assms(2)
    by (simp add: algebra_simps)
  then show ?thesis unfolding injectPages_def rd using m2(1,2) rd2 wr lb
    by (simp add: sceMcResSucceed_def)
qed

text \<open>The block of a page inside the card is inside the card.\<close>

lemma block_inside:
  assumes "card_ok p m" and "(pos + 1) * ps \<le> length (card p m)"
  shows "(pos div 2 ^ k + 1) * (2 ^ k * ps) \<le> length (card p m)"
proof -
  obtain l where l: "length (card p m) = 2 ^ k * ps * l" using card_size [OF assms(1)] by (auto elim: dvdE)
  have "(pos + 1) * ps \<le> (l * 2 ^ k) * ps" using assms(2) l by (simp add: algebra_simps)
  then have "pos + 1 \<le> l * 2 ^ k" using ps_pos mult_le_cancel2 by metis
  then have "pos div 2 ^ k < l" by (simp add: less_mult_imp_div_less)
  then have "(pos div 2 ^ k + 1) * (2 ^ k * ps) \<le> l * (2 ^ k * ps)" by (intro mult_le_mono1) simp
  then show ?thesis using l by (simp add: algebra_simps)
qed

lemma pages_inside: "card_ok p m \<Longrightarrow> n * ps \<le> length (card p m) \<Longrightarrow> n < 2 ^ 31"
  using card_size [of p m] by (metis le_less_trans mult_less_cancel2)

definition runs :: "mcman_handle \<Rightarrow> byte list \<Rightarrow> u32 \<Rightarrow> 'm mw_vars \<Rightarrow> nat \<Rightarrow> nat \<Rightarrow> nat \<Rightarrow> bool" where
  "runs h buf endb v pos w n \<longleftrightarrow> (\<exists>bb. mw_bbuffer v = Some bb \<and> length bb = 2 ^ k * ps)
     \<and> card_ok (mh_device h) (mw_card v) \<and> (pos + n) * ps \<le> length (card (mh_device h) (mw_card v))
     \<and> (w + n) * ps \<le> length buf \<and> mw_written v = w \<and> mw_remaining v = n
     \<and> mw_blockOffset v = pos mod 2 ^ k \<and> mw_i v = of_nat (pos div 2 ^ k)
     \<and> endb = of_nat ((pos + n - 1) div 2 ^ k) \<and> 0 < n"

text \<open>One turn writes the pages up to the end of the block or of the request.\<close>

lemma mw_body_step:
  assumes r: "runs h buf endb v pos w n" and bs: "unat (mh_blocksize h) = ps"
    and np: "np = min (2 ^ k - pos mod 2 ^ k) n"
  obtains bb m where "mw_body os h (2 ^ k) buf v
      = Some (Inr (Next, v\<lparr>mw_result := 0, mw_bbuffer := Some bb, mw_card := m, mw_i := mw_i v + 1,
                           mw_blockOffset := 0, mw_remaining := n - np, mw_written := w + np\<rparr>))"
    and "length bb = 2 ^ k * ps" and "card_ok (mh_device h) m"
    and "card (mh_device h) m
       = splice (pos * ps) (take (np * ps) (drop (w * ps) buf)) (card (mh_device h) (mw_card v))"
proof -
  obtain bb0 where bb0: "mw_bbuffer v = Some bb0" "length bb0 = 2 ^ k * ps" using r by (auto simp: runs_def)
  have n: "np \<le> n" using np by simp
  have "(pos + 1) * ps \<le> (pos + n) * ps" using r by (intro mult_le_mono1) (simp add: runs_def)
  then have le: "(pos + 1) * ps \<le> length (card (mh_device h) (mw_card v))" using r unfolding runs_def by linarith
  have ok: "card_ok (mh_device h) (mw_card v)" using r by (simp add: runs_def)
  have "pos div 2 ^ k \<le> pos" "pos < 2 ^ 31" using pages_inside [OF ok le] by simp_all
  then have "pos div 2 ^ k < 2 ^ 31" by (rule le_less_trans)
  then have i: "sint (mw_i v) = int (pos div 2 ^ k)"
    using r by (subst sint_small_u32) (simp_all add: runs_def unat_of_nat)
  have pk: "pos mod 2 ^ k < 2 ^ k" by simp
  have "pos mod 2 ^ k + np \<le> 2 ^ k" using np pk by linarith
  moreover have "np * ps \<le> length (drop (w * ps) buf)"
  proof -
    have "(w + np) * ps \<le> (w + n) * ps" using n by (intro mult_le_mono1) simp
    moreover have "(w + n) * ps \<le> length buf" using r by (simp add: runs_def)
    ultimately have "w * ps + np * ps \<le> length buf" unfolding add_mult_distrib by linarith
    then show ?thesis by simp
  qed
  ultimately obtain bb m where inj: "injectPages os (mh_device h) (int (pos div 2 ^ k)) ps (pos mod 2 ^ k) np (2 ^ k)
      (drop (w * ps) buf) bb0 (mw_card v) = Inr (0, bb, m)" and lb: "length bb = 2 ^ k * ps"
    and okm: "card_ok (mh_device h) m"
    and c: "card (mh_device h) m = splice ((pos div 2 ^ k * 2 ^ k + pos mod 2 ^ k) * ps)
      (take (np * ps) (drop (w * ps) buf)) (card (mh_device h) (mw_card v))"
    using injectPages_ok [OF ok block_inside [OF ok le] bb0(2)] by blast
  have "(if 2 ^ k - mw_blockOffset v \<le> mw_remaining v then 2 ^ k - mw_blockOffset v else mw_remaining v) = np"
    using r np by (simp add: runs_def)
  then have "mw_body os h (2 ^ k) buf v
      = Some (Inr (Next, v\<lparr>mw_result := 0, mw_bbuffer := Some bb, mw_card := m, mw_i := mw_i v + 1,
                           mw_blockOffset := 0, mw_remaining := n - np, mw_written := w + np\<rparr>))"
    using inj r bb0(1) i bs unfolding mw_body_def runs_def by (simp add: ret_def sceMcResSucceed_def)
  then show thesis by (rule that) (use lb okm c in \<open>simp_all only: div_mult_mod_eq\<close>)
qed

lemma runs_bounds:
  assumes "runs h buf endb v pos w n"
  shows "pos + n < 2 ^ 31" and "unat (mw_i v) = pos div 2 ^ k" and "unat endb = (pos + n - 1) div 2 ^ k"
    and "mw_i v \<le> endb"
proof -
  show lt: "pos + n < 2 ^ 31" using pages_inside [of "mh_device h" "mw_card v" "pos + n"] assms by (simp add: runs_def)
  have le: "a div 2 ^ k < 2 ^ 32" if "a < 2 ^ 31" for a :: nat
    using le_less_trans [OF div_le_dividend [of a "2 ^ k"] that] by simp
  have "pos < 2 ^ 31" "pos + n - 1 < 2 ^ 31" using lt by simp_all
  then have l: "pos div 2 ^ k < 2 ^ 32" "(pos + n - 1) div 2 ^ k < 2 ^ 32" using le by blast+
  show a: "unat (mw_i v) = pos div 2 ^ k" using assms l by (simp add: runs_def unat_of_nat)
  show b: "unat endb = (pos + n - 1) div 2 ^ k" using assms l by (simp add: runs_def unat_of_nat)
  have "0 < n" using assms by (simp add: runs_def)
  then have "pos \<le> pos + n - 1" by simp
  then show "mw_i v \<le> endb" unfolding word_le_nat_alt a b by (rule div_le_mono)
qed

lemma mw_loop:
  assumes "runs h buf endb v pos w n" and bs: "unat (mh_blocksize h) = ps"
  shows "\<exists>v'. while_flow (\<lambda>v. mw_i v \<le> endb) (mw_body os h (2 ^ k) buf) v = Some (Inr (Next, v'))
    \<and> mw_result v' = 0 \<and> (\<exists>bb. mw_bbuffer v' = Some bb \<and> length bb = 2 ^ k * ps)
    \<and> card_ok (mh_device h) (mw_card v')
    \<and> card (mh_device h) (mw_card v')
       = splice (pos * ps) (take (n * ps) (drop (w * ps) buf)) (card (mh_device h) (mw_card v))"
  using assms(1)
proof (induction n arbitrary: v pos w rule: less_induct)
  case (less n)
  note r = less.prems
  define np where "np = min (2 ^ k - pos mod 2 ^ k) n"
  obtain bb m where st: "mw_body os h (2 ^ k) buf v
      = Some (Inr (Next, v\<lparr>mw_result := 0, mw_bbuffer := Some bb, mw_card := m, mw_i := mw_i v + 1,
                           mw_blockOffset := 0, mw_remaining := n - np, mw_written := w + np\<rparr>))"
    (is "_ = Some (Inr (Next, ?v))")
    and lb: "length bb = 2 ^ k * ps" and okm: "card_ok (mh_device h) m"
    and c: "card (mh_device h) m
       = splice (pos * ps) (take (np * ps) (drop (w * ps) buf)) (card (mh_device h) (mw_card v))"
    using mw_body_step [OF r bs np_def] .
  note go = while_flow_next [of "\<lambda>v. mw_i v \<le> endb" v "mw_body os h (2 ^ k) buf", OF runs_bounds(4) [OF r] st]
  have pk: "pos mod 2 ^ k < 2 ^ k" by simp
  have pos: "pos = pos div 2 ^ k * 2 ^ k + pos mod 2 ^ k" by (rule div_mult_mod_eq [symmetric])
  have i1: "unat (mw_i v + 1) = pos div 2 ^ k + 1"
  proof -
    have "pos div 2 ^ k < 2 ^ 31"
      by (rule le_less_trans [OF div_le_dividend]) (use runs_bounds(1) [OF r] in simp)
    then have "Suc (pos div 2 ^ k) < 4294967296" by simp
    then show ?thesis using runs_bounds(2) [OF r] by (simp add: unat_word_ariths)
  qed
  show ?case
  proof (cases "np = n")
    case True
    have n0: "0 < n" using r by (simp add: runs_def)
    have "pos mod 2 ^ k + n \<le> 2 ^ k" using True np_def pk by linarith
    then have "pos + n - 1 < (pos div 2 ^ k + 1) * 2 ^ k" using pos n0 by (simp only: add_mult_distrib)
    then have "(pos + n - 1) div 2 ^ k < pos div 2 ^ k + 1" by (rule less_mult_imp_div_less)
    then have "\<not> mw_i ?v \<le> endb" using runs_bounds(3) [OF r] i1 by (simp add: word_le_nat_alt)
    then show ?thesis using go lb okm c True by simp
  next
    case False
    then have np: "np = 2 ^ k - pos mod 2 ^ k" "np < n" using np_def by auto
    have p1: "pos + np = (pos div 2 ^ k + 1) * 2 ^ k" using np(1) pk pos by (simp only: add_mult_distrib)
    have lc: "length (card (mh_device h) m) = length (card (mh_device h) (mw_card v))"
    proof -
      have le: "(w + np) * ps \<le> (w + n) * ps" "(pos + np) * ps \<le> (pos + n) * ps"
        using np(2) by (simp_all only: mult_le_mono1 add_le_mono less_imp_le le_refl)
      have "w * ps + np * ps \<le> length buf"
        using le(1) r unfolding runs_def add_mult_distrib by linarith
      then have "length (take (np * ps) (drop (w * ps) buf)) = np * ps" by simp
      moreover have "pos * ps + np * ps \<le> length (card (mh_device h) (mw_card v))"
        using le(2) r unfolding runs_def add_mult_distrib by linarith
      ultimately show ?thesis unfolding c by (intro length_splice) simp
    qed
    have p2: "(pos + np) mod 2 ^ k = 0" "(pos + np) div 2 ^ k = pos div 2 ^ k + 1" by (simp_all add: p1)
    have sm: "pos + np + (n - np) = pos + n" "w + np + (n - np) = w + n" using np(2) by simp_all
    have r': "runs h buf endb ?v (pos + np) (w + np) (n - np)"
      unfolding runs_def
      using r np(2) lb okm lc unat_eqI_of_nat [OF i1] unfolding runs_def
      by (simp add: sm p2)
    have "0 < np" unfolding np(1) using pk by linarith
    then have "n - np < n" using np(2) by linarith
    from less.IH [OF this r'] c go show ?thesis
      using splice_pages [of pos np "n - np" ps "card (mh_device h) (mw_card v)" "drop (w * ps) buf"] np(2) r
      by (auto simp: runs_def add_mult_distrib add.commute)
  qed
qed

text \<open>The invariant of a handle, and the pages of its card.\<close>

definition mc_ok :: "handle \<Rightarrow> 'm mcman \<Rightarrow> bool" where
  "mc_ok hn st \<longleftrightarrow> (\<exists>i. hn = Some i \<and> i < length (mg_handles st)
     \<and> unat (mh_blocksize (mg_handles st ! i)) = ps \<and> card_ok (mh_device (mg_handles st ! i)) (mg_card st))
     \<and> unat (mg_pagesPerBlock st) = 2 ^ k \<and> (\<exists>bb. mg_bbuffer st = Some bb \<and> length bb = 2 ^ k * ps)"

definition mc_content :: "handle \<Rightarrow> 'm mcman \<Rightarrow> byte list" where
  "mc_content hn st = card (mh_device (mg_handles st ! the hn)) (mg_card st)"

lemma pread_pages_ok:
  assumes "card_ok p m" and "(unat off + i + n) * ps \<le> length (card p m)"
  shows "\<exists>m'. pread_pages os p off i n 0 acc m
      = (0, acc @ take (n * ps) (drop ((unat off + i) * ps) (card p m)), m') \<and> card_ok p m' \<and> card p m' = card p m"
  using assms
proof (induction n arbitrary: i acc m)
  case 0
  then show ?case by simp
next
  case (Suc n)
  have "(unat off + i + 1) * ps \<le> (unat off + i + Suc n) * ps" by (rule mult_le_mono1) simp
  then have le: "(unat off + i + 1) * ps \<le> length (card p m)" using Suc.prems(2) by linarith
  have "unat off + i < 2 ^ 31" using pages_inside [OF Suc.prems(1) le] by simp
  note pg = sint_page [OF this]
  from read_page [OF Suc.prems(1) le] obtain m1
    where r: "McReadPage os p (int (unat off + i)) m = (0, take ps (drop ((unat off + i) * ps) (card p m)), m1)"
      and ok: "card_ok p m1" and c: "card p m1 = card p m" by blast
  have "(unat off + Suc i + n) * ps \<le> length (card p m1)" using Suc.prems(2) c by simp
  from Suc.IH [OF ok this, of "acc @ take ps (drop ((unat off + i) * ps) (card p m))"]
  show ?case using r pg c take_drop_append [of ps "n * ps" "(unat off + i) * ps" "card p m"]
    by (auto simp: sceMcResSucceed_def algebra_simps)
qed

lemma mcman_pread_ok:
  assumes "mc_ok hn st" and "(unat off + unat n) * ps \<le> length (mc_content hn st)"
  shows "\<exists>st'. mcman_pread os hn n off fl st
      = Inr (0, take (unat n * ps) (drop (unat off * ps) (mc_content hn st)), st')
    \<and> mc_ok hn st' \<and> mc_content hn st' = mc_content hn st"
proof -
  obtain i where i: "hn = Some i" "i < length (mg_handles st)"
    and ok: "card_ok (mh_device (mg_handles st ! i)) (mg_card st)" using assms(1) by (auto simp: mc_ok_def)
  show ?thesis
    using pread_pages_ok [OF ok, of off 0 "unat n" "[]"] assms i
    by (auto simp: mcman_pread_def mc_content_def mc_ok_def sceMcResSucceed_def)
qed

lemma mcman_pwrite_ok:
  assumes "mc_ok hn st" and "(unat off + unat n) * ps \<le> length (mc_content hn st)"
    and "unat n * ps \<le> length buf" and "0 < unat n"
  shows "\<exists>st'. mcman_pwrite os hn buf n off fl st = Inr (0, st') \<and> mc_ok hn st'
    \<and> mc_content hn st' = splice (unat off * ps) (take (unat n * ps) buf) (mc_content hn st)"
proof -
  obtain i where i: "hn = Some i" "i < length (mg_handles st)" using assms(1) by (auto simp: mc_ok_def)
  let ?h = "mg_handles st ! i"
  have bs: "unat (mh_blocksize ?h) = ps" and ok: "card_ok (mh_device ?h) (mg_card st)"
    and pp: "unat (mg_pagesPerBlock st) = 2 ^ k"
    using assms(1) i by (auto simp: mc_ok_def)
  define ppb where "ppb = (ucast (mg_pagesPerBlock st) :: u64)"
  have up: "unat ppb = 2 ^ k" using pp by (simp add: ppb_def unat_ucast_u16)
  then have p0: "ppb \<noteq> 0" by auto
  have lt: "unat off + unat n < 2 ^ 31" using pages_inside [OF ok] assms(2) i by (simp add: mc_content_def)
  have "unat (off + ucast n) = unat off + unat n" using lt by (intro unat_add_u32) simp
  then have last: "unat (off + ucast n - 1) = unat off + unat n - 1"
    using assms(4) by (simp add: unat_sub word_le_nat_alt)
  let ?v = "\<lparr>mw_i = ucast (off div ppb), mw_result = 0, mw_blockOffset = unat (off AND (ppb - 1)),
             mw_remaining = unat n, mw_written = 0, mw_bbuffer = mg_bbuffer st, mw_card = mg_card st\<rparr>"
  have "runs ?h buf (ucast ((off + ucast n - 1) div ppb)) ?v (unat off) 0 (unat n)"
    using assms i ok unfolding runs_def ucast_of_nat_u32 unat_div up last unat_block_mask [OF up]
    by (simp add: mc_ok_def mc_content_def)
  from mw_loop [OF this bs] obtain v' where v': "while_flow (\<lambda>v. mw_i v \<le> ucast ((off + ucast n - 1) div ppb))
      (mw_body os ?h (2 ^ k) buf) ?v = Some (Inr (Next, v'))" "mw_result v' = 0"
    "\<exists>bb. mw_bbuffer v' = Some bb \<and> length bb = 2 ^ k * ps" "card_ok (mh_device ?h) (mw_card v')"
    "card (mh_device ?h) (mw_card v') = splice (unat off * ps) (take (unat n * ps) buf) (card (mh_device ?h) (mg_card st))"
    by auto
  have "mcman_pwrite os hn buf n off fl st
      = Inr (0, st\<lparr>mg_bbuffer := mw_bbuffer v', mg_card := mw_card v'\<rparr>)"
    unfolding mcman_pwrite_def Let_def ppb_def [symmetric]
    using p0 v'(1,2) i up by simp
  then show ?thesis using v'(3-5) i bs pp by (simp add: mc_ok_def mc_content_def)
qed

sublocale mc: block_device "mcman_pread os" ps mc_content mc_ok "mcman_pwrite os" mcman_flush
  by unfold_locales (use mcman_pread_ok mcman_pwrite_ok in \<open>auto simp: mcman_flush_def\<close>)

lemmas mcman_read_back = mc.read_back
lemmas mcman_device = mc.block_device_axioms

end

section \<open>A NAND flash\<close>

text \<open>Two blocks of two pages; a page that is not erased cannot be written.\<close>

record nand =
  nd_data :: "byte list"
  nd_erased :: "bool list"

definition nand_sys :: "nand mc_sys" where
  "nand_sys =
     \<lparr>McDetectCard2 = (\<lambda>p m. m), McGetCardSpec = (\<lambda>p m. (0, 512, 2, 4)),
      McReadPage = (\<lambda>p i m. if 0 \<le> i \<and> i < 4 then (0, take 512 (drop (nat i * 512) (nd_data m)), m) else (- 1, [], m)),
      McWritePage = (\<lambda>p i d ecc m.
        if 0 \<le> i \<and> i < 4 \<and> nd_erased m ! nat i
        then (0, \<lparr>nd_data = splice (nat i * 512) d (nd_data m), nd_erased = (nd_erased m)[nat i := False]\<rparr>) else (- 1, m)),
      McEraseBlock2 = (\<lambda>p b m.
        if b = 0 \<or> b = 1
        then (0, \<lparr>nd_data = splice (nat b * 1024) (replicate 1024 CHR 0xFF) (nd_data m),
                  nd_erased = (nd_erased m)[2 * nat b := True, 2 * nat b + 1 := True]\<rparr>) else (- 1, m)),
      McDataChecksum = take 3, AllocSysMemory = (\<lambda>n. Some (replicate n NUL))\<rparr>"

definition nand_ok :: "int \<Rightarrow> nand \<Rightarrow> bool" where
  "nand_ok p m \<longleftrightarrow> length (nd_data m) = 2048 \<and> length (nd_erased m) = 4"

definition nand_data :: "int \<Rightarrow> nand \<Rightarrow> byte list" where "nand_data p m = nd_data m"

definition nand_erased :: "int \<Rightarrow> nat \<Rightarrow> nand \<Rightarrow> bool" where
  "nand_erased p i m \<longleftrightarrow> i < 4 \<and> nd_erased m ! i"

interpretation nand: memory_card nand_sys 1 512 nand_data nand_ok nand_erased
proof
  fix p m i b and d ecc :: "byte list"
  assume ok: "nand_ok p m"
  then have l: "length (nd_data m) = 2048" "length (nd_erased m) = 4" by (simp_all add: nand_ok_def)
  show "2 ^ 1 * 512 dvd length (nand_data p m) \<and> length (nand_data p m) < 2 ^ 31 * 512"
    using l by (simp add: nand_data_def dvd_def)
  show "\<exists>m'. McReadPage nand_sys p (int i) m = (0, take 512 (drop (i * 512) (nand_data p m)), m')
      \<and> nand_ok p m' \<and> nand_data p m' = nand_data p m"
    if "(i + 1) * 512 \<le> length (nand_data p m)"
    using that l ok by (simp add: nand_sys_def nand_data_def)
  show "\<exists>m' e. McEraseBlock2 nand_sys p (int b) m = (0, m') \<and> nand_ok p m' \<and> length e = 2 ^ 1 * 512
      \<and> nand_data p m' = splice (b * (2 ^ 1 * 512)) e (nand_data p m)
      \<and> (\<forall>i<2 ^ 1. nand_erased p (b * 2 ^ 1 + i) m')"
    if "(b + 1) * (2 ^ 1 * 512) \<le> length (nand_data p m)"
  proof -
    have "b = 0 \<or> b = 1" using that l by (auto simp: nand_data_def)
    then show ?thesis using l
      by (intro exI [of _ "\<lparr>nd_data = splice (b * 1024) (replicate 1024 CHR 0xFF) (nd_data m),
          nd_erased = (nd_erased m)[2 * b := True, 2 * b + 1 := True]\<rparr>"] exI [of _ "replicate 1024 CHR 0xFF"])
        (auto simp: nand_sys_def nand_ok_def nand_data_def nand_erased_def less_Suc_eq numeral_2_eq_2)
  qed
  show "\<exists>m'. McWritePage nand_sys p (int i) d ecc m = (0, m') \<and> nand_ok p m'
      \<and> nand_data p m' = splice (i * 512) d (nand_data p m)
      \<and> (\<forall>j. j \<noteq> i \<longrightarrow> nand_erased p j m \<longrightarrow> nand_erased p j m')"
    if "(i + 1) * 512 \<le> length (nand_data p m)" "nand_erased p i m" "length d = 512"
    using that l by (auto simp: nand_sys_def nand_ok_def nand_data_def nand_erased_def)
qed (simp_all add: nand_sys_def)

section \<open>Properties of the memory card plugin\<close>

text \<open>
  C29.  Although the card can only be written by erasing and rewriting whole blocks, a write of any
  number of pages at any page changes exactly these pages, and reading them back gives what was
  written.
\<close>

theorem mcman_write_read:
  assumes "memory_card os k ps cells card_ok erased"
    and "memory_card.mc_ok k ps card_ok hn st"
    and "(unat off + unat n) * ps \<le> length (memory_card.mc_content cells hn st)"
    and "length buf = unat n * ps" and "0 < unat n"
  shows "\<exists>st' st''. mcman_pwrite os hn buf n off fl st = Inr (0, st')
    \<and> memory_card.mc_content cells hn st' = splice (unat off * ps) buf (memory_card.mc_content cells hn st)
    \<and> mcman_pread os hn n off fl' st' = Inr (0, buf, st'')"
proof -
  note dev = memory_card.mcman_pwrite_ok [OF assms(1-3), of buf fl] memory_card.mcman_read_back [OF assms(1)]
  obtain st' where st': "mcman_pwrite os hn buf n off fl st = Inr (0, st')"
    "memory_card.mc_content cells hn st' = splice (unat off * ps) buf (memory_card.mc_content cells hn st)"
    using dev(1) assms(4,5) by auto
  then show ?thesis using dev(2) [OF assms(2,3,4,5) st'(1), of fl'] by auto
qed

definition demo_card :: "nand mcman" where
  "demo_card = \<lparr>mg_handles = [\<lparr>mh_device = 0, mh_size = 2048, mh_blocksize = 512\<rparr>],
     mg_bbuffer = Some (replicate 1024 NUL), mg_pagesPerBlock = 2,
     mg_card = \<lparr>nd_data = replicate 2048 NUL, nd_erased = replicate 4 False\<rparr>\<rparr>"

theorem mcman_write_read_witness:
  "\<exists>st' st''. mcman_pwrite nand_sys (Some 0) (replicate 1024 CHR ''x'') 2 1 0 demo_card = Inr (0, st')
    \<and> memory_card.mc_content nand_data (Some 0) st'
      = splice 512 (replicate 1024 CHR ''x'') (memory_card.mc_content nand_data (Some 0) demo_card)
    \<and> mcman_pread nand_sys (Some 0) 2 1 0 st' = Inr (0, replicate 1024 CHR ''x'', st'')"
proof -
  have ok: "memory_card.mc_ok 1 512 nand_ok (Some 0) demo_card"
    unfolding nand.mc_ok_def demo_card_def nand_ok_def by simp
  have le: "(unat (1 :: u64) + unat (2 :: u32)) * 512 \<le> length (memory_card.mc_content nand_data (Some 0) demo_card)"
    by (simp add: nand.mc_content_def demo_card_def nand_data_def)
  show ?thesis
    using mcman_write_read [OF nand.memory_card_axioms ok le, of "replicate 1024 CHR ''x''" 0 0] by simp
qed

end
