(* ===== verification/Mcman_Query.thy ===== *)
theory Mcman_Query
  imports Mcman_Plugin
begin

text \<open>
  The queries of the memory card plugin, \<^verbatim>\<open>plugins/mcman/mcman_q.c\<close>, a file that \<^verbatim>\<open>mcman_d.c\<close> was meant
  to include.  Its \<^verbatim>\<open>kelfbind\<close>, which binds an executable to a card, is a draft over variables that
  nothing declares, and is a parameter here, over the state of the plugin.
\<close>

section \<open>The code\<close>

type_synonym 'm kelfbind = "int \<Rightarrow> string \<Rightarrow> 'm mcman \<Rightarrow> int \<times> 'm mcman"

definition mcinfo_cmd :: "handle \<Rightarrow> int" where
  "mcinfo_cmd handle = 0"

text \<open>One parameter; the results of the two commands are not looked at.\<close>

definition mcman_command :: "'m kelfbind \<Rightarrow> handle \<Rightarrow> query_t \<Rightarrow> 'm mcman \<Rightarrow> 'm mcman result" where
  "mcman_command kelfbind handle q st =
     (if q_key q = ''info'' then let _ = mcinfo_cmd handle in Inr st
      else if q_key q = ''kelfbind'' then
        (case q_val q of None \<Rightarrow> Inr st
         | Some v \<Rightarrow> bindr (handle_at (mg_handles st) handle) (\<lambda>h. Inr (snd (kelfbind (mh_device h) v st))))
      else Inr st)"

text \<open>\<^verbatim>\<open>while (nb_params-- > 0)\<close> with \<open>n\<close> parameters left.\<close>

fun mcman_query_loop :: "'m kelfbind \<Rightarrow> handle \<Rightarrow> query_t list \<Rightarrow> nat \<Rightarrow> 'm mcman \<Rightarrow> 'm mcman result" where
  "mcman_query_loop kelfbind handle params 0 st = Inr st"
| "mcman_query_loop kelfbind handle params (Suc n) st =
     (if n < length params
      then bindr (mcman_command kelfbind handle (params ! n) st) (mcman_query_loop kelfbind handle params n)
      else Inl Uninitialised)"

definition mcman_query ::
  "'m kelfbind \<Rightarrow> handle \<Rightarrow> query_t list \<Rightarrow> int \<Rightarrow> 'm mcman \<Rightarrow> (int \<times> 'm mcman) result" where
  "mcman_query kelfbind handle params nb_params st =
     bindr (mcman_query_loop kelfbind handle params (nat nb_params) st) (\<lambda>st. Inr (0, st))"

section \<open>What a query does\<close>

definition binds :: "'m kelfbind \<Rightarrow> int \<Rightarrow> query_t \<Rightarrow> 'm mcman \<Rightarrow> 'm mcman" where
  "binds kelfbind device q st =
     (case q_val q of Some v \<Rightarrow> if q_key q = ''kelfbind'' then snd (kelfbind device v st) else st | None \<Rightarrow> st)"

lemma query_loop_binds:
  assumes "handle_at (mg_handles st) hn = Inr h" and "\<And>d v s. mg_handles (snd (kelfbind d v s)) = mg_handles s"
    and "n \<le> length params"
  shows "mcman_query_loop kelfbind hn params n st = Inr (foldr (binds kelfbind (mh_device h)) (take n params) st)"
  using assms(1,3)
proof (induction n arbitrary: st)
  case (Suc n)
  let ?st1 = "binds kelfbind (mh_device h) (params ! n) st"
  have "mcman_command kelfbind hn (params ! n) st = Inr ?st1"
    using Suc.prems(1) by (auto simp: mcman_command_def binds_def split: option.split)
  moreover have "mg_handles ?st1 = mg_handles st" using assms(2) by (simp add: binds_def split: option.split)
  ultimately show ?case using Suc.IH [of ?st1] Suc.prems by (simp add: take_Suc_conv_app_nth)
qed simp

text \<open>
  A query runs the \<^verbatim>\<open>kelfbind\<close> commands that have a value on the card of the handle, the last parameter
  first, and nothing else; the result is 0 whatever they answer.
\<close>

theorem mcman_query_binds:
  assumes "handle_at (mg_handles st) hn = Inr h" and "\<And>d v s. mg_handles (snd (kelfbind d v s)) = mg_handles s"
  shows "mcman_query kelfbind hn params (int (length params)) st
    = Inr (0, foldr (binds kelfbind (mh_device h)) params st)"
  using query_loop_binds [where kelfbind = kelfbind and params = params and n = "length params", OF assms]
  by (simp add: mcman_query_def)

text \<open>A \<^verbatim>\<open>kelfbind\<close> that notes the port and the file on the card.\<close>

definition note_kelf :: "(int \<times> string) list kelfbind" where
  "note_kelf device path st = (- 1, st\<lparr>mg_card := mg_card st @ [(device, path)]\<rparr>)"

theorem mcman_query_binds_witness:
  "\<exists>st. mcman_query note_kelf (Some 1) [\<lparr>q_key = ''kelfbind'', q_val = Some ''a''\<rparr>, \<lparr>q_key = ''info'', q_val = None\<rparr>,
        \<lparr>q_key = ''kelfbind'', q_val = Some ''b''\<rparr>] 3 (mcman_init []) = Inr (0, st)
     \<and> mg_card st = [(0, ''b''), (0, ''a'')]"
proof -
  let ?ps = "[\<lparr>q_key = ''kelfbind'', q_val = Some ''a''\<rparr>, \<lparr>q_key = ''info'', q_val = None\<rparr>,
        \<lparr>q_key = ''kelfbind'', q_val = Some ''b''\<rparr>]"
  have h: "handle_at (mg_handles (mcman_init [])) (Some 1) = Inr \<lparr>mh_device = 0, mh_size = 0, mh_blocksize = 0\<rparr>"
    by (simp add: handle_at_def mcman_init_def MCMAN_MAX_DEVICES_def)
  have k: "mg_handles (snd (note_kelf d v s)) = mg_handles s" for d v s by (simp add: note_kelf_def)
  show ?thesis
    using mcman_query_binds [where kelfbind = note_kelf and params = ?ps, OF h k]
    by (simp add: binds_def) (simp add: note_kelf_def mcman_init_def)
qed

end
