(* ===== verification/Tty_Plugin.thy ===== *)
theory Tty_Plugin
  imports Handles Loops Plugins
begin

text \<open>
  The terminal plugin, \<^verbatim>\<open>plugins/tty/tty.c\<close>: what the programs of the console print goes into a ring
  buffer of 4096 bytes, and a client of the export reads it as an endless stream.  The threads of the
  kernel meet at \<^verbatim>\<open>WaitEventFlag\<close>, so that call is a parameter that may change the whole state: the
  other threads run while one waits.
\<close>

section \<open>The kernel\<close>

definition TTY_SIZE :: nat where "TTY_SIZE = 4096"

definition EF_TTY_TRANSFER_IDLE :: nat where "EF_TTY_TRANSFER_IDLE = 0"
definition EF_TTY_TRANSFER_BUSY :: nat where "EF_TTY_TRANSFER_BUSY = 1"
definition EF_TTY_TRANSFER_DATA :: nat where "EF_TTY_TRANSFER_DATA = 2"

text \<open>
  The static variables; \<open>tt_kernel\<close> is the state of the kernel.  The two counters are \<^verbatim>\<open>int64_t\<close> and
  count the bytes ever written and read.
\<close>

record 'k tty =
  tt_ringbuffer :: "byte list"
  tt_rwhence :: nat
  tt_wwhence :: nat
  tt_ev :: int
  tt_kernel :: 'k

definition tty_start :: "'k \<Rightarrow> 'k tty" where
  "tty_start k = \<lparr>tt_ringbuffer = replicate (TTY_SIZE + 1) NUL, tt_rwhence = 0, tt_wwhence = 0,
                  tt_ev = - 1, tt_kernel = k\<rparr>"

text \<open>The functions that the tables of the driver name, and the tables.\<close>

datatype tty_fn = Fn_Init | Fn_Deinit | Fn_Error | Fn_Stdout_Fd | Fn_Write

record iop_device =
  dev_name :: string
  dev_version :: nat
  dev_desc :: string
  dev_ops :: "tty_fn list"

record 'k tty_sys =
  WaitEventFlag :: "int \<Rightarrow> nat \<Rightarrow> 'k tty \<Rightarrow> 'k tty run"
  SetEventFlag :: "int \<Rightarrow> nat \<Rightarrow> 'k \<Rightarrow> 'k"
  CreateEventFlag :: "nat \<Rightarrow> 'k \<Rightarrow> int \<times> 'k"
  close_fd :: "int \<Rightarrow> 'k \<Rightarrow> 'k"
  DelDrv :: "string \<Rightarrow> 'k \<Rightarrow> 'k"
  AddDrv :: "iop_device \<Rightarrow> 'k \<Rightarrow> int \<times> 'k"
  open_dev :: "string \<Rightarrow> nat \<Rightarrow> 'k \<Rightarrow> 'k"

section \<open>The driver of the console\<close>

definition EIO :: int where "EIO = 5"

definition tty_init :: int where "tty_init = 0"
definition tty_deinit :: int where "tty_deinit = 0"
definition tty_stdout_fd :: int where "tty_stdout_fd = 1"
definition tty_error :: int where "tty_error = - EIO"

definition tty_ops :: "tty_fn list" where
  "tty_ops = [Fn_Init, Fn_Deinit, Fn_Error, Fn_Stdout_Fd, Fn_Stdout_Fd, Fn_Error, Fn_Write,
     Fn_Error, Fn_Error, Fn_Error, Fn_Error, Fn_Error, Fn_Error, Fn_Error, Fn_Error, Fn_Error, Fn_Error]"

definition tty_device :: iop_device where
  "tty_device = \<lparr>dev_name = ''tty'', dev_version = 1, dev_desc = ''TTY via NBD'', dev_ops = tty_ops\<rparr>"

definition set_flag :: "'k tty_sys \<Rightarrow> nat \<Rightarrow> 'k tty \<Rightarrow> 'k tty" where
  "set_flag os b st = st\<lparr>tt_kernel := SetEventFlag os (tt_ev st) b (tt_kernel st)\<rparr>"

text \<open>The copies into and out of the ring, in one piece or in two.\<close>

definition ring_put :: "nat \<Rightarrow> byte list \<Rightarrow> byte list \<Rightarrow> byte list result" where
  "ring_put pos d ring =
     (if TTY_SIZE < pos + length d
      then let sz = TTY_SIZE - pos
           in bindr (mem_write pos (take sz d) ring) (mem_write 0 (drop sz d))
      else mem_write pos d ring)"

definition ring_get :: "nat \<Rightarrow> nat \<Rightarrow> byte list \<Rightarrow> byte list result" where
  "ring_get pos count ring =
     (if TTY_SIZE < pos + count
      then let sz = TTY_SIZE - pos
           in bindr (mem_read pos sz ring) (\<lambda>a. bindr (mem_read 0 (count - sz) ring) (\<lambda>b. Inr (a @ b)))
      else mem_read pos count ring)"

text \<open>\<open>pos\<close> is computed before the wait.\<close>

definition tty_write :: "'k tty_sys \<Rightarrow> byte list \<Rightarrow> nat \<Rightarrow> 'k tty \<Rightarrow> (int \<times> 'k tty) run" where
  "tty_write os buf size_of st =
     (let pos = tt_wwhence st mod TTY_SIZE
      in bindp (WaitEventFlag os (tt_ev st) EF_TTY_TRANSFER_IDLE st) (\<lambda>st1.
         let st2 = set_flag os EF_TTY_TRANSFER_BUSY st1
         in bindp (lift (mem_read 0 size_of buf)) (\<lambda>d.
            bindp (lift (ring_put pos d (tt_ringbuffer st2))) (\<lambda>ring.
            ret (0, set_flag os EF_TTY_TRANSFER_DATA
                      (st2\<lparr>tt_ringbuffer := ring, tt_wwhence := tt_wwhence st2 + size_of\<rparr>))))))"

section \<open>The callbacks\<close>

text \<open>The body of \<^verbatim>\<open>while (1)\<close>.\<close>

definition wait_body :: "'k tty_sys \<Rightarrow> nat \<Rightarrow> 'k tty \<Rightarrow> (flow \<times> 'k tty) run" where
  "wait_body os count st =
     bindp (WaitEventFlag os (tt_ev st) EF_TTY_TRANSFER_DATA st) (\<lambda>st1.
     let st2 = set_flag os EF_TTY_TRANSFER_BUSY st1
     in if tt_wwhence st2 < tt_rwhence st2 + count then ret (Next, set_flag os EF_TTY_TRANSFER_IDLE st2)
        else ret (Break, st2))"

definition nbdtty_pread ::
  "'k tty_sys \<Rightarrow> handle \<Rightarrow> u32 \<Rightarrow> u64 \<Rightarrow> u32 \<Rightarrow> 'k tty \<Rightarrow> (int \<times> byte list \<times> 'k tty) result" where
  "nbdtty_pread os handle count offset flags st =
     (let pos = tt_rwhence st mod TTY_SIZE; n = unat count
      in bindr (settle (while_flow (\<lambda>_. True) (wait_body os n) st)) (\<lambda>(fl, st1).
         bindr (ring_get pos n (tt_ringbuffer st1)) (\<lambda>d.
         let st2 = st1\<lparr>tt_rwhence := tt_rwhence st1 + n\<rparr>
         in Inr (0, d, set_flag os (if tt_rwhence st2 < tt_wwhence st2 then EF_TTY_TRANSFER_DATA
                                    else EF_TTY_TRANSFER_IDLE) st2))))"

text \<open>\<^verbatim>\<open>0x1000 | O_RDWR\<close> and \<^verbatim>\<open>O_WRONLY\<close>, as the flags of the IOP have them.\<close>

definition nbdtty_ctor ::
  "'k tty_sys \<Rightarrow> unit \<Rightarrow> lwnbd_context option \<Rightarrow> 'k tty \<Rightarrow> (int \<times> lwnbd_context option \<times> 'k tty) result" where
  "nbdtty_ctor os pconfig c st =
     (let (e, k) = CreateEventFlag os EF_TTY_TRANSFER_IDLE (tt_kernel st);
          st1 = st\<lparr>tt_ev := e, tt_kernel := k\<rparr>
      in if e < 0 then Inr (- 1, c, st1)
         else let k1 = DelDrv os (dev_name tty_device) (close_fd os 1 (close_fd os 0 k));
                  (r, k2) = AddDrv os tty_device k1
              in if r < 0 then Inr (- 1, c, st1\<lparr>tt_kernel := k2\<rparr>)
                 else let k3 = open_dev os ''tty00:'' 2 (open_dev os ''tty00:'' 0x1003 k2)
                      in bindr (set_name c ''tty'') (\<lambda>c1. Inr (0, Some c1, st1\<lparr>tt_kernel := k3\<rparr>)))"

definition nbdtty_block_size :: "handle \<Rightarrow> 'k tty \<Rightarrow> (int \<times> u32 \<times> u32 \<times> u32) result" where
  "nbdtty_block_size handle st = Inr (0, 1, 1, 1)"

definition tty_plugin :: "'k tty_sys \<Rightarrow> (unit, 'k tty) lwnbd_plugin_t" where
  "tty_plugin os = null_plugin
     \<lparr>pl_name := ''tty'', pl_longname := ''lwnbd generic tty plugin'', pl_version := ''TODO'',
      pl_get_size := Some stream_get_size, pl_pread := Some (nbdtty_pread os),
      pl_block_size := Some nbdtty_block_size, pl_ctor := Some (nbdtty_ctor os)\<rparr>"

text \<open>The plugin keeps to what the registry relies on.\<close>

interpretation tty_content: content_plugin "tty_plugin os"
  by unfold_locales (auto simp: tty_plugin_def nbdtty_ctor_def null_plugin_def set_name_def bindr_Inr_iff
      deref_def Let_def split: option.splits prod.splits if_splits)

end
