(* ===== verification/Tty_Stream.thy ===== *)
theory Tty_Stream
  imports Tty_Plugin
begin

text \<open>
  The terminal as a stream.  A state stands for the bytes that were printed and not read yet,
  \<open>unread\<close>; as long as there are at most 4096 of them, \<^verbatim>\<open>tty_write\<close> appends to them and
  \<^verbatim>\<open>nbdtty_pread\<close> takes from their front, waiting for the other threads when there are too few.
  \<open>byte_fifo\<close> is the contract of such a pair of operations and \<open>tty_kernel\<close> what is taken from the
  kernel: while a reader waits, other threads may run and print, with the \<^verbatim>\<open>tty_write\<close> of the plugin,
  and a wait may return without any print.
\<close>

section \<open>Ring arithmetic\<close>

lemma ring_index:
  assumes "j \<le> TTY_SIZE"
  shows "(w + j) mod TTY_SIZE
    = (if w mod TTY_SIZE + j < TTY_SIZE then w mod TTY_SIZE + j else w mod TTY_SIZE + j - TTY_SIZE)"
proof -
  have p: "w mod TTY_SIZE < TTY_SIZE" by (simp add: TTY_SIZE_def)
  have "(w + j) mod TTY_SIZE = (w mod TTY_SIZE + j) mod TTY_SIZE" by (simp add: mod_add_left_eq)
  also have "\<dots> = (if w mod TTY_SIZE + j < TTY_SIZE then w mod TTY_SIZE + j else w mod TTY_SIZE + j - TTY_SIZE)"
  proof (cases "w mod TTY_SIZE + j < TTY_SIZE")
    case False
    then have "(w mod TTY_SIZE + j) mod TTY_SIZE = (w mod TTY_SIZE + j - TTY_SIZE) mod TTY_SIZE"
      by (intro le_mod_geq) simp
    moreover have "w mod TTY_SIZE + j - TTY_SIZE < TTY_SIZE" using p assms by linarith
    ultimately show ?thesis using False by simp
  qed simp
  finally show ?thesis .
qed

lemma ring_index_less [simp]: "i mod TTY_SIZE < TTY_SIZE"
  by (simp add: TTY_SIZE_def)

lemma ring_put_in:
  assumes "length d \<le> TTY_SIZE" and "length ring = TTY_SIZE + 1"
  obtains ring' where "ring_put (w mod TTY_SIZE) d ring = Inr ring'" and "length ring' = TTY_SIZE + 1"
    and "\<And>j. j < length d \<Longrightarrow> ring' ! ((w + j) mod TTY_SIZE) = d ! j"
    and "\<And>i. i < TTY_SIZE \<Longrightarrow> (\<And>j. j < length d \<Longrightarrow> (w + j) mod TTY_SIZE \<noteq> i) \<Longrightarrow> ring' ! i = ring ! i"
proof -
  let ?p = "w mod TTY_SIZE"
  have p: "?p < TTY_SIZE" by simp
  show thesis
  proof (cases "TTY_SIZE < ?p + length d")
    case False
    have fit: "?p + length d \<le> length ring" using False assms(2) by simp
    show thesis
    proof (rule that [of "splice ?p d ring"])
      show "ring_put ?p d ring = Inr (splice ?p d ring)"
        using False fit by (simp add: ring_put_def mem_write_def)
      show "splice ?p d ring ! ((w + j) mod TTY_SIZE) = d ! j" if "j < length d" for j
        using that False assms fit p by (simp add: ring_index nth_splice)
      show "splice ?p d ring ! i = ring ! i"
        if i: "i < TTY_SIZE" and o: "\<And>j. j < length d \<Longrightarrow> (w + j) mod TTY_SIZE \<noteq> i" for i
      proof -
        have "\<not> (?p \<le> i \<and> i < ?p + length d)"
        proof
          assume c: "?p \<le> i \<and> i < ?p + length d"
          then have "i - ?p < length d" by linarith
          moreover have "(w + (i - ?p)) mod TTY_SIZE = i" by (subst ring_index) (use c i in auto)
          ultimately show False using o by blast
        qed
        then show ?thesis using i fit assms(2) by (auto simp: nth_splice)
      qed
    qed (use fit assms(2) in simp)
  next
    case True
    let ?sz = "TTY_SIZE - ?p"
    let ?r1 = "splice ?p (take ?sz d) ring"
    have l1: "length (take ?sz d) = ?sz" using True p by simp
    have pz: "?p + ?sz = TTY_SIZE" using p by linarith
    have fit1: "?p + length (take ?sz d) \<le> length ring" unfolding l1 pz assms(2) by simp
    have lr1: "length ?r1 = TTY_SIZE + 1" using fit1 assms(2) by simp
    have l2: "length (drop ?sz d) \<le> ?p" using assms(1) p by simp
    have fit2: "0 + length (drop ?sz d) \<le> length ?r1" using l2 lr1 p by linarith
    show thesis
    proof (rule that [of "splice 0 (drop ?sz d) ?r1"])
      show "ring_put ?p d ring = Inr (splice 0 (drop ?sz d) ?r1)"
        using True fit1 fit2 by (simp add: ring_put_def mem_write_def Let_def)
      show "length (splice 0 (drop ?sz d) ?r1) = TTY_SIZE + 1" using fit2 lr1 by simp
      show "splice 0 (drop ?sz d) ?r1 ! ((w + j) mod TTY_SIZE) = d ! j" if "j < length d" for j
      proof (cases "?p + j < TTY_SIZE")
        case t: True
        then show ?thesis
          using that assms l1 l2 fit1 fit2 lr1 p by (simp add: ring_index nth_splice)
      next
        case f: False
        then have m: "(w + j) mod TTY_SIZE = j - ?sz" using that assms(1) p by (simp add: ring_index)
        have a: "j - ?sz < length (drop ?sz d)" "j - ?sz < length ?r1"
          using that f lr1 assms(1) unfolding length_drop lr1 by linarith+
        have sz: "?sz \<le> length d" "?sz + (j - ?sz) = j" using True f by linarith+
        have "drop ?sz d ! (j - ?sz) = d ! j" using nth_drop [OF sz(1), of "j - ?sz"] sz(2) by simp
        then show ?thesis unfolding m nth_splice [OF fit2 a(2)] using a(1) by (simp only: le0 add_0 diff_zero simp_thms if_True)
      qed
      show "splice 0 (drop ?sz d) ?r1 ! i = ring ! i"
        if i: "i < TTY_SIZE" and o: "\<And>j. j < length d \<Longrightarrow> (w + j) mod TTY_SIZE \<noteq> i" for i
      proof -
        have a: "i < ?p"
        proof (rule ccontr)
          assume "\<not> i < ?p"
          then have c: "?p \<le> i" by simp
          then have "i - ?p < length d" using True i by linarith
          moreover have "(w + (i - ?p)) mod TTY_SIZE = i" by (subst ring_index) (use c i in auto)
          ultimately show False using o by blast
        qed
        have b: "length (drop ?sz d) \<le> i"
        proof (rule ccontr)
          assume "\<not> length (drop ?sz d) \<le> i"
          then have j: "i + ?sz < length d" by simp
          define j where "j = i + ?sz"
          have "?p + j = TTY_SIZE + i" "j \<le> TTY_SIZE" using p a unfolding j_def by linarith+
          then have "(w + j) mod TTY_SIZE = i" using i by (simp add: ring_index)
          then show False using o [OF j] by (simp only: j_def)
        qed
        show ?thesis using a b i fit1 fit2 lr1 l1 assms(2) by (simp add: nth_splice)
      qed
    qed
  qed
qed

lemma ring_get_in:
  assumes "n \<le> TTY_SIZE" and "length ring = TTY_SIZE + 1"
  shows "ring_get (r mod TTY_SIZE) n ring = Inr (map (\<lambda>i. ring ! (i mod TTY_SIZE)) [r..<r + n])"
proof -
  let ?p = "r mod TTY_SIZE"
  have p: "?p < TTY_SIZE" by simp
  show ?thesis
  proof (cases "TTY_SIZE < ?p + n")
    case False
    then have "take n (drop ?p ring) = map (\<lambda>i. ring ! (i mod TTY_SIZE)) [r..<r + n]"
      using assms p by (intro nth_equalityI) (simp_all add: ring_index)
    then show ?thesis using False assms by (simp add: ring_get_def mem_read_def)
  next
    case True
    let ?sz = "TTY_SIZE - ?p"
    have "take ?sz (drop ?p ring) @ take (n - ?sz) ring = map (\<lambda>i. ring ! (i mod TTY_SIZE)) [r..<r + n]"
      using assms p True by (intro nth_equalityI) (auto simp: ring_index nth_append, simp add: add.commute)
    moreover have "?p + ?sz = TTY_SIZE" using p by linarith
    then have "mem_read ?p ?sz ring = Inr (take ?sz (drop ?p ring))"
      by (simp only: mem_read_def assms(2)) simp
    moreover have "n - ?sz \<le> length ring" using assms by linarith
    then have "mem_read 0 (n - ?sz) ring = Inr (take (n - ?sz) ring)"
      by (simp only: mem_read_def add_0 drop_0 if_True)
    ultimately show ?thesis using True by (simp only: ring_get_def Let_def if_True bindr_simps)
  qed
qed

section \<open>Contracts\<close>

text \<open>A queue of bytes of bounded size: what is put in comes out in order.\<close>

locale byte_fifo =
  fixes put :: "byte list \<Rightarrow> 's \<Rightarrow> 's option"
    and get :: "nat \<Rightarrow> 's \<Rightarrow> (byte list \<times> 's) option"
    and queue :: "'s \<Rightarrow> byte list"
    and cap :: nat
    and ok :: "'s \<Rightarrow> bool"
  assumes put_ok: "ok s \<Longrightarrow> length (queue s) + length d \<le> cap \<Longrightarrow>
      \<exists>s'. put d s = Some s' \<and> ok s' \<and> queue s' = queue s @ d"
    and get_ok: "ok s \<Longrightarrow> n \<le> length (queue s) \<Longrightarrow>
      \<exists>s'. get n s = Some (take n (queue s), s') \<and> ok s' \<and> queue s' = drop n (queue s)"
begin

text \<open>A session of puts (\<open>Inl\<close>) and gets (\<open>Inr\<close>): the bytes taken out, in order.\<close>

fun session :: "(byte list + nat) list \<Rightarrow> 's \<Rightarrow> (byte list \<times> 's) option" where
  "session [] s = Some ([], s)"
| "session (Inl d # ops) s = (case put d s of None \<Rightarrow> None | Some s' \<Rightarrow> session ops s')"
| "session (Inr n # ops) s =
     (case get n s of None \<Rightarrow> None
      | Some (d, s') \<Rightarrow> (case session ops s' of None \<Rightarrow> None | Some (e, s'') \<Rightarrow> Some (d @ e, s'')))"

end

text \<open>A session that never puts more than fits nor takes more than there is, \<open>n\<close> bytes being in the queue.\<close>

fun fits_queue :: "nat \<Rightarrow> nat \<Rightarrow> (byte list + nat) list \<Rightarrow> bool" where
  "fits_queue cap n [] = True"
| "fits_queue cap n (Inl d # ops) = (n + length d \<le> cap \<and> fits_queue cap (n + length d) ops)"
| "fits_queue cap n (Inr k # ops) = (k \<le> n \<and> fits_queue cap (n - k) ops)"

definition puts :: "(byte list + nat) list \<Rightarrow> byte list" where
  "puts ops = concat (map (\<lambda>x. case x of Inl d \<Rightarrow> d | Inr _ \<Rightarrow> []) ops)"

definition gets :: "(byte list + nat) list \<Rightarrow> nat" where
  "gets ops = sum_list (map (\<lambda>x. case x of Inl _ \<Rightarrow> 0 | Inr n \<Rightarrow> n) ops)"

lemma puts_gets_simps [simp]:
  "puts [] = []" "puts (Inl d # ops) = d @ puts ops" "puts (Inr n # ops) = puts ops"
  "gets [] = 0" "gets (Inl d # ops) = gets ops" "gets (Inr n # ops) = n + gets ops"
  by (simp_all add: puts_def gets_def)

context byte_fifo begin

lemma session_in_order:
  assumes "ok s" and "fits_queue cap (length (queue s)) ops"
  shows "\<exists>s'. session ops s = Some (take (gets ops) (queue s @ puts ops), s') \<and> ok s'
    \<and> queue s' = drop (gets ops) (queue s @ puts ops)"
  using assms
proof (induction ops arbitrary: s)
  case Nil
  then show ?case by simp
next
  case (Cons x ops)
  show ?case
  proof (cases x)
    case (Inl d)
    then have fit: "length (queue s) + length d \<le> cap" "fits_queue cap (length (queue s) + length d) ops"
      using Cons.prems(2) by simp_all
    from put_ok [OF Cons.prems(1) fit(1)] obtain s' where s': "put d s = Some s'" "ok s'" "queue s' = queue s @ d"
      by blast
    then show ?thesis using Cons.IH [OF s'(2)] fit(2) Inl by simp
  next
    case (Inr n)
    then have le: "n \<le> length (queue s)" "fits_queue cap (length (queue s) - n) ops"
      using Cons.prems(2) by simp_all
    from get_ok [OF Cons.prems(1) le(1)]
    obtain s' where s': "get n s = Some (take n (queue s), s')" "ok s'" "queue s' = drop n (queue s)" by blast
    define all where "all = queue s @ puts ops"
    have e: "drop n (queue s) @ puts ops = drop n all" and t: "take n (queue s) = take n all"
      using le(1) by (simp_all add: all_def)
    from Cons.IH [OF s'(2)] le(2) s'(3) obtain s'' where
      "session ops s' = Some (take (gets ops) (drop n all), s'')" "ok s''" "queue s'' = drop (gets ops) (drop n all)"
      by (auto simp: e)
    then show ?thesis using s'(1) Inr by (simp add: t all_def [symmetric] take_add add.commute)
  qed
qed

end

section \<open>The terminal\<close>

definition ring_ok :: "'k tty \<Rightarrow> bool" where
  "ring_ok st \<longleftrightarrow> length (tt_ringbuffer st) = TTY_SIZE + 1 \<and> tt_rwhence st \<le> tt_wwhence st
     \<and> tt_wwhence st - tt_rwhence st \<le> TTY_SIZE"

definition unread :: "'k tty \<Rightarrow> byte list" where
  "unread st = map (\<lambda>i. tt_ringbuffer st ! (i mod TTY_SIZE)) [tt_rwhence st..<tt_wwhence st]"

lemma length_unread [simp]: "length (unread st) = tt_wwhence st - tt_rwhence st"
  by (simp add: unread_def)

lemma unread_kernel [simp]:
  "unread (st\<lparr>tt_kernel := k\<rparr>) = unread st" "ring_ok (st\<lparr>tt_kernel := k\<rparr>) = ring_ok st"
  "unread (set_flag os b st) = unread st" "ring_ok (set_flag os b st) = ring_ok st"
  by (simp_all add: unread_def ring_ok_def set_flag_def)

lemma unread_append:
  assumes "ring_ok st" and "length (unread st) + length d \<le> TTY_SIZE"
  obtains ring where "ring_put (tt_wwhence st mod TTY_SIZE) d (tt_ringbuffer st) = Inr ring"
    and "ring_ok (st\<lparr>tt_ringbuffer := ring, tt_wwhence := tt_wwhence st + length d\<rparr>)"
    and "unread (st\<lparr>tt_ringbuffer := ring, tt_wwhence := tt_wwhence st + length d\<rparr>) = unread st @ d"
proof -
  let ?w = "tt_wwhence st" and ?r = "tt_rwhence st"
  have len: "?r \<le> ?w" "?w - ?r + length d \<le> TTY_SIZE" "length (tt_ringbuffer st) = TTY_SIZE + 1"
    using assms by (simp_all add: ring_ok_def)
  then have "length d \<le> TTY_SIZE" by linarith
  from ring_put_in [OF this len(3), of ?w]
  obtain ring where put: "ring_put (?w mod TTY_SIZE) d (tt_ringbuffer st) = Inr ring" "length ring = TTY_SIZE + 1"
    and new: "\<And>j. j < length d \<Longrightarrow> ring ! ((?w + j) mod TTY_SIZE) = d ! j"
    and old: "\<And>i. i < TTY_SIZE \<Longrightarrow> (\<And>j. j < length d \<Longrightarrow> (?w + j) mod TTY_SIZE \<noteq> i) \<Longrightarrow>
      ring ! i = tt_ringbuffer st ! i" by blast
  have keep: "ring ! (i mod TTY_SIZE) = tt_ringbuffer st ! (i mod TTY_SIZE)" if "?r \<le> i" "i < ?w" for i
  proof (rule old)
    fix j assume "j < length d"
    show "(?w + j) mod TTY_SIZE \<noteq> i mod TTY_SIZE"
    proof
      assume "(?w + j) mod TTY_SIZE = i mod TTY_SIZE"
      then have "TTY_SIZE dvd ?w + j - i" using mod_eq_dvd_iff_nat [of i "?w + j" TTY_SIZE] that by simp
      moreover have "0 < ?w + j - i" "?w + j - i < TTY_SIZE" using that \<open>j < length d\<close> len by linarith+
      ultimately show False by (simp add: nat_dvd_not_less)
    qed
  qed simp
  show thesis
  proof (rule that [OF put(1)])
    show "ring_ok (st\<lparr>tt_ringbuffer := ring, tt_wwhence := ?w + length d\<rparr>)"
      using put(2) len by (simp add: ring_ok_def)
    have "[?r..<?w + length d] = [?r..<?w] @ [?w..<?w + length d]"
      using upt_add_eq_append [OF len(1)] by blast
    moreover have "map (\<lambda>i. ring ! (i mod TTY_SIZE)) [?w..<?w + length d] = d"
      using new by (intro nth_equalityI) simp_all
    ultimately show "unread (st\<lparr>tt_ringbuffer := ring, tt_wwhence := ?w + length d\<rparr>) = unread st @ d"
      using keep by (simp add: unread_def)
  qed
qed

text \<open>Prints of another thread, one after the other, by the code of the plugin.\<close>

fun prints :: "'k tty_sys \<Rightarrow> byte list list \<Rightarrow> 'k tty \<Rightarrow> 'k tty run" where
  "prints os [] st = ret st"
| "prints os (d # ds) st = bindp (tty_write os d (length d) st) (\<lambda>(r, st1). prints os ds st1)"

text \<open>The bytes of the prints that happen during the first \<open>m\<close> waits of a schedule.\<close>

definition printed :: "(nat \<Rightarrow> byte list list) \<Rightarrow> nat \<Rightarrow> byte list" where
  "printed s m = concat (concat (map s [0..<m]))"

lemma printed_simps [simp]: "printed s 0 = []" "printed s (Suc m) = printed s m @ concat (s m)"
  by (simp_all add: printed_def)

lemma printed_shift: "printed s (Suc m) = concat (s 0) @ printed (\<lambda>i. s (Suc i)) m"
  by (induction m) simp_all

text \<open>
  The kernel with a thread that reads and threads that print.  \<open>sched k i\<close> are the prints that the others
  complete during the \<open>i\<close>-th wait for data from now on.  There may be none: \<^verbatim>\<open>WaitEventFlag\<close> returns at
  once when the bit is set, and nothing ever clears it.  Nothing is asked of how much they print, nor of the
  room in the ring.  A thread that prints in the middle of a read, outside its waits, is not modelled.
\<close>

locale tty_kernel =
  fixes os :: "'k tty_sys" and sched :: "'k \<Rightarrow> nat \<Rightarrow> byte list list"
  assumes wait_data: "prints os (sched (tt_kernel st) 0) st = ret st' \<Longrightarrow>
      \<exists>k. WaitEventFlag os (tt_ev st) EF_TTY_TRANSFER_DATA st = ret (st'\<lparr>tt_kernel := k\<rparr>)
        \<and> sched k = (\<lambda>i. sched (tt_kernel st) (Suc i))"
    and wait_idle: "\<exists>k. WaitEventFlag os (tt_ev st) EF_TTY_TRANSFER_IDLE st = ret (st\<lparr>tt_kernel := k\<rparr>)
        \<and> sched k = sched (tt_kernel st)"
    and set_event [simp]: "sched (SetEventFlag os e b k) = sched k"
begin

lemma sched_set_flag [simp]: "sched (tt_kernel (set_flag os b st)) = sched (tt_kernel st)"
  by (simp add: set_flag_def)

lemma tty_write_appends:
  assumes "ring_ok st" and "length (unread st) + n \<le> TTY_SIZE" and "n \<le> length buf"
  shows "\<exists>st'. tty_write os buf n st = ret (0, st') \<and> ring_ok st' \<and> unread st' = unread st @ take n buf
    \<and> tt_rwhence st' = tt_rwhence st \<and> sched (tt_kernel st') = sched (tt_kernel st)"
proof -
  obtain k where k: "WaitEventFlag os (tt_ev st) EF_TTY_TRANSFER_IDLE st = ret (st\<lparr>tt_kernel := k\<rparr>)"
    "sched k = sched (tt_kernel st)" using wait_idle by blast
  let ?st2 = "set_flag os EF_TTY_TRANSFER_BUSY (st\<lparr>tt_kernel := k\<rparr>)"
  have l: "length (take n buf) = n" using assms(3) by simp
  have "ring_ok ?st2" "length (unread ?st2) + length (take n buf) \<le> TTY_SIZE"
    using assms(1,2) l by simp_all
  from unread_append [OF this]
  obtain ring where r: "ring_put (tt_wwhence ?st2 mod TTY_SIZE) (take n buf) (tt_ringbuffer ?st2) = Inr ring"
    "ring_ok (?st2\<lparr>tt_ringbuffer := ring, tt_wwhence := tt_wwhence ?st2 + length (take n buf)\<rparr>)"
    "unread (?st2\<lparr>tt_ringbuffer := ring, tt_wwhence := tt_wwhence ?st2 + length (take n buf)\<rparr>)
       = unread ?st2 @ take n buf" by blast
  have w: "tt_wwhence ?st2 = tt_wwhence st" by (simp add: set_flag_def)
  have "tty_write os buf n st = ret (0, set_flag os EF_TTY_TRANSFER_DATA
      (?st2\<lparr>tt_ringbuffer := ring, tt_wwhence := tt_wwhence ?st2 + n\<rparr>))"
    using k(1) r(1) assms(3) w by (simp add: tty_write_def mem_read_def Let_def)
  then show ?thesis using r(2,3) k(2) l by (simp add: set_flag_def unread_def ring_ok_def)
qed

lemma prints_append:
  assumes "ring_ok st" and "length (unread st) + length (concat ds) \<le> TTY_SIZE"
  shows "\<exists>st'. prints os ds st = ret st' \<and> ring_ok st' \<and> unread st' = unread st @ concat ds
    \<and> tt_rwhence st' = tt_rwhence st"
  using assms
proof (induction ds arbitrary: st)
  case (Cons d ds)
  have fit: "length (unread st) + length d \<le> TTY_SIZE" using Cons.prems(2) by simp
  obtain st1 where st1: "tty_write os d (length d) st = ret (0, st1)" "ring_ok st1"
    "unread st1 = unread st @ d" "tt_rwhence st1 = tt_rwhence st"
    using tty_write_appends [OF Cons.prems(1) fit, of d] by auto
  have "length (unread st1) + length (concat ds) \<le> TTY_SIZE"
    unfolding st1(3) using Cons.prems(2) by (simp only: length_append concat.simps add.assoc)
  then show ?case using Cons.IH [OF st1(2)] st1 by auto
qed simp

text \<open>One turn of the loop of a read, the ring having room for what is printed during the wait.\<close>

lemma wait_turn:
  assumes "ring_ok st" and "length (unread st @ concat (sched (tt_kernel st) 0)) \<le> TTY_SIZE"
  obtains st' fl where "wait_body os n st = Some (Inr (fl, st'))" and "ring_ok st'"
    and "unread st' = unread st @ concat (sched (tt_kernel st) 0)" and "tt_rwhence st' = tt_rwhence st"
    and "sched (tt_kernel st') = (\<lambda>i. sched (tt_kernel st) (Suc i))"
    and "fl = (if n \<le> length (unread st') then Break else Next)"
proof -
  have "length (unread st) + length (concat (sched (tt_kernel st) 0)) \<le> TTY_SIZE"
    using assms(2) by (simp only: length_append)
  from prints_append [OF assms(1) this] obtain st1 where p: "prints os (sched (tt_kernel st) 0) st = ret st1"
    and st1: "ring_ok st1" "unread st1 = unread st @ concat (sched (tt_kernel st) 0)"
      "tt_rwhence st1 = tt_rwhence st" by blast
  from wait_data [OF p] obtain k where
    w: "WaitEventFlag os (tt_ev st) EF_TTY_TRANSFER_DATA st = ret (st1\<lparr>tt_kernel := k\<rparr>)"
    and sk: "sched k = (\<lambda>i. sched (tt_kernel st) (Suc i))" by blast
  let ?st2 = "set_flag os EF_TTY_TRANSFER_BUSY (st1\<lparr>tt_kernel := k\<rparr>)"
  have same: "tt_wwhence ?st2 = tt_wwhence st1" "tt_rwhence ?st2 = tt_rwhence st1" by (simp_all add: set_flag_def)
  have le: "tt_rwhence st1 \<le> tt_wwhence st1" using st1(1) by (simp add: ring_ok_def)
  have k2: "sched (tt_kernel ?st2) = (\<lambda>i. sched (tt_kernel st) (Suc i))" using sk by simp
  show thesis
  proof (cases "n \<le> length (unread st1)")
    case True
    then have "wait_body os n st = Some (Inr (Break, ?st2))"
      using w same le by (simp add: wait_body_def Let_def ret_def)
    then show thesis using that [of Break ?st2] True st1 same k2 by simp
  next
    case False
    then have "wait_body os n st = Some (Inr (Next, set_flag os EF_TTY_TRANSFER_IDLE ?st2))"
      using w same le by (auto simp: wait_body_def Let_def ret_def)
    then show thesis using that [of Next "set_flag os EF_TTY_TRANSFER_IDLE ?st2"] False st1 same k2
      by (simp add: set_flag_def)
  qed
qed

text \<open>The loop ends with the first wait after which there is enough.\<close>

lemma wait_ends:
  assumes "ring_ok st" and "n \<le> length (unread st @ printed (sched (tt_kernel st)) (Suc m))"
    and "length (unread st @ printed (sched (tt_kernel st)) (Suc m)) \<le> TTY_SIZE"
    and "\<And>i. i < m \<Longrightarrow> length (unread st @ printed (sched (tt_kernel st)) (Suc i)) < n"
  shows "\<exists>st'. while_flow (\<lambda>_. True) (wait_body os n) st = Some (Inr (Next, st')) \<and> ring_ok st'
    \<and> tt_rwhence st' = tt_rwhence st \<and> unread st' = unread st @ printed (sched (tt_kernel st)) (Suc m)
    \<and> sched (tt_kernel st') = (\<lambda>i. sched (tt_kernel st) (Suc m + i))"
  using assms
proof (induction m arbitrary: st)
  case 0
  from 0 have room: "length (unread st @ concat (sched (tt_kernel st) 0)) \<le> TTY_SIZE" by simp
  obtain st' fl where b: "wait_body os n st = Some (Inr (fl, st'))" and st': "ring_ok st'"
    "unread st' = unread st @ concat (sched (tt_kernel st) 0)" "tt_rwhence st' = tt_rwhence st"
    "sched (tt_kernel st') = (\<lambda>i. sched (tt_kernel st) (Suc i))" and "fl = (if n \<le> length (unread st') then Break else Next)"
    by (rule wait_turn [OF 0(1) room])
  moreover have "n \<le> length (unread st')" unfolding st'(2) using 0(2) by simp
  ultimately have "while_flow (\<lambda>_. True) (wait_body os n) st = Some (Inr (Next, st'))"
    by (intro while_flow_break) simp_all
  then show ?case using st' by simp
next
  case (Suc m)
  let ?s = "sched (tt_kernel st)"
  have "length (unread st @ concat (?s 0)) \<le> length (unread st @ printed ?s (Suc (Suc m)))"
    unfolding printed_shift [of ?s "Suc m"] by simp
  then have room: "length (unread st @ concat (?s 0)) \<le> TTY_SIZE" using Suc.prems(3) by (rule le_trans)
  obtain st' fl where b: "wait_body os n st = Some (Inr (fl, st'))" and st': "ring_ok st'"
    "unread st' = unread st @ concat (?s 0)" "tt_rwhence st' = tt_rwhence st"
    "sched (tt_kernel st') = (\<lambda>i. ?s (Suc i))" and fl: "fl = (if n \<le> length (unread st') then Break else Next)"
    by (rule wait_turn [OF Suc.prems(1) room])
  have "length (unread st @ printed ?s (Suc 0)) < n" by (rule Suc.prems(4)) simp
  then have "\<not> n \<le> length (unread st')" unfolding st'(2) by simp
  then have go: "while_flow (\<lambda>_. True) (wait_body os n) st = while_flow (\<lambda>_. True) (wait_body os n) st'"
    using b fl by (intro while_flow_next) simp_all
  have all: "unread st' @ printed (sched (tt_kernel st')) (Suc i) = unread st @ printed ?s (Suc (Suc i))" for i
    unfolding st'(2,4) printed_shift [of ?s "Suc i"] by simp
  show ?case
    using Suc.IH [of st'] Suc.prems(2,3) Suc.prems(4) [of "Suc i" for i] st'(1,3,4) unfolding go all by auto
qed

text \<open>It goes on for ever when there is never enough.\<close>

lemma wait_diverges:
  assumes "ring_ok st" and "\<And>m. length (unread st @ printed (sched (tt_kernel st)) m) < n"
    and "\<And>m. length (unread st @ printed (sched (tt_kernel st)) m) \<le> TTY_SIZE"
  shows "while_flow (\<lambda>_. True) (wait_body os n) st = None"
proof (rule while_flow_diverges [where P = "\<lambda>st. ring_ok st
    \<and> (\<forall>m. length (unread st @ printed (sched (tt_kernel st)) m) < n
        \<and> length (unread st @ printed (sched (tt_kernel st)) m) \<le> TTY_SIZE)"])
  show "ring_ok st \<and> (\<forall>m. length (unread st @ printed (sched (tt_kernel st)) m) < n
        \<and> length (unread st @ printed (sched (tt_kernel st)) m) \<le> TTY_SIZE)" using assms by blast
next
  fix s :: "'k tty"
  let ?s = "sched (tt_kernel s)"
  assume i: "ring_ok s \<and> (\<forall>m. length (unread s @ printed ?s m) < n \<and> length (unread s @ printed ?s m) \<le> TTY_SIZE)"
  then have "length (unread s @ printed ?s (Suc 0)) \<le> TTY_SIZE" by blast
  then have room: "length (unread s @ concat (?s 0)) \<le> TTY_SIZE" by simp
  obtain s' fl where b: "wait_body os n s = Some (Inr (fl, s'))" and s': "ring_ok s'"
    "unread s' = unread s @ concat (?s 0)" "sched (tt_kernel s') = (\<lambda>i. ?s (Suc i))"
    and fl: "fl = (if n \<le> length (unread s') then Break else Next)"
    by (rule wait_turn [of s n]) (use i room in blast)+
  have "length (unread s @ printed ?s (Suc 0)) < n" using i by blast
  then have "fl = Next" unfolding fl s'(2) by simp
  moreover have "unread s' @ printed (sched (tt_kernel s')) m = unread s @ printed ?s (Suc m)" for m
    unfolding s'(2,3) printed_shift [of ?s m] by simp
  then have "\<forall>m. length (unread s' @ printed (sched (tt_kernel s')) m) < n
      \<and> length (unread s' @ printed (sched (tt_kernel s')) m) \<le> TTY_SIZE" using i by (simp only:) blast
  ultimately show "True \<and> (wait_body os n s = None \<or> (\<exists>s'. wait_body os n s = Some (Inr (Next, s')) \<and> ring_ok s'
      \<and> (\<forall>m. length (unread s' @ printed (sched (tt_kernel s')) m) < n
        \<and> length (unread s' @ printed (sched (tt_kernel s')) m) \<le> TTY_SIZE)))"
    using b s'(1) by blast
qed

lemma nbdtty_pread_waits:
  assumes "ring_ok st" and "unat n \<le> length (unread st @ printed (sched (tt_kernel st)) (Suc m))"
    and "length (unread st @ printed (sched (tt_kernel st)) (Suc m)) \<le> TTY_SIZE"
    and "\<And>i. i < m \<Longrightarrow> length (unread st @ printed (sched (tt_kernel st)) (Suc i)) < unat n"
  shows "\<exists>st'. nbdtty_pread os h n off fl st
      = Inr (0, take (unat n) (unread st @ printed (sched (tt_kernel st)) (Suc m)), st') \<and> ring_ok st'
    \<and> unread st' = drop (unat n) (unread st @ printed (sched (tt_kernel st)) (Suc m))
    \<and> sched (tt_kernel st') = (\<lambda>i. sched (tt_kernel st) (Suc m + i))"
proof -
  let ?n = "unat n"
  from wait_ends [OF assms] obtain st1 where w: "while_flow (\<lambda>_. True) (wait_body os ?n) st = Some (Inr (Next, st1))"
    and ok: "ring_ok st1" and rw: "tt_rwhence st1 = tt_rwhence st"
    and all: "unread st1 = unread st @ printed (sched (tt_kernel st)) (Suc m)"
    and sc: "sched (tt_kernel st1) = (\<lambda>i. sched (tt_kernel st) (Suc m + i))" by blast
  have le: "?n \<le> length (unread st1)" "?n \<le> TTY_SIZE"
    using assms(2,3) unfolding all by (blast, linarith)
  have g: "ring_get (tt_rwhence st mod TTY_SIZE) ?n (tt_ringbuffer st1)
      = Inr (map (\<lambda>i. tt_ringbuffer st1 ! (i mod TTY_SIZE)) [tt_rwhence st1..<tt_rwhence st1 + ?n])"
    unfolding rw [symmetric] by (rule ring_get_in) (use le ok in \<open>simp_all add: ring_ok_def\<close>)
  have sp: "tt_rwhence st1 + ?n \<le> tt_wwhence st1"
    using le ok unfolding ring_ok_def length_unread by linarith
  have d: "map (\<lambda>i. tt_ringbuffer st1 ! (i mod TTY_SIZE)) [tt_rwhence st1..<tt_rwhence st1 + ?n]
      = take ?n (unread st1)" using sp by (simp add: unread_def take_map)
  let ?st2 = "st1\<lparr>tt_rwhence := tt_rwhence st1 + ?n\<rparr>"
  have u2: "unread ?st2 = drop ?n (unread st1)" by (simp add: unread_def drop_map)
  have ok2: "ring_ok ?st2" using ok sp by (auto simp: ring_ok_def)
  obtain b where "nbdtty_pread os h n off fl st = Inr (0, take ?n (unread st1), set_flag os b ?st2)"
    using w g d by (auto simp: nbdtty_pread_def Let_def)
  then show ?thesis using ok2 u2 sc unfolding all by simp
qed

text \<open>What a print does when there is no room for it.\<close>

lemma tty_write_overwrites:
  assumes "ring_ok st" and "TTY_SIZE < length (unread st) + n" and "n \<le> TTY_SIZE" and "n \<le> length buf"
  shows "\<exists>st'. tty_write os buf n st = ret (0, st') \<and> tt_rwhence st' = tt_rwhence st
    \<and> tt_ringbuffer st' ! (tt_rwhence st mod TTY_SIZE) = buf ! (tt_rwhence st + TTY_SIZE - tt_wwhence st)"
proof -
  let ?w = "tt_wwhence st" and ?r = "tt_rwhence st"
  obtain k where k: "WaitEventFlag os (tt_ev st) EF_TTY_TRANSFER_IDLE st = ret (st\<lparr>tt_kernel := k\<rparr>)"
    using wait_idle by blast
  have l: "length (take n buf) = n" "length (tt_ringbuffer st) = TTY_SIZE + 1"
    using assms(1,4) by (simp_all add: ring_ok_def)
  have le: "?r \<le> ?w" "?w - ?r \<le> TTY_SIZE" "TTY_SIZE < ?w - ?r + n"
    using assms(1,2) by (simp_all add: ring_ok_def)
  have "length (take n buf) \<le> TTY_SIZE" using l assms(3) by simp
  from ring_put_in [OF this l(2), of ?w] l(1)
  obtain ring where r: "ring_put (?w mod TTY_SIZE) (take n buf) (tt_ringbuffer st) = Inr ring"
    and new: "\<And>j. j < n \<Longrightarrow> ring ! ((?w + j) mod TTY_SIZE) = take n buf ! j" by metis
  define j where "j = ?r + TTY_SIZE - ?w"
  have j: "j < n" "?w + j = ?r + TTY_SIZE" using le unfolding j_def by linarith+
  have "(?w + j) mod TTY_SIZE = ?r mod TTY_SIZE" unfolding j(2) by simp
  then have "ring ! (?r mod TTY_SIZE) = buf ! j" using new [OF j(1)] j(1) by simp
  then show ?thesis
    using k r assms(4) by (simp add: tty_write_def mem_read_def Let_def set_flag_def j_def)
qed

lemma tty_write_overruns:
  assumes "ring_ok st" and "2 * TTY_SIZE + 1 < n" and "n \<le> length buf"
  shows "tty_write os buf n st = Some (Inl Out_Of_Bounds)"
proof -
  let ?p = "tt_wwhence st mod TTY_SIZE" and ?d = "take n buf"
  let ?sz = "TTY_SIZE - ?p"
  obtain k where k: "WaitEventFlag os (tt_ev st) EF_TTY_TRANSFER_IDLE st = ret (st\<lparr>tt_kernel := k\<rparr>)"
    using wait_idle by blast
  have p: "?p < TTY_SIZE" by simp
  have l: "length ?d = n" "length (tt_ringbuffer st) = TTY_SIZE + 1" using assms by (simp_all add: ring_ok_def)
  have big: "TTY_SIZE < ?p + length ?d" using assms(2) l by linarith
  have "length (take ?sz ?d) = ?sz" using l p assms(2) unfolding length_take by linarith
  then have pz: "?p + length (take ?sz ?d) \<le> length (tt_ringbuffer st)" using l p by linarith
  have "\<not> 0 + length (drop ?sz ?d) \<le> length (splice ?p (take ?sz ?d) (tt_ringbuffer st))"
    unfolding length_splice [OF pz] length_drop l using assms(2) p by linarith
  then have "ring_put ?p ?d (tt_ringbuffer st) = Inl Out_Of_Bounds"
    using big pz by (simp only: ring_put_def mem_write_def Let_def if_True if_False bindr_simps)
  then show ?thesis using k assms(3) by (simp add: tty_write_def mem_read_def Let_def set_flag_def)
qed

end

section \<open>One print and one read as queue operations\<close>

definition tty_put :: "'k tty_sys \<Rightarrow> byte list \<Rightarrow> 'k tty \<Rightarrow> 'k tty option" where
  "tty_put os d st = (if length d \<le> TTY_SIZE
     then (case tty_write os d (length d) st of Some (Inr r) \<Rightarrow> Some (snd r) | _ \<Rightarrow> None) else None)"

definition tty_get :: "'k tty_sys \<Rightarrow> nat \<Rightarrow> 'k tty \<Rightarrow> (byte list \<times> 'k tty) option" where
  "tty_get os n st = (if n \<le> TTY_SIZE
     then (case nbdtty_pread os None (of_nat n) 0 0 st of Inr r \<Rightarrow> Some (snd r) | _ \<Rightarrow> None) else None)"

context tty_kernel begin

text \<open>With no prints during the waits, printing and reading are the two operations of a queue of 4096 bytes.\<close>

sublocale fifo: byte_fifo "tty_put os" "tty_get os" unread TTY_SIZE "\<lambda>st. ring_ok st \<and> (\<forall>i. sched (tt_kernel st) i = [])"
proof
  fix st :: "'k tty" and d :: "byte list" and n
  assume ok: "ring_ok st \<and> (\<forall>i. sched (tt_kernel st) i = [])"
  show "\<exists>st'. tty_put os d st = Some st' \<and> (ring_ok st' \<and> (\<forall>i. sched (tt_kernel st') i = [])) \<and> unread st' = unread st @ d"
    if fit: "length (unread st) + length d \<le> TTY_SIZE"
    using tty_write_appends [of st "length d" d] ok fit by (auto simp: tty_put_def ret_def)
  show "\<exists>st'. tty_get os n st = Some (take n (unread st), st') \<and> (ring_ok st' \<and> (\<forall>i. sched (tt_kernel st') i = []))
      \<and> unread st' = drop n (unread st)" if le: "n \<le> length (unread st)"
  proof -
    have n: "n \<le> TTY_SIZE" using le ok unfolding ring_ok_def length_unread by linarith
    then have "unat (of_nat n :: u32) = n" by (simp add: unat_of_nat TTY_SIZE_def)
    moreover have "length (unread st) \<le> TTY_SIZE" using ok by (simp add: ring_ok_def)
    ultimately show ?thesis using nbdtty_pread_waits [of st "of_nat n" 0 None 0 0] ok le n
      by (auto simp: tty_get_def)
  qed
qed

lemmas tty_session = fifo.session_in_order

end

section \<open>A kernel\<close>

text \<open>
  The state of the kernel is the list of the prints of the waits to come, one list for each of them; it
  is empty in the end.
\<close>

definition idle_tty :: "byte list list list tty_sys" where
  "idle_tty = \<lparr>WaitEventFlag = (\<lambda>e b st. ret st), SetEventFlag = (\<lambda>e b k. k), CreateEventFlag = (\<lambda>b k. (1, k)),
     close_fd = (\<lambda>fd k. k), DelDrv = (\<lambda>n k. k), AddDrv = (\<lambda>d k. (0, k)), open_dev = (\<lambda>n f k. k)\<rparr>"

definition demo_sched :: "byte list list list \<Rightarrow> nat \<Rightarrow> byte list list" where
  "demo_sched k i = (if i < length k then k ! i else [])"

definition demo_wait :: "int \<Rightarrow> nat \<Rightarrow> byte list list list tty \<Rightarrow> byte list list list tty run" where
  "demo_wait e b st =
     (if b = EF_TTY_TRANSFER_DATA
      then bindp (prints idle_tty (demo_sched (tt_kernel st) 0) st) (\<lambda>st'.
           ret (st'\<lparr>tt_kernel := drop 1 (tt_kernel st)\<rparr>))
      else ret st)"

definition demo_tty :: "byte list list list tty_sys" where
  "demo_tty = idle_tty\<lparr>WaitEventFlag := demo_wait\<rparr>"

lemma demo_prints: "prints demo_tty ds st = prints idle_tty ds st"
proof -
  have "tty_write demo_tty d n st = tty_write idle_tty d n st" for d n st
    by (simp add: tty_write_def set_flag_def demo_tty_def idle_tty_def demo_wait_def
      EF_TTY_TRANSFER_IDLE_def EF_TTY_TRANSFER_DATA_def Let_def)
  then have w: "tty_write demo_tty = tty_write idle_tty" by blast
  show ?thesis
  proof (induction ds arbitrary: st)
    case (Cons d ds)
    then have "prints demo_tty ds = prints idle_tty ds" by blast
    then show ?case by (simp add: w)
  qed simp
qed

interpretation demo: tty_kernel demo_tty demo_sched
proof
  fix st st' :: "byte list list list tty"
  assume "prints demo_tty (demo_sched (tt_kernel st) 0) st = ret st'"
  then have "WaitEventFlag demo_tty (tt_ev st) EF_TTY_TRANSFER_DATA st
      = ret (st'\<lparr>tt_kernel := drop 1 (tt_kernel st)\<rparr>)"
    by (simp add: demo_prints) (simp add: demo_tty_def demo_wait_def)
  moreover have "demo_sched (drop 1 (tt_kernel st)) = (\<lambda>i. demo_sched (tt_kernel st) (Suc i))"
    by (intro ext) (auto simp: demo_sched_def)
  ultimately show "\<exists>k. WaitEventFlag demo_tty (tt_ev st) EF_TTY_TRANSFER_DATA st = ret (st'\<lparr>tt_kernel := k\<rparr>)
      \<and> demo_sched k = (\<lambda>i. demo_sched (tt_kernel st) (Suc i))" by blast
next
  fix st :: "byte list list list tty"
  show "\<exists>k. WaitEventFlag demo_tty (tt_ev st) EF_TTY_TRANSFER_IDLE st = ret (st\<lparr>tt_kernel := k\<rparr>)
      \<and> demo_sched k = demo_sched (tt_kernel st)"
    by (intro exI [of _ "tt_kernel st"])
      (simp add: demo_tty_def demo_wait_def EF_TTY_TRANSFER_IDLE_def EF_TTY_TRANSFER_DATA_def)
qed (simp add: demo_tty_def idle_tty_def)

section \<open>Properties of the terminal\<close>

text \<open>
  C30.  A read of the terminal waits until enough has been printed.  Whatever the other threads print
  during its waits, by \<^verbatim>\<open>tty_write\<close> and possibly nothing for many of them: when after the first \<open>m\<close> waits,
  and not before, there are as many bytes unread as the read asks for, and not more than the 4096 of the
  ring, the read returns the oldest of them in order, and leaves the rest for the next read.  When this
  never happens and the ring never overflows, the read never returns.  What a print does to a ring
  without room is C31.
\<close>

theorem tty_read_waits:
  assumes "tty_kernel os sched" and "ring_ok st" and "s = sched (tt_kernel st)"
  shows "(\<forall>m > 0. unat n \<le> length (unread st @ printed s m) \<and> length (unread st @ printed s m) \<le> TTY_SIZE
      \<and> (\<forall>i. 0 < i \<and> i < m \<longrightarrow> length (unread st @ printed s i) < unat n) \<longrightarrow>
      (\<exists>st'. nbdtty_pread os h n off fl st = Inr (0, take (unat n) (unread st @ printed s m), st')
        \<and> ring_ok st' \<and> unread st' = drop (unat n) (unread st @ printed s m)
        \<and> (\<forall>i. sched (tt_kernel st') i = s (m + i))))
    \<and> ((\<forall>m. length (unread st @ printed s m) < unat n \<and> length (unread st @ printed s m) \<le> TTY_SIZE) \<longrightarrow>
      nbdtty_pread os h n off fl st = Inl No_Return)"
proof (intro conjI allI impI)
  fix m
  assume m: "0 < m" and e: "unat n \<le> length (unread st @ printed s m)
      \<and> length (unread st @ printed s m) \<le> TTY_SIZE
      \<and> (\<forall>i. 0 < i \<and> i < m \<longrightarrow> length (unread st @ printed s i) < unat n)"
  obtain j where j: "m = Suc j" using m gr0_conv_Suc by blast
  show "\<exists>st'. nbdtty_pread os h n off fl st = Inr (0, take (unat n) (unread st @ printed s m), st')
      \<and> ring_ok st' \<and> unread st' = drop (unat n) (unread st @ printed s m)
      \<and> (\<forall>i. sched (tt_kernel st') i = s (m + i))"
    using tty_kernel.nbdtty_pread_waits [OF assms(1,2), of n j h off fl] e
    unfolding j assms(3) by fastforce
next
  assume "\<forall>m. length (unread st @ printed s m) < unat n \<and> length (unread st @ printed s m) \<le> TTY_SIZE"
  then have "while_flow (\<lambda>_. True) (wait_body os (unat n)) st = None"
    using tty_kernel.wait_diverges [OF assms(1,2)] unfolding assms(3) by blast
  then show "nbdtty_pread os h n off fl st = Inl No_Return" by (simp add: nbdtty_pread_def Let_def)
qed

text \<open>Nothing is printed during the first wait, a byte during the second, two prints during the third.\<close>

theorem tty_read_waits_witness:
  "(\<exists>st'. nbdtty_pread demo_tty None 2 0 0 (tty_start [[], [''a''], [''b'', ''c'']]) = Inr (0, ''ab'', st')
      \<and> unread st' = ''c'')
   \<and> nbdtty_pread demo_tty None 4 0 0 (tty_start [[], [''a''], [''b'', ''c'']]) = Inl No_Return"
proof -
  let ?k = "[[], [''a''], [''b'', ''c'']]" let ?st = "tty_start ?k"
  have ok: "ring_ok ?st" and u: "unread ?st = []" and k: "tt_kernel ?st = ?k"
    by (simp_all add: ring_ok_def tty_start_def unread_def)
  have p: "printed (demo_sched ?k) 1 = []" "printed (demo_sched ?k) 2 = ''a''" "printed (demo_sched ?k) 3 = ''abc''"
    by (simp_all add: printed_def demo_sched_def numeral_eq_Suc)
  have late: "printed (demo_sched ?k) (3 + i) = ''abc''" for i
  proof (induction i)
    case (Suc i)
    have "demo_sched ?k (3 + i) = []" by (simp add: demo_sched_def)
    then show ?case using Suc by (simp only: add_Suc_right printed_simps concat.simps append_Nil2)
  qed (simp only: p(3) add_0_right)
  have le: "length (printed (demo_sched ?k) m) \<le> 3" for m
  proof (cases "m < 3")
    case True
    then have "m = 0 \<or> m = 1 \<or> m = 2" by linarith
    then show ?thesis by (auto simp: p simp del: One_nat_def)
  next
    case False
    then show ?thesis using late [of "m - 3"] by simp
  qed
  have t: "(3 :: nat) \<le> TTY_SIZE" by (simp add: TTY_SIZE_def)
  note read = tty_read_waits [OF demo.tty_kernel_axioms ok refl, unfolded k u append_Nil]
  have first: "length (printed (demo_sched ?k) i) < unat (2 :: u32)" if "0 < i" "i < 3" for i
  proof -
    have "i = 1 \<or> i = 2" using that by linarith
    then show ?thesis by (auto simp: p simp del: One_nat_def)
  qed
  have "\<exists>st'. nbdtty_pread demo_tty None 2 0 0 ?st = Inr (0, ''ab'', st') \<and> unread st' = ''c''"
    using read [of 2 None 0 0, THEN conjunct1, rule_format, of 3] p(3) t first by auto
  moreover have "length (printed (demo_sched ?k) m) < unat (4 :: u32) \<and> length (printed (demo_sched ?k) m) \<le> TTY_SIZE" for m
    using le [of m] t by simp
  then have "nbdtty_pread demo_tty None 4 0 0 ?st = Inl No_Return"
    using read [of 4 None 0 0, THEN conjunct2] by blast
  ultimately show ?thesis by blast
qed

text \<open>
  C31.  A print for which the ring has room is appended to what is waiting to be read.  But
  \<^verbatim>\<open>tty_write\<close> does not look whether there is room: a print with too little of it takes the place of
  the oldest byte the reader has not seen, and one of more than twice the size of the ring runs over
  the memory behind it.
\<close>

theorem tty_write_room:
  assumes "tty_kernel os sched" and "ring_ok st" and "n \<le> length buf"
  shows "if 2 * TTY_SIZE + 1 < n then tty_write os buf n st = Some (Inl Out_Of_Bounds)
    else if length (unread st) + n \<le> TTY_SIZE
    then \<exists>st'. tty_write os buf n st = ret (0, st') \<and> ring_ok st' \<and> unread st' = unread st @ take n buf
    else n \<le> TTY_SIZE \<longrightarrow>
      (\<exists>st'. tty_write os buf n st = ret (0, st') \<and> tt_rwhence st' = tt_rwhence st
        \<and> tt_ringbuffer st' ! (tt_rwhence st mod TTY_SIZE) = buf ! (tt_rwhence st + TTY_SIZE - tt_wwhence st))"
  using tty_kernel.tty_write_appends [OF assms(1,2) _ assms(3)]
    tty_kernel.tty_write_overwrites [OF assms(1,2) _ _ assms(3)]
    tty_kernel.tty_write_overruns [OF assms(1,2) _ assms(3)] by (auto simp: not_le)

theorem tty_write_room_witness:
  "\<exists>st'. tty_write demo_tty ''hello'' 5 (tty_start []) = ret (0, st') \<and> unread st' = ''hello''"
proof -
  have st: "ring_ok (tty_start [])" "tt_wwhence (tty_start []) = 0" "unread (tty_start []) = []"
    by (simp_all add: ring_ok_def tty_start_def unread_def)
  have "(5 :: nat) \<le> length ''hello''" by simp
  from tty_write_room [OF demo.tty_kernel_axioms st(1) this] show ?thesis
    by (auto simp: st TTY_SIZE_def)
qed

text \<open>
  C32.  A session of prints and reads that never overfills the ring and never asks for more than has
  been printed gives the reader exactly the bytes that were printed, in order.
\<close>

theorem tty_in_order:
  assumes "tty_kernel os sched" and "ring_ok st" and "unread st = []" and "\<forall>i. sched (tt_kernel st) i = []"
    and "fits_queue TTY_SIZE 0 ops"
  shows "\<exists>st'. byte_fifo.session (tty_put os) (tty_get os) ops st
      = Some (take (gets ops) (puts ops), st') \<and> unread st' = drop (gets ops) (puts ops)"
  using tty_kernel.tty_session [OF assms(1), of st ops] assms(2-5) by auto

theorem tty_in_order_witness:
  "\<exists>st'. byte_fifo.session (tty_put demo_tty) (tty_get demo_tty) [Inl ''ab'', Inr 1, Inl ''c'', Inr 1] (tty_start [])
     = Some (''ab'', st') \<and> unread st' = ''c''"
proof -
  have "ring_ok (tty_start [])" "unread (tty_start []) = []" "\<forall>i. demo_sched (tt_kernel (tty_start [])) i = []"
    by (simp_all add: ring_ok_def tty_start_def unread_def demo_sched_def)
  then show ?thesis
    using tty_in_order [OF demo.tty_kernel_axioms, of "tty_start []" "[Inl ''ab'', Inr 1, Inl ''c'', Inr 1]"]
    by (auto simp: TTY_SIZE_def)
qed

end
