(* ===== verification/Device_Plugins.thy ===== *)
theory Device_Plugins
  imports Handles Plugins Block_Device
begin

text \<open>
  The plugins that pass their calls on to a driver of the console: \<^verbatim>\<open>plugins/pcmstream/pcmstream.c\<close>
  (sound), \<^verbatim>\<open>plugins/atad\<close> (the hard disk) and \<^verbatim>\<open>plugins/bdm/bdm.c\<close> (mass storage).  The drivers are
  parameters; \<open>ata_disk\<close> states what the disk plugin relies on and gives \<open>block_device\<close>.
\<close>

section \<open>Sound\<close>

record 'a audsrv =
  audsrv_init :: "'a \<Rightarrow> int \<times> 'a"
  audsrv_set_volume :: "u8 \<Rightarrow> 'a \<Rightarrow> 'a"
  audsrv_set_format :: "int \<Rightarrow> int \<Rightarrow> int \<Rightarrow> 'a \<Rightarrow> 'a"
  audsrv_wait_audio :: "u32 \<Rightarrow> 'a \<Rightarrow> 'a"
  audsrv_play_audio :: "byte list \<Rightarrow> 'a \<Rightarrow> 'a"
  audsrv_quit :: "'a \<Rightarrow> 'a"

definition PCM_DRIVER_MAX_DEVICES :: nat where "PCM_DRIVER_MAX_DEVICES = 1"

record pcmstream_config =
  pc_name :: string
  pc_desc :: string
  pc_rate :: int
  pc_bits :: int
  pc_channels :: int
  pc_volume :: u8

record 'a pcmstream =
  ps_handles :: "pcmstream_config list"
  ps_in_use :: "handle_state list"
  ps_audio :: 'a

definition pcmstream_start :: "'a \<Rightarrow> 'a pcmstream" where
  "pcmstream_start a =
     \<lparr>ps_handles = replicate PCM_DRIVER_MAX_DEVICES
        \<lparr>pc_name = [], pc_desc = [], pc_rate = 0, pc_bits = 0, pc_channels = 0, pc_volume = 0\<rparr>,
      ps_in_use = replicate PCM_DRIVER_MAX_DEVICES HANDLE_FREE, ps_audio = a\<rparr>"

definition pcmstream_set_volume :: "'a audsrv \<Rightarrow> nat \<Rightarrow> u8 \<Rightarrow> 'a pcmstream \<Rightarrow> (int \<times> 'a pcmstream) result" where
  "pcmstream_set_volume os i volume st =
     bindr (handle_at (ps_handles st) (Some i)) (\<lambda>h.
     bindr (set_handle i (h\<lparr>pc_volume := volume\<rparr>) (ps_handles st)) (\<lambda>hs.
     Inr (0, st\<lparr>ps_handles := hs, ps_audio := audsrv_set_volume os volume (ps_audio st)\<rparr>)))"

text \<open>The read stores nothing into the buffer.\<close>

definition pcmstream_pread ::
  "handle \<Rightarrow> u32 \<Rightarrow> u64 \<Rightarrow> u32 \<Rightarrow> 'a pcmstream \<Rightarrow> (int \<times> byte list \<times> 'a pcmstream) result" where
  "pcmstream_pread handle count offset flags st = Inr (0, [], st)"

definition pcmstream_pwrite ::
  "'a audsrv \<Rightarrow> handle \<Rightarrow> byte list \<Rightarrow> u32 \<Rightarrow> u64 \<Rightarrow> u32 \<Rightarrow> 'a pcmstream \<Rightarrow> (int \<times> 'a pcmstream) result" where
  "pcmstream_pwrite os handle buf count offset flags st =
     bindr (mem_read 0 (unat count) buf) (\<lambda>d.
     Inr (0, st\<lparr>ps_audio := audsrv_play_audio os d (audsrv_wait_audio os count (ps_audio st))\<rparr>))"

definition pcmstream_flush :: "handle \<Rightarrow> u32 \<Rightarrow> 'a pcmstream \<Rightarrow> (int \<times> 'a pcmstream) result" where
  "pcmstream_flush handle flags st = Inr (0, st)"

definition pcmstream_ctor ::
  "'a audsrv \<Rightarrow> pcmstream_config \<Rightarrow> lwnbd_context option \<Rightarrow> 'a pcmstream
    \<Rightarrow> (int \<times> lwnbd_context option \<times> 'a pcmstream) result" where
  "pcmstream_ctor os pconfig c st =
     (let (i, in_use) = take_handle (ps_in_use st)
      in bindr (set_handle i pconfig (ps_handles st)) (\<lambda>hs.
         bindr (set_name (map_option (\<lambda>c. c\<lparr>ctx_handle := Some i\<rparr>) c) (pc_name pconfig)) (\<lambda>c1.
         bindr (strcpy_field 64 (pc_desc pconfig)) (\<lambda>d.
         let c2 = Some (c1\<lparr>ctx_description := d\<rparr>);
             (r, a) = audsrv_init os (ps_audio st);
             st1 = st\<lparr>ps_handles := hs, ps_in_use := in_use, ps_audio := a\<rparr>
         in if r \<noteq> 0 then Inr (- 1, c2, st1)
            else Inr (0, c2, st1\<lparr>ps_audio := audsrv_set_volume os (pc_volume pconfig)
                   (audsrv_set_format os (pc_rate pconfig) (pc_bits pconfig) (pc_channels pconfig) a)\<rparr>)))))"

definition pcmstream_block_size :: "handle \<Rightarrow> 'a pcmstream \<Rightarrow> (int \<times> u32 \<times> u32 \<times> u32) result" where
  "pcmstream_block_size handle st = Inr (0, 1, 1, 1)"

definition pcmstream_close :: "'a audsrv \<Rightarrow> handle \<Rightarrow> 'a pcmstream \<Rightarrow> 'a pcmstream result" where
  "pcmstream_close os handle st = Inr (st\<lparr>ps_audio := audsrv_quit os (ps_audio st)\<rparr>)"

definition pcmstream_plugin :: "'a audsrv \<Rightarrow> (pcmstream_config, 'a pcmstream) lwnbd_plugin_t" where
  "pcmstream_plugin os = null_plugin
     \<lparr>pl_name := ''pcmstream'', pl_longname := ''lwnbd generic pcmstream plugin'', pl_version := ''TODO'',
      pl_close := Some (pcmstream_close os), pl_get_size := Some stream_get_size,
      pl_pread := Some pcmstream_pread, pl_pwrite := Some (pcmstream_pwrite os),
      pl_flush := Some pcmstream_flush, pl_block_size := Some pcmstream_block_size,
      pl_ctor := Some (pcmstream_ctor os)\<rparr>"

text \<open>The plugin keeps to what the registry relies on.\<close>

lemma pcmstream_ctor_fits:
  assumes run: "pcmstream_ctor os cfg (Some c) st = Inr (r, Some c', st')"
  shows "length (ctx_name c') < 32 \<and> length (ctx_description c') < 64 \<and> ctx_p c' = ctx_p c"
proof -
  obtain a ra where a: "audsrv_init os (ps_audio st) = (ra, a)" by (cases "audsrv_init os (ps_audio st)")
  show ?thesis using run
    by (auto simp: a pcmstream_ctor_def set_name_def bindr_Inr_iff deref_def Let_def
        split: option.splits prod.splits if_splits)
qed

interpretation pcm_content: content_plugin "pcmstream_plugin os"
  by unfold_locales (auto simp: pcmstream_plugin_def null_plugin_def dest!: pcmstream_ctor_fits)

text \<open>
  It stays within the buffers of a server, but its reads report success and store nothing: the server
  sends what its buffer holds (\<open>Transmission_Errors.read_of_nothing\<close>).
\<close>

interpretation pcm: bounded_device pcmstream_pread 1 "\<lambda>_ _. True" "pcmstream_pwrite os" pcmstream_flush
  by unfold_locales (auto simp: pcmstream_pread_def pcmstream_pwrite_def pcmstream_flush_def mem_read_def)

lemma pcmstream_short_read: "short_read pcmstream_pread 1 (\<lambda>_ _. True)"
  unfolding short_read_def pcmstream_pread_def by (intro exI [of _ "1 :: u32"] exI conjI) simp_all

section \<open>The hard disk\<close>

text \<open>
  \<open>ata_read\<close> and \<open>ata_write\<close> are \<^verbatim>\<open>ata_device_sector_io\<close> with its last argument \<^verbatim>\<open>ATA_DIR_READ\<close> and
  \<^verbatim>\<open>ATA_DIR_WRITE\<close>; \<open>ata_get_devinfo\<close> gives the members \<^verbatim>\<open>exists\<close> and \<^verbatim>\<open>total_sectors\<close>.
\<close>

record 'd ata_sys =
  ata_get_devinfo :: "int \<Rightarrow> 'd \<Rightarrow> (bool \<times> u32) option"
  ata_read :: "int \<Rightarrow> u32 \<Rightarrow> u32 \<Rightarrow> 'd \<Rightarrow> int \<times> byte list \<times> 'd"
  ata_write :: "int \<Rightarrow> byte list \<Rightarrow> u32 \<Rightarrow> u32 \<Rightarrow> 'd \<Rightarrow> int \<times> 'd"
  ata_device_flush_cache :: "int \<Rightarrow> 'd \<Rightarrow> int \<times> 'd"
  ata_device_sce_identify_drive :: "int \<Rightarrow> 'd \<Rightarrow> int \<times> byte list"

definition ATAD_MAX_DEVICES :: nat where "ATAD_MAX_DEVICES = 2"

record atad_handle =
  ah_device :: int
  ah_size :: u64

record 'd atad =
  at_handles :: "atad_handle list"
  at_disk :: 'd

definition atad_start :: "'d \<Rightarrow> 'd atad" where
  "atad_start d = \<lparr>at_handles = replicate ATAD_MAX_DEVICES \<lparr>ah_device = 0, ah_size = 0\<rparr>, at_disk = d\<rparr>"

definition atad_pread ::
  "'d ata_sys \<Rightarrow> handle \<Rightarrow> u32 \<Rightarrow> u64 \<Rightarrow> u32 \<Rightarrow> 'd atad \<Rightarrow> (int \<times> byte list \<times> 'd atad) result" where
  "atad_pread os handle count offset flags st =
     bindr (handle_at (at_handles st) handle) (\<lambda>h.
     let (r, b, d) = ata_read os (ah_device h) (ucast offset) count (at_disk st)
     in Inr (r, b, st\<lparr>at_disk := d\<rparr>))"

definition atad_pwrite ::
  "'d ata_sys \<Rightarrow> handle \<Rightarrow> byte list \<Rightarrow> u32 \<Rightarrow> u64 \<Rightarrow> u32 \<Rightarrow> 'd atad \<Rightarrow> (int \<times> 'd atad) result" where
  "atad_pwrite os handle buf count offset flags st =
     bindr (handle_at (at_handles st) handle) (\<lambda>h.
     let (r, d) = ata_write os (ah_device h) buf (ucast offset) count (at_disk st)
     in Inr (r, st\<lparr>at_disk := d\<rparr>))"

definition atad_flush :: "'d ata_sys \<Rightarrow> handle \<Rightarrow> u32 \<Rightarrow> 'd atad \<Rightarrow> (int \<times> 'd atad) result" where
  "atad_flush os handle flags st =
     bindr (handle_at (at_handles st) handle) (\<lambda>h.
     let (r, d) = ata_device_flush_cache os (ah_device h) (at_disk st) in Inr (r, st\<lparr>at_disk := d\<rparr>))"

definition atad_ctor ::
  "'d ata_sys \<Rightarrow> int \<Rightarrow> lwnbd_context option \<Rightarrow> 'd atad \<Rightarrow> (int \<times> lwnbd_context option \<times> 'd atad) result" where
  "atad_ctor os device c st =
     (case ata_get_devinfo os device (at_disk st) of
        None \<Rightarrow> Inr (1, c, st)
      | Some (present, total_sectors) \<Rightarrow>
          if \<not> present then Inr (1, c, st)
          else if device < 0 then Inl Out_Of_Bounds
          else bindr (set_handle (nat device) \<lparr>ah_device = device, ah_size = ucast total_sectors * 512\<rparr>
                        (at_handles st)) (\<lambda>hs.
               bindr (set_name c (''hdd'' @ digits (nat device))) (\<lambda>c1.
               Inr (0, Some (c1\<lparr>ctx_handle := Some (nat device)\<rparr>), st\<lparr>at_handles := hs\<rparr>))))"

definition atad_get_size :: "handle \<Rightarrow> 'd atad \<Rightarrow> (u64 \<times> 'd atad) result" where
  "atad_get_size handle st = bindr (handle_at (at_handles st) handle) (\<lambda>h. Inr (ah_size h, st))"

definition atad_block_size :: "handle \<Rightarrow> 'd atad \<Rightarrow> (int \<times> u32 \<times> u32 \<times> u32) result" where
  "atad_block_size handle st = Inr (0, 512, 4096, 4096)"

definition atad_plugin :: "'d ata_sys \<Rightarrow> (int, 'd atad) lwnbd_plugin_t" where
  "atad_plugin os = null_plugin
     \<lparr>pl_name := ''atad'', pl_longname := ''PlayStation 2 HDD via ATAD'', pl_version := ''TODO'',
      pl_ctor := Some (atad_ctor os), pl_pread := Some (atad_pread os), pl_pwrite := Some (atad_pwrite os),
      pl_flush := Some (atad_flush os), pl_get_size := Some atad_get_size,
      pl_block_size := Some atad_block_size\<rparr>"

text \<open>The plugin keeps to what the registry relies on.\<close>

interpretation atad_content: content_plugin "atad_plugin os"
  by unfold_locales (auto simp: atad_plugin_def atad_ctor_def null_plugin_def set_name_def bindr_Inr_iff
      deref_def Let_def split: option.splits prod.splits if_splits)

text \<open>
  \<^verbatim>\<open>atad_query.c\<close>, which nothing includes.  The command it fills in is \<^verbatim>\<open>identify\<close> or none; \<^verbatim>\<open>strcmp\<close>
  is not zero when the strings differ.
\<close>

record ata_command =
  ac_identify :: bool
  ac_argc :: int
  ac_size :: int

definition identify :: "'d ata_sys \<Rightarrow> int \<Rightarrow> 'd \<Rightarrow> int \<times> byte list" where
  "identify os argc d = ata_device_sce_identify_drive os argc d"

definition atad_ctrl :: "handle \<Rightarrow> string \<Rightarrow> ata_command \<Rightarrow> 'd atad \<Rightarrow> (int \<times> ata_command) result" where
  "atad_ctrl handle path cmd st =
     (if ''identify'' \<noteq> path
      then bindr (handle_at (at_handles st) handle) (\<lambda>h.
           Inr (0, cmd\<lparr>ac_identify := True, ac_argc := ah_device h, ac_size := 256\<rparr>))
      else Inr (- 1, cmd))"

section \<open>Mass storage\<close>

text \<open>
  \<open>bd_read\<close> is the member \<^verbatim>\<open>read\<close> of the device.  The pointer that \<^verbatim>\<open>bdm_ctor\<close> passes to
  \<^verbatim>\<open>bdm_get_bd\<close> has no value.
\<close>

record 'd bdm_device =
  bd_name :: string
  bd_sectorSize :: u32
  bd_sectorCount :: u32
  bd_read :: "u32 \<Rightarrow> u16 \<Rightarrow> 'd \<Rightarrow> int \<times> byte list \<times> 'd"

definition MAX_CONNECTIONS :: nat where "MAX_CONNECTIONS = 20"

record 'd bdm =
  bm_handles :: "'d bdm_device option list"
  bm_disk :: 'd

definition bdm_start :: "'d \<Rightarrow> 'd bdm" where
  "bdm_start d = \<lparr>bm_handles = replicate MAX_CONNECTIONS None, bm_disk = d\<rparr>"

definition bdm_device_at :: "handle \<Rightarrow> 'd bdm \<Rightarrow> 'd bdm_device result" where
  "bdm_device_at handle st = bindr (handle_at (bm_handles st) handle) deref"

definition bdm_pread ::
  "handle \<Rightarrow> u32 \<Rightarrow> u64 \<Rightarrow> u32 \<Rightarrow> 'd bdm \<Rightarrow> (int \<times> byte list \<times> 'd bdm) result" where
  "bdm_pread handle count offset flags st =
     bindr (bdm_device_at handle st) (\<lambda>dev.
     let (r, b, d) = bd_read dev (ucast offset) (ucast count) (bm_disk st) in Inr (r, b, st\<lparr>bm_disk := d\<rparr>))"

definition bdm_pwrite ::
  "handle \<Rightarrow> byte list \<Rightarrow> u32 \<Rightarrow> u64 \<Rightarrow> u32 \<Rightarrow> 'd bdm \<Rightarrow> (int \<times> 'd bdm) result" where
  "bdm_pwrite handle buf count offset flags st = Inr (0, st)"

definition bdm_flush :: "handle \<Rightarrow> u32 \<Rightarrow> 'd bdm \<Rightarrow> (int \<times> 'd bdm) result" where
  "bdm_flush handle flags st = Inr (0, st)"

definition bdm_ctor ::
  "unit \<Rightarrow> lwnbd_context option \<Rightarrow> 'd bdm \<Rightarrow> (int \<times> lwnbd_context option \<times> 'd bdm) result" where
  "bdm_ctor pconfig e st = Inl Uninitialised"

definition bdm_block_size :: "handle \<Rightarrow> 'd bdm \<Rightarrow> (int \<times> u32 \<times> u32 \<times> u32) result" where
  "bdm_block_size handle st =
     bindr (bdm_device_at handle st) (\<lambda>dev. let s = bd_sectorSize dev in Inr (0, s, s, s))"

definition bdm_get_size :: "handle \<Rightarrow> 'd bdm \<Rightarrow> (u64 \<times> 'd bdm) result" where
  "bdm_get_size handle st =
     bindr (bdm_device_at handle st) (\<lambda>d. Inr (ucast (bd_sectorSize d) * ucast (bd_sectorCount d), st))"

definition bdm_plugin :: "(unit, 'd bdm) lwnbd_plugin_t" where
  "bdm_plugin = null_plugin
     \<lparr>pl_name := ''bdm'', pl_longname := ''PlayStation 2 BDM plugin'', pl_version := ''TODO'',
      pl_ctor := Some bdm_ctor, pl_pread := Some bdm_pread, pl_get_size := Some bdm_get_size,
      pl_block_size := Some bdm_block_size\<rparr>"

section \<open>The disk as a block device\<close>

text \<open>
  \<open>disk device\<close> are the sectors of a disk, as many as a 32-bit number counts at most; the driver reads
  and writes those that the request names.
\<close>

locale ata_disk =
  fixes os :: "'d ata_sys"
    and disk :: "int \<Rightarrow> 'd \<Rightarrow> byte list"
    and disk_ok :: "int \<Rightarrow> 'd \<Rightarrow> bool"
  assumes size32: "disk_ok i d \<Longrightarrow> length (disk i d) \<le> 2 ^ 32 * 512"
    and read_sectors: "disk_ok i d \<Longrightarrow> (unat lba + unat n) * 512 \<le> length (disk i d) \<Longrightarrow>
      \<exists>d'. ata_read os i lba n d = (0, take (unat n * 512) (drop (unat lba * 512) (disk i d)), d')
        \<and> disk_ok i d' \<and> disk i d' = disk i d"
    and write_sectors: "disk_ok i d \<Longrightarrow> (unat lba + unat n) * 512 \<le> length (disk i d) \<Longrightarrow>
      unat n * 512 \<le> length buf \<Longrightarrow>
      \<exists>d'. ata_write os i buf lba n d = (0, d') \<and> disk_ok i d'
        \<and> disk i d' = splice (unat lba * 512) (take (unat n * 512) buf) (disk i d)"
    and flush_cache: "disk_ok i d \<Longrightarrow>
      \<exists>d'. ata_device_flush_cache os i d = (0, d') \<and> disk_ok i d' \<and> disk i d' = disk i d"
begin

definition hdd_ok :: "handle \<Rightarrow> 'd atad \<Rightarrow> bool" where
  "hdd_ok hn st \<longleftrightarrow> (\<exists>i < length (at_handles st). hn = Some i \<and> disk_ok (ah_device (at_handles st ! i)) (at_disk st))"

definition hdd :: "handle \<Rightarrow> 'd atad \<Rightarrow> byte list" where
  "hdd hn st = disk (ah_device (at_handles st ! the hn)) (at_disk st)"

lemma sector_number:
  assumes "(unat (off :: u64) + n) * 512 \<le> 2 ^ 32 * 512"
  shows "unat (ucast off :: u32) = unat off \<or> n = 0 \<and> unat (ucast off :: u32) = 0"
proof (cases "unat off < 2 ^ 32")
  case True
  then show ?thesis by (simp add: unsigned_ucast_eq take_bit_nat_eq_self)
next
  case False
  then have "unat off = 2 ^ 32" "n = 0" using assms by simp_all
  then show ?thesis by (simp add: unsigned_ucast_eq take_bit_eq_mod)
qed

lemma disk_at:
  assumes "hdd_ok hn st" and "(unat (off :: u64) + unat (n :: u32)) * 512 \<le> length (hdd hn st)"
  obtains i where "hn = Some i" and "i < length (at_handles st)" and "disk_ok (ah_device (at_handles st ! i)) (at_disk st)"
    and "(unat (ucast off :: u32) + unat n) * 512 \<le> length (disk (ah_device (at_handles st ! i)) (at_disk st))"
    and "unat (ucast off :: u32) = unat off \<or> unat n = 0"
proof -
  obtain i where i: "hn = Some i" "i < length (at_handles st)" "disk_ok (ah_device (at_handles st ! i)) (at_disk st)"
    using assms(1) by (auto simp: hdd_ok_def)
  have "(unat off + unat n) * 512 \<le> 2 ^ 32 * 512"
    using order_trans [OF assms(2)] size32 [OF i(3)] i(1) by (simp add: hdd_def)
  from sector_number [OF this] show thesis using that i assms(2) by (auto simp: hdd_def)
qed

lemma atad_pread_ok:
  assumes "hdd_ok hn st" and "(unat off + unat n) * 512 \<le> length (hdd hn st)"
  shows "\<exists>st'. atad_pread os hn n off fl st = Inr (0, take (unat n * 512) (drop (unat off * 512) (hdd hn st)), st')
    \<and> hdd_ok hn st' \<and> hdd hn st' = hdd hn st"
proof -
  obtain i where i: "hn = Some i" "i < length (at_handles st)" "disk_ok (ah_device (at_handles st ! i)) (at_disk st)"
    and le: "(unat (ucast off :: u32) + unat n) * 512 \<le> length (disk (ah_device (at_handles st ! i)) (at_disk st))"
    and eq: "unat (ucast off :: u32) = unat off \<or> unat n = 0" using disk_at [OF assms] .
  from read_sectors [OF i(3) le] show ?thesis using i eq by (auto simp: atad_pread_def hdd_def hdd_ok_def)
qed

lemma atad_pwrite_ok:
  assumes "hdd_ok hn st" and "(unat off + unat n) * 512 \<le> length (hdd hn st)" and "unat n * 512 \<le> length buf"
  shows "\<exists>st'. atad_pwrite os hn buf n off fl st = Inr (0, st') \<and> hdd_ok hn st'
    \<and> hdd hn st' = splice (unat off * 512) (take (unat n * 512) buf) (hdd hn st)"
proof -
  obtain i where i: "hn = Some i" "i < length (at_handles st)" "disk_ok (ah_device (at_handles st ! i)) (at_disk st)"
    and le: "(unat (ucast off :: u32) + unat n) * 512 \<le> length (disk (ah_device (at_handles st ! i)) (at_disk st))"
    and eq: "unat (ucast off :: u32) = unat off \<or> unat n = 0" using disk_at [OF assms(1,2)] .
  from write_sectors [OF i(3) le assms(3)] show ?thesis using i eq by (auto simp: atad_pwrite_def hdd_def hdd_ok_def)
qed

lemma atad_flush_ok:
  assumes "hdd_ok hn st"
  shows "\<exists>st'. atad_flush os hn fl st = Inr (0, st') \<and> hdd_ok hn st' \<and> hdd hn st' = hdd hn st"
proof -
  obtain i where i: "hn = Some i" "i < length (at_handles st)" "disk_ok (ah_device (at_handles st ! i)) (at_disk st)"
    using assms by (auto simp: hdd_ok_def)
  from flush_cache [OF i(3)] show ?thesis using i by (auto simp: atad_flush_def hdd_def hdd_ok_def)
qed

sublocale hdd: block_device "atad_pread os" 512 hdd hdd_ok "atad_pwrite os" "atad_flush os"
  by unfold_locales (use atad_pread_ok atad_pwrite_ok atad_flush_ok in auto)

lemmas atad_read_back = hdd.read_back

end

section \<open>A disk in memory\<close>

text \<open>Device 0 is a disk of as many whole sectors as its list holds.\<close>

definition ram_ata :: "byte list ata_sys" where
  "ram_ata =
     \<lparr>ata_get_devinfo = (\<lambda>i d. if i = 0 then Some (True, of_nat (length d div 512)) else None),
      ata_read = (\<lambda>i lba n d. (0, take (unat n * 512) (drop (unat lba * 512) d), d)),
      ata_write = (\<lambda>i b lba n d. (0, splice (unat lba * 512) (take (unat n * 512) b) d)),
      ata_device_flush_cache = (\<lambda>i d. (0, d)), ata_device_sce_identify_drive = (\<lambda>i d. (0, []))\<rparr>"

interpretation ramdisk: ata_disk ram_ata "\<lambda>i d. d" "\<lambda>i d. length d \<le> 2 ^ 32 * 512"
  by unfold_locales (simp_all add: ram_ata_def add_mult_distrib min_absorb2)

section \<open>Properties of the hard disk plugin\<close>

text \<open>
  C34.  A write of sectors changes exactly these sectors of the disk and reading them gives back what
  was written.  The sector number is cut to 32 bits on its way to the driver, so any two offsets
  that agree in their low half are the same sector.
\<close>

theorem atad_write_read:
  assumes "ata_disk os disk disk_ok" and "ata_disk.hdd_ok disk_ok hn st"
    and "(unat off + unat n) * 512 \<le> length (ata_disk.hdd disk hn st)"
    and "length buf = unat n * 512" and "0 < unat n"
  shows "\<exists>st' st''. atad_pwrite os hn buf n off fl st = Inr (0, st')
    \<and> ata_disk.hdd disk hn st' = splice (unat off * 512) buf (ata_disk.hdd disk hn st)
    \<and> atad_pread os hn n off fl' st' = Inr (0, buf, st'')
    \<and> (\<forall>off'. (ucast off' :: u32) = ucast off \<longrightarrow> atad_pread os hn n off' fl' st' = Inr (0, buf, st''))"
proof -
  obtain st' where st': "atad_pwrite os hn buf n off fl st = Inr (0, st')"
    "ata_disk.hdd disk hn st' = splice (unat off * 512) buf (ata_disk.hdd disk hn st)"
    using ata_disk.atad_pwrite_ok [OF assms(1-3), of buf fl] assms(4) by auto
  obtain st'' where rd: "atad_pread os hn n off fl' st' = Inr (0, buf, st'')"
    using ata_disk.atad_read_back [OF assms(1-5) st'(1), of fl'] by auto
  have "atad_pread os hn n off' fl' st' = Inr (0, buf, st'')" if "(ucast off' :: u32) = ucast off" for off' :: u64
    using rd unfolding atad_pread_def that .
  then show ?thesis using st' rd by blast
qed

theorem atad_write_read_witness:
  "\<exists>st' st''. atad_pwrite ram_ata (Some 0) (replicate 512 CHR ''x'') 1 1 0 (atad_start (replicate 1024 NUL)) = Inr (0, st')
    \<and> atad_pread ram_ata (Some 0) 1 (2 ^ 32 + 1) 0 st' = Inr (0, replicate 512 CHR ''x'', st'')"
proof -
  let ?st = "atad_start (replicate 1024 NUL)"
  have ok: "ata_disk.hdd_ok (\<lambda>i d. length d \<le> 2 ^ 32 * 512) (Some 0) ?st"
    unfolding ramdisk.hdd_ok_def by (simp add: atad_start_def ATAD_MAX_DEVICES_def)
  have le: "(unat (1 :: u64) + unat (1 :: u32)) * 512 \<le> length (ata_disk.hdd (\<lambda>i d. d) (Some 0) ?st)"
    unfolding ramdisk.hdd_def by (simp add: atad_start_def)
  have "(ucast (2 ^ 32 + 1 :: u64) :: u32) = ucast (1 :: u64)" by simp
  then show ?thesis
    using atad_write_read [OF ramdisk.ata_disk_axioms ok le, of "replicate 512 CHR ''x''" 0 0] by fastforce
qed

end
