(* ===== verification/Xinetd_Config.thy ===== *)
theory Xinetd_Config
  imports Lwnbd_Prelude
begin

text \<open>
  The configuration file of the super-server \<^verbatim>\<open>examples/mini-xinetd.c\<close>: the scanner, line by line,
  over the functions of the C library it calls (\<^verbatim>\<open>fgets\<close>, \<^verbatim>\<open>sscanf\<close>, \<^verbatim>\<open>atoi\<close>), and the round trip:
  a printed list of services is read back.
\<close>

section \<open>Functions of the C library\<close>

text \<open>\<^verbatim>\<open>fgets\<close> into a buffer of \<open>n\<close> bytes: the line with its newline, or the first \<open>n - 1\<close> bytes of it.\<close>

definition fgets :: "nat \<Rightarrow> string \<Rightarrow> (string \<times> string) option" where
  "fgets n s =
     (if s = [] then None
      else let l = length (takeWhile (\<lambda>c. c \<noteq> CHR 0x0A) s);
               k = min (n - 1) (if l < length s then Suc l else l)
           in Some (take k s, drop k s))"

text \<open>\<^verbatim>\<open>%ns\<close> of \<^verbatim>\<open>sscanf\<close>: white space is skipped, then at most \<open>n\<close> characters up to the next.\<close>

definition scan_word :: "nat \<Rightarrow> string \<Rightarrow> (string \<times> string) option" where
  "scan_word n s =
     (let t = dropWhile isspace s; w = take n (takeWhile (\<lambda>c. \<not> isspace c) t)
      in if w = [] then None else Some (w, drop (length w) t))"

section \<open>The code\<close>

definition MAX_SERVICES :: nat where "MAX_SERVICES = 32"
definition MAX_LINE :: nat where "MAX_LINE = 512"

record service_t =
  sc_name :: string
  sc_port :: int
  sc_server :: string
  sc_listen_fd :: int

text \<open>
  \<open>xc_services\<close> are the first \<^verbatim>\<open>service_count\<close> entries of \<^verbatim>\<open>services\<close>; \<^verbatim>\<open>current\<close> and \<^verbatim>\<open>in\<close> are the
  locals of \<^verbatim>\<open>parse_config\<close>, \<^verbatim>\<open>current\<close> without a value at first.
\<close>

record xinetd =
  xc_services :: "service_t list"
  xc_current :: "service_t option"
  xc_in :: bool

definition xinetd_start :: xinetd where
  "xinetd_start = \<lparr>xc_services = [], xc_current = None, xc_in = False\<rparr>"

text \<open>The end of the string without its trailing spaces, \<open>e\<close> characters being left.\<close>

fun trim_end :: "string \<Rightarrow> nat \<Rightarrow> nat" where
  "trim_end s 0 = 0"
| "trim_end s (Suc e) = (if isspace (s ! e) then trim_end s e else Suc e)"

definition trim :: "string \<Rightarrow> string" where
  "trim s = (let t = dropWhile isspace s in take (trim_end t (length t)) t)"

definition zero_service :: service_t where
  "zero_service = \<lparr>sc_name = [], sc_port = 0, sc_server = [], sc_listen_fd = 0\<rparr>"

text \<open>One turn of the loop; \<open>None\<close> is \<^verbatim>\<open>exit(1)\<close>.\<close>

definition parse_line :: "string \<Rightarrow> xinetd \<Rightarrow> xinetd option result" where
  "parse_line line st =
     (let p = trim (cstr line 0)
      in if p = [] \<or> hd p = CHR ''#'' then Inr (Some st)
         else if strncmp_eq 7 p ''service'' then
           (case scan_word 63 (drop 7 p) of
              None \<Rightarrow> Inr None
            | Some (name, r) \<Rightarrow>
                (case scan_word 7 r of
                   None \<Rightarrow> Inr None
                 | Some _ \<Rightarrow> Inr (Some (st\<lparr>xc_current := Some (zero_service\<lparr>sc_name := name\<rparr>), xc_in := True\<rparr>))))
         else if p = ''}'' then
           (case xc_current st of
              None \<Rightarrow> Inl Uninitialised
            | Some c \<Rightarrow>
                if length (xc_services st) < MAX_SERVICES
                then Inr (Some (st\<lparr>xc_services := xc_services st @ [c], xc_in := False\<rparr>))
                else Inl Out_Of_Bounds)
         else if xc_in st then
           (case scan_word 63 p of
              None \<Rightarrow> Inr (Some st)
            | Some (key, r) \<Rightarrow>
                (case scan_word 3 r of
                   None \<Rightarrow> Inr (Some st)
                 | Some (eq, r) \<Rightarrow>
                     (case scan_word 255 r of
                        None \<Rightarrow> Inr (Some st)
                      | Some (value, _) \<Rightarrow>
                          bindr (deref (xc_current st)) (\<lambda>c.
                          Inr (Some (if key = ''port'' then st\<lparr>xc_current := Some (c\<lparr>sc_port := atoi value\<rparr>)\<rparr>
                                     else if key = ''server'' then st\<lparr>xc_current := Some (c\<lparr>sc_server := value\<rparr>)\<rparr>
                                     else st))))))
         else Inr (Some st))"

lemma fgets_shorter: "fgets n s = Some (l, r) \<Longrightarrow> 1 < n \<Longrightarrow> length r < length s"
proof -
  assume a: "fgets n s = Some (l, r)" and n: "1 < n"
  have ne: "s \<noteq> []" using a by (auto simp: fgets_def)
  let ?l = "length (takeWhile (\<lambda>c. c \<noteq> CHR 0x0A) s)"
  have "0 < (if ?l < length s then Suc ?l else ?l)" using ne by (cases s) auto
  then have "0 < min (n - 1) (if ?l < length s then Suc ?l else ?l)" using n by simp
  moreover have "r = drop (min (n - 1) (if ?l < length s then Suc ?l else ?l)) s"
    using a ne by (simp add: fgets_def Let_def)
  ultimately show ?thesis using ne by (metis diff_less length_drop length_greater_0_conv)
qed

function (sequential) parse_lines :: "string \<Rightarrow> xinetd \<Rightarrow> xinetd option result" where
  "parse_lines txt st =
     (case fgets MAX_LINE txt of
        None \<Rightarrow> Inr (Some st)
      | Some (line, rest) \<Rightarrow>
          bindr (parse_line line st) (\<lambda>r. case r of None \<Rightarrow> Inr None | Some st' \<Rightarrow> parse_lines rest st'))"
  by pat_completeness auto
termination
  by (relation "measure (\<lambda>(txt, st). length txt)")
    (auto simp: MAX_LINE_def dest: fgets_shorter)

declare parse_lines.simps [simp del]

text \<open>\<open>content\<close> is the text of the file, if it can be opened.\<close>

definition parse_config :: "string option \<Rightarrow> service_t list \<Rightarrow> service_t list option result" where
  "parse_config content services =
     (case content of
        None \<Rightarrow> Inr None
      | Some txt \<Rightarrow>
          bindr (parse_lines txt \<lparr>xc_services = services, xc_current = None, xc_in = False\<rparr>)
            (\<lambda>r. Inr (map_option xc_services r)))"

section \<open>Scanning what was printed\<close>

text \<open>\<^verbatim>\<open>trim\<close> takes off the spaces around a text.\<close>

lemma trim_end_append: "n \<le> length ys \<Longrightarrow> trim_end (ys @ zs) n = trim_end ys n"
  by (induction n) (simp_all add: nth_append)

lemma trim_end_last:
  assumes "a \<noteq> []" and "\<not> isspace (last a)"
  shows "trim_end a (length a) = length a"
  using assms by (cases a rule: rev_cases) (simp_all add: nth_append)

lemma trim_end_spaces:
  assumes "a \<noteq> []" and "\<not> isspace (last a)"
  shows "\<forall>c \<in> set b. isspace c \<Longrightarrow> trim_end (a @ b) (length a + length b) = length a"
proof (induction b rule: rev_induct)
  case Nil
  then show ?case using trim_end_last [OF assms] by simp
next
  case (snoc x b)
  have "trim_end ((a @ b) @ [x]) (length (a @ b)) = trim_end (a @ b) (length (a @ b))"
    by (rule trim_end_append) simp
  then show ?case using snoc by (simp add: nth_append)
qed

lemma trim_spaces:
  assumes "\<forall>c \<in> set a. isspace c" and "\<forall>c \<in> set b. isspace c"
    and "s \<noteq> []" and "\<not> isspace (hd s)" and "\<not> isspace (last s)"
  shows "trim (a @ s @ b) = s"
proof -
  have "dropWhile isspace (s @ b) = s @ b" using assms(3,4) by (cases s) auto
  then have "dropWhile isspace (a @ s @ b) = s @ b" using assms(1) by (simp add: dropWhile_append)
  then show ?thesis using trim_end_spaces [OF assms(3,5,2)] by (simp add: trim_def Let_def)
qed

section \<open>Printing a list of services\<close>

fun show_decimal :: "nat \<Rightarrow> string" where
  "show_decimal n =
     (if n < 10 then [char_of (48 + n)] else show_decimal (n div 10) @ [char_of (48 + n mod 10)])"

declare show_decimal.simps [simp del]

abbreviation newline :: char where "newline \<equiv> CHR 0x0A"

definition show_service :: "service_t \<Rightarrow> string" where
  "show_service s =
     (''service '' @ sc_name s @ '' {'') @ newline # (''    port = '' @ show_decimal (nat (sc_port s))) @
     newline # (''    server = '' @ sc_server s) @ newline # ''}'' @ newline # []"

definition show_services :: "service_t list \<Rightarrow> string" where
  "show_services ss = concat (map show_service ss)"

definition word_ok :: "string \<Rightarrow> bool" where
  "word_ok w \<longleftrightarrow> w \<noteq> [] \<and> (\<forall>c \<in> set w. \<not> isspace c \<and> c \<noteq> NUL)"

definition service_ok :: "service_t \<Rightarrow> bool" where
  "service_ok s \<longleftrightarrow> word_ok (sc_name s) \<and> length (sc_name s) < 64 \<and> word_ok (sc_server s)
     \<and> length (sc_server s) < 256 \<and> 0 \<le> sc_port s \<and> sc_port s < 65536 \<and> sc_listen_fd s = 0"

subsection \<open>Decimal numbers\<close>

lemma of_char_digit: "d < 10 \<Longrightarrow> (of_char (char_of (48 + d) :: char) :: 'a :: {linordered_euclidean_semiring_bit_operations}) = of_nat (48 + d)" for d :: nat
proof -
  assume "d < 10"
  then have "(of_char (char_of (48 + d) :: char) :: nat) = 48 + d" by simp
  then show ?thesis by (metis of_nat_of_char)
qed

lemma isdigit_digit: "d < 10 \<Longrightarrow> isdigit (char_of (48 + d))" for d :: nat
  by (simp add: isdigit_def of_char_digit del: of_char_of)

lemma isspace_of_char: "isspace c \<Longrightarrow> (of_char c :: nat) < 33"
  by (auto simp: isspace_def)

lemma isdigit_not_space: "isdigit c \<Longrightarrow> \<not> isspace c \<and> c \<noteq> NUL"
  using isspace_of_char [of c] by (auto simp: isdigit_def NUL_def)

lemma show_decimal_digits: "\<forall>c \<in> set (show_decimal n). isdigit c"
proof (induction n rule: show_decimal.induct)
  case (1 n)
  then show ?case by (subst show_decimal.simps) (auto simp: isdigit_digit)
qed

lemma show_decimal_length: "n < 10 ^ Suc k \<Longrightarrow> show_decimal n \<noteq> [] \<and> length (show_decimal n) \<le> Suc k"
proof (induction k arbitrary: n)
  case 0
  then show ?case by (simp add: show_decimal.simps)
next
  case (Suc k)
  have "n div 10 < 10 ^ Suc k" using Suc.prems by (simp add: less_mult_imp_div_less)
  then show ?case using Suc.IH by (subst (1 2) show_decimal.simps) (simp)
qed

lemma takeWhile_show_decimal: "takeWhile isdigit (show_decimal n) = show_decimal n"
  using show_decimal_digits by (simp add: takeWhile_eq_all_conv)

lemma digits_value_show: "digits_value (show_decimal n) = int n"
proof (induction n rule: show_decimal.induct)
  case (1 n)
  show ?case
  proof (cases "n < 10")
    case True
    then show ?thesis
      by (simp add: show_decimal.simps [of n] digits_value_def isdigit_digit of_char_digit del: of_char_of)
  next
    case False
    let ?s = "show_decimal (n div 10)" and ?f = "\<lambda>a c. 10 * a + (int (of_char c) - 48)"
    have "foldl ?f 0 ?s = int (n div 10)"
      using "1.IH" [OF False] by (simp add: digits_value_def takeWhile_show_decimal)
    then have "foldl ?f 0 (show_decimal n) = 10 * int (n div 10) + int (n mod 10)"
      using False by (simp add: show_decimal.simps [of n] of_char_digit del: of_char_of)
    also have "\<dots> = int n" by presburger
    finally show ?thesis by (simp add: digits_value_def takeWhile_show_decimal)
  qed
qed

lemma atoi_show: "atoi (show_decimal n) = int n"
proof (cases "show_decimal n")
  case Nil
  then show ?thesis by (subst (asm) show_decimal.simps) (simp split: if_splits)
next
  case (Cons c cs)
  then have d: "isdigit c" using show_decimal_digits [of n] by simp
  then have "c \<noteq> CHR ''-'' \<and> c \<noteq> CHR ''+''" by (auto simp: isdigit_def)
  then show ?thesis
    using Cons d isdigit_not_space [OF d] digits_value_show [of n] by (simp add: atoi_def)
qed

subsection \<open>Lines\<close>

lemma scan_word_spaces:
  assumes "\<forall>c \<in> set sp. isspace c" and "word_ok w" and "length w \<le> n" and "r = [] \<or> isspace (hd r)"
  shows "scan_word n (sp @ w @ r) = Some (w, r)"
proof -
  have "dropWhile isspace (w @ r) = w @ r" using assms(2) by (cases w) (auto simp: word_ok_def)
  then have d: "dropWhile isspace (sp @ w @ r) = w @ r" using assms(1) by (simp add: dropWhile_append)
  have "takeWhile (\<lambda>c. \<not> isspace c) r = []" using assms(4) by (cases r) auto
  then have "takeWhile (\<lambda>c. \<not> isspace c) (w @ r) = w" using assms(2) by (simp add: takeWhile_append word_ok_def)
  then show ?thesis using d assms(2,3) by (cases n) (simp_all add: scan_word_def Let_def word_ok_def)
qed

lemma fgets_line:
  assumes "newline \<notin> set l" and "Suc (length l) < n"
  shows "fgets n (l @ newline # r) = Some (l @ [newline], r)"
proof -
  have "takeWhile (\<lambda>c. c \<noteq> newline) (l @ newline # r) = l"
    using assms(1) by (subst takeWhile_append2) auto
  then show ?thesis using assms(2) by (simp add: fgets_def Let_def)
qed

lemma cstr_all: "NUL \<notin> set s \<Longrightarrow> cstr s 0 = s"
  by (auto simp: cstr_def takeWhile_eq_all_conv)

lemma parse_lines_line:
  assumes "newline \<notin> set l" and "Suc (length l) < MAX_LINE"
  shows "parse_lines (l @ newline # r) st =
    bindr (parse_line (l @ [newline]) st)
      (\<lambda>x. case x of None \<Rightarrow> Inr None | Some st' \<Rightarrow> parse_lines r st')"
  by (subst parse_lines.simps) (simp add: fgets_line [OF assms])

lemma isspace_special: "isspace newline" "isspace (CHR '' '')" "\<not> isspace NUL"
  by (simp_all add: isspace_def NUL_def)

text \<open>What \<^verbatim>\<open>parse_config\<close> sees of a line: its text between the spaces and the newline.\<close>

lemma trim_line:
  assumes "\<forall>c \<in> set a. isspace c" and "s \<noteq> []" and "\<not> isspace (hd s)" and "\<not> isspace (last s)"
    and "NUL \<notin> set s"
  shows "trim (cstr (a @ s @ [newline]) 0) = s"
proof -
  have "NUL \<notin> set (a @ s @ [newline])" using assms(1,5) isspace_special by (auto simp: NUL_def)
  moreover have "trim (a @ s @ [newline]) = s"
    by (rule trim_spaces [OF assms(1) _ assms(2-4)]) (simp add: isspace_special)
  ultimately show ?thesis by (simp add: cstr_all)
qed

lemma word_okD: "word_ok w \<Longrightarrow> w \<noteq> [] \<and> \<not> isspace (hd w) \<and> \<not> isspace (last w) \<and> NUL \<notin> set w \<and> newline \<notin> set w"
  using isspace_special(1) by (auto simp: word_ok_def)

lemma word_ok_decimal: "word_ok (show_decimal n)"
  using show_decimal_digits [of n] isdigit_not_space show_decimal_length [of n n] 
  by (auto simp: word_ok_def) (subst (asm) show_decimal.simps, simp split: if_splits)

lemma parse_line_service:
  assumes "word_ok name" and "length name < 64"
  shows "parse_line ((''service '' @ name @ '' {'') @ [newline]) st =
    Inr (Some (st\<lparr>xc_current := Some (zero_service\<lparr>sc_name := name\<rparr>), xc_in := True\<rparr>))"
proof -
  have t: "trim (cstr ((''service '' @ name @ '' {'') @ [newline]) 0) = ''service '' @ name @ '' {''"
    using trim_line [of "[]" "''service '' @ name @ '' {''"] word_okD [OF assms(1)]
    by (simp add: isspace_def NUL_def)
  have n: "scan_word 63 ('' '' @ name @ '' {'') = Some (name, '' {'')"
    by (rule scan_word_spaces) (use assms in \<open>auto simp: isspace_special\<close>)
  have b: "scan_word 7 '' {'' = Some (''{'', [])" by (simp add: scan_word_def isspace_def)
  show ?thesis using n b unfolding parse_line_def t by (simp add: strncmp_eq_def)
qed

lemma parse_line_key:
  assumes "xc_in st" and "xc_current st = Some c" and "word_ok v" and "length v < 256"
    and "key = ''port'' \<or> key = ''server''"
  shows "parse_line ((''    '' @ key @ '' = '' @ v) @ [newline]) st =
    Inr (Some (st\<lparr>xc_current := Some (if key = ''port'' then c\<lparr>sc_port := atoi v\<rparr> else c\<lparr>sc_server := v\<rparr>)\<rparr>))"
proof -
  have k: "word_ok key \<and> length key \<le> 63 \<and> key \<noteq> [] \<and> hd key \<noteq> CHR ''#''"
    using assms(5) by (auto simp: word_ok_def isspace_def NUL_def)
  have t: "trim (cstr ((''    '' @ key @ '' = '' @ v) @ [newline]) 0) = key @ '' = '' @ v"
    using trim_line [of "''    ''" "key @ '' = '' @ v"] word_okD [OF assms(3)] word_okD [of key] k
    by (simp add: isspace_special NUL_def)
  have 1: "scan_word 63 ([] @ key @ '' = '' @ v) = Some (key, '' = '' @ v)"
    by (rule scan_word_spaces) (use k in \<open>auto simp: isspace_special\<close>)
  have 2: "scan_word 3 ('' '' @ ''='' @ '' '' @ v) = Some (''='', '' '' @ v)"
    by (rule scan_word_spaces) (auto simp: isspace_def word_ok_def NUL_def)
  have 3: "scan_word 255 ('' '' @ v @ []) = Some (v, [])"
    by (rule scan_word_spaces) (use assms in \<open>auto simp: isspace_special\<close>)
  have "\<not> strncmp_eq 7 (key @ '' = '' @ v) ''service''" "key @ '' = '' @ v \<noteq> ''}''"
    using assms(5) by (auto simp: strncmp_eq_def)
  then show ?thesis
    using 1 2 3 k assms(1,2,5) unfolding parse_line_def t by auto
qed

lemma parse_line_brace:
  assumes "xc_current st = Some c"
  shows "parse_line (''}'' @ [newline]) st =
    (if length (xc_services st) < 32
     then Inr (Some (st\<lparr>xc_services := xc_services st @ [c], xc_in := False\<rparr>)) else Inl Out_Of_Bounds)"
proof -
  have t: "trim (cstr (''}'' @ [newline]) 0) = ''}''"
    using trim_line [of "[]" "''}''"] by (simp add: isspace_def NUL_def)
  show ?thesis using assms unfolding parse_line_def t by (simp add: strncmp_eq_def MAX_SERVICES_def)
qed

subsection \<open>The list of services\<close>

lemma service_ok_rebuild:
  "service_ok s \<Longrightarrow>
   zero_service\<lparr>sc_name := sc_name s, sc_port := sc_port s, sc_server := sc_server s\<rparr> = s"
  by (simp add: service_ok_def zero_service_def)

lemma parse_lines_service:
  assumes ok: "service_ok s"
  shows "parse_lines (show_service s @ r) st =
    (if length (xc_services st) < 32
     then parse_lines r \<lparr>xc_services = xc_services st @ [s], xc_current = Some s, xc_in = False\<rparr>
     else Inl Out_Of_Bounds)"
proof -
  let ?port = "show_decimal (nat (sc_port s))"
  have sv: "word_ok (sc_name s)" "length (sc_name s) < 64" "word_ok (sc_server s)" "length (sc_server s) < 256"
    and pt: "0 \<le> sc_port s" "sc_port s < 65536" using ok by (auto simp: service_ok_def)
  have pl: "length ?port \<le> 5" using show_decimal_length [of "nat (sc_port s)" 4] pt by simp
  have at: "atoi ?port = sc_port s" using pt by (simp add: atoi_show)
  have nn: "newline \<notin> set (sc_name s)" "newline \<notin> set (sc_server s)" "newline \<notin> set ?port"
    using word_okD sv word_ok_decimal by blast+
  let ?st1 = "st\<lparr>xc_current := Some (zero_service\<lparr>sc_name := sc_name s\<rparr>), xc_in := True\<rparr>"
  let ?st2 = "?st1\<lparr>xc_current := Some (zero_service\<lparr>sc_name := sc_name s, sc_port := sc_port s\<rparr>)\<rparr>"
  let ?st3 = "?st2\<lparr>xc_current := Some s\<rparr>"
  let ?r3 = "''}'' @ newline # r" let ?r2 = "(''    '' @ ''server'' @ '' = '' @ sc_server s) @ newline # ?r3"
  let ?r1 = "(''    '' @ ''port'' @ '' = '' @ ?port) @ newline # ?r2"
  have "parse_lines (show_service s @ r) st =
      parse_lines ((''service '' @ sc_name s @ '' {'') @ newline # ?r1) st" by (simp add: show_service_def)
  also have "\<dots> = parse_lines ?r1 ?st1"
    by (subst parse_lines_line) (use sv nn in \<open>simp_all add: parse_line_service [simplified] MAX_LINE_def\<close>)
  also have "\<dots> = parse_lines ?r2 ?st2"
    by (subst parse_lines_line)
      (use nn pl at in \<open>simp_all add: parse_line_key [where key = "''port''", simplified] word_ok_decimal MAX_LINE_def\<close>)
  also have "\<dots> = parse_lines ?r3 ?st3"
    by (subst parse_lines_line)
      (use nn sv service_ok_rebuild [OF ok] in
        \<open>simp_all add: parse_line_key [where key = "''server''", simplified] MAX_LINE_def\<close>)
  also have "\<dots> = (if length (xc_services st) < 32
     then parse_lines r \<lparr>xc_services = xc_services st @ [s], xc_current = Some s, xc_in = False\<rparr>
     else Inl Out_Of_Bounds)"
    by (subst parse_lines_line) (simp_all add: parse_line_brace [simplified] MAX_LINE_def, cases st, simp)
  finally show ?thesis .
qed

lemma parse_lines_services:
  "\<forall>s \<in> set ss. service_ok s \<Longrightarrow> length (xc_services st) \<le> 32 \<Longrightarrow>
   bindr (parse_lines (show_services ss) st) (\<lambda>r. Inr (map_option xc_services r)) =
     (if length (xc_services st) + length ss \<le> 32 then Inr (Some (xc_services st @ ss)) else Inl Out_Of_Bounds)"
proof (induction ss arbitrary: st)
  case Nil
  then show ?case by (subst parse_lines.simps) (simp add: show_services_def fgets_def)
next
  case (Cons s ss)
  have "show_services (s # ss) = show_service s @ show_services ss" by (simp add: show_services_def)
  then show ?case using Cons by (auto simp: parse_lines_service)
qed

text \<open>
  C35. The configuration reader of \<^verbatim>\<open>mini-xinetd\<close> gives back what was written: a file that declares
  services with non-empty names and servers, free of white space and short enough for their fields,
  and with ports below 65536, is read as that very list, in order.  That holds of up to 32 services,
  the size of the static array: the closing brace of a 33rd one writes past its end.
\<close>

theorem xinetd_config_roundtrip:
  assumes "\<forall>s \<in> set ss. service_ok s"
  shows "parse_config (Some (show_services ss)) [] =
    (if length ss \<le> 32 then Inr (Some ss) else Inl Out_Of_Bounds)"
  using parse_lines_services [OF assms, of "\<lparr>xc_services = [], xc_current = None, xc_in = False\<rparr>"]
  by (simp add: parse_config_def)

theorem xinetd_config_roundtrip_witness:
  "parse_config (Some (show_services (replicate 33 \<lparr>sc_name = ''nbd'', sc_port = 10809, sc_server = ''/bin/nbd'', sc_listen_fd = 0\<rparr>))) []
     = Inl Out_Of_Bounds
   \<and> parse_config (Some (show_services [\<lparr>sc_name = ''echo'', sc_port = 7, sc_server = ''in'', sc_listen_fd = 0\<rparr>])) []
     = Inr (Some [\<lparr>sc_name = ''echo'', sc_port = 7, sc_server = ''in'', sc_listen_fd = 0\<rparr>])"
  using xinetd_config_roundtrip [of "replicate 33 \<lparr>sc_name = ''nbd'', sc_port = 10809, sc_server = ''/bin/nbd'', sc_listen_fd = 0\<rparr>"]
    xinetd_config_roundtrip [of "[\<lparr>sc_name = ''echo'', sc_port = 7, sc_server = ''in'', sc_listen_fd = 0\<rparr>]"]
  by (simp add: service_ok_def word_ok_def isspace_def NUL_def)

end
