(* ===== verification/Xinetd.thy ===== *)
theory Xinetd
  imports Xinetd_Config Servers
begin

text \<open>
  The super-server \<^verbatim>\<open>examples/mini-xinetd.c\<close>: its listeners, the turn of its \<^verbatim>\<open>select\<close> loop and the
  thread that serves a connection.  What the system calls return is an argument of each definition.
\<close>

section \<open>The listening sockets\<close>

text \<open>The answers of \<^verbatim>\<open>socket\<close>, \<^verbatim>\<open>bind\<close> (by the port in the address) and \<^verbatim>\<open>listen\<close>.\<close>

record listen_os =
  lo_socket :: int
  lo_bind :: "u16 \<Rightarrow> int"
  lo_listen :: int

text \<open>\<open>None\<close> is \<^verbatim>\<open>die\<close>, the end of the process.  \<^verbatim>\<open>htons(port)\<close> keeps 16 bits of the number.\<close>

definition start_listener :: "listen_os \<Rightarrow> int \<Rightarrow> int option" where
  "start_listener os port =
     (let fd = lo_socket os; sin_port = (word_of_int port :: u16)
      in if fd < 0 then None
         else if lo_bind os sin_port < 0 then None
         else if lo_listen os < 0 then None
         else Some fd)"

text \<open>The first loop of \<^verbatim>\<open>main\<close>: \<open>i\<close> is its index, \<open>m\<close> the largest descriptor so far.\<close>

fun start_services :: "(nat \<Rightarrow> listen_os) \<Rightarrow> nat \<Rightarrow> int \<Rightarrow> service_t list \<Rightarrow> (int \<times> service_t list) option" where
  "start_services os i m [] = Some (m, [])"
| "start_services os i m (s # ss) =
     (case start_listener (os i) (sc_port s) of
        None \<Rightarrow> None
      | Some fd \<Rightarrow>
          map_option (\<lambda>(m, ss). (m, s\<lparr>sc_listen_fd := fd\<rparr> # ss))
            (start_services os (Suc i) (if m < fd then fd else m) ss))"

section \<open>One turn of the loop\<close>

record thread_arg_t =
  ta_conn_fd :: int
  ta_name :: string

text \<open>
  What the turn sees of the system: the result of \<^verbatim>\<open>select\<close>, the descriptors it leaves in the set, and
  what \<^verbatim>\<open>accept\<close> returns for each service.
\<close>

record turn_os =
  to_select :: int
  to_ready :: "int \<Rightarrow> bool"
  to_accept :: "nat \<Rightarrow> int"

fun new_clients :: "turn_os \<Rightarrow> (int \<Rightarrow> bool) \<Rightarrow> nat \<Rightarrow> service_t list \<Rightarrow> thread_arg_t list" where
  "new_clients os readfds i [] = []"
| "new_clients os readfds i (s # ss) =
     (if readfds (sc_listen_fd s)
      then if to_accept os i < 0 then new_clients os readfds (Suc i) ss
           else \<lparr>ta_conn_fd = to_accept os i, ta_name = sc_name s\<rparr> # new_clients os readfds (Suc i) ss
      else new_clients os readfds (Suc i) ss)"

text \<open>The arguments of the threads that the turn starts, \<open>None\<close> when \<^verbatim>\<open>select\<close> fails.\<close>

definition main_turn :: "turn_os \<Rightarrow> service_t list \<Rightarrow> thread_arg_t list option" where
  "main_turn os services =
     (let readfds = (\<lambda>fd. fd \<in> set (map sc_listen_fd services) \<and> to_ready os fd)
      in if to_select os < 0 then None else Some (new_clients os readfds 0 services))"

fun main_loop :: "turn_os list \<Rightarrow> service_t list \<Rightarrow> thread_arg_t list option" where
  "main_loop [] services = Some []"
| "main_loop (os # turns) services =
     (case main_turn os services of
        None \<Rightarrow> None
      | Some new \<Rightarrow> map_option (\<lambda>more. new @ more) (main_loop turns services))"

text \<open>
  \<^verbatim>\<open>main\<close>, for as many turns as \<open>turns\<close> has: \<open>argc\<close> is the number of its arguments, \<open>content\<close> the
  text of the file that the argument names.
\<close>

definition xinetd_main ::
  "nat \<Rightarrow> string option \<Rightarrow> (nat \<Rightarrow> listen_os) \<Rightarrow> turn_os list \<Rightarrow> thread_arg_t list option result" where
  "xinetd_main argc content os turns =
     (if argc \<noteq> 2 then Inr None
      else bindr (parse_config content []) (\<lambda>r.
           case r of
             None \<Rightarrow> Inr None
           | Some services \<Rightarrow>
               (case start_services os 0 (- 1) services of
                  None \<Rightarrow> Inr None
                | Some (maxfd, services) \<Rightarrow> Inr (main_loop turns services))))"

section \<open>The thread of a connection\<close>

text \<open>
  The streams of the process and the descriptors that were closed, in order.  A stream is the number
  that \<^verbatim>\<open>fdopen(dup(fd), "w")\<close> yields for it.
\<close>

record process =
  pr_stdout :: int
  pr_stderr :: int
  pr_closed :: "int list"
  pr_fclosed :: "int list"

definition close_fd :: "int \<Rightarrow> process \<Rightarrow> process" where
  "close_fd fd p = p\<lparr>pr_closed := pr_closed p @ [fd]\<rparr>"

text \<open>\<open>so\<close> and \<open>se\<close> are the two streams, \<open>None\<close> if they cannot be made; \<open>null\<close> is the null client.\<close>

definition run_server_on_socket ::
  "int option \<Rightarrow> int option \<Rightarrow> 'd \<Rightarrow> ('c, 'd, 'w) lwnbd_server option \<Rightarrow> int \<Rightarrow> 'w \<Rightarrow> process
    \<Rightarrow> ('w \<times> process) run" where
  "run_server_on_socket so se null server fd w p =
     (case server of
        None \<Rightarrow> ret (w, close_fd fd p)
      | Some srv \<Rightarrow>
          (case (so, se) of
             (Some thread_stdout, Some thread_stderr) \<Rightarrow>
               (let old_stdout = pr_stdout p; old_stderr = pr_stderr p;
                    p = p\<lparr>pr_stdout := thread_stdout, pr_stderr := thread_stderr\<rparr>
                in bindp (lift (callp (sv_run srv))) (\<lambda>run.
                   bindp (run None null w) (\<lambda>(_, w).
                   let p = p\<lparr>pr_stdout := old_stdout, pr_stderr := old_stderr\<rparr>
                   in ret (w, p\<lparr>pr_fclosed := pr_fclosed p @ [thread_stdout, thread_stderr]\<rparr>))))
           | _ \<Rightarrow> ret (w, close_fd fd p)))"

text \<open>A server that is not found returns before the descriptor is closed.\<close>

definition service_thread ::
  "int option \<Rightarrow> int option \<Rightarrow> 'd \<Rightarrow> thread_arg_t \<Rightarrow> ('c, 'd, 'w) server_table \<Rightarrow> process
    \<Rightarrow> (('c, 'd, 'w) server_table \<times> process) run" where
  "service_thread so se null t tab p =
     (let fd = ta_conn_fd t; name = take 63 (ta_name t)
      in bindp (lift (get_server_by_name name tab)) (\<lambda>s.
         case s of
           None \<Rightarrow> ret (tab, p)
         | Some i \<Rightarrow>
             bindp (run_server_on_socket so se null (servers_bis tab ! i) fd (srv_world tab) p) (\<lambda>(w, p).
             ret (tab\<lparr>srv_world := w\<rparr>, close_fd fd p))))"

section \<open>What is served\<close>

lemma start_services_fds:
  "start_services os i m ss = Some (m', ss') \<Longrightarrow>
   length ss' = length ss \<and> m \<le> m' \<and>
   (\<forall>k < length ss. \<exists>fd. start_listener (os (i + k)) (sc_port (ss ! k)) = Some fd \<and> 0 \<le> fd \<and> fd \<le> m'
      \<and> ss' ! k = (ss ! k)\<lparr>sc_listen_fd := fd\<rparr>)"
proof (induction os i m ss arbitrary: m' ss' rule: start_services.induct)
  case (2 os i m s ss)
  then obtain fd ss1 where fd: "start_listener (os i) (sc_port s) = Some fd"
    and r: "start_services os (Suc i) (if m < fd then fd else m) ss = Some (m', ss1)"
    and ss': "ss' = s\<lparr>sc_listen_fd := fd\<rparr> # ss1" by (auto split: option.splits)
  have pos: "0 \<le> fd" using fd by (auto simp: start_listener_def Let_def split: if_splits)
  have ih: "length ss1 = length ss \<and> (if m < fd then fd else m) \<le> m' \<and>
      (\<forall>k < length ss. \<exists>fd. start_listener (os (Suc i + k)) (sc_port (ss ! k)) = Some fd \<and> 0 \<le> fd \<and> fd \<le> m'
        \<and> ss1 ! k = (ss ! k)\<lparr>sc_listen_fd := fd\<rparr>)"
    using "2.IH" [OF fd r] .
  have "\<exists>f. start_listener (os (i + k)) (sc_port ((s # ss) ! k)) = Some f \<and> 0 \<le> f \<and> f \<le> m'
      \<and> ss' ! k = ((s # ss) ! k)\<lparr>sc_listen_fd := f\<rparr>" if "k < length (s # ss)" for k
    using that ih fd pos ss' by (cases k) (auto split: if_splits)
  then show ?case using ih ss' by (auto split: if_splits)
qed simp

lemma new_clients_eq:
  "new_clients os readfds i ss =
   map (\<lambda>k. \<lparr>ta_conn_fd = to_accept os (i + k), ta_name = sc_name (ss ! k)\<rparr>)
     (filter (\<lambda>k. readfds (sc_listen_fd (ss ! k)) \<and> 0 \<le> to_accept os (i + k)) [0..<length ss])"
proof (induction os readfds i ss rule: new_clients.induct)
  case (2 os readfds i s ss)
  have "[0..<length (s # ss)] = 0 # map Suc [0..<length ss]" by (simp add: map_Suc_upt upt_conv_Cons del: upt_Suc)
  then show ?case using 2 by (simp add: filter_map o_def)
qed simp

text \<open>A turn starts one thread for each listener that is ready and accepts, in the order of the file.\<close>

lemma main_turn_eq:
  "main_turn os ss =
   (if to_select os < 0 then None
    else Some (map (\<lambda>k. \<lparr>ta_conn_fd = to_accept os k, ta_name = sc_name (ss ! k)\<rparr>)
      (filter (\<lambda>k. to_ready os (sc_listen_fd (ss ! k)) \<and> 0 \<le> to_accept os k) [0..<length ss])))"
proof -
  have "filter (\<lambda>k. sc_listen_fd (ss ! k) \<in> set (map sc_listen_fd ss) \<and> to_ready os (sc_listen_fd (ss ! k))
        \<and> 0 \<le> to_accept os k) [0..<length ss] =
      filter (\<lambda>k. to_ready os (sc_listen_fd (ss ! k)) \<and> 0 \<le> to_accept os k) [0..<length ss]"
    by (rule filter_cong) auto
  then show ?thesis by (simp add: main_turn_def Let_def new_clients_eq conj_assoc)
qed

text \<open>
  A connection to a name that is not registered is never closed; when a stream cannot be made it is
  closed twice; a server that returns leaves the streams as they were and the connection closed once.
\<close>

lemma service_thread_unknown:
  "get_server_by_name (take 63 (ta_name t)) tab = Inr None \<Longrightarrow>
   service_thread so se null t tab p = ret (tab, p)"
  by (simp add: service_thread_def)

lemma service_thread_no_stream:
  assumes "get_server_by_name (take 63 (ta_name t)) tab = Inr (Some i)" and "servers_bis tab ! i \<noteq> None"
    and "so = None \<or> se = None"
  shows "service_thread so se null t tab p =
    ret (tab, p\<lparr>pr_closed := pr_closed p @ [ta_conn_fd t, ta_conn_fd t]\<rparr>)"
  using assms by (auto simp: service_thread_def run_server_on_socket_def close_fd_def Let_def split: option.splits)

lemma service_thread_serves:
  assumes "get_server_by_name (take 63 (ta_name t)) tab = Inr (Some i)" and "servers_bis tab ! i = Some srv"
    and "sv_run srv = Some f" and "f None null (srv_world tab) = ret (r, w)"
  shows "service_thread (Some so) (Some se) null t tab p =
    ret (tab\<lparr>srv_world := w\<rparr>,
         p\<lparr>pr_closed := pr_closed p @ [ta_conn_fd t], pr_fclosed := pr_fclosed p @ [so, se]\<rparr>)"
  using assms by (simp add: service_thread_def run_server_on_socket_def close_fd_def Let_def)

end
