(* ===== verification/Command_Plugin.thy ===== *)
theory Command_Plugin
  imports Handles Plugins
begin

unbundle bit_operations_syntax

text \<open>
  The command plugin, \<^verbatim>\<open>plugins/command/command.c\<close>, with the builtin commands of
  \<^verbatim>\<open>plugins/command/builtin.c\<close>: one export \<^verbatim>\<open>api\<close>, whose query names a command.  The command runs when
  the export is looked up and a client reads its result; a command of type \<open>METHOD_POST\<close> runs when the
  client writes.
\<close>

section \<open>Commands\<close>

definition CMD_DRIVER_MAX :: nat where "CMD_DRIVER_MAX = 100"
definition CMD_BUFFER_SZ :: nat where "CMD_BUFFER_SZ = 4096"

datatype method_type = METHOD_GET | METHOD_POST

text \<open>
  A command gets \<^verbatim>\<open>argc\<close>, \<^verbatim>\<open>argv\<close>, a buffer and a size, and gives its result, the buffer and the size
  afterwards.  \<^verbatim>\<open>argv\<close> is the array of parameters read as an array of strings; it is \<open>None\<close> when the
  array is gone.  A function pointer is one of the builtin commands or a function of the application
  over its state \<open>'e\<close>.
\<close>

type_synonym 'e app_cmd =
  "int \<Rightarrow> string option list option \<Rightarrow> byte list \<Rightarrow> u64 \<Rightarrow> 'e \<Rightarrow> (int \<times> byte list \<times> u64 \<times> 'e) result"

datatype 'e cmd_ptr = Echo | Export | List_Command | App "'e app_cmd"

record 'e lwnbd_command =
  cmd_name :: string
  cmd_desc :: string
  cmd_type :: method_type
  cmd_cmd :: "'e cmd_ptr option"

record post_h =
  pp_pvhandle :: "nat option"
  pp_nb_params :: int

text \<open>
  The static variables.  \<open>commands\<close> keeps the entries in use, \<^verbatim>\<open>commands[0]\<close> to
  \<^verbatim>\<open>commands[commands_cnt - 1]\<close>.  The pointer \<^verbatim>\<open>pp.params\<close> points to an array on the stack of
  \<^verbatim>\<open>lwnbd_get_context\<close>, which is gone when it is used, so it has no field.
\<close>

record 'e command_state =
  cs_commands :: "'e lwnbd_command list"
  cs_result :: "byte list"
  cs_exportsize :: u64
  cs_pp :: post_h
  cs_env :: 'e

definition command_start :: "'e \<Rightarrow> 'e command_state" where
  "command_start e = \<lparr>cs_commands = [], cs_result = replicate CMD_BUFFER_SZ NUL, cs_exportsize = 0,
     cs_pp = \<lparr>pp_pvhandle = None, pp_nb_params = 0\<rparr>, cs_env = e\<rparr>"

definition argv_of :: "query_t list \<Rightarrow> string option list" where
  "argv_of params = concat (map (\<lambda>q. [Some (q_key q), q_val q]) params)"

section \<open>The builtin commands\<close>

text \<open>\<^verbatim>\<open>argv[i]\<close> as a string.\<close>

definition arg :: "string option list option \<Rightarrow> nat \<Rightarrow> string result" where
  "arg argv i = (case argv of None \<Rightarrow> Inl Uninitialised
     | Some a \<Rightarrow> if i < length a then deref (a ! i) else Inl Out_Of_Bounds)"

text \<open>
  \<^verbatim>\<open>echo\<close>.  After a \<^verbatim>\<open>$\<close> it computes \<^verbatim>\<open>cnt = temp - pargs - 1\<close>, where \<^verbatim>\<open>strtok\<close> returned
  the start of the token behind it: \<open>- 1\<close> unless newlines stand in front of the token, and then as many
  characters, one less, are copied to \<^verbatim>\<open>req\<close> without a NUL.  The delimiters are the C string of one
  newline.
\<close>

definition echo ::
  "int \<Rightarrow> string option list option \<Rightarrow> byte list \<Rightarrow> u64 \<Rightarrow> (int \<times> byte list \<times> u64) result" where
  "echo argc argv result size_of =
     (if argc = 1 then Inr (0, result, size_of)
      else bindr (arg argv 1) (\<lambda>temp.
        case strchr temp 0 CHR ''$'' of
          None \<Rightarrow> bindr (mem_write 0 temp result) (\<lambda>b. Inr (0, b, of_nat (length temp)))
        | Some p \<Rightarrow>
            if p = 0 then Inl Out_Of_Bounds
            else bindr (mem_write 0 (take (p - 1) temp) result) (\<lambda>b.
                 let pargs = drop (p + 1) temp; k = length (takeWhile (\<lambda>c. c = CHR 0x0A) pargs)
                 in if k = length pargs then Inl Null_Deref
                    else if k = 0 \<or> 30 < k - 1 then Inl Out_Of_Bounds
                    else Inl Uninitialised)))"

text \<open>\<open>dump\<close> is \<^verbatim>\<open>lwnbd_dump_contexts\<close> on the contexts of the library.\<close>

definition export_cmd ::
  "int \<times> string \<Rightarrow> int \<Rightarrow> byte list \<Rightarrow> u64 \<Rightarrow> (int \<times> byte list \<times> u64) result" where
  "export_cmd dump argc result size_of =
     (if argc = 1
      then bindr (mem_write 0 (snd dump @ [NUL]) result) (\<lambda>b. Inr (0, b, word_of_int (fst dump)))
      else Inr (0, result, size_of))"

text \<open>\<^verbatim>\<open>sprintf\<close> of one line behind the others, with its NUL.\<close>

definition command_line :: "'e lwnbd_command \<Rightarrow> string" where
  "command_line c = cmd_name c @ replicate (32 - length (cmd_name c)) CHR '' '' @ '': '' @ cmd_desc c @ [CHR 0x0A]"

fun list_loop_cmd :: "'e lwnbd_command list \<Rightarrow> nat \<Rightarrow> byte list \<Rightarrow> (byte list \<times> nat) result" where
  "list_loop_cmd [] n result = Inr (result, n)"
| "list_loop_cmd (c # cs) n result =
     bindr (mem_write n (command_line c @ [NUL]) result) (list_loop_cmd cs (n + length (command_line c)))"

definition list_command :: "'e lwnbd_command list \<Rightarrow> byte list \<Rightarrow> (int \<times> byte list \<times> u64) result" where
  "list_command cmds result =
     bindr (list_loop_cmd cmds 0 result) (\<lambda>(b, n). Inr (0, b, of_nat n))"

definition builtin :: "'e lwnbd_command list" where
  "builtin =
     [\<lparr>cmd_name = ''echo'', cmd_desc = ''Print on the standard output.'', cmd_type = METHOD_GET, cmd_cmd = Some Echo\<rparr>,
      \<lparr>cmd_name = ''export'', cmd_desc = ''Set export attribute for shell variables.'', cmd_type = METHOD_GET,
       cmd_cmd = Some Export\<rparr>,
      \<lparr>cmd_name = ''lc'', cmd_desc = ''List shell commands.'', cmd_type = METHOD_GET, cmd_cmd = Some List_Command\<rparr>,
      \<lparr>cmd_name = [], cmd_desc = [], cmd_type = METHOD_GET, cmd_cmd = None\<rparr>]"

text \<open>\<^verbatim>\<open>c->cmd(argc, argv, buffer, size)\<close>.\<close>

definition call_cmd ::
  "('e \<Rightarrow> int \<times> string) \<Rightarrow> 'e lwnbd_command \<Rightarrow> int \<Rightarrow> string option list option \<Rightarrow> byte list \<Rightarrow> u64
    \<Rightarrow> 'e command_state \<Rightarrow> (int \<times> byte list \<times> u64 \<times> 'e command_state) result" where
  "call_cmd dump c argc argv b n st =
     (case cmd_cmd c of
        None \<Rightarrow> Inl Null_Call
      | Some Echo \<Rightarrow> bindr (echo argc argv b n) (\<lambda>(r, b, n). Inr (r, b, n, st))
      | Some Export \<Rightarrow> bindr (export_cmd (dump (cs_env st)) argc b n) (\<lambda>(r, b, n). Inr (r, b, n, st))
      | Some List_Command \<Rightarrow> bindr (list_command (cs_commands st) b) (\<lambda>(r, b, n). Inr (r, b, n, st))
      | Some (App f) \<Rightarrow> bindr (f argc argv b n (cs_env st)) (\<lambda>(r, b, n, e). Inr (r, b, n, st\<lparr>cs_env := e\<rparr>)))"

section \<open>The callbacks\<close>

definition command_pread ::
  "handle \<Rightarrow> u32 \<Rightarrow> u64 \<Rightarrow> u32 \<Rightarrow> 'e command_state \<Rightarrow> (int \<times> byte list \<times> 'e command_state) result" where
  "command_pread handle count offset flags st =
     bindr (mem_read 0 (unat count) (cs_result st)) (\<lambda>d. Inr (0, d, st))"

text \<open>\<^verbatim>\<open>(int64_t *)&count\<close>: the upper half is what lies behind \<^verbatim>\<open>count\<close> on the stack.\<close>

definition command_pwrite ::
  "('e \<Rightarrow> int \<times> string) \<Rightarrow> u32 \<Rightarrow> handle \<Rightarrow> byte list \<Rightarrow> u32 \<Rightarrow> u64 \<Rightarrow> u32 \<Rightarrow> 'e command_state
    \<Rightarrow> (int \<times> 'e command_state) result" where
  "command_pwrite dump stack handle buf count offset flags st =
     bindr (deref (pp_pvhandle (cs_pp st))) (\<lambda>i.
     bindr (call_cmd dump (cs_commands st ! i) (pp_nb_params (cs_pp st) + 1) None buf
              (ucast count OR push_bit 32 (ucast stack)) st) (\<lambda>(r, _, _, st1).
     Inr (r, st1)))"

definition command_block_size :: "handle \<Rightarrow> 'e command_state \<Rightarrow> (int \<times> u32 \<times> u32 \<times> u32) result" where
  "command_block_size handle st = Inr (0, 1, 1, 1)"

definition command_query_get ::
  "('e \<Rightarrow> int \<times> string) \<Rightarrow> nat \<Rightarrow> query_t list \<Rightarrow> int \<Rightarrow> 'e command_state \<Rightarrow> (int \<times> 'e command_state) result" where
  "command_query_get dump i params nb_params st =
     bindr (call_cmd dump (cs_commands st ! i) nb_params (Some (argv_of params)) (replicate CMD_BUFFER_SZ NUL) 1
              (st\<lparr>cs_exportsize := 1, cs_result := replicate CMD_BUFFER_SZ NUL\<rparr>)) (\<lambda>(r, b, n, st1).
     Inr (r, st1\<lparr>cs_result := b, cs_exportsize := n\<rparr>))"

definition command_query_post :: "nat \<Rightarrow> int \<Rightarrow> 'e command_state \<Rightarrow> int \<times> 'e command_state" where
  "command_query_post i nb_params st =
     (0, st\<lparr>cs_exportsize := of_nat CMD_BUFFER_SZ,
            cs_pp := \<lparr>pp_pvhandle = Some i, pp_nb_params = nb_params\<rparr>\<rparr>)"

definition command_query ::
  "('e \<Rightarrow> int \<times> string) \<Rightarrow> handle \<Rightarrow> query_t list \<Rightarrow> int \<Rightarrow> 'e command_state \<Rightarrow> (int \<times> 'e command_state) result" where
  "command_query dump handle params nb_params st =
     (if nb_params = 0 then Inr (- 1, st)
      else if cs_commands st = [] then Inr (- 1, st)
      else if params = [] then Inl Uninitialised
      else let i = find_slot (\<lambda>c. q_key (params ! 0) = cmd_name c) (cs_commands st)
           in if i = length (cs_commands st) then Inr (- 1, st)
              else let nb = (if q_val (params ! 0) = None then 1 else 2)
                   in case cmd_type (cs_commands st ! i) of
                        METHOD_GET \<Rightarrow> command_query_get dump i params nb st
                      | METHOD_POST \<Rightarrow> Inr (command_query_post i nb st))"

definition command_get_size :: "handle \<Rightarrow> 'e command_state \<Rightarrow> (u64 \<times> 'e command_state) result" where
  "command_get_size handle st = Inr (cs_exportsize st, st)"

definition command_add_command :: "'e lwnbd_command \<Rightarrow> 'e command_state \<Rightarrow> int \<times> 'e command_state" where
  "command_add_command h st =
     (if length (cs_commands st) = CMD_DRIVER_MAX then (- 1, st)
      else (0, st\<lparr>cs_commands := cs_commands st @ [h]\<rparr>))"

definition command_ctor ::
  "'e lwnbd_command \<Rightarrow> lwnbd_context option \<Rightarrow> 'e command_state
    \<Rightarrow> (int \<times> lwnbd_context option \<times> 'e command_state) result" where
  "command_ctor pconfig c st = (let (r, st1) = command_add_command pconfig st in Inr (r, c, st1))"

text \<open>\<^verbatim>\<open>while (ptr->cmd) command_add_command(ptr++);\<close>\<close>

fun load_commands :: "'e lwnbd_command list \<Rightarrow> 'e command_state \<Rightarrow> 'e command_state result" where
  "load_commands [] st = Inl Out_Of_Bounds"
| "load_commands (c # cs) st =
     (if cmd_cmd c = None then Inr st else load_commands cs (snd (command_add_command c st)))"

definition command_load :: "'e command_state \<Rightarrow> 'e command_state result" where
  "command_load st = load_commands builtin st"

definition command_plugin ::
  "('e \<Rightarrow> int \<times> string) \<Rightarrow> u32 \<Rightarrow> ('e lwnbd_command, 'e command_state) lwnbd_plugin_t" where
  "command_plugin dump stack = null_plugin
     \<lparr>pl_name := ''api'', pl_longname := ''lwnbd generic command plugin'', pl_version := ''0'',
      pl_load := Some command_load, pl_get_size := Some command_get_size, pl_pread := Some command_pread,
      pl_pwrite := Some (command_pwrite dump stack), pl_block_size := Some command_block_size,
      pl_ctor := Some command_ctor, pl_query := Some (command_query dump), pl_export_without_handle := 1\<rparr>"

text \<open>The plugin keeps to what the registry relies on.\<close>

interpretation command_content: content_plugin "command_plugin dump stack"
  by unfold_locales (auto simp: command_plugin_def command_ctor_def null_plugin_def set_name_def bindr_Inr_iff
      deref_def Let_def split: option.splits prod.splits if_splits)

section \<open>Properties of the command plugin\<close>

lemma strchr_string: "NUL \<notin> set s \<Longrightarrow> c \<notin> set s \<longleftrightarrow> strchr s 0 c = None"
proof -
  assume a: "NUL \<notin> set s"
  have "takeWhile (\<lambda>x. x \<noteq> NUL) s = s" using a by (induction s) auto
  then show ?thesis unfolding strchr_None cstr_def drop_0 by (simp only:)
qed

lemma find_slot_middle:
  "\<forall>x \<in> set xs. \<not> free x \<Longrightarrow> free y \<Longrightarrow> find_slot free (xs @ y # ys) = length xs"
  by (intro find_slot_eqI) (auto simp: nth_append)

lemma command_query_runs:
  assumes "params \<noteq> []" and "nb_params \<noteq> 0" and "cs_commands st = pre @ c # post"
    and "\<forall>x \<in> set pre. cmd_name x \<noteq> q_key (params ! 0)" and "cmd_name c = q_key (params ! 0)"
    and "cmd_type c = METHOD_GET"
  shows "command_query dump h params nb_params st =
    bindr (call_cmd dump c (if q_val (params ! 0) = None then 1 else 2) (Some (argv_of params))
             (replicate CMD_BUFFER_SZ NUL) 1 (st\<lparr>cs_exportsize := 1, cs_result := replicate CMD_BUFFER_SZ NUL\<rparr>))
      (\<lambda>(r, b, n, st1). Inr (r, st1\<lparr>cs_result := b, cs_exportsize := n\<rparr>))"
proof -
  have "find_slot (\<lambda>x. q_key (params ! 0) = cmd_name x) (cs_commands st) = length pre"
    using assms(4,5) unfolding assms(3) by (intro find_slot_middle) auto
  then show ?thesis using assms(1,2,3,6) by (simp add: command_query_def command_query_get_def Let_def)
qed

text \<open>
  C33.  A query whose first key names a registered \<open>METHOD_GET\<close> command runs the first command of that
  name once, on a zeroed buffer, with two arguments when the key has a value and one otherwise, and
  returns its result.  The export then has the size the command set and its reads return the
  beginning of the command's output, whatever the offset is.
\<close>

theorem command_query_correct:
  assumes "params \<noteq> []" and "nb_params \<noteq> 0" and "cs_commands st = pre @ c # post"
    and "\<forall>x \<in> set pre. cmd_name x \<noteq> q_key (params ! 0)" and "cmd_name c = q_key (params ! 0)"
    and "cmd_type c = METHOD_GET" and "cmd_cmd c = Some (App f)"
    and "f (if q_val (params ! 0) = None then 1 else 2) (Some (argv_of params)) (replicate CMD_BUFFER_SZ NUL) 1 (cs_env st)
       = Inr (r, b, n, e)" and "length b = CMD_BUFFER_SZ"
  shows "\<exists>st'. command_query dump h params nb_params st = Inr (r, st') \<and> cs_env st' = e
    \<and> command_get_size h st' = Inr (n, st')
    \<and> (\<forall>k off fl. command_pread h k off fl st' =
         (if unat k \<le> CMD_BUFFER_SZ then Inr (0, take (unat k) b, st') else Inl Out_Of_Bounds))"
proof -
  have "command_query dump h params nb_params st
      = Inr (r, st\<lparr>cs_exportsize := n, cs_result := b, cs_env := e\<rparr>)"
    unfolding command_query_runs [OF assms(1-6)] by (simp add: call_cmd_def assms(7,8))
  then show ?thesis using assms(9) by (simp add: command_get_size_def command_pread_def mem_read_def)
qed

definition demo_command :: "nat lwnbd_command" where
  "demo_command = \<lparr>cmd_name = ''up'', cmd_desc = ''count'', cmd_type = METHOD_GET,
     cmd_cmd = Some (App (\<lambda>argc argv b n e. Inr (0, splice 0 ''ok'' b, 2, Suc e)))\<rparr>"

theorem command_query_correct_witness:
  "\<exists>st'. command_query (\<lambda>_. (0, [])) None [\<lparr>q_key = ''up'', q_val = None\<rparr>] 1
       ((command_start 0)\<lparr>cs_commands := [demo_command]\<rparr>) = Inr (0, st')
    \<and> cs_env st' = 1 \<and> command_pread None 2 7 0 st' = Inr (0, ''ok'', st')"
proof -
  let ?b = "splice 0 ''ok'' (replicate CMD_BUFFER_SZ NUL)"
  have b: "length ?b = CMD_BUFFER_SZ" "take 2 ?b = ''ok''"
    by (simp_all add: CMD_BUFFER_SZ_def splice_def)
  have "\<exists>st'. command_query (\<lambda>_. (0, [])) None [\<lparr>q_key = ''up'', q_val = None\<rparr>] 1
       ((command_start 0)\<lparr>cs_commands := [demo_command]\<rparr>) = Inr (0, st') \<and> cs_env st' = Suc 0
    \<and> command_get_size None st' = Inr (2, st')
    \<and> (\<forall>k off fl. command_pread None k off fl st' =
         (if unat k \<le> CMD_BUFFER_SZ then Inr (0, take (unat k) ?b, st') else Inl Out_Of_Bounds))"
    by (rule command_query_correct [where pre = "[]" and c = demo_command and post = "[]"
        and f = "\<lambda>argc argv b n e. Inr (0, splice 0 ''ok'' b, 2, Suc e)"])
      (use b(1) in \<open>simp_all add: demo_command_def command_start_def\<close>)
  then show ?thesis using b(2) by (auto simp: CMD_BUFFER_SZ_def)
qed

text \<open>
  \<^verbatim>\<open>echo\<close> of a text without \<^verbatim>\<open>$\<close> puts the text at the start of the result and sets the size to its
  length, if it fits in the buffer; a text with a \<^verbatim>\<open>$\<close>, which is meant to insert the content of
  an export, always goes wrong: no such text is ever answered.
\<close>

theorem echo_correct:
  assumes "argc \<noteq> 1" and "NUL \<notin> set txt" and "length b = CMD_BUFFER_SZ"
  shows "if CHR ''$'' \<in> set txt then \<exists>f. echo argc (Some (k # Some txt # rest)) b n = Inl f
    else echo argc (Some (k # Some txt # rest)) b n
      = (if length txt \<le> CMD_BUFFER_SZ then Inr (0, txt @ drop (length txt) b, of_nat (length txt))
         else Inl Out_Of_Bounds)"
proof (cases "CHR ''$'' \<in> set txt")
  case True
  then obtain p where "strchr txt 0 CHR ''$'' = Some p"
    using strchr_string [OF assms(2), of "CHR ''$''"] by (cases "strchr txt 0 CHR ''$''") auto
  then have "\<exists>f. echo argc (Some (k # Some txt # rest)) b n = Inl f"
    using assms(1) by (simp add: echo_def arg_def mem_write_def Let_def)
  then show ?thesis using True by simp
next
  case False
  then have "strchr txt 0 CHR ''$'' = None" using strchr_string [OF assms(2)] by blast
  then show ?thesis using False assms(1,3) by (simp add: echo_def arg_def mem_write_def splice_def)
qed

theorem echo_correct_witness:
  "(\<exists>f. echo 2 (Some [Some ''echo'', Some ''a$b'']) (replicate CMD_BUFFER_SZ NUL) 1 = Inl f)
   \<and> (\<exists>b. echo 2 (Some [Some ''echo'', Some ''hi'']) (replicate CMD_BUFFER_SZ NUL) 1 = Inr (0, ''hi'' @ b, 2))"
proof -
  have n: "(2 :: int) \<noteq> 1" by simp
  have "NUL \<notin> set ''a$b''" "NUL \<notin> set ''hi''" by (simp_all add: NUL_def)
  note this(1) [THEN echo_correct [OF n, of _ "replicate CMD_BUFFER_SZ NUL" "Some ''echo''" "[]" 1]]
    this(2) [THEN echo_correct [OF n, of _ "replicate CMD_BUFFER_SZ NUL" "Some ''echo''" "[]" 1]]
  then show ?thesis by (auto simp: CMD_BUFFER_SZ_def)
qed

end
