(* ===== verification/Uv_Server.thy ===== *)
theory Uv_Server
  imports Plugins Servers Command_Plugin Memory_Plugin
begin

text \<open>
  The server of \<^verbatim>\<open>examples/lwnbd-server.c\<close>: the table of workers that its libuv callbacks keep, the
  command that stops it, and \<^verbatim>\<open>main\<close>.  libuv is a parameter: what a call returns is an argument, and
  the order in which the loop runs the callbacks is the step relation \<open>uv_step\<close>.
\<close>

section \<open>The workers\<close>

datatype worker_state_t = CLIENT_FREE | CLIENT_INUSE

definition MAX_CLIENTS :: nat where "MAX_CLIENTS = 3"

text \<open>A worker, with the stream it accepts from; \<^verbatim>\<open>req\<close> is libuv's own.\<close>

record nbd_worker =
  wk_client_id :: nat
  wk_server :: nat

text \<open>
  \<open>uv_jobs\<close> is the queue of libuv: the workers handed to \<^verbatim>\<open>uv_queue_work\<close> whose \<^verbatim>\<open>on_after_work\<close> has
  not run.  A pointer in \<^verbatim>\<open>client_reqs\<close> stays after its worker is freed.
\<close>

record uv_server =
  client_states :: "worker_state_t list"
  client_reqs :: "nbd_worker option list"
  uv_jobs :: "nbd_worker list"

text \<open>\<^verbatim>\<open>memset(client_states, CLIENT_FREE, ...)\<close> before the loop is started.\<close>

definition uv_start :: uv_server where
  "uv_start = \<lparr>client_states = replicate MAX_CLIENTS CLIENT_FREE,
     client_reqs = replicate MAX_CLIENTS None, uv_jobs = []\<rparr>"

definition on_new_connection :: "nat \<Rightarrow> int \<Rightarrow> uv_server \<Rightarrow> uv_server" where
  "on_new_connection server status s =
     (if status < 0 then s
      else let i = find_slot (\<lambda>st. st = CLIENT_FREE) (client_states s)
           in if i = length (client_states s) then s
              else let w = \<lparr>wk_client_id = i, wk_server = server\<rparr>
                   in \<lparr>client_states = (client_states s)[i := CLIENT_INUSE],
                       client_reqs = (client_reqs s)[i := Some w], uv_jobs = uv_jobs s @ [w]\<rparr>)"

text \<open>\<open>k\<close> is the place of the worker among the jobs; \<^verbatim>\<open>free(req)\<close> ends its life.\<close>

definition on_after_work :: "nat \<Rightarrow> uv_server \<Rightarrow> uv_server" where
  "on_after_work k s =
     (let req = uv_jobs s ! k
      in s\<lparr>client_states := (client_states s)[wk_client_id req := CLIENT_FREE],
           uv_jobs := take k (uv_jobs s) @ drop (Suc k) (uv_jobs s)\<rparr>)"

text \<open>
  The job itself, on a thread of libuv: \<open>accepted\<close> is the result of \<^verbatim>\<open>uv_accept\<close>, \<open>sock\<close> the descriptor
  of the client and \<open>client\<close> the \<^verbatim>\<open>void *\<close> made of it.  Both ends close the client once.
\<close>

definition on_work ::
  "int \<Rightarrow> int \<Rightarrow> (int \<Rightarrow> 'd) \<Rightarrow> u32 \<Rightarrow> ('c, 'd, 'w) server_table \<Rightarrow> ('c, 'd, 'w) server_table run" where
  "on_work accepted sock client s tab =
     (if accepted = 0 then lwnbd_server_run s (client sock) tab else ret tab)"

text \<open>
  \<^verbatim>\<open>uv_cancel((uv_req_t *)&client_reqs[i])\<close> gets the address of the pointer and not the request: a job of
  the queue is never what it is given.  \<open>cancel\<close> says what libuv makes of such an address.
\<close>

definition signal_handler :: "(nat \<Rightarrow> 'o \<Rightarrow> 'o) \<Rightarrow> ('o \<Rightarrow> 'o) \<Rightarrow> 'o \<Rightarrow> 'o" where
  "signal_handler cancel stop w = stop (fold cancel [0..<MAX_CLIENTS] w)"

definition SIGINT :: int where "SIGINT = 2"

text \<open>The command: \<open>kill\<close> is \<^verbatim>\<open>uv_kill\<close> on the process itself, \<open>strsignal\<close> the library's text.\<close>

definition signal_cb :: "(int \<Rightarrow> string) \<Rightarrow> (int \<Rightarrow> 'e \<Rightarrow> 'e) \<Rightarrow> 'e app_cmd" where
  "signal_cb strsignal kill argc argv result size_of e =
     bindr (if argc > 1 then bindr (arg argv 1) (\<lambda>a. Inr (atoi a)) else Inr SIGINT) (\<lambda>signum.
     bindr (arg argv 0) (\<lambda>name.
     let text = name @ '' with signal '' @ strsignal signum @ [CHR 0x0A]
     in bindr (mem_write 0 (text @ [NUL]) result) (\<lambda>b.
        Inr (0, b, of_nat (length text), kill signum e))))"

section \<open>The program\<close>

text \<open>The options of the command line, as \<^verbatim>\<open>getopt\<close> returns them.\<close>

datatype uv_opt = Opt_v string | Opt_i string | Opt_p string | Opt_f string | Opt_unknown

text \<open>The locals that the options set; \<^verbatim>\<open>fileplg\<close> is without a value until an option sets it.\<close>

record uv_options =
  uo_port :: int
  uo_level :: int
  uo_fileplg :: "u32 option"

fun read_options ::
  "('c, 'w) lwnbd_plugin_t option \<Rightarrow> (string \<Rightarrow> 'c) \<Rightarrow> uv_opt list \<Rightarrow> uv_options \<Rightarrow> ('c, 'w) lwnbd
    \<Rightarrow> (uv_options \<times> ('c, 'w) lwnbd) option result" where
  "read_options file_plg file_cfg [] v s = Inr (Some (v, s))"
| "read_options file_plg file_cfg (Opt_v a # os) v s =
     read_options file_plg file_cfg os (v\<lparr>uo_level := atoi a\<rparr>) s"
| "read_options file_plg file_cfg (Opt_i a # os) v s = read_options file_plg file_cfg os v s"
| "read_options file_plg file_cfg (Opt_p a # os) v s =
     read_options file_plg file_cfg os (v\<lparr>uo_port := atoi a\<rparr>) s"
| "read_options file_plg file_cfg (Opt_f a # os) v s =
     (case uo_fileplg v of
        None \<Rightarrow> Inl Uninitialised
      | Some h \<Rightarrow>
          bindr (if h = 0 then lwnbd_plugin_init s file_plg else Inr (h, s)) (\<lambda>(h, s).
          bindr (lwnbd_plugin_new s h (file_cfg a)) (\<lambda>(_, s).
          read_options file_plg file_cfg os (v\<lparr>uo_fileplg := Some h\<rparr>) s)))"
| "read_options file_plg file_cfg (Opt_unknown # os) v s = Inr None"

text \<open>
  What \<^verbatim>\<open>main\<close> hands to the library: the tables of the plugins and of the server, and how a
  configuration is seen through a \<^verbatim>\<open>void *\<close>.
\<close>

record ('c, 'w, 'sc, 'd, 'sw, 'e) uv_program =
  up_file_plugin :: "('c, 'w) lwnbd_plugin_t option"
  up_file_cfg :: "string \<Rightarrow> 'c"
  up_memory_plugin :: "('c, 'w) lwnbd_plugin_t option"
  up_memory_cfg :: "memory_config \<Rightarrow> 'c"
  up_command_plugin :: "('c, 'w) lwnbd_plugin_t option"
  up_command_cfg :: "'e lwnbd_command \<Rightarrow> 'c"
  up_nbd_server :: "('sc, 'd, 'sw) lwnbd_server option"
  up_nbd_settings :: 'sc
  up_shutdown :: "'e app_cmd"

definition motd_config :: "u64 \<Rightarrow> memory_config" where
  "motd_config data = \<lparr>mc_base = data, mc_size = 512, mc_name = ''motd'', mc_desc = ''plain-text server information''\<rparr>"

definition shutdown_command :: "'e app_cmd \<Rightarrow> 'e lwnbd_command" where
  "shutdown_command f = \<lparr>cmd_name = ''shutdown'', cmd_desc = ''turn off the application'',
     cmd_type = METHOD_GET, cmd_cmd = Some (App f)\<rparr>"

text \<open>The plugins, in the order of \<^verbatim>\<open>main\<close>; results of the calls are not looked at.\<close>

definition uv_plugins ::
  "('c, 'w, 'sc, 'd, 'sw, 'e) uv_program \<Rightarrow> u64 \<Rightarrow> ('c, 'w) lwnbd \<Rightarrow> ('c, 'w) lwnbd result" where
  "uv_plugins up data s =
     bindr (lwnbd_plugin_init s (up_memory_plugin up)) (\<lambda>(memplg, s).
     bindr (lwnbd_plugin_new s memplg (up_memory_cfg up (motd_config data))) (\<lambda>(_, s).
     bindr (lwnbd_plugin_init s (up_command_plugin up)) (\<lambda>(cmdplg, s).
     bindr (lwnbd_plugin_new s cmdplg (up_command_cfg up (shutdown_command (up_shutdown up)))) (\<lambda>(_, s).
     Inr s))))"

text \<open>
  \<^verbatim>\<open>main\<close> up to its loop: the result of \<^verbatim>\<open>uv_listen\<close> is \<open>listen\<close>, and \<open>None\<close> stands for \<^verbatim>\<open>exit(1)\<close>.
  What the callbacks of the loop then find is the server number and the empty table of workers.
\<close>

definition uv_main ::
  "('c, 'w, 'sc, 'd, 'sw, 'e) uv_program \<Rightarrow> uv_opt list \<Rightarrow> u64 \<Rightarrow> int \<Rightarrow> ('c, 'w) lwnbd
    \<Rightarrow> ('sc, 'd, 'sw) server_table
    \<Rightarrow> (int \<times> (u32 \<times> uv_server \<times> ('c, 'w) lwnbd \<times> ('sc, 'd, 'sw) server_table) option) result" where
  "uv_main up opts data listen s tab =
     bindr (read_options (up_file_plugin up) (up_file_cfg up) opts
              \<lparr>uo_port = 10809, uo_level = 4, uo_fileplg = None\<rparr> s) (\<lambda>r.
     case r of
       None \<Rightarrow> Inr (1, None)
     | Some (v, s) \<Rightarrow>
         bindr (uv_plugins up data s) (\<lambda>s.
         bindr (lwnbd_server_init (up_nbd_server up) tab) (\<lambda>(httpsrv, tab).
         bindr (lwnbd_server_new httpsrv (up_nbd_settings up) tab) (\<lambda>(_, tab).
         Inr (if listen \<noteq> 0 then (1, None) else (0, Some (httpsrv, uv_start, s, tab)))))))"

text \<open>An option \<^verbatim>\<open>-f\<close> always reads \<^verbatim>\<open>fileplg\<close> before it has a value.\<close>

lemma option_f_uninitialised:
  assumes "uo_fileplg v = None" and "\<forall>o1 \<in> set os. \<exists>a. o1 = Opt_v a \<or> o1 = Opt_i a \<or> o1 = Opt_p a"
  shows "read_options file_plg file_cfg (os @ Opt_f a # rest) v s = Inl Uninitialised"
  using assms
proof (induction os arbitrary: v)
  case (Cons o1 os)
  then show ?case by (cases o1) auto
qed simp

section \<open>The table of workers as a state machine\<close>

text \<open>The callbacks that libuv runs: a connection, or the end of one of the jobs, in any order.\<close>

inductive uv_step :: "uv_server \<Rightarrow> uv_server \<Rightarrow> bool" where
  connection: "uv_step s (on_new_connection server status s)"
| after_work: "k < length (uv_jobs s) \<Longrightarrow> uv_step s (on_after_work k s)"

inductive uv_reachable :: "uv_server \<Rightarrow> bool" where
  start: "uv_reachable uv_start"
| step: "uv_reachable s \<Longrightarrow> uv_step s s' \<Longrightarrow> uv_reachable s'"

inductive_cases uv_stepE: "uv_step s s'"

definition job_ids :: "uv_server \<Rightarrow> nat list" where
  "job_ids s = map wk_client_id (uv_jobs s)"

text \<open>A slot is taken exactly while a job has it, and no two jobs share a slot.\<close>

definition wf_uv :: "uv_server \<Rightarrow> bool" where
  "wf_uv s \<longleftrightarrow> length (client_states s) = MAX_CLIENTS \<and> length (client_reqs s) = MAX_CLIENTS
     \<and> distinct (job_ids s) \<and> set (job_ids s) = {i. i < MAX_CLIENTS \<and> client_states s ! i = CLIENT_INUSE}"

lemma not_free_iff [simp]: "x \<noteq> CLIENT_FREE \<longleftrightarrow> x = CLIENT_INUSE"
  by (cases x) simp_all

lemma wf_uv_start: "wf_uv uv_start"
  by (auto simp: wf_uv_def uv_start_def job_ids_def)

text \<open>The slots of the table are a pool: a connection takes the first that is free.\<close>

definition take_worker :: "worker_state_t list \<Rightarrow> nat option \<times> worker_state_t list" where
  "take_worker st =
     (let i = find_slot (\<lambda>st. st = CLIENT_FREE) st
      in if i = length st then (None, st) else (Some i, st[i := CLIENT_INUSE]))"

interpretation workers: slot_pool MAX_CLIENTS "\<lambda>st i. st ! i = CLIENT_FREE"
  "\<lambda>st. length st = MAX_CLIENTS" take_worker
  unfolding take_worker_def by (rule slot_pool_list) simp

lemma on_new_connection_take:
  "on_new_connection server status s =
   (if status < 0 then s
    else case take_worker (client_states s) of
           (None, _) \<Rightarrow> s
         | (Some i, st) \<Rightarrow>
             let w = \<lparr>wk_client_id = i, wk_server = server\<rparr>
             in \<lparr>client_states = st, client_reqs = (client_reqs s)[i := Some w], uv_jobs = uv_jobs s @ [w]\<rparr>)"
  by (simp add: on_new_connection_def take_worker_def Let_def)

lemma wf_uv_connection:
  assumes wf: "wf_uv s"
  shows "wf_uv (on_new_connection server status s)"
proof (cases "status < 0")
  case True
  then show ?thesis using wf by (simp add: on_new_connection_def)
next
  case False
  have len: "length (client_states s) = MAX_CLIENTS" using wf by (simp add: wf_uv_def)
  show ?thesis
  proof (cases "take_worker (client_states s)")
    case (Pair r st)
    show ?thesis
    proof (cases r)
      case None
      then show ?thesis using wf Pair by (simp add: on_new_connection_take)
    next
      case (Some i)
      have i: "i < MAX_CLIENTS" "client_states s ! i = CLIENT_FREE"
        using workers.alloc_Some [OF len] Pair Some by auto
      have "st = (client_states s)[i := CLIENT_INUSE]"
        using Pair Some by (auto simp: take_worker_def Let_def split: if_splits)
      moreover have "i \<notin> set (job_ids s)" using wf i by (auto simp: wf_uv_def)
      ultimately show ?thesis
        using wf i Some Pair False len
        by (auto simp: on_new_connection_take Let_def wf_uv_def job_ids_def nth_list_update)
    qed
  qed
qed

lemma wf_uv_after_work:
  assumes wf: "wf_uv s" and k: "k < length (uv_jobs s)"
  shows "wf_uv (on_after_work k s)"
proof -
  let ?i = "wk_client_id (uv_jobs s ! k)"
  have ids: "job_ids s = take k (job_ids s) @ ?i # drop (Suc k) (job_ids s)"
    using k by (simp add: job_ids_def take_map drop_map flip: id_take_nth_drop) (metis id_take_nth_drop list.simps(9) map_append)
  have new: "job_ids (on_after_work k s) = take k (job_ids s) @ drop (Suc k) (job_ids s)"
    by (simp add: job_ids_def on_after_work_def Let_def take_map drop_map)
  have d: "distinct (take k (job_ids s) @ ?i # drop (Suc k) (job_ids s))" using wf ids by (simp add: wf_uv_def)
  have "set (job_ids s) = insert ?i (set (job_ids (on_after_work k s)))" using ids new by (metis Un_insert_right list.simps(15) set_append)
  moreover have "?i \<notin> set (job_ids (on_after_work k s))" using d new by auto
  ultimately have s: "set (job_ids (on_after_work k s)) = set (job_ids s) - {?i}" by blast
  have "distinct (job_ids (on_after_work k s))" using d new by auto
  moreover have st: "client_states (on_after_work k s) = (client_states s)[?i := CLIENT_FREE]"
    "client_reqs (on_after_work k s) = client_reqs s" by (simp_all add: on_after_work_def Let_def)
  moreover have "set (job_ids s) - {?i} =
      {i. i < MAX_CLIENTS \<and> (client_states s)[?i := CLIENT_FREE] ! i = CLIENT_INUSE}"
  proof -
    have w: "set (job_ids s) = {i. i < MAX_CLIENTS \<and> client_states s ! i = CLIENT_INUSE}"
      and len: "length (client_states s) = MAX_CLIENTS" using wf by (simp_all add: wf_uv_def)
    have "?i \<in> set (job_ids s)" using ids by (metis in_set_conv_decomp)
    then have "?i < length (client_states s)" using w len by simp
    then have "(client_states s)[?i := CLIENT_FREE] ! i = CLIENT_INUSE \<longleftrightarrow>
        i \<noteq> ?i \<and> client_states s ! i = CLIENT_INUSE" for i
      by (simp add: nth_list_update)
    then show ?thesis unfolding w by blast
  qed
  ultimately show ?thesis using wf s unfolding wf_uv_def by (metis length_list_update)
qed

lemma wf_uv_reachable: "uv_reachable s \<Longrightarrow> wf_uv s"
  by (induction rule: uv_reachable.induct)
    (auto simp: wf_uv_start wf_uv_connection wf_uv_after_work elim!: uv_stepE)

lemma wf_uv_count: "wf_uv s \<Longrightarrow> length (uv_jobs s) = card {i. i < MAX_CLIENTS \<and> client_states s ! i = CLIENT_INUSE}"
  unfolding wf_uv_def job_ids_def by (metis distinct_card length_map)

text \<open>
  C39. In every state that the callbacks can reach, whatever their order, the slots marked in use are
  exactly those of the jobs handed to the thread pool, one job each; so there are never more than
  three clients at once, a connection is given a worker if fewer are being served, and one that comes
  while three are served changes nothing.
\<close>

theorem uv_workers_invariant:
  assumes "uv_reachable s" and "0 \<le> status"
  shows "distinct (job_ids s)
    \<and> set (job_ids s) = {i. i < 3 \<and> client_states s ! i = CLIENT_INUSE} \<and> length (uv_jobs s) \<le> 3
    \<and> (if length (uv_jobs s) < 3
       then \<exists>i < 3. i \<notin> set (job_ids s)
         \<and> uv_jobs (on_new_connection server status s) = uv_jobs s @ [\<lparr>wk_client_id = i, wk_server = server\<rparr>]
       else on_new_connection server status s = s)"
proof -
  have wf: "wf_uv s" using wf_uv_reachable [OF assms(1)] .
  then have len: "length (client_states s) = MAX_CLIENTS" by (simp add: wf_uv_def)
  let ?used = "{i. i < MAX_CLIENTS \<and> client_states s ! i = CLIENT_INUSE}"
  have n: "length (uv_jobs s) = card ?used" by (rule wf_uv_count [OF wf])
  have sub: "?used \<subseteq> {..<MAX_CLIENTS}" by auto
  have le: "card ?used \<le> 3" using card_mono [OF _ sub] by (simp add: MAX_CLIENTS_def)
  have "if length (uv_jobs s) < 3
       then \<exists>i < 3. i \<notin> set (job_ids s)
         \<and> uv_jobs (on_new_connection server status s) = uv_jobs s @ [\<lparr>wk_client_id = i, wk_server = server\<rparr>]
       else on_new_connection server status s = s"
  proof (cases "take_worker (client_states s)")
    case (Pair r st)
    show ?thesis
    proof (cases r)
      case None
      have "?used = {..<MAX_CLIENTS}"
        using workers.alloc_None [OF len Pair [unfolded None]] by auto
      then have "\<not> length (uv_jobs s) < 3" using n by (simp add: MAX_CLIENTS_def)
      then show ?thesis using Pair None by (simp add: on_new_connection_take)
    next
      case (Some i)
      have i: "i < MAX_CLIENTS" "client_states s ! i = CLIENT_FREE"
        using workers.alloc_Some [OF len] Pair Some by auto
      then have "i \<in> {..<MAX_CLIENTS}" and "i \<notin> ?used" by simp_all
      then have "?used \<subset> {..<MAX_CLIENTS}" using sub by blast
      then have "length (uv_jobs s) < 3" using n psubset_card_mono [of "{..<MAX_CLIENTS}" ?used] by (simp add: MAX_CLIENTS_def)
      moreover have "i \<notin> set (job_ids s)" using wf i by (auto simp: wf_uv_def)
      ultimately show ?thesis using i(1) Pair Some assms(2) by (auto simp: on_new_connection_take Let_def MAX_CLIENTS_def)
    qed
  qed
  moreover have "distinct (job_ids s) \<and> set (job_ids s) = {i. i < 3 \<and> client_states s ! i = CLIENT_INUSE}"
    using wf by (simp add: wf_uv_def MAX_CLIENTS_def)
  moreover have "length (uv_jobs s) \<le> 3" using n le by linarith
  ultimately show ?thesis by blast
qed

lemma uv_reachable_two: "uv_reachable (on_after_work 0 (on_new_connection 5 0 (on_new_connection 5 0 uv_start)))"
  by (intro uv_reachable.step [OF _ uv_step.after_work] uv_reachable.step [OF _ uv_step.connection] uv_reachable.start)
    (simp add: on_new_connection_def uv_start_def Let_def MAX_CLIENTS_def find_slot_def numeral_3_eq_3)

theorem uv_workers_invariant_witness:
  "let s = on_after_work 0 (on_new_connection 5 0 (on_new_connection 5 0 uv_start))
   in set (job_ids s) = {i. i < 3 \<and> client_states s ! i = CLIENT_INUSE}"
  using uv_workers_invariant [OF uv_reachable_two, of 0 7] by (simp add: Let_def)

end
