(* ===== verification/Local_Reader.thy ===== *)
theory Local_Reader
  imports Plugins File_Plugin Contexts_Uri
begin

text \<open>
  The program \<^verbatim>\<open>examples/local-reader.c\<close>: it loads the file plugin, makes a context of its argument,
  finds it by name and prints it byte by byte.  The property follows a file through the registry, the
  pool of contexts, the URI parser, the dispatcher and the plugin.
\<close>

section \<open>The code\<close>

text \<open>
  The variables of the loop: \<open>rd_buf\<close> is the first byte of \<^verbatim>\<open>buf\<close>, without a value until a read stores
  one; \<open>rd_out\<close> is what was printed.
\<close>

record ('c, 'w) reader_vars =
  rd_r :: int
  rd_offset :: u64
  rd_buf :: "byte option"
  rd_out :: string
  rd_lwnbd :: "('c, 'w) lwnbd"

definition reader_body ::
  "nat option \<Rightarrow> ('c, 'w) reader_vars \<Rightarrow> (flow \<times> ('c, 'w) reader_vars) run" where
  "reader_body ctx v =
     bindp (lift (bindr (deref ctx) (\<lambda>c.
              lwnbd_pread (rd_lwnbd v) (contexts (rd_lwnbd v) ! c) 1 (rd_offset v) 0))) (\<lambda>(r, d, s).
     let buf = (case d of [] \<Rightarrow> rd_buf v | x # _ \<Rightarrow> Some x)
     in case buf of
          None \<Rightarrow> Some (Inl Uninitialised)
        | Some x \<Rightarrow> ret (Next, \<lparr>rd_r = r, rd_offset = rd_offset v + 1, rd_buf = buf, rd_out = rd_out v @ [x],
                               rd_lwnbd = s\<rparr>))"

definition reader_more :: "('c, 'w) reader_vars \<Rightarrow> bool" where
  "reader_more v = (rd_r v = 0)"

text \<open>
  \<^verbatim>\<open>main\<close>: its exit status and output.  \<open>file_plg\<close> is what \<^verbatim>\<open>file_plugin_init\<close> returns, and
  \<open>file_cfg\<close> the path seen through the \<^verbatim>\<open>void *\<close> of a configuration.
\<close>

definition local_reader ::
  "('c, 'w) lwnbd_plugin_t option \<Rightarrow> (string \<Rightarrow> 'c) \<Rightarrow> string list \<Rightarrow> ('c, 'w) lwnbd \<Rightarrow> (int \<times> string) run" where
  "local_reader file_plg file_cfg argv s =
     (if length argv < 2 then ret (1, [])
      else bindp (lift (lwnbd_plugin_init s file_plg)) (\<lambda>(fileplg, s).
           bindp (lift (lwnbd_plugin_new s fileplg (file_cfg (argv ! 1)))) (\<lambda>(_, s).
           bindp (lift (lwnbd_get_context s (argv ! 1 @ [NUL]) 0)) (\<lambda>(ctx, _, s).
           bindp (while_flow reader_more (reader_body ctx)
                    \<lparr>rd_r = 0, rd_offset = 0, rd_buf = None, rd_out = [], rd_lwnbd = s\<rparr>) (\<lambda>(_, v).
           ret (0, rd_out v))))))"

section \<open>Opening the export\<close>

text \<open>What a path is that names a file of the working directory and is a request for itself.\<close>

definition plain_name :: "string \<Rightarrow> bool" where
  "plain_name nm \<longleftrightarrow> nm \<noteq> [] \<and> length nm < 32 \<and> NUL \<notin> set nm \<and> CHR ''/'' \<notin> set nm
     \<and> CHR ''?'' \<notin> set nm \<and> CHR ''#'' \<notin> set nm"

lemma plain_uri: "plain_name nm \<Longrightarrow> uri_path nm = nm \<and> uri_query nm = None"
  by (simp add: plain_name_def uri_path_def uri_query_def cut_absent)

lemma plain_cstr: "plain_name nm \<Longrightarrow> cstr (nm @ [NUL]) 0 = nm"
  unfolding cstr_def plain_name_def by (auto simp: takeWhile_append)

lemma plain_basename:
  assumes "plain_name nm"
  shows "basename nm = nm"
proof -
  have n: "\<forall>c \<in> set nm. c \<noteq> CHR ''/''" "nm \<noteq> []" using assms by (auto simp: plain_name_def)
  then have dw: "dropWhile (\<lambda>c. c = CHR ''/'') (rev nm) = rev nm"
    by (cases "rev nm") (auto simp: rev_eq_Cons_iff)
  have tw: "takeWhile (\<lambda>c. c \<noteq> CHR ''/'') (rev nm) = rev nm" using n by simp
  show ?thesis unfolding basename_def dw Let_def rev_rev_ident tw using n by simp
qed

text \<open>The library after the plugin is loaded and the context is made.\<close>

definition reader_context :: "string \<Rightarrow> lwnbd_context" where
  "reader_context nm = \<lparr>ctx_handle = Some 0, ctx_p = Some 0, ctx_name = nm,
     ctx_description = ''lwnbd file plugin'', ctx_exportsize = 0\<rparr>"

definition reader_files :: "string \<Rightarrow> 'f \<Rightarrow> 'f file_state" where
  "reader_files nm f = (file_state_init f)
     \<lparr>fl_handles := (fl_handles (file_state_init f))[0 := \<lparr>fh_fd = 0, fh_flags = 0, fh_filename = Some nm\<rparr>],
      fl_in_use := (fl_in_use (file_state_init f))[0 := HANDLE_CREATED]\<rparr>"

definition reader_lwnbd :: "'f posix_fs \<Rightarrow> string \<Rightarrow> 'f \<Rightarrow> (string, 'f file_state) lwnbd" where
  "reader_lwnbd os nm f =
     \<lparr>contexts = (replicate MAX_CONTEXTS zero_context)[0 := reader_context nm],
      contexts_status = (replicate MAX_CONTEXTS CONTEXT_FREE)[0 := CONTEXT_CREATED],
      plugins = (replicate MAX_NUM_PLUGINS None)[0 := Some (file_plugin os)],
      plugins_status = (replicate MAX_NUM_PLUGINS PLUGIN_FREE)[0 := PLUGIN_CREATED],
      world = reader_files nm f\<rparr>"

lemma reader_opens:
  assumes "plain_name nm"
  shows "bindr (lwnbd_plugin_init (lwnbd_init (file_state_init f)) (Some (file_plugin os))) (\<lambda>(h, s).
      lwnbd_plugin_new s h nm) = Inr (0, reader_lwnbd os nm f)"
proof -
  let ?s = "(lwnbd_init (file_state_init f))\<lparr>plugins := (replicate MAX_NUM_PLUGINS None)[0 := Some (file_plugin os)],
      plugins_status := (replicate MAX_NUM_PLUGINS PLUGIN_FREE)[0 := PLUGIN_CREATED]\<rparr>"
  have init: "lwnbd_plugin_init (lwnbd_init (file_state_init f)) (Some (file_plugin os)) = Inr (0, ?s)"
    by (simp add: lwnbd_plugin_init_def Let_def lwnbd_init_def find_slot_replicate MAX_NUM_PLUGINS_def
        file_plugin_def null_plugin_def)
  have at: "plugin_at ?s 0 = Inr (file_plugin os)"
    by (simp add: plugin_at_def MAX_NUM_PLUGINS_def)
  have new: "lwnbd_new_context ?s =
      (Some 0, ?s\<lparr>contexts_status := (replicate MAX_CONTEXTS CONTEXT_FREE)[0 := CONTEXT_CREATED]\<rparr>)"
    by (simp add: lwnbd_new_context_def Let_def lwnbd_init_def find_slot_replicate MAX_CONTEXTS_def)
  have ctor: "file_ctor nm (Some (zero_context\<lparr>ctx_description := []\<rparr>)) (file_state_init f) =
      Inr (0, Some ((reader_context nm)\<lparr>ctx_p := None, ctx_description := []\<rparr>), reader_files nm f)"
    using assms
    by (simp add: file_ctor_def take_handle_def Let_def file_state_init_def FILE_DRIVER_MAX_DEVICES_def
        find_slot_replicate set_name_def plain_basename strcpy_field_def plain_name_def
        zero_context_def reader_context_def reader_files_def handle_at_def set_handle_def)
  have "contexts ?s ! 0 = zero_context" "world ?s = file_state_init f"
    by (simp_all add: lwnbd_init_def MAX_CONTEXTS_def)
  then show ?thesis
    unfolding init bindr_simps prod.case lwnbd_plugin_new_def at
    using ctor new
    by (simp add: file_plugin_def null_plugin_def Let_def reader_lwnbd_def reader_context_def
        strcpy_field_def lwnbd_init_def)
qed

section \<open>Reading to the end\<close>

text \<open>
  What the program needs of the system beyond the contract of the plugin: a file can be opened, asked
  for its size, and a read at its end yields nothing.
\<close>

locale posix_reader = posix_file +
  assumes pread_end: "inode fd f = Some d \<Longrightarrow> length d \<le> off \<Longrightarrow> 0 < n \<Longrightarrow>
      \<exists>f'. sys_pread os fd n (int off) f = (Some [], f') \<and> inode fd f' = Some d"
    and fstat_ok: "inode fd f = Some d \<Longrightarrow> \<exists>sz f'. sys_fstat os fd f = (sz, f') \<and> inode fd f' = Some d"
begin

lemma pread_at_end:
  assumes o: "open_on h st fd d" and off: "unat offset = length d"
  shows "\<exists>st'. file_pread os h 1 offset fl st = Inr (- 1, [], st')"
proof -
  obtain fh where fh: "handle_at (fl_handles st) h = Inr fh" "fh_fd fh = fd" "inode fd (fl_os st) = Some d"
    "length d < 2 ^ 63" using o by (auto simp: open_on_def)
  let ?v = "\<lparr>io_count = 1, io_offset = offset, io_data = [], io_os = fl_os st\<rparr>"
  have s: "sint offset = int (length d)" using off fh(4) by (subst sint_small) simp_all
  obtain f' where f': "sys_pread os fd 1 (int (length d)) (fl_os st) = (Some [], f')"
    using pread_end [OF fh(3), of "length d" 1] by auto
  have "pread_body os fd ?v = ret (Return (- 1), ?v\<lparr>io_os := f'\<rparr>)"
    using f' s by (simp add: pread_body_def)
  then have "while_flow io_pending (pread_body os fd) ?v = Some (Inr (Return (- 1), ?v\<lparr>io_os := f'\<rparr>))"
    by (intro while_flow_return) (simp_all add: io_pending_def ret_def)
  then show ?thesis using fh by (simp add: file_pread_def flow_result_def)
qed

lemma usable_open_on: "usable h st \<Longrightarrow> \<exists>fd. open_on h st fd (data h st)"
  by (auto simp: usable_def)

text \<open>The loop, with the first \<open>k\<close> bytes printed.\<close>

lemma reader_loop:
  assumes "plugins s ! 0 = Some (file_plugin os)" and "contexts s ! 0 = c" and "ctx_p c = Some 0"
    and "ctx_handle c = Some 0"
  shows "usable (Some 0) (world s) \<Longrightarrow> data (Some 0) (world s) = d \<Longrightarrow> length d < 2 ^ 63 \<Longrightarrow>
     k \<le> length d \<Longrightarrow> n = length d - k \<Longrightarrow> d \<noteq> [] \<Longrightarrow>
     b = (if k = 0 then None else Some (d ! (k - 1))) \<Longrightarrow>
     \<exists>v. while_flow reader_more (reader_body (Some 0))
         \<lparr>rd_r = 0, rd_offset = of_nat k, rd_buf = b, rd_out = take k d, rd_lwnbd = s\<rparr> = Some (Inr (Next, v))
       \<and> rd_out v = d @ [last d]"
  using assms
proof (induction n arbitrary: k b s)
  case 0
  have pl: "pl_pread (file_plugin os) = Some (file_pread os)" by (simp add: file_plugin_def)
  have k: "k = length d" "0 < k" using 0 by auto
  obtain fd where o: "open_on (Some 0) (world s) fd d" using usable_open_on "0.prems"(1,2) by blast
  have "unat (of_nat k :: u64) = length d" using k "0.prems"(3) by (simp add: unat_of_nat)
  then obtain w where w: "file_pread os (Some 0) 1 (of_nat k) 0 (world s) = Inr (- 1, [], w)"
    using pread_at_end [OF o] by blast
  let ?v = "\<lparr>rd_r = 0, rd_offset = of_nat k, rd_buf = b, rd_out = take k d, rd_lwnbd = s\<rparr>"
  let ?v' = "\<lparr>rd_r = - 1, rd_offset = of_nat k + 1, rd_buf = b, rd_out = d @ [last d], rd_lwnbd = s\<lparr>world := w\<rparr>\<rparr>"
  have "b = Some (last d)" using "0.prems" k by (simp add: last_conv_nth)
  then have "reader_body (Some 0) ?v = ret (Next, ?v')"
    using "0.prems" w k pl by (simp add: reader_body_def lwnbd_pread_def plugin_of_def)
  then have "while_flow reader_more (reader_body (Some 0)) ?v = while_flow reader_more (reader_body (Some 0)) ?v'"
    by (intro while_flow_next) (simp_all add: reader_more_def ret_def)
  moreover have "while_flow reader_more (reader_body (Some 0)) ?v' = Some (Inr (Next, ?v'))"
    by (rule while_flow_stop) (simp add: reader_more_def)
  ultimately show ?case by (metis reader_vars.select_convs(4))
next
  case (Suc n)
  have pl: "pl_pread (file_plugin os) = Some (file_pread os)" by (simp add: file_plugin_def)
  have k: "k < length d" using Suc.prems(5) by simp
  have u: "unat (of_nat k :: u64) = k" using k Suc.prems(3) by (simp add: unat_of_nat)
  obtain w where w: "file_pread os (Some 0) 1 (of_nat k) 0 (world s) = Inr (0, [d ! k], w)"
    "usable (Some 0) w" "data (Some 0) w = d"
    using dev.pread_ok [OF Suc.prems(1), of "of_nat k" 1 0] k u Suc.prems(2)
    by (auto simp: take_Suc_conv_app_nth hd_drop_conv_nth take_Suc)
  let ?v = "\<lparr>rd_r = 0, rd_offset = of_nat k, rd_buf = b, rd_out = take k d, rd_lwnbd = s\<rparr>"
  let ?v' = "\<lparr>rd_r = 0, rd_offset = of_nat (Suc k), rd_buf = Some (d ! k), rd_out = take (Suc k) d,
      rd_lwnbd = s\<lparr>world := w\<rparr>\<rparr>"
  have "reader_body (Some 0) ?v = ret (Next, ?v')"
    using Suc.prems w(1) k pl
    by (simp add: reader_body_def lwnbd_pread_def plugin_of_def take_Suc_conv_app_nth add.commute)
  then have "while_flow reader_more (reader_body (Some 0)) ?v = while_flow reader_more (reader_body (Some 0)) ?v'"
    by (intro while_flow_next) (simp_all add: reader_more_def ret_def)
  then show ?case
    using Suc.IH [of "s\<lparr>world := w\<rparr>" "Suc k" "Some (d ! k)"] w Suc.prems k by simp
qed

text \<open>Asking for the size opens the file.\<close>

lemma reader_size:
  assumes op: "sys_open os (Some nm) (O_RDWR + O_CLOEXEC) f = (fd, f1)"
    and d: "inode fd f1 = Some d" "length d < 2 ^ 63"
  obtains sz w where "file_get_size os (Some 0) (reader_files nm f) = Inr (sz, w)"
    and "usable (Some 0) w" and "data (Some 0) w = d"
proof -
  obtain sz f2 where f2: "sys_fstat os fd f1 = (sz, f2)" "inode fd f2 = Some d" using fstat_ok [OF d(1)] by blast
  let ?h = "\<lparr>fh_fd = fd, fh_flags = O_RDWR + O_CLOEXEC, fh_filename = Some nm\<rparr>"
  let ?w = "(reader_files nm f)\<lparr>fl_handles := (fl_handles (reader_files nm f))[0 := ?h], fl_os := f2\<rparr>"
  have len: "0 < length (fl_handles (reader_files nm f))"
    by (simp add: reader_files_def file_state_init_def FILE_DRIVER_MAX_DEVICES_def)
  have h0: "fl_handles (reader_files nm f) ! 0 = \<lparr>fh_fd = 0, fh_flags = 0, fh_filename = Some nm\<rparr>"
    "fl_os (reader_files nm f) = f"
    using len by (simp_all add: reader_files_def file_state_init_def)
  have size: "file_get_size os (Some 0) (reader_files nm f) = Inr (case sz of None \<Rightarrow> - 1 | Some n \<Rightarrow> n, ?w)"
    using len h0 op f2 by (simp add: file_get_size_def file_open_def Let_def)
  have "open_on (Some 0) ?w fd d" using len f2 d(2) by (simp add: open_on_def)
  then show ?thesis using that [OF size] by (auto simp: usable_def)
qed

text \<open>The dispatcher finds the context and opens the file for its size.\<close>

lemma reader_finds:
  assumes nm: "plain_name nm" and op: "sys_open os (Some nm) (O_RDWR + O_CLOEXEC) f = (fd, f1)"
    and d: "inode fd f1 = Some d" "length d < 2 ^ 63"
  obtains buf s where "lwnbd_get_context (reader_lwnbd os nm f) (nm @ [NUL]) 0 = Inr (Some 0, buf, s)"
    and "plugins s ! 0 = Some (file_plugin os)" and "ctx_p (contexts s ! 0) = Some 0"
    and "ctx_handle (contexts s ! 0) = Some 0" and "usable (Some 0) (world s)" and "data (Some 0) (world s) = d"
proof -
  let ?s = "reader_lwnbd os nm f"
  obtain sz w where size: "file_get_size os (Some 0) (reader_files nm f) = Inr (sz, w)"
    and w: "usable (Some 0) w" "data (Some 0) w = d"
    using reader_size [OF op d] by blast
  have c0: "contexts ?s ! 0 = reader_context nm" "plugins ?s ! 0 = Some (file_plugin os)" "world ?s = reader_files nm f"
    by (simp_all add: reader_lwnbd_def MAX_CONTEXTS_def MAX_NUM_PLUGINS_def)
  have "lwnbd_contexts_count ?s = 1"
    by (simp add: lwnbd_contexts_count_def reader_lwnbd_def find_slot_def MAX_CONTEXTS_def numeral_eq_Suc)
  then have "lwnbd_get_context_string ?s nm = Some 0"
    using c0 by (simp add: lwnbd_get_context_string_def lwnbd_get_context_i_def reader_context_def strncmp_eq_def)
  moreover have pl: "plugin_of t (reader_context nm) = Inr (file_plugin os)" if "plugins t ! 0 = Some (file_plugin os)" for t :: "(string, 'a file_state) lwnbd"
    using that by (simp add: plugin_of_def reader_context_def)
  moreover have fp: "pl_query (file_plugin os) = None" "pl_get_size (file_plugin os) = Some (file_get_size os)"
    by (simp_all add: file_plugin_def null_plugin_def)
  let ?t = "?s\<lparr>contexts := (contexts ?s)[0 := (reader_context nm)\<lparr>ctx_exportsize := sz\<rparr>], world := w\<rparr>"
  have upd: "lwnbd_update_size (?s\<lparr>world := reader_files nm f\<rparr>) 0 = Inr (sint (ucast sz :: u32), ?t)"
    using c0 pl fp size by (simp add: lwnbd_update_size_def reader_context_def)
  ultimately have "uri_dispatch ?s nm = Inr (Some 0, ?t)"
    using plain_uri [OF nm] c0 fp by (simp add: uri_dispatch_def)
  then have "bindr (lwnbd_get_context ?s (nm @ [NUL]) 0) (\<lambda>(r, _, s'). Inr (r, s')) = Inr (Some 0, ?t)"
    using dispatch_on_strings [of ?s "nm @ [NUL]" 0] plain_cstr [OF nm] by simp
  then obtain buf where "lwnbd_get_context ?s (nm @ [NUL]) 0 = Inr (Some 0, buf, ?t)"
    by (auto simp: bindr_Inr_iff)
  moreover have "contexts ?t ! 0 = (reader_context nm)\<lparr>ctx_exportsize := sz\<rparr>"
    by (simp add: reader_lwnbd_def MAX_CONTEXTS_def)
  ultimately show ?thesis
    using that w c0 by (auto simp: reader_context_def)
qed

lemma local_reader_prints:
  assumes nm: "plain_name nm" and op: "sys_open os (Some nm) (O_RDWR + O_CLOEXEC) f = (fd, f1)"
    and d: "inode fd f1 = Some d" "length d < 2 ^ 63" "d \<noteq> []"
  shows "local_reader (Some (file_plugin os)) (\<lambda>path. path) [prog, nm] (lwnbd_init (file_state_init f))
    = ret (0, d @ [last d])"
proof -
  obtain h s1 where i: "lwnbd_plugin_init (lwnbd_init (file_state_init f)) (Some (file_plugin os)) = Inr (h, s1)"
    and n: "lwnbd_plugin_new s1 h nm = Inr (0, reader_lwnbd os nm f)"
    using reader_opens [OF nm, of f os] by (fastforce simp: bindr_Inr_iff)
  obtain buf s where g: "lwnbd_get_context (reader_lwnbd os nm f) (nm @ [NUL]) 0 = Inr (Some 0, buf, s)"
    and s: "plugins s ! 0 = Some (file_plugin os)" "ctx_p (contexts s ! 0) = Some 0"
      "ctx_handle (contexts s ! 0) = Some 0" "usable (Some 0) (world s)" "data (Some 0) (world s) = d"
    using reader_finds [OF nm op d(1,2)] by blast
  obtain v where "while_flow reader_more (reader_body (Some 0))
      \<lparr>rd_r = 0, rd_offset = 0, rd_buf = None, rd_out = [], rd_lwnbd = s\<rparr> = Some (Inr (Next, v))"
    "rd_out v = d @ [last d]"
    using reader_loop [OF s(1) refl s(2-5) d(2), of 0 "length d" None] d(3) by auto
  then show ?thesis using i n g by (simp add: local_reader_def)
qed

end

section \<open>The whole program\<close>

interpretation ramfs: posix_reader ram_os ram_inode
  by unfold_locales (auto simp: ram_os_def ram_pread_def)

text \<open>
  C36. The example \<^verbatim>\<open>local-reader\<close>, run on the name of a file of its directory, prints the file: every
  byte in order, and the last one a second time, since the byte is printed before the result of the
  read that found the end is tested; then it ends with status 0.  The file goes through the
  registration of the plugin, the pool of contexts, the parser and dispatcher of requests and the
  loops of the file plugin.
\<close>

theorem local_reader_correct:
  assumes "posix_reader os inode" and "plain_name nm"
    and "sys_open os (Some nm) (O_RDWR + O_CLOEXEC) f = (fd, f1)" and "inode fd f1 = Some d"
    and "length d < 2 ^ 63" and "d \<noteq> []"
  shows "local_reader (Some (file_plugin os)) (\<lambda>path. path) [prog, nm] (lwnbd_init (file_state_init f))
    = ret (0, d @ [last d])"
  by (rule posix_reader.local_reader_prints [OF assms])

theorem local_reader_correct_witness:
  "local_reader (Some (file_plugin ram_os)) (\<lambda>path. path) [''local-reader'', ''disk'']
     (lwnbd_init (file_state_init \<lparr>rf_files = [(''disk'', ''abc'')], rf_fds = [], rf_chunk = 0\<rparr>)) = ret (0, ''abcc'')"
  using local_reader_correct [OF ramfs.posix_reader_axioms, of "''disk''"
      "\<lparr>rf_files = [(''disk'', ''abc'')], rf_fds = [], rf_chunk = 0\<rparr>" 0
      "\<lparr>rf_files = [(''disk'', ''abc'')], rf_fds = [0], rf_chunk = 0\<rparr>" "''abc''" "''local-reader''"]
  by (simp add: plain_name_def NUL_def ram_os_def ram_open_def Let_def find_slot_def ram_inode_def)

end
