(* ===== verification/Local_Shell.thy ===== *)
theory Local_Shell
  imports Local_Reader Command_Plugin Memory_Plugin
begin

text \<open>
  The two other programs that use the library locally: the interactive shell
  \<^verbatim>\<open>examples/local-shell.c\<close> over the memory and command plugins, and the byte counter
  \<^verbatim>\<open>examples/local-command-wc.c\<close> over the file and command plugins.  Both are over a state \<open>'w\<close> of all
  plugins; what a plugin registers and how a configuration is seen through a \<^verbatim>\<open>void *\<close> are arguments.
  Allocation does not fail.
\<close>

section \<open>The shell\<close>

text \<open>The static variables of the program, which are the state of its command.\<close>

record shell_env =
  sh_exportname :: string
  sh_prompt :: string
  sh_base :: string

definition set_prompt :: "string \<Rightarrow> string \<Rightarrow> shell_env \<Rightarrow> shell_env" where
  "set_prompt base endpoint e = e\<lparr>sh_prompt := ''['' @ base @ '':/'' @ endpoint @ '']$ ''\<rparr>"

definition set_exportname :: "shell_env app_cmd" where
  "set_exportname argc argv result size_of e =
     (if argc \<le> 1 then Inr (- 1, result, size_of, e)
      else bindr (arg argv 1) (\<lambda>nm.
           let e = e\<lparr>sh_exportname := nm\<rparr>; text = ''export name to '' @ nm @ [CHR 0x0A]
           in bindr (mem_write 0 (text @ [NUL]) result) (\<lambda>b.
              Inr (0, b, of_nat (length text), set_prompt (sh_base e) nm e))))"

definition shell_start :: "string \<Rightarrow> shell_env" where
  "shell_start prog =
     (let e = \<lparr>sh_exportname = ''api'', sh_prompt = [], sh_base = basename prog\<rparr>
      in set_prompt (sh_base e) (sh_exportname e) e)"

definition test_config :: "u64 \<Rightarrow> memory_config" where
  "test_config memtest = \<lparr>mc_base = memtest, mc_size = 512, mc_name = ''test'', mc_desc = []\<rparr>"

definition change_export :: "shell_env lwnbd_command" where
  "change_export = \<lparr>cmd_name = ''ce'', cmd_desc = ''Change exportname/endpoint'', cmd_type = METHOD_GET,
     cmd_cmd = Some (App set_exportname)\<rparr>"

text \<open>\<^verbatim>\<open>strnlen\<close> on a block that may hold bytes nobody wrote.\<close>

fun strnlen :: "nat \<Rightarrow> byte option list \<Rightarrow> nat result" where
  "strnlen 0 b = Inr 0"
| "strnlen (Suc n) [] = Inl Out_Of_Bounds"
| "strnlen (Suc n) (None # b) = Inl Uninitialised"
| "strnlen (Suc n) (Some c # b) = (if c = NUL then Inr 0 else bindr (strnlen n b) (\<lambda>k. Inr (Suc k)))"

text \<open>
  What is printed for the answer: \<open>n\<close> is the size of the export, \<open>buf\<close> the block with the request, its NUL
  included, and \<open>d\<close> the bytes that the read stored over it, once it was made longer if need be.
\<close>

definition show_response ::
  "(u64 \<Rightarrow> string) \<Rightarrow> (nat \<Rightarrow> string) \<Rightarrow> u64 \<Rightarrow> byte list \<Rightarrow> byte list \<Rightarrow> string result" where
  "show_response dec decn n buf d =
     (let size_of = (if of_nat (length buf - 1) < n + 1 then unat (n + 1) else length buf);
          block = take size_of (map Some buf) @ replicate (size_of - length buf) None;
          block = map Some d @ drop (length d) block
      in if size_of < length d then Inl Out_Of_Bounds
         else bindr (strnlen (unat n) block) (\<lambda>r.
              if r < size_of
              then Inr (''Response: '' @ dec n @ '' bytes, print '' @ decn r @ '' bytes.'' @ [CHR 0x0A]
                        @ map the (take r block) @ [CHR 0x0A])
              else Inl Out_Of_Bounds))"

text \<open>
  The loop, over the words that \<^verbatim>\<open>scanf\<close> reads: what it prints (on both streams, in order) and the library
  afterwards.  \<open>fail\<close> is what \<^verbatim>\<open>perror\<close> says when \<^verbatim>\<open>scanf\<close> fails behind the last word, \<open>None\<close> at the end
  of the input.  \<open>env\<close> finds
  the static variables in the state of the plugins; \<open>dec\<close> and \<open>decn\<close> are \<^verbatim>\<open>%ld\<close> and \<^verbatim>\<open>%d\<close>.
\<close>

fun shell_loop ::
  "('w \<Rightarrow> shell_env) \<Rightarrow> (u64 \<Rightarrow> string) \<Rightarrow> (nat \<Rightarrow> string) \<Rightarrow> string option \<Rightarrow> string list \<Rightarrow> ('c, 'w) lwnbd
    \<Rightarrow> (string \<times> ('c, 'w) lwnbd) result" where
  "shell_loop env dec decn fail [] s =
     Inr (sh_prompt (env (world s))
          @ (case fail of None \<Rightarrow> ''No matching characters'' | Some e \<Rightarrow> ''scanf: '' @ e) @ [CHR 0x0A], s)"
| "shell_loop env dec decn fail (p # words) s =
     (let prompt = sh_prompt (env (world s));
          buf = sh_exportname (env (world s)) @ ''?'' @ p;
          req = prompt @ ''Request: '' @ buf @ [CHR 0x0A]
      in if p = ''exit'' then Inr (prompt, s)
         else bindr (lwnbd_get_context s (buf @ [NUL]) 0) (\<lambda>(ctx, buf, s).
              case ctx of
                None \<Rightarrow>
                  bindr (shell_loop env dec decn fail words s) (\<lambda>(t, s).
                  Inr (req @ ''lwnbd_get_context'' @ [CHR 0x0A] @ t, s))
              | Some c \<Rightarrow>
                  let me = contexts s ! c
                  in bindr (lwnbd_pread s me (ucast (ctx_exportsize me)) 0 0) (\<lambda>(r, d, s).
                     if r \<noteq> 0 then Inr (req @ ''lwnbd_pread'' @ [CHR 0x0A], s)
                     else bindr (show_response dec decn (ctx_exportsize me) buf d) (\<lambda>answer.
                          bindr (shell_loop env dec decn fail words s) (\<lambda>(t, s).
                          Inr (req @ answer @ t, s))))))"

definition example_request :: string where
  "example_request = ''test?memcpy=Example of shared memory.''"

definition local_shell ::
  "('w \<Rightarrow> shell_env) \<Rightarrow> (u64 \<Rightarrow> string) \<Rightarrow> (nat \<Rightarrow> string)
    \<Rightarrow> ('c, 'w) lwnbd_plugin_t option \<Rightarrow> (memory_config \<Rightarrow> 'c)
    \<Rightarrow> ('c, 'w) lwnbd_plugin_t option \<Rightarrow> (shell_env lwnbd_command \<Rightarrow> 'c)
    \<Rightarrow> u64 \<Rightarrow> string option \<Rightarrow> string list \<Rightarrow> ('c, 'w) lwnbd \<Rightarrow> (string \<times> ('c, 'w) lwnbd) result" where
  "local_shell env dec decn memory_plg memory_cfg command_plg command_cfg memtest fail words s =
     bindr (lwnbd_plugin_init s memory_plg) (\<lambda>(memplg, s).
     bindr (lwnbd_plugin_new s memplg (memory_cfg (test_config memtest))) (\<lambda>(_, s).
     bindr (lwnbd_get_context s (example_request @ [NUL]) 0) (\<lambda>(_, _, s).
     bindr (lwnbd_plugin_init s command_plg) (\<lambda>(cmdplg, s).
     bindr (lwnbd_plugin_new s cmdplg (command_cfg change_export)) (\<lambda>(_, s).
     bindr (shell_loop env dec decn fail words s) (\<lambda>(t, s).
     Inr (''Welcome! Type lc to list commands'' @ [CHR 0x0A] @ t, s)))))))"

text \<open>The command changes the prompt and the export that later words are sent to.\<close>

lemma set_exportname_ok:
  assumes "length nm + 17 \<le> length result"
  shows "\<exists>b. set_exportname 2 (Some [k, Some nm]) result n e =
    Inr (0, b, of_nat (16 + length nm),
         \<lparr>sh_exportname = nm, sh_prompt = ''['' @ sh_base e @ '':/'' @ nm @ '']$ '', sh_base = sh_base e\<rparr>)"
  using assms by (cases e) (simp add: set_exportname_def arg_def Let_def mem_write_def set_prompt_def)

lemma shell_exit:
  "shell_loop env dec decn fail (''exit'' # words) s = Inr (sh_prompt (env (world s)), s)"
  by simp

section \<open>The byte counter\<close>

text \<open>
  The name of the file is printed as the dispatcher left it, cut at the first separator of a URI.
  The command adds one to the static \<^verbatim>\<open>count\<close>, its state, whatever it is given.
\<close>

definition byte_count :: "int app_cmd" where
  "byte_count argc argv data size_of count = Inr (0, data, size_of, count + 1)"

definition wc_command :: "int lwnbd_command" where
  "wc_command = \<lparr>cmd_name = ''wc'', cmd_desc = ''byte count'', cmd_type = METHOD_POST,
     cmd_cmd = Some (App byte_count)\<rparr>"

record ('c, 'w) wc_vars =
  wc_r :: int
  wc_offset :: u64
  wc_buf :: "byte list"
  wc_lwnbd :: "('c, 'w) lwnbd"

definition wc_body ::
  "nat option \<Rightarrow> nat option \<Rightarrow> ('c, 'w) wc_vars \<Rightarrow> (flow \<times> ('c, 'w) wc_vars) run" where
  "wc_body filectx wcctx v =
     bindp (lift (bindr (deref filectx) (\<lambda>c.
              lwnbd_pread (wc_lwnbd v) (contexts (wc_lwnbd v) ! c) 1 (wc_offset v) 0))) (\<lambda>(r, d, s).
     let v = v\<lparr>wc_r := r, wc_offset := wc_offset v + 1, wc_buf := d @ drop (length d) (wc_buf v), wc_lwnbd := s\<rparr>
     in if r \<noteq> 0 then ret (Break, v)
        else bindp (lift (bindr (deref wcctx) (\<lambda>c.
                    lwnbd_pwrite s (contexts s ! c) (wc_buf v) 1 0 0))) (\<lambda>(r, s).
             ret (Next, v\<lparr>wc_r := r, wc_lwnbd := s\<rparr>)))"

definition local_wc ::
  "('w \<Rightarrow> int) \<Rightarrow> (int \<Rightarrow> string) \<Rightarrow> ('c, 'w) lwnbd_plugin_t option \<Rightarrow> (string \<Rightarrow> 'c)
    \<Rightarrow> ('c, 'w) lwnbd_plugin_t option \<Rightarrow> (int lwnbd_command \<Rightarrow> 'c)
    \<Rightarrow> string list \<Rightarrow> ('c, 'w) lwnbd \<Rightarrow> (int \<times> string) run" where
  "local_wc count dec file_plg file_cfg command_plg command_cfg argv s =
     (if length argv < 2 then ret (1, [])
      else bindp (lift (lwnbd_plugin_init s file_plg)) (\<lambda>(fileplg, s).
           bindp (lift (lwnbd_plugin_new s fileplg (file_cfg (argv ! 1)))) (\<lambda>(_, s).
           bindp (lift (lwnbd_get_context s (argv ! 1 @ [NUL]) 0)) (\<lambda>(filectx, name, s).
           bindp (lift (lwnbd_plugin_init s command_plg)) (\<lambda>(cmdplg, s).
           bindp (lift (lwnbd_plugin_new s cmdplg (command_cfg wc_command))) (\<lambda>(_, s).
           bindp (lift (lwnbd_get_context s (''api?wc'' @ [NUL]) 0)) (\<lambda>(wcctx, buf, s).
           bindp (while_flow (\<lambda>v. wc_r v = 0) (wc_body filectx wcctx)
                    \<lparr>wc_r = 0, wc_offset = 0, wc_buf = buf, wc_lwnbd = s\<rparr>) (\<lambda>(_, v).
           ret (0, dec (count (world (wc_lwnbd v))) @ '' '' @ cstr name 0 @ [CHR 0x0A])))))))))"

end
