(* ===== verification/Worlds.thy ===== *)
theory Worlds
  imports Plugins Block_Device
begin

text \<open>
  Several plugins in one program.  A plugin is modelled over its own static variables; \<open>lift_plugin\<close> is the
  same plugin over the variables of the whole program, of which its own are a part.  The locale
  \<open>world_part\<close> states what a part is, and its lemmas carry the contracts of the plugins over.  At the end,
  a library whose slots were taken in order, which is what a program that only registers has.
\<close>

section \<open>A plugin over a part of the world\<close>

text \<open>
  \<open>get\<close> and \<open>put\<close> find the variables of the plugin among those of the program, and \<open>cfg\<close> is the
  configuration behind the \<^verbatim>\<open>void *\<close> that the program passes: a fault when it is not one of this plugin.
\<close>

definition on_part ::
  "('w \<Rightarrow> 'v) \<Rightarrow> ('v \<Rightarrow> 'w \<Rightarrow> 'w) \<Rightarrow> ('v \<Rightarrow> ('a \<times> 'v) result) \<Rightarrow> 'w \<Rightarrow> ('a \<times> 'w) result" where
  "on_part get put f w = bindr (f (get w)) (\<lambda>(a, v). Inr (a, put v w))"

definition on_part0 ::
  "('w \<Rightarrow> 'v) \<Rightarrow> ('v \<Rightarrow> 'w \<Rightarrow> 'w) \<Rightarrow> ('v \<Rightarrow> 'v result) \<Rightarrow> 'w \<Rightarrow> 'w result" where
  "on_part0 get put f w = bindr (f (get w)) (\<lambda>v. Inr (put v w))"

definition on_part2 ::
  "('w \<Rightarrow> 'v) \<Rightarrow> ('v \<Rightarrow> 'w \<Rightarrow> 'w) \<Rightarrow> ('v \<Rightarrow> ('a \<times> 'b \<times> 'v) result) \<Rightarrow> 'w \<Rightarrow> ('a \<times> 'b \<times> 'w) result" where
  "on_part2 get put f w = bindr (f (get w)) (\<lambda>(a, b, v). Inr (a, b, put v w))"

definition lift_plugin ::
  "('w \<Rightarrow> 'v) \<Rightarrow> ('v \<Rightarrow> 'w \<Rightarrow> 'w) \<Rightarrow> ('d \<Rightarrow> 'c result) \<Rightarrow> ('c, 'v) lwnbd_plugin_t \<Rightarrow> ('d, 'w) lwnbd_plugin_t" where
  "lift_plugin get put cfg p =
     \<lparr>pl_struct_size = pl_struct_size p, pl_name = pl_name p, pl_longname = pl_longname p,
      pl_version = pl_version p, pl_description = pl_description p,
      pl_load = map_option (on_part0 get put) (pl_load p),
      pl_unload = map_option (on_part0 get put) (pl_unload p),
      pl_open = map_option (\<lambda>f h ro. on_part0 get put (f h ro)) (pl_open p),
      pl_close = map_option (\<lambda>f h. on_part0 get put (f h)) (pl_close p),
      pl_get_size = map_option (\<lambda>f h. on_part get put (f h)) (pl_get_size p),
      pl_pread = map_option (\<lambda>f h n off fl. on_part2 get put (f h n off fl)) (pl_pread p),
      pl_pwrite = map_option (\<lambda>f h b n off fl. on_part get put (f h b n off fl)) (pl_pwrite p),
      pl_flush = map_option (\<lambda>f h fl. on_part get put (f h fl)) (pl_flush p),
      pl_trim = map_option (\<lambda>f h n off fl. on_part get put (f h n off fl)) (pl_trim p),
      pl_zero = map_option (\<lambda>f h n off fl. on_part get put (f h n off fl)) (pl_zero p),
      pl_block_size = map_option (\<lambda>f h w. f h (get w)) (pl_block_size p),
      pl_config = map_option (\<lambda>f k v. on_part get put (f k v)) (pl_config p),
      pl_magic_config_key = pl_magic_config_key p,
      pl_ctor = map_option (\<lambda>f d c w. bindr (cfg d) (\<lambda>pconfig. on_part2 get put (f pconfig c) w)) (pl_ctor p),
      pl_query = map_option (\<lambda>f h ps n. on_part get put (f h ps n)) (pl_query p),
      pl_export_without_handle = pl_export_without_handle p\<rparr>"

lemma on_part_simps [simp]:
  "f (get w) = Inr (a, v) \<Longrightarrow> on_part get put f w = Inr (a, put v w)"
  "g (get w) = Inr v \<Longrightarrow> on_part0 get put g w = Inr (put v w)"
  "h (get w) = Inr (a, b, v) \<Longrightarrow> on_part2 get put h w = Inr (a, b, put v w)"
  by (simp_all add: on_part_def on_part0_def on_part2_def)

lemma lift_plugin_simps [simp]:
  "pl_longname (lift_plugin get put cfg p) = pl_longname p"
  "pl_export_without_handle (lift_plugin get put cfg p) = pl_export_without_handle p"
  "pl_load (lift_plugin get put cfg p) = map_option (on_part0 get put) (pl_load p)"
  "pl_get_size (lift_plugin get put cfg p) = map_option (\<lambda>f h. on_part get put (f h)) (pl_get_size p)"
  "pl_pread (lift_plugin get put cfg p) = map_option (\<lambda>f h n off fl. on_part2 get put (f h n off fl)) (pl_pread p)"
  "pl_pwrite (lift_plugin get put cfg p) = map_option (\<lambda>f h b n off fl. on_part get put (f h b n off fl)) (pl_pwrite p)"
  "pl_flush (lift_plugin get put cfg p) = map_option (\<lambda>f h fl. on_part get put (f h fl)) (pl_flush p)"
  "pl_ctor (lift_plugin get put cfg p)
    = map_option (\<lambda>f d c w. bindr (cfg d) (\<lambda>pconfig. on_part2 get put (f pconfig c) w)) (pl_ctor p)"
  "pl_query (lift_plugin get put cfg p) = map_option (\<lambda>f h ps n. on_part get put (f h ps n)) (pl_query p)"
  by (simp_all add: lift_plugin_def)

section \<open>The contracts carry over\<close>

locale world_part =
  fixes get :: "'w \<Rightarrow> 'v"
    and put :: "'v \<Rightarrow> 'w \<Rightarrow> 'w"
  assumes get_put [simp]: "get (put v w) = v"
    and put_put [simp]: "put v (put u w) = put v w"
    and put_get [simp]: "put (get w) w = w"
begin

lemma lift_content:
  assumes "content_plugin p"
  shows "content_plugin (lift_plugin get put cfg p)"
proof
  show "length (pl_longname (lift_plugin get put cfg p)) < 64"
    using content_plugin.longname_fits [OF assms] by simp
  fix ctor d c w r c' w'
  assume "pl_ctor (lift_plugin get put cfg p) = Some ctor" and "ctor d (Some c) w = Inr (r, Some c', w')"
    and l: "length (ctx_name c) < 32" "length (ctx_description c) < 64"
  then obtain f k v where "pl_ctor p = Some f" "f k (Some c) (get w) = Inr (r, Some c', v)"
    by (auto simp: on_part2_def bindr_Inr_iff)
  then show "length (ctx_name c') < 32 \<and> length (ctx_description c') < 64 \<and> ctx_p c' = ctx_p c"
    using content_plugin.ctor_fits [OF assms] l by blast
qed

lemma lift_block_device_ro:
  assumes "block_device_ro pread bs content ok"
  shows "block_device_ro (\<lambda>h n off fl. on_part2 get put (pread h n off fl)) bs
    (\<lambda>h w. content h (get w)) (\<lambda>h w. ok h (get w))"
proof
  fix h w and off :: u64 and n fl :: u32
  assume "ok h (get w)" and "(unat off + unat n) * bs \<le> length (content h (get w))"
  then obtain v where "pread h n off fl (get w) = Inr (0, take (unat n * bs) (drop (unat off * bs) (content h (get w))), v)"
    "ok h v" "content h v = content h (get w)"
    using block_device_ro.pread_ok [OF assms] by blast
  then show "\<exists>w'. on_part2 get put (pread h n off fl) w
        = Inr (0, take (unat n * bs) (drop (unat off * bs) (content h (get w))), w')
      \<and> ok h (get w') \<and> content h (get w') = content h (get w)"
    by simp
qed

lemma lift_block_device:
  assumes "block_device pread bs content ok pwrite flush"
  shows "block_device (\<lambda>h n off fl. on_part2 get put (pread h n off fl)) bs
    (\<lambda>h w. content h (get w)) (\<lambda>h w. ok h (get w))
    (\<lambda>h b n off fl. on_part get put (pwrite h b n off fl)) (\<lambda>h fl. on_part get put (flush h fl))"
proof (rule block_device.intro)
  show "block_device_ro (\<lambda>h n off fl. on_part2 get put (pread h n off fl)) bs
      (\<lambda>h w. content h (get w)) (\<lambda>h w. ok h (get w))"
    using assms by (intro lift_block_device_ro) (simp add: block_device_def)
  show "block_device_axioms bs (\<lambda>h w. content h (get w)) (\<lambda>h w. ok h (get w))
      (\<lambda>h b n off fl. on_part get put (pwrite h b n off fl)) (\<lambda>h fl. on_part get put (flush h fl))"
  proof
    fix h w and buf :: "byte list" and off :: u64 and n fl :: u32
    assume u: "ok h (get w)"
    show "\<exists>w'. on_part get put (flush h fl) w = Inr (0, w') \<and> ok h (get w') \<and> content h (get w') = content h (get w)"
      using block_device.flush_ok [OF assms u, of fl] by fastforce
    assume "(unat off + unat n) * bs \<le> length (content h (get w))" "unat n * bs \<le> length buf" "0 < unat n"
    then show "\<exists>w'. on_part get put (pwrite h buf n off fl) w = Inr (0, w') \<and> ok h (get w')
        \<and> content h (get w') = splice (unat off * bs) (take (unat n * bs) buf) (content h (get w))"
      using block_device.pwrite_ok [OF assms u, of off n buf fl] by fastforce
  qed
qed

end

text \<open>The two parts of a pair.\<close>

interpretation fst_part: world_part fst "\<lambda>v w. (v, snd w)"
  by unfold_locales simp_all

interpretation snd_part: world_part snd "\<lambda>v w. (fst w, v)"
  by unfold_locales simp_all

section \<open>Slots taken in order\<close>

definition library ::
  "lwnbd_context list \<Rightarrow> ('d, 'w) lwnbd_plugin_t list \<Rightarrow> 'w \<Rightarrow> ('d, 'w) lwnbd" where
  "library cs ps w =
     \<lparr>contexts = cs @ replicate (MAX_CONTEXTS - length cs) zero_context,
      contexts_status = replicate (length cs) CONTEXT_CREATED @ replicate (MAX_CONTEXTS - length cs) CONTEXT_FREE,
      plugins = map Some ps @ replicate (MAX_NUM_PLUGINS - length ps) None,
      plugins_status = replicate (length ps) PLUGIN_CREATED @ replicate (MAX_NUM_PLUGINS - length ps) PLUGIN_FREE,
      world = w\<rparr>"

lemma library_init: "lwnbd_init w = library [] [] w"
  by (simp add: lwnbd_init_def library_def)

lemma library_fields [simp]:
  "world (library cs ps w) = w" "(library cs ps w)\<lparr>world := v\<rparr> = library cs ps v"
  "i < length cs \<Longrightarrow> contexts (library cs ps w) ! i = cs ! i"
  "k < length ps \<Longrightarrow> plugins (library cs ps w) ! k = Some (ps ! k)"
  "length (contexts (library cs ps w)) = length cs + (MAX_CONTEXTS - length cs)"
  by (simp_all add: library_def nth_append)

lemma library_set:
  assumes "i < length cs"
  shows "(library cs ps w)\<lparr>contexts := (contexts (library cs ps w))[i := c]\<rparr> = library (cs[i := c]) ps w"
    and "(library cs ps w)\<lparr>contexts := (contexts (library cs ps w))[i := c], world := v\<rparr> = library (cs[i := c]) ps v"
  using assms by (simp_all add: library_def list_update_append)

lemma library_count: "length cs < MAX_CONTEXTS \<Longrightarrow> lwnbd_contexts_count (library cs ps w) = length cs"
  by (simp add: lwnbd_contexts_count_def library_def find_slot_used)

lemma replicate_next: "n < m \<Longrightarrow> replicate (m - n) x = x # replicate (m - Suc n) x"
  by (metis Suc_diff_Suc replicate_Suc)

lemma library_context:
  assumes "length cs < MAX_CONTEXTS"
  shows "lwnbd_new_context (library cs ps w) = (Some (length cs), library (cs @ [zero_context]) ps w)"
proof -
  have "find_slot (\<lambda>x. x = CONTEXT_FREE) (contexts_status (library cs ps w)) = length cs"
    using assms by (simp add: library_def find_slot_used)
  then have "lwnbd_new_context (library cs ps w) = (Some (length cs), (library cs ps w)
      \<lparr>contexts_status := (contexts_status (library cs ps w))[length cs := CONTEXT_CREATED]\<rparr>)"
    using assms by (simp add: lwnbd_new_context_def Let_def)
  then show ?thesis
    using assms by (simp add: library_def replicate_next list_update_append replicate_app_Cons_same)
qed

text \<open>Registering a plugin, and a plugin that is a context of its own.\<close>

definition api_context :: "nat \<Rightarrow> ('d, 'w) lwnbd_plugin_t \<Rightarrow> lwnbd_context" where
  "api_context k p = \<lparr>ctx_handle = None, ctx_p = Some k, ctx_name = ''api'', ctx_description = pl_longname p,
     ctx_exportsize = 0\<rparr>"

lemma library_register:
  assumes "length ps < MAX_NUM_PLUGINS" and "pl_pread p \<noteq> None"
    and "(case pl_load p of None \<Rightarrow> Inr w | Some load \<Rightarrow> load w) = Inr w'"
  shows "pl_export_without_handle p \<noteq> 1 \<Longrightarrow>
      lwnbd_plugin_init (library cs ps w) (Some p) = Inr (of_nat (length ps), library cs (ps @ [p]) w')"
    and "pl_export_without_handle p = 1 \<Longrightarrow> length cs < MAX_CONTEXTS \<Longrightarrow> length (pl_longname p) < 64 \<Longrightarrow>
      lwnbd_plugin_init (library cs ps w) (Some p)
        = Inr (of_nat (length ps), library (cs @ [api_context (length ps) p]) (ps @ [p]) w')"
proof -
  let ?s = "library cs ps w"
  have slot: "find_slot (\<lambda>x. x = PLUGIN_FREE) (plugins_status ?s) = length ps"
    using assms(1) by (simp add: library_def find_slot_used)
  have reg: "?s\<lparr>world := w', plugins := (plugins ?s)[length ps := Some p],
      plugins_status := (plugins_status ?s)[length ps := PLUGIN_CREATED]\<rparr> = library cs (ps @ [p]) w'"
    using assms(1) by (simp add: library_def replicate_next list_update_append replicate_app_Cons_same)
  have load: "(case pl_load p of None \<Rightarrow> Inr (world ?s) | Some load \<Rightarrow> load (world ?s)) = Inr w'"
    unfolding library_fields(1) by (rule assms(3))
  have init: "lwnbd_plugin_init ?s (Some p) =
      bindr (if pl_export_without_handle p = 1 then export_api (library cs (ps @ [p]) w') (length ps) p
             else Inr (library cs (ps @ [p]) w')) (\<lambda>s2. Inr (of_nat (length ps), s2))"
    using assms(1,2)
    by (auto simp add: lwnbd_plugin_init_def Let_def slot load reg simp del: library_fields(1,2))
  show "pl_export_without_handle p \<noteq> 1 \<Longrightarrow>
      lwnbd_plugin_init ?s (Some p) = Inr (of_nat (length ps), library cs (ps @ [p]) w')"
    unfolding init by simp
  assume "pl_export_without_handle p = 1" "length cs < MAX_CONTEXTS" "length (pl_longname p) < 64"
  then show "lwnbd_plugin_init ?s (Some p)
      = Inr (of_nat (length ps), library (cs @ [api_context (length ps) p]) (ps @ [p]) w')"
    unfolding init
    by (simp add: export_api_def library_context strcpy_field_def library_set api_context_def zero_context_def)
qed

text \<open>Making a context from a registered plugin.\<close>

lemma library_new:
  assumes "k < length ps" and "length ps \<le> MAX_NUM_PLUGINS" and "length cs < MAX_CONTEXTS"
    and "pl_export_without_handle (ps ! k) \<noteq> 1" and "pl_ctor (ps ! k) = Some ctor"
    and "ctor d (Some zero_context) w = Inr (0, Some c, w')" and "length (pl_longname (ps ! k)) < 64"
  shows "lwnbd_plugin_new (library cs ps w) (of_nat k) d = Inr (0, library (cs @
    [c\<lparr>ctx_p := Some k, ctx_description := (if ctx_description c = [] then pl_longname (ps ! k) else ctx_description c)\<rparr>])
    ps w')"
proof -
  have u: "unat (of_nat k :: u32) = k" using assms(1,2) by (simp add: unat_of_nat MAX_NUM_PLUGINS_def)
  then have at: "plugin_at (library cs ps w) (of_nat k) = Inr (ps ! k)"
    using assms(1,2) by (simp add: plugin_at_def)
  have set: "(library (cs @ [z]) ps w')\<lparr>contexts := (contexts (library (cs @ [z]) ps w))[length cs := c]\<rparr>
      = library (cs @ [c]) ps w'" for z c
    by (simp add: library_def)
  have z: "zero_context\<lparr>ctx_description := []\<rparr> = zero_context" by (simp add: zero_context_def)
  show ?thesis
    using assms unfolding lwnbd_plugin_new_def at
    by (simp add: library_context z u set strcpy_field_def)
qed

lemma library_new_api:
  assumes "k < length ps" and "length ps \<le> MAX_NUM_PLUGINS"
    and "pl_export_without_handle (ps ! k) = 1" and "pl_ctor (ps ! k) = Some ctor"
    and "ctor d None w = Inr (0, c, w')"
  shows "lwnbd_plugin_new (library cs ps w) (of_nat k) d = Inr (0, library cs ps w')"
proof -
  have "unat (of_nat k :: u32) = k" using assms(1,2) by (simp add: unat_of_nat MAX_NUM_PLUGINS_def)
  then have at: "plugin_at (library cs ps w) (of_nat k) = Inr (ps ! k)"
    using assms(1,2) by (simp add: plugin_at_def)
  show ?thesis using assms unfolding lwnbd_plugin_new_def at by simp
qed

end
