(* ===== verification/Command_World.thy ===== *)
theory Command_World
  imports Command_Plugin Worlds
begin

text \<open>
  The command plugin in a program with other plugins: registering it makes the export \<^verbatim>\<open>api\<close> with the builtin
  commands, and each configuration given to it is one more command.
\<close>

lemma lifted_command:
  "pl_query (lift_plugin get put cfg (command_plugin dump stack))
     = Some (\<lambda>h ps n. on_part get put (command_query dump h ps n))"
  "pl_get_size (lift_plugin get put cfg (command_plugin dump stack)) = Some (\<lambda>h. on_part get put (command_get_size h))"
  "pl_pread (lift_plugin get put cfg (command_plugin dump stack))
     = Some (\<lambda>h n off fl. on_part2 get put (command_pread h n off fl))"
  "pl_ctor (lift_plugin get put cfg (command_plugin dump stack))
     = Some (\<lambda>d c w. bindr (cfg d) (\<lambda>pconfig. on_part2 get put (command_ctor pconfig c) w))"
  "pl_load (lift_plugin get put cfg (command_plugin dump stack)) = Some (on_part0 get put command_load)"
  "pl_export_without_handle (lift_plugin get put cfg (command_plugin dump stack)) = 1"
  "pl_longname (lift_plugin get put cfg (command_plugin dump stack)) = ''lwnbd generic command plugin''"
  by (simp_all add: command_plugin_def)

text \<open>The static variables with the builtin commands, and those of the program behind them.\<close>

definition with_commands :: "'e \<Rightarrow> 'e lwnbd_command list \<Rightarrow> 'e command_state" where
  "with_commands e cs = (command_start e)\<lparr>cs_commands := builtin ! 0 # builtin ! 1 # builtin ! 2 # cs\<rparr>"

lemma command_registers:
  fixes get :: "'w \<Rightarrow> 'e command_state"
  assumes "C = lift_plugin get put cfg (command_plugin dump stack)" and "get w = command_start e"
    and "length ps < MAX_NUM_PLUGINS" and "length cs < MAX_CONTEXTS"
  shows "lwnbd_plugin_init (library cs ps w) (Some C) = Inr (of_nat (length ps),
      library (cs @ [api_context (length ps) C]) (ps @ [C]) (put (with_commands e []) w))"
proof -
  have p: "pl_pread C \<noteq> None" "pl_load C = Some (on_part0 get put command_load)" "pl_export_without_handle C = 1"
    "length (pl_longname C) < 64"
    unfolding assms(1) lifted_command by simp_all
  have "command_load (command_start e) = Inr (with_commands e [])"
    by (simp add: command_load_def builtin_def command_add_command_def command_start_def CMD_DRIVER_MAX_def
        with_commands_def)
  then have "(case pl_load C of None \<Rightarrow> Inr w | Some load \<Rightarrow> load w) = Inr (put (with_commands e []) w)"
    by (simp add: p(2) assms(2))
  from library_register(2) [OF assms(3) p(1) this p(3) assms(4) p(4)] show ?thesis .
qed

lemma command_adds:
  fixes get :: "'w \<Rightarrow> 'e command_state"
  assumes "ps ! k = lift_plugin get put cfg (command_plugin dump stack)" and "k < length ps"
    and "length ps \<le> MAX_NUM_PLUGINS" and "get w = with_commands e cs" and "length cs < 97" and "cfg d = Inr c"
  shows "lwnbd_plugin_new (library xs ps w) (of_nat k) d
    = Inr (0, library xs ps (put (with_commands e (cs @ [c])) w))"
proof -
  have "command_ctor c None (with_commands e cs) = Inr (0, None, with_commands e (cs @ [c]))"
    using assms(5) by (simp add: command_ctor_def command_add_command_def with_commands_def CMD_DRIVER_MAX_def)
  then have run: "bindr (cfg d) (\<lambda>pconfig. on_part2 get put (command_ctor pconfig None) w)
      = Inr (0, None, put (with_commands e (cs @ [c])) w)"
    by (simp add: assms(4,6))
  have C: "pl_export_without_handle (ps ! k) = 1"
    "pl_ctor (ps ! k) = Some (\<lambda>d c w. bindr (cfg d) (\<lambda>pconfig. on_part2 get put (command_ctor pconfig c) w))"
    by (simp_all only: assms(1) lifted_command)
  show ?thesis
    by (rule library_new_api [where c = None, OF assms(2,3) C]) (rule run)
qed

end
