(* ===== verification/Shell_Session.thy ===== *)
theory Shell_Session
  imports Local_Shell Command_World
begin

text \<open>
  The shell as a whole program: the registry, the pool, the dispatcher, the memory plugin and the command
  plugin together, over the variables of both plugins, and a session of \<^verbatim>\<open>echo\<close> commands typed into it.
\<close>

section \<open>What the shell prints\<close>

text \<open>A text that reaches \<^verbatim>\<open>echo\<close> as it was typed: no separator of the URI in it, and no variable.\<close>

definition sayable :: "string \<Rightarrow> bool" where
  "sayable t \<longleftrightarrow> NUL \<notin> set t \<and> CHR ''#'' \<notin> set t \<and> CHR ''&'' \<notin> set t \<and> CHR ''$'' \<notin> set t
     \<and> length t \<le> CMD_BUFFER_SZ"

definition echo_word :: "string \<Rightarrow> string" where
  "echo_word t = ''echo='' @ t"

definition echo_turn :: "(u64 \<Rightarrow> string) \<Rightarrow> (nat \<Rightarrow> string) \<Rightarrow> string \<Rightarrow> string \<Rightarrow> string" where
  "echo_turn dec decn prompt t =
     prompt @ ''Request: api?echo='' @ t @ [CHR 0x0A]
     @ ''Response: '' @ dec (of_nat (length t)) @ '' bytes, print '' @ decn (length t) @ '' bytes.'' @ [CHR 0x0A]
     @ t @ [CHR 0x0A]"

lemma strnlen_text: "NUL \<notin> set t \<Longrightarrow> strnlen (length t) (map Some t @ r) = Inr (length t)"
  by (induction t) auto

lemma show_text:
  assumes "NUL \<notin> set t" and "length t + 1 < length buf" and "length buf < 2 ^ 64" and "length d = length t" and "d = t"
  shows "show_response dec decn (of_nat (length t)) buf d =
    Inr (''Response: '' @ dec (of_nat (length t)) @ '' bytes, print '' @ decn (length t) @ '' bytes.'' @ [CHR 0x0A]
         @ t @ [CHR 0x0A])"
proof -
  have un: "unat (of_nat (length t) :: u64) = length t" using assms(2,3) by (simp add: unat_of_nat)
  have "\<not> of_nat (length buf - 1) < (of_nat (length t) :: u64) + 1"
  proof -
    have a: "unat (of_nat (length buf - 1) :: u64) = length buf - 1" using assms(3) by (simp add: unat_of_nat)
    have b: "unat ((of_nat (length t) :: u64) + 1) = length t + 1"
      using assms(2,3) un by (simp add: unat_word_ariths)
    show ?thesis unfolding word_less_nat_alt a b using assms(2) by simp
  qed
  then show ?thesis
    using assms un by (simp add: show_response_def Let_def strnlen_text comp_def)
qed

section \<open>The dispatcher on an echo\<close>

lemma uri_echo:
  assumes "sayable t"
  shows "uri_path (''api?echo='' @ t) = ''api''" and "uri_query (''api?echo='' @ t) = Some (''echo='' @ t)"
proof -
  have h: "cut CHR ''#'' (''api?echo='' @ t) = (''api?echo='' @ t, None)"
    using assms by (intro cut_absent) (simp add: sayable_def)
  have q: "cut CHR ''?'' (''api'' @ CHR ''?'' # (''echo='' @ t)) = (''api'', Some (''echo='' @ t))"
    by (rule cut_found) simp
  have p: "cut CHR ''/'' ''api'' = (''api'', None)" by (rule cut_absent) simp
  show "uri_path (''api?echo='' @ t) = ''api''" "uri_query (''api?echo='' @ t) = Some (''echo='' @ t)"
    using h q p by (simp_all add: uri_path_def uri_query_def)
qed

lemma params_echo:
  assumes "sayable t"
  shows "query_params (Some (''echo='' @ t)) = ([\<lparr>q_key = ''echo'', q_val = Some t\<rparr>], 1)"
proof -
  have a: "cut CHR ''&'' (''echo='' @ t) = (''echo='' @ t, None)"
    using assms by (intro cut_absent) (simp add: sayable_def)
  have e: "cut CHR ''='' (''echo'' @ CHR ''='' # t) = (''echo'', Some t)" by (rule cut_found) simp
  show ?thesis using a e by (simp add: query_params_def numeral_2_eq_2)
qed

text \<open>The command plugin with the builtin commands in front.\<close>

definition echoed :: "string \<Rightarrow> 'e command_state \<Rightarrow> 'e command_state" where
  "echoed t st = st\<lparr>cs_exportsize := of_nat (length t),
     cs_result := t @ drop (length t) (replicate CMD_BUFFER_SZ NUL)\<rparr>"

lemma query_echo:
  assumes "sayable t" and "cs_commands st = builtin ! 0 # cs"
  shows "command_query dump h [\<lparr>q_key = ''echo'', q_val = Some t\<rparr>] 1 st = Inr (0, echoed t st)"
proof -
  let ?ps = "[\<lparr>q_key = ''echo'', q_val = Some t\<rparr>]"
  define c :: "'a lwnbd_command" where "c = builtin ! 0"
  have c: "cmd_name c = ''echo''" "cmd_type c = METHOD_GET" "cmd_cmd c = Some Echo"
    by (simp_all add: builtin_def c_def)
  have cmds: "cs_commands st = [] @ c # cs" using assms(2) by (simp add: c_def)
  have "strchr t 0 CHR ''$'' = None" using strchr_string [of t "CHR ''$''"] assms(1) by (simp add: sayable_def)
  then have e: "echo 2 (Some [Some ''echo'', Some t]) (replicate CMD_BUFFER_SZ NUL) 1
      = Inr (0, t @ drop (length t) (replicate CMD_BUFFER_SZ NUL), of_nat (length t))"
    using assms(1) by (simp add: echo_def arg_def mem_write_def splice_def sayable_def)
  have "command_query dump h ?ps 1 st =
    bindr (call_cmd dump c (if q_val (?ps ! 0) = None then 1 else 2) (Some (argv_of ?ps))
             (replicate CMD_BUFFER_SZ NUL) 1 (st\<lparr>cs_exportsize := 1, cs_result := replicate CMD_BUFFER_SZ NUL\<rparr>))
      (\<lambda>(r, b, n, st1). Inr (r, st1\<lparr>cs_result := b, cs_exportsize := n\<rparr>))"
    by (rule command_query_runs [OF _ _ cmds]) (simp_all add: c(1,2))
  then show ?thesis by (simp add: call_cmd_def c(3) argv_of_def e echoed_def)
qed

lemma pread_echo:
  assumes "sayable t"
  shows "command_pread h (of_nat (length t)) 0 0 (echoed t st) = Inr (0, t, echoed t st)"
proof -
  have "length t < 2 ^ 32" using assms by (simp add: sayable_def CMD_BUFFER_SZ_def)
  then have "unat (of_nat (length t) :: u32) = length t" by (simp add: unat_of_nat)
  then show ?thesis using assms by (simp add: command_pread_def mem_read_def echoed_def sayable_def)
qed

lemma search_context_cong:
  "(\<And>k. ctx_name (contexts s' ! k) = ctx_name (contexts s ! k)) \<Longrightarrow>
    search_context s' nm i n = search_context s nm i n"
  by (induction n arbitrary: i) (simp_all add: lwnbd_get_context_i_def)

text \<open>The library knows the export \<^verbatim>\<open>api\<close> as context \<open>c\<close>, and its plugin is \<open>p\<close>.\<close>

definition talks :: "('d, 'w) lwnbd_plugin_t \<Rightarrow> nat \<Rightarrow> ('d, 'w) lwnbd \<Rightarrow> bool" where
  "talks p c s \<longleftrightarrow> c < length (contexts s) \<and> lwnbd_get_context_string s ''api'' = Some c
     \<and> plugin_of s (contexts s ! c) = Inr p"

text \<open>The library after an answer of \<open>n\<close> bytes.\<close>

definition answered :: "nat \<Rightarrow> u64 \<Rightarrow> 'w \<Rightarrow> ('d, 'w) lwnbd \<Rightarrow> ('d, 'w) lwnbd" where
  "answered c n w s = s\<lparr>world := w, contexts := (contexts s)[c := (contexts s ! c)\<lparr>ctx_exportsize := n\<rparr>]\<rparr>"

lemma talks_answered:
  assumes "talks p c s"
  shows "talks p c (answered c n w s)"
proof -
  have "ctx_name (contexts (answered c n w s) ! k) = ctx_name (contexts s ! k)" for k
    using assms by (cases "k = c") (simp_all add: answered_def talks_def)
  then have "search_context (answered c n w s) nm i m = search_context s nm i m" for nm i m
    by (rule search_context_cong)
  then show ?thesis
    using assms by (simp add: talks_def lwnbd_get_context_string_def lwnbd_contexts_count_def plugin_of_def answered_def)
qed

section \<open>One turn\<close>

lemma echo_dispatch:
  assumes wp: "world_part get put" and t: "sayable t"
    and P: "P = lift_plugin get put cfg (command_plugin dump stack)" and talk: "talks P c s"
    and cs: "cs_commands (get (world s)) = builtin ! 0 # cs"
  shows "uri_dispatch s (''api?echo='' @ t) =
    Inr (Some c, answered c (of_nat (length t)) (put (echoed t (get (world s))) (world s)) s)"
proof -
  let ?w = "put (echoed t (get (world s))) (world s)"
  have q: "pl_query P = Some (\<lambda>h ps n. on_part get put (command_query dump h ps n))"
    "pl_get_size P = Some (\<lambda>h. on_part get put (command_get_size h))"
    unfolding P by (rule lifted_command)+
  have run: "on_part get put (command_query dump h [\<lparr>q_key = ''echo'', q_val = Some t\<rparr>] 1) (world s) = Inr (0, ?w)" for h
    by (rule on_part_simps(1)) (rule query_echo [OF t cs])
  have size: "on_part get put (command_get_size h) ?w = Inr (of_nat (length t), ?w)" for h
    using wp by (simp add: on_part_def command_get_size_def echoed_def world_part_def)
  have pl: "plugin_of s (contexts s ! c) = Inr P" "plugin_of (s\<lparr>world := ?w\<rparr>) (contexts s ! c) = Inr P"
    "lwnbd_get_context_string s ''api'' = Some c"
    using talk by (simp_all add: talks_def plugin_of_def)
  show ?thesis
    unfolding uri_dispatch_def uri_echo [OF t] pl(3) params_echo [OF t]
    by (simp add: pl q run lwnbd_update_size_def size answered_def)
qed

text \<open>One turn of the shell, and the state it leaves.\<close>

definition turned :: "('w \<Rightarrow> 'e command_state) \<Rightarrow> ('e command_state \<Rightarrow> 'w \<Rightarrow> 'w) \<Rightarrow> nat \<Rightarrow> string
    \<Rightarrow> ('d, 'w) lwnbd \<Rightarrow> ('d, 'w) lwnbd" where
  "turned get put c t s = answered c (of_nat (length t)) (put (echoed t (get (world s))) (world s)) s"

lemma turned_world:
  assumes "world_part get put"
  shows "get (world (turned get put c t s)) = echoed t (get (world s))"
  using assms by (simp add: turned_def answered_def world_part_def)

lemma echoed_keeps: "cs_env (echoed t st) = cs_env st" "cs_commands (echoed t st) = cs_commands st"
  by (simp_all add: echoed_def)

lemma cstr_typed: "NUL \<notin> set s \<Longrightarrow> cstr (s @ [NUL]) 0 = s"
  unfolding cstr_def drop_0 by (rule takeWhile_tail [THEN trans]) (auto simp: takeWhile_eq_all_conv)

lemma turn_read:
  assumes wp: "world_part get put" and t: "sayable t"
    and P: "P = lift_plugin get put cfg (command_plugin dump stack)" and talk: "talks P c s"
  shows "lwnbd_pread (turned get put c t s) (contexts (turned get put c t s) ! c) (of_nat (length t)) 0 0
    = Inr (0, t, turned get put c t s)"
proof -
  let ?s = "turned get put c t s" and ?st = "echoed t (get (world s))"
  have pl: "plugin_of ?s (contexts ?s ! c) = Inr P"
    using talks_answered [OF talk] by (simp add: turned_def talks_def)
  have q: "pl_pread P = Some (\<lambda>h n off fl. on_part2 get put (command_pread h n off fl))"
    unfolding P by (rule lifted_command)
  have "on_part2 get put (command_pread h (of_nat (length t)) 0 0) (world ?s) = Inr (0, t, put ?st (world ?s))" for h
    by (rule on_part_simps(3)) (simp only: turned_world [OF wp] pread_echo [OF t])
  moreover have "put ?st (world ?s) = world ?s"
    using wp by (simp add: turned_def answered_def world_part_def)
  ultimately show ?thesis by (simp add: lwnbd_pread_def pl q)
qed

lemma shell_turn:
  assumes wp: "world_part get put" and t: "sayable t"
    and P: "P = lift_plugin get put cfg (command_plugin dump stack)" and talk: "talks P c s"
    and cs: "cs_commands (get (world s)) = builtin ! 0 # cs"
    and name: "sh_exportname (cs_env (get (world s))) = ''api''"
  shows "shell_loop (\<lambda>w. cs_env (get w)) dec decn fail (echo_word t # ts) s =
    bindr (shell_loop (\<lambda>w. cs_env (get w)) dec decn fail ts (turned get put c t s)) (\<lambda>(u, s').
      Inr (echo_turn dec decn (sh_prompt (cs_env (get (world s)))) t @ u, s'))"
proof -
  let ?s = "turned get put c t s" and ?buf = "''api?echo='' @ t"
  have "NUL \<notin> set ?buf" using t by (simp add: sayable_def NUL_def)
  then have "cstr (?buf @ [NUL]) 0 = ?buf" by (rule cstr_typed)
  then have "bindr (lwnbd_get_context s (?buf @ [NUL]) 0) (\<lambda>(r, _, s'). Inr (r, s')) = Inr (Some c, ?s)"
    using echo_dispatch [OF wp t P talk cs] by (simp only: dispatch_on_strings turned_def)
  then obtain b where b: "lwnbd_get_context s (?buf @ [NUL]) 0 = Inr (Some c, b, ?s)"
    by (auto simp: bindr_Inr_iff)
  have len: "length b = length t + 10" using get_context_length [OF b] by simp
  have size: "ctx_exportsize (contexts ?s ! c) = of_nat (length t)"
    using talk by (simp add: turned_def answered_def talks_def)
  have narrow: "(ucast (of_nat (length t) :: u64) :: u32) = of_nat (length t)"
    using t by (simp add: unsigned_of_nat take_bit_nat_eq_self sayable_def CMD_BUFFER_SZ_def)
  have show': "show_response dec decn (of_nat (length t)) b t = Inr (''Response: '' @ dec (of_nat (length t))
      @ '' bytes, print '' @ decn (length t) @ '' bytes.'' @ [CHR 0x0A] @ t @ [CHR 0x0A])"
    using t len by (intro show_text) (simp_all add: sayable_def CMD_BUFFER_SZ_def)
  have buf: "''api'' @ ''?'' @ echo_word t = ?buf" "echo_word t \<noteq> ''exit''" by (simp_all add: echo_word_def)
  show ?thesis
    unfolding shell_loop.simps Let_def name buf(1)
    by (simp only: b bindr_simps prod.case option.case size narrow turn_read [OF wp t P talk] show' buf(2) if_False
      refl not_True_eq_False) (simp add: echo_turn_def)
qed

section \<open>A session\<close>

definition prompt_of :: "('w \<Rightarrow> shell_env command_state) \<Rightarrow> ('d, 'w) lwnbd \<Rightarrow> string" where
  "prompt_of get s = sh_prompt (cs_env (get (world s)))"

definition farewell :: string where
  "farewell = ''No matching characters'' @ [CHR 0x0A]"

lemma shell_session:
  assumes "world_part get put" and "\<forall>t \<in> set ts. sayable t"
    and "P = lift_plugin get put cfg (command_plugin dump stack)" and "talks P c s"
    and "cs_commands (get (world s)) = builtin ! 0 # cs" and "sh_exportname (cs_env (get (world s))) = ''api''"
  shows "shell_loop (\<lambda>w. cs_env (get w)) dec decn None (map echo_word ts) s =
    Inr (concat (map (echo_turn dec decn (prompt_of get s)) ts) @ prompt_of get s @ farewell,
         fold (turned get put c) ts s)"
  using assms(2,4-6)
proof (induction ts arbitrary: s)
  case Nil
  then show ?case by (simp add: prompt_of_def farewell_def)
next
  case (Cons t ts)
  let ?s = "turned get put c t s"
  have t: "sayable t" using Cons.prems(1) by simp
  have next': "talks P c ?s" "cs_commands (get (world ?s)) = builtin ! 0 # cs"
    "sh_exportname (cs_env (get (world ?s))) = ''api''" "prompt_of get ?s = prompt_of get s"
    using Cons.prems talks_answered
    by (simp_all add: turned_world [OF assms(1)] echoed_keeps prompt_of_def) (simp add: turned_def)
  have "\<forall>t \<in> set ts. sayable t" using Cons.prems(1) by simp
  from Cons.IH [OF this next'(1-3)] show ?case
    unfolding list.map shell_turn [OF assms(1) t assms(3) Cons.prems(2-4)] next'(4)
    by (simp add: prompt_of_def)
qed

section \<open>The program\<close>

text \<open>
  The two plugins over the variables of both, the memory plugin first.  A configuration is the one of the
  memory plugin on the left, and a command on the right.
\<close>

type_synonym shell_cfg = "memory_config + shell_env lwnbd_command"
type_synonym shell_world = "memory_state \<times> shell_env command_state"

definition shell_memory :: "(shell_cfg, shell_world) lwnbd_plugin_t" where
  "shell_memory = lift_plugin fst (\<lambda>v w. (v, snd w))
     (\<lambda>d. case d of Inl c \<Rightarrow> Inr c | Inr _ \<Rightarrow> Inl Out_Of_Bounds) memory_plugin"

definition shell_command :: "(shell_env \<Rightarrow> int \<times> string) \<Rightarrow> u32 \<Rightarrow> (shell_cfg, shell_world) lwnbd_plugin_t" where
  "shell_command dump stack = lift_plugin snd (\<lambda>v w. (fst w, v))
     (\<lambda>d. case d of Inl _ \<Rightarrow> Inl Out_Of_Bounds | Inr c \<Rightarrow> Inr c) (command_plugin dump stack)"

definition shared_memory :: string where
  "shared_memory = ''Example of shared memory.''"

text \<open>The region of the memory plugin, before and after the request that fills it.\<close>

definition test_state :: "u64 \<Rightarrow> ram \<Rightarrow> memory_state" where
  "test_state a m = (memory_init m)\<lparr>mm_handles := (mm_handles (memory_init m))[0 := test_config a],
     mm_in_use := (mm_in_use (memory_init m))[0 := HANDLE_CREATED]\<rparr>"

definition test_context :: "u64 \<Rightarrow> lwnbd_context" where
  "test_context sz = \<lparr>ctx_handle = Some 0, ctx_p = Some 0, ctx_name = ''test'',
     ctx_description = ''lwnbd generic memory plugin'', ctx_exportsize = sz\<rparr>"

lemma shell_registers_memory:
  "lwnbd_plugin_init (lwnbd_init (memory_init m, v)) (Some shell_memory) = Inr (0, library [] [shell_memory] (memory_init m, v))"
proof -
  have "pl_pread shell_memory \<noteq> None" "pl_load shell_memory = None" "pl_export_without_handle shell_memory \<noteq> 1"
    by (simp_all add: shell_memory_def memory_plugin_def null_plugin_def)
  then show ?thesis
    using library_register(1) [of "[]" shell_memory "(memory_init m, v)" "(memory_init m, v)" "[]"]
    by (simp add: library_init MAX_NUM_PLUGINS_def)
qed

lemma shell_exports_memory:
  "lwnbd_plugin_new (library [] [shell_memory] (memory_init m, v)) 0 (Inl (test_config a))
    = Inr (0, library [test_context 0] [shell_memory] (test_state a m, v))"
proof -
  have p: "pl_ctor shell_memory = Some (\<lambda>d c w. bindr (case d of Inl c \<Rightarrow> Inr c | Inr _ \<Rightarrow> Inl Out_Of_Bounds)
      (\<lambda>pconfig. on_part2 fst (\<lambda>v w. (v, snd w)) (memory_ctor pconfig c) w))"
    "pl_export_without_handle shell_memory \<noteq> 1" "pl_longname shell_memory = ''lwnbd generic memory plugin''"
    by (simp_all add: shell_memory_def memory_plugin_def null_plugin_def)
  have "memory_ctor (test_config a) (Some zero_context) (memory_init m)
      = Inr (0, Some (zero_context\<lparr>ctx_handle := Some 0, ctx_name := ''test'', ctx_description := []\<rparr>), test_state a m)"
    by (simp add: memory_ctor_def take_handle_def memory_init_def find_slot_replicate MEM_DRIVER_MAX_DEVICES_def
        set_handle_def set_name_def strcpy_field_def test_config_def test_state_def)
  then have c: "on_part2 fst (\<lambda>v w. (v, snd w)) (memory_ctor (test_config a) (Some zero_context)) (memory_init m, v)
      = Inr (0, Some (zero_context\<lparr>ctx_handle := Some 0, ctx_name := ''test'', ctx_description := []\<rparr>), test_state a m, v)"
    by simp
  show ?thesis
    using library_new [of 0 "[shell_memory]" "[]" _ "Inl (test_config a)" "(memory_init m, v)"] p c
    by (simp add: MAX_NUM_PLUGINS_def MAX_CONTEXTS_def test_context_def zero_context_def)
qed

text \<open>The request that fills the region.\<close>

lemma shell_fills_memory:
  assumes "mapped (test_config a) m"
  obtains m' b where "lwnbd_get_context (library [test_context 0] [shell_memory] (test_state a m, v))
      (example_request @ [NUL]) 0 = Inr (Some 0, b, library [test_context 512] [shell_memory] (test_state a m', v))"
    and "region (test_config a) m' = shared_memory @ replicate 487 NUL"
proof -
  let ?s = "library [test_context 0] [shell_memory] (test_state a m, v)"
    and ?ps = "[\<lparr>q_key = ''memcpy'', q_val = Some shared_memory\<rparr>]"
  have h: "handle_at (mm_handles (test_state a m)) (Some 0) = Inr (test_config a)" "mm_ram (test_state a m) = m" for m
    by (simp_all add: test_state_def memory_init_def handle_at_def MEM_DRIVER_MAX_DEVICES_def)
  have sz: "mc_size (test_config a) = 512" by (simp add: test_config_def)
  obtain m' where m': "memory_query_loop (Inr (test_config a)) ?ps 1 m = Inr m'"
    "region (test_config a) m' = shared_memory @ replicate 487 NUL"
    using query_loop_ok [OF assms, of ?ps 1] by (auto simp: fits_def sz apply_filter_def shared_memory_def)
  have q: "pl_query shell_memory = Some (\<lambda>h ps n. on_part fst (\<lambda>v w. (v, snd w)) (memory_query h ps n))"
    "pl_get_size shell_memory = Some (\<lambda>h. on_part fst (\<lambda>v w. (v, snd w)) (memory_get_size h))"
    by (simp_all add: shell_memory_def memory_plugin_def)
  have "memory_query (Some 0) ?ps 1 (test_state a m) = Inr (0, (test_state a m)\<lparr>mm_ram := m'\<rparr>)"
    using m'(1) by (simp add: memory_query_def h)
  moreover have "(test_state a m)\<lparr>mm_ram := m'\<rparr> = test_state a m'" by (simp add: test_state_def memory_init_def)
  ultimately have run: "on_part fst (\<lambda>v w. (v, snd w)) (memory_query (Some 0) ?ps 1) (test_state a m, v)
      = Inr (0, test_state a m', v)" by simp
  have size: "on_part fst (\<lambda>v w. (v, snd w)) (memory_get_size (Some 0)) (test_state a m', v)
      = Inr (512, test_state a m', v)" by (simp add: memory_get_size_def h sz)
  have u: "uri_path example_request = ''test''" "query_params (uri_query example_request) = (?ps, 1)"
    by (simp_all add: example_request_def uri_path_def uri_query_def cut_def query_params_def numeral_2_eq_2
        shared_memory_def)
  have find: "lwnbd_get_context_string ?s ''test'' = Some 0"
    by (simp add: lwnbd_get_context_string_def library_count MAX_CONTEXTS_def lwnbd_get_context_i_def
        test_context_def strncmp_eq_def)
  have pl: "plugin_of (library [test_context 0] [shell_memory] w) (test_context 0) = Inr shell_memory" for w
    by (simp add: plugin_of_def test_context_def)
  have ch: "ctx_handle (test_context 0) = Some 0" "(test_context 0)\<lparr>ctx_exportsize := 512\<rparr> = test_context 512"
    by (simp_all add: test_context_def)
  have "uri_dispatch ?s example_request
      = Inr (Some 0, library [test_context 512] [shell_memory] (test_state a m', v))"
    using library_set(2) [where i = 0 and cs = "[test_context 0]" and c = "test_context 512"]
    by (simp add: uri_dispatch_def u find pl q ch run lwnbd_update_size_def size)
  moreover have "cstr (example_request @ [NUL]) 0 = example_request"
    by (rule cstr_typed) (simp add: example_request_def NUL_def)
  ultimately have "bindr (lwnbd_get_context ?s (example_request @ [NUL]) 0) (\<lambda>(r, _, s'). Inr (r, s'))
      = Inr (Some 0, library [test_context 512] [shell_memory] (test_state a m', v))"
    by (simp only: dispatch_on_strings)
  then show ?thesis using that m'(2) by (auto simp: bindr_Inr_iff)
qed

text \<open>The command plugin, and the command of the program.\<close>

lemma shell_registers_command:
  fixes dump stack
  defines "C \<equiv> shell_command dump stack"
  shows "lwnbd_plugin_init (library [c] [shell_memory] (u, command_start e)) (Some C)
    = Inr (1, library [c, api_context 1 C] [shell_memory, C] (u, with_commands e []))"
  using command_registers [of C snd "\<lambda>v w. (fst w, v)" _ dump stack "(u, command_start e)" e "[shell_memory]" "[c]"]
  by (simp add: C_def shell_command_def MAX_NUM_PLUGINS_def MAX_CONTEXTS_def)

lemma shell_adds_command:
  fixes dump stack
  defines "C \<equiv> shell_command dump stack"
  shows "lwnbd_plugin_new (library cs [shell_memory, C] (u, with_commands e [])) 1 (Inr d)
    = Inr (0, library cs [shell_memory, C] (u, with_commands e [d]))"
  using command_adds [of "[shell_memory, C]" 1 snd "\<lambda>v w. (fst w, v)" _ dump stack "(u, with_commands e [])" e "[]" "Inr d" d cs]
  by (simp add: C_def shell_command_def MAX_NUM_PLUGINS_def)

lemma shell_talks:
  fixes dump stack
  defines "C \<equiv> shell_command dump stack"
  shows "talks C 1 (library [test_context 512, api_context 1 C] [shell_memory, C] w)"
proof -
  let ?s = "library [test_context 512, api_context 1 C] [shell_memory, C] w"
  have "lwnbd_contexts_count ?s = 2" by (simp add: library_count MAX_CONTEXTS_def)
  then have "lwnbd_get_context_string ?s ''api'' = Some 1"
    by (simp add: lwnbd_get_context_string_def lwnbd_get_context_i_def numeral_2_eq_2 test_context_def api_context_def
        strncmp_eq_def)
  then show ?thesis by (simp add: talks_def plugin_of_def api_context_def)
qed

lemma session_memory: "fst (world (fold (turned snd (\<lambda>v w. (fst w, v)) c) ts s)) = fst (world s)"
  by (induction ts arbitrary: s) (simp_all add: turned_def answered_def)

text \<open>
  C37. The example \<^verbatim>\<open>local-shell\<close> as a whole program, over the memory plugin and the command plugin
  together: it exports its array as \<^verbatim>\<open>test\<close>, and the request it makes before the prompt leaves the text
  of the example in the array, with zeros behind it.  Then every \<^verbatim>\<open>echo=\<close> command typed is answered
  with its own text, with the two lengths of it and no byte of another answer, in order, under the
  same prompt, until the input ends; nothing typed touches the array.  A text has no \<^verbatim>\<open>$\<close>, no
  separator of a request, and fits the buffer of the command plugin.
\<close>

theorem local_shell_session:
  assumes "mapped (test_config a) m" and "\<forall>t \<in> set ts. sayable t"
  shows "\<exists>s'. local_shell (\<lambda>w. cs_env (snd w)) dec decn (Some shell_memory) Inl (Some (shell_command dump stack)) Inr
      a None (map echo_word ts) (lwnbd_init (memory_init m, command_start (shell_start prog)))
    = Inr (''Welcome! Type lc to list commands'' @ [CHR 0x0A]
        @ concat (map (echo_turn dec decn (''['' @ basename prog @ '':/api]$ '')) ts)
        @ ''['' @ basename prog @ '':/api]$ '' @ farewell, s')
    \<and> region (test_config a) (mm_ram (fst (world s'))) = shared_memory @ replicate 487 NUL"
proof -
  let ?e = "shell_start prog" and ?C = "shell_command dump stack"
  obtain m' b where fill: "lwnbd_get_context (library [test_context 0] [shell_memory] (test_state a m, command_start ?e))
      (example_request @ [NUL]) 0
      = Inr (Some 0, b, library [test_context 512] [shell_memory] (test_state a m', command_start ?e))"
    and m': "region (test_config a) m' = shared_memory @ replicate 487 NUL"
    using shell_fills_memory [OF assms(1)] by blast
  let ?s = "library [test_context 512, api_context 1 ?C] [shell_memory, ?C]
    (test_state a m', with_commands ?e [change_export])"
  have env: "cs_env (snd (world ?s)) = ?e" "sh_exportname ?e = ''api''" "sh_prompt ?e = ''['' @ basename prog @ '':/api]$ ''"
    by (simp_all add: with_commands_def command_start_def shell_start_def Let_def set_prompt_def)
  have cmds: "cs_commands (snd (world ?s)) = builtin ! 0 # [builtin ! 1, builtin ! 2, change_export]"
    by (simp add: with_commands_def)
  note shell_session [OF snd_part.world_part_axioms assms(2) shell_command_def shell_talks cmds, of dec decn]
  then have loop: "shell_loop (\<lambda>w. cs_env (snd w)) dec decn None (map echo_word ts) ?s =
    Inr (concat (map (echo_turn dec decn (''['' @ basename prog @ '':/api]$ '')) ts)
         @ ''['' @ basename prog @ '':/api]$ '' @ farewell, fold (turned snd (\<lambda>v w. (fst w, v)) 1) ts ?s)"
    using env by (simp add: prompt_of_def)
  have mem: "mm_ram (fst (world (fold (turned snd (\<lambda>v w. (fst w, v)) 1) ts ?s))) = m'"
    by (simp add: session_memory test_state_def memory_init_def)
  show ?thesis
    unfolding local_shell_def
    by (rule exI [of _ "fold (turned snd (\<lambda>v w. (fst w, v)) 1) ts ?s"])
      (simp add: shell_registers_memory shell_exports_memory fill shell_registers_command shell_adds_command loop
        mem m' del: One_nat_def)
qed

theorem local_shell_session_witness:
  "\<exists>s'. local_shell (\<lambda>w. cs_env (snd w)) (\<lambda>_. ''2'') (\<lambda>_. ''2'') (Some shell_memory) Inl
      (Some (shell_command (\<lambda>_. (0, [])) 0)) Inr
      0 None [''echo=hi'', ''echo=ho''] (lwnbd_init (memory_init (\<lambda>a. if a < 512 then Some NUL else None),
        command_start (shell_start ''sh'')))
    = Inr (''Welcome! Type lc to list commands'' @ [CHR 0x0A]
        @ ''[sh:/api]$ Request: api?echo=hi'' @ [CHR 0x0A]
        @ ''Response: 2 bytes, print 2 bytes.'' @ [CHR 0x0A] @ ''hi'' @ [CHR 0x0A]
        @ ''[sh:/api]$ Request: api?echo=ho'' @ [CHR 0x0A]
        @ ''Response: 2 bytes, print 2 bytes.'' @ [CHR 0x0A] @ ''ho'' @ [CHR 0x0A]
        @ ''[sh:/api]$ No matching characters'' @ [CHR 0x0A], s')"
proof -
  have "mapped (test_config 0) (\<lambda>a. if a < 512 then Some NUL else None)"
    by (auto simp: mapped_def test_config_def addrs_def word_less_nat_alt unat_of_nat)
  moreover have "\<forall>t \<in> set [''hi'', ''ho'']. sayable t"
    by (simp add: sayable_def NUL_def CMD_BUFFER_SZ_def)
  moreover have "basename ''sh'' = ''sh''" by (simp add: basename_def)
  ultimately show ?thesis
    using local_shell_session [of 0 _ "[''hi'', ''ho'']" "\<lambda>_. ''2''" "\<lambda>_. ''2''" "\<lambda>_. (0, [])" 0 "''sh''"]
    by (fastforce simp: echo_word_def echo_turn_def farewell_def)
qed

end
