(* ===== verification/Wc_Session.thy ===== *)
theory Wc_Session
  imports Local_Shell Command_World
begin

text \<open>
  The byte counter \<^verbatim>\<open>examples/local-command-wc.c\<close> as a whole program: the file plugin reads a file, and
  the command plugin passes each byte to the command that counts.
\<close>

section \<open>The program\<close>

type_synonym wc_cfg = "string + int lwnbd_command"
type_synonym 'f wc_world = "'f file_state \<times> int command_state"

definition wc_file :: "'f posix_fs \<Rightarrow> (wc_cfg, 'f wc_world) lwnbd_plugin_t" where
  "wc_file os = lift_plugin fst (\<lambda>v w. (v, snd w))
     (\<lambda>d. case d of Inl path \<Rightarrow> Inr path | Inr _ \<Rightarrow> Inl Out_Of_Bounds) (file_plugin os)"

definition wc_counter :: "(int \<Rightarrow> int \<times> string) \<Rightarrow> u32 \<Rightarrow> (wc_cfg, 'f wc_world) lwnbd_plugin_t" where
  "wc_counter dump stack = lift_plugin snd (\<lambda>v w. (fst w, v))
     (\<lambda>d. case d of Inl _ \<Rightarrow> Inl Out_Of_Bounds | Inr c \<Rightarrow> Inr c) (command_plugin dump stack)"

text \<open>A name without separators is left alone in the buffer of the caller.\<close>

lemma plain_buffer:
  assumes nm: "plain_name nm" and run: "lwnbd_get_context s (nm @ [NUL]) 0 = Inr (c, b, s')"
  shows "b = nm @ [NUL]"
proof -
  have "strchr (nm @ [NUL]) 0 x = None" if "x \<in> {CHR ''#'', CHR ''?'', CHR ''/''}" for x
    using nm that by (auto simp: strchr_None plain_cstr plain_name_def)
  then have "yuarel_parse (Some u) (Some 0) (nm @ [NUL])
      = (0, Some \<lparr>url_path = Some 0, url_query = None, url_fragment = None\<rparr>, nm @ [NUL])" for u
    by (simp add: yuarel_parse_def find_fragment_def find_query_def find_path_def find_and_terminate_def)
  then show ?thesis
    using run by (auto simp: lwnbd_get_context_def yuarel_parse_query_def bindr_Inr_iff split: option.splits if_splits)
qed

section \<open>The loop\<close>

text \<open>The counter is selected, as the dispatcher leaves it after \<^verbatim>\<open>api?wc\<close>.\<close>

definition counting :: "int command_state \<Rightarrow> bool" where
  "counting st \<longleftrightarrow> (\<exists>i. pp_pvhandle (cs_pp st) = Some i \<and> cs_commands st ! i = wc_command)"

lemma count_one:
  assumes "counting st"
  shows "command_pwrite dump stack h buf n off fl st = Inr (0, st\<lparr>cs_env := cs_env st + 1\<rparr>)"
    and "counting (st\<lparr>cs_env := e\<rparr>)"
  using assms by (auto simp: counting_def command_pwrite_def call_cmd_def wc_command_def byte_count_def)

text \<open>The library during the loop, as far as the loop needs it.\<close>

definition wc_library :: "'f posix_fs \<Rightarrow> (int \<Rightarrow> int \<times> string) \<Rightarrow> u32 \<Rightarrow> (wc_cfg, 'f wc_world) lwnbd \<Rightarrow> bool" where
  "wc_library os dump stack s \<longleftrightarrow>
     plugin_of s (contexts s ! 0) = Inr (wc_file os) \<and> ctx_handle (contexts s ! 0) = Some 0
     \<and> plugin_of s (contexts s ! 1) = Inr (wc_counter dump stack)"

lemma wc_library_world: "wc_library os dump stack (s\<lparr>world := w\<rparr>) = wc_library os dump stack s"
  by (simp add: wc_library_def plugin_of_def)

lemma wc_read:
  assumes "wc_library os dump stack s" and "file_pread os (Some 0) n off 0 (fst (world s)) = Inr (r, d, f)"
  shows "lwnbd_pread s (contexts s ! 0) n off 0 = Inr (r, d, s\<lparr>world := (f, snd (world s))\<rparr>)"
  using assms by (simp add: lwnbd_pread_def wc_library_def wc_file_def file_plugin_def)

lemma wc_counter_pwrite:
  "pl_pwrite (wc_counter dump stack)
    = Some (\<lambda>h b n off fl. on_part snd (\<lambda>v w. (fst w, v)) (command_pwrite dump stack h b n off fl))"
  by (simp add: wc_counter_def command_plugin_def)

lemma wc_write:
  assumes "wc_library os dump stack s" and "counting (snd (world s))"
  shows "lwnbd_pwrite s (contexts s ! 1) buf n off 0
    = Inr (0, s\<lparr>world := (fst (world s), (snd (world s))\<lparr>cs_env := cs_env (snd (world s)) + 1\<rparr>)\<rparr>)"
  using assms by (simp add: lwnbd_pwrite_def wc_library_def on_part_def count_one wc_counter_pwrite)

context posix_reader
begin

lemma wc_loop:
  assumes "wc_library os dump stack s" and "counting (snd (world s))" and "usable (Some 0) (fst (world s))"
    and "data (Some 0) (fst (world s)) = d" and "length d < 2 ^ 63" and "k \<le> length d" and "n = length d - k"
  shows "\<exists>v. while_flow (\<lambda>v. wc_r v = 0) (wc_body (Some 0) (Some 1))
      \<lparr>wc_r = 0, wc_offset = of_nat k, wc_buf = b, wc_lwnbd = s\<rparr> = Some (Inr (Next, v))
    \<and> cs_env (snd (world (wc_lwnbd v))) = cs_env (snd (world s)) + int n"
  using assms
proof (induction n arbitrary: k b s)
  case 0
  obtain fd where o: "open_on (Some 0) (fst (world s)) fd d" using usable_open_on "0.prems"(3,4) by blast
  have "unat (of_nat k :: u64) = length d" using "0.prems" by (simp add: unat_of_nat)
  then obtain f where "file_pread os (Some 0) 1 (of_nat k) 0 (fst (world s)) = Inr (- 1, [], f)"
    using pread_at_end [OF o] by blast
  note wc_read [OF "0.prems"(1) this]
  then have "wc_body (Some 0) (Some 1) \<lparr>wc_r = 0, wc_offset = of_nat k, wc_buf = b, wc_lwnbd = s\<rparr>
      = ret (Break, \<lparr>wc_r = - 1, wc_offset = of_nat k + 1, wc_buf = b, wc_lwnbd = s\<lparr>world := (f, snd (world s))\<rparr>\<rparr>)"
    by (simp add: wc_body_def)
  then have "while_flow (\<lambda>v. wc_r v = 0) (wc_body (Some 0) (Some 1))
      \<lparr>wc_r = 0, wc_offset = of_nat k, wc_buf = b, wc_lwnbd = s\<rparr>
    = Some (Inr (Next, \<lparr>wc_r = - 1, wc_offset = of_nat k + 1, wc_buf = b, wc_lwnbd = s\<lparr>world := (f, snd (world s))\<rparr>\<rparr>))"
    by (intro while_flow_break) (simp_all add: ret_def)
  then show ?case by simp
next
  case (Suc n)
  have k: "k < length d" "unat (of_nat k :: u64) = k" using Suc.prems by (simp_all add: unat_of_nat)
  obtain f where f: "file_pread os (Some 0) 1 (of_nat k) 0 (fst (world s)) = Inr (0, [d ! k], f)"
    "usable (Some 0) f" "data (Some 0) f = d"
    using dev.pread_ok [OF Suc.prems(3), of "of_nat k" 1 0] k Suc.prems(4)
    by (auto simp: take_Suc_conv_app_nth hd_drop_conv_nth take_Suc)
  let ?st = "snd (world s)"
  let ?s1 = "s\<lparr>world := (f, ?st)\<rparr>" and ?s2 = "s\<lparr>world := (f, ?st\<lparr>cs_env := cs_env ?st + 1\<rparr>)\<rparr>"
  have c: "counting (snd (world ?s1))" "counting (?st\<lparr>cs_env := cs_env ?st + 1\<rparr>)"
    using count_one(2) [OF Suc.prems(2)] Suc.prems(2) by simp_all
  have lib: "wc_library os dump stack ?s1" "wc_library os dump stack ?s2"
    using Suc.prems(1) by (simp_all add: wc_library_world)
  let ?b = "d ! k # drop 1 b"
  have "wc_body (Some 0) (Some 1) \<lparr>wc_r = 0, wc_offset = of_nat k, wc_buf = b, wc_lwnbd = s\<rparr>
      = ret (Next, \<lparr>wc_r = 0, wc_offset = of_nat (Suc k), wc_buf = ?b, wc_lwnbd = ?s2\<rparr>)"
    using wc_read [OF Suc.prems(1) f(1)] wc_write [OF lib(1) c(1)] by (simp add: wc_body_def add.commute)
  then have "while_flow (\<lambda>v. wc_r v = 0) (wc_body (Some 0) (Some 1))
      \<lparr>wc_r = 0, wc_offset = of_nat k, wc_buf = b, wc_lwnbd = s\<rparr>
    = while_flow (\<lambda>v. wc_r v = 0) (wc_body (Some 0) (Some 1))
        \<lparr>wc_r = 0, wc_offset = of_nat (Suc k), wc_buf = ?b, wc_lwnbd = ?s2\<rparr>"
    by (intro while_flow_next) (simp_all add: ret_def)
  then show ?case
    using Suc.IH [OF lib(2), of "Suc k" ?b] c(2) f Suc.prems(5-7) by simp
qed

end

section \<open>Registering, and finding the two exports\<close>

text \<open>The file as a context.\<close>

definition wc_context :: "string \<Rightarrow> u64 \<Rightarrow> lwnbd_context" where
  "wc_context nm sz = \<lparr>ctx_handle = Some 0, ctx_p = Some 0, ctx_name = nm,
     ctx_description = ''lwnbd file plugin'', ctx_exportsize = sz\<rparr>"

lemma wc_registers_file:
  fixes os :: "'f posix_fs"
  shows "lwnbd_plugin_init (lwnbd_init (w :: 'f wc_world)) (Some (wc_file os)) = Inr (0, library [] [wc_file os] w)"
proof -
  have "pl_pread (wc_file os) \<noteq> None" "pl_load (wc_file os) = None" "pl_export_without_handle (wc_file os) \<noteq> 1"
    by (simp_all add: wc_file_def file_plugin_def null_plugin_def)
  then show ?thesis
    using library_register(1) [of "[]" "wc_file os" w w "[]"] by (simp add: library_init MAX_NUM_PLUGINS_def)
qed

lemma wc_exports_file:
  fixes os :: "'f posix_fs"
  assumes "plain_name nm"
  shows "lwnbd_plugin_new (library [] [wc_file os] (file_state_init f, v)) 0 (Inl nm)
    = Inr (0, library [wc_context nm 0] [wc_file os] (reader_files nm f, v))"
proof -
  have p: "pl_ctor (wc_file os) = Some (\<lambda>d c w. bindr (case d of Inl c \<Rightarrow> Inr c | Inr _ \<Rightarrow> Inl Out_Of_Bounds)
      (\<lambda>pconfig. on_part2 fst (\<lambda>v w. (v, snd w)) (file_ctor pconfig c) w))"
    "pl_export_without_handle (wc_file os) \<noteq> 1" "pl_longname (wc_file os) = ''lwnbd file plugin''"
    by (simp_all add: wc_file_def file_plugin_def null_plugin_def)
  have "file_ctor nm (Some zero_context) (file_state_init f)
      = Inr (0, Some (zero_context\<lparr>ctx_handle := Some 0, ctx_name := nm\<rparr>), reader_files nm f)"
    using assms
    by (simp add: file_ctor_def take_handle_def Let_def file_state_init_def FILE_DRIVER_MAX_DEVICES_def
        find_slot_replicate set_name_def plain_basename strcpy_field_def plain_name_def reader_files_def
        handle_at_def set_handle_def)
  then have c: "on_part2 fst (\<lambda>v w. (v, snd w)) (file_ctor nm (Some zero_context)) (file_state_init f, v)
      = Inr (0, Some (zero_context\<lparr>ctx_handle := Some 0, ctx_name := nm\<rparr>), reader_files nm f, v)"
    by simp
  show ?thesis
    using library_new [of 0 "[wc_file os]" "[]" _ "Inl nm" "(file_state_init f, v)"] p c
    by (simp add: MAX_NUM_PLUGINS_def MAX_CONTEXTS_def wc_context_def zero_context_def)
qed

lemma wc_registers_counter:
  fixes u :: "'f file_state"
  shows "lwnbd_plugin_init (library [c] [p] (u, command_start 0)) (Some (wc_counter dump stack))
    = Inr (1, library [c, api_context 1 (wc_counter dump stack :: (wc_cfg, 'f wc_world) lwnbd_plugin_t)]
        [p, wc_counter dump stack] (u, with_commands 0 []))"
  using command_registers [of "wc_counter dump stack :: (wc_cfg, 'f wc_world) lwnbd_plugin_t" snd "\<lambda>v w. (fst w, v)" _
      dump stack "(u, command_start 0)" 0 "[p]" "[c]"]
  by (simp add: wc_counter_def MAX_NUM_PLUGINS_def MAX_CONTEXTS_def)

lemma wc_adds_command:
  fixes u :: "'f file_state"
  shows "lwnbd_plugin_new (library cs [p, wc_counter dump stack] (u, with_commands 0 [])) 1 (Inr d)
    = Inr (0, library cs [p, wc_counter dump stack] (u, with_commands 0 [d]))"
  using command_adds [of "[p, wc_counter dump stack :: (wc_cfg, 'f wc_world) lwnbd_plugin_t]" 1 snd "\<lambda>v w. (fst w, v)" _
      dump stack "(u, with_commands 0 [])" 0 "[]" "Inr d" d cs]
  by (simp add: wc_counter_def MAX_NUM_PLUGINS_def)

text \<open>The two requests of the program.\<close>

lemma dispatches_to:
  assumes "uri_dispatch s (cstr buf 0) = Inr (r, t)"
  obtains b where "lwnbd_get_context s buf 0 = Inr (r, b, t)"
proof -
  have "bindr (lwnbd_get_context s buf 0) (\<lambda>(r, _, s'). Inr (r, s')) = Inr (r, t)"
    using assms by (simp add: dispatch_on_strings)
  then show ?thesis using that by (auto simp: bindr_Inr_iff)
qed

lemma wc_finds_counter:
  fixes u :: "'f file_state" and p :: "(wc_cfg, 'f wc_world) lwnbd_plugin_t"
  assumes "nm \<noteq> ''api''" and "length nm < 32"
  obtains b c st where "lwnbd_get_context (library
      [wc_context nm sz, api_context 1 (wc_counter dump stack :: (wc_cfg, 'f wc_world) lwnbd_plugin_t)] [p, wc_counter dump stack] (u, with_commands 0 [wc_command])) (''api?wc'' @ [NUL]) 0
      = Inr (Some 1, b, library [wc_context nm sz, c] [p, wc_counter dump stack] (u, st))"
    and "ctx_p c = Some 1" and "counting st" and "cs_env st = 0"
proof -
  let ?C = "wc_counter dump stack :: (wc_cfg, 'f wc_world) lwnbd_plugin_t"
    and ?st = "with_commands 0 [wc_command] :: int command_state" and ?q = "[\<lparr>q_key = ''wc'', q_val = None\<rparr>]"
  let ?s = "library [wc_context nm sz, api_context 1 ?C] [p, ?C] (u, ?st)"
  let ?st' = "?st\<lparr>cs_exportsize := of_nat CMD_BUFFER_SZ, cs_pp := \<lparr>pp_pvhandle = Some 3, pp_nb_params = 1\<rparr>\<rparr>"
  let ?c = "(api_context 1 ?C)\<lparr>ctx_exportsize := of_nat CMD_BUFFER_SZ\<rparr>"
  let ?t = "library [wc_context nm sz, ?c] [p, ?C] (u, ?st')"
  have "lwnbd_contexts_count ?s = 2" by (simp add: library_count MAX_CONTEXTS_def)
  then have find: "lwnbd_get_context_string ?s ''api'' = Some 1"
    using assms by (simp add: lwnbd_get_context_string_def lwnbd_get_context_i_def numeral_2_eq_2 wc_context_def
        api_context_def strncmp_eq_short)
  have pl: "plugin_of (library cs [p, ?C] w) (api_context 1 ?C) = Inr ?C" for w cs
    by (simp add: plugin_of_def api_context_def)
  have q: "pl_query ?C = Some (\<lambda>h ps n. on_part snd (\<lambda>v w. (fst w, v)) (command_query dump h ps n))"
    "pl_get_size ?C = Some (\<lambda>h. on_part snd (\<lambda>v w. (fst w, v)) (command_get_size h))"
    unfolding wc_counter_def by (rule lifted_command)+
  have "command_query dump h ?q 1 ?st = Inr (0, ?st')" for h
    by (simp add: command_query_def with_commands_def builtin_def command_start_def find_slot_code wc_command_def
        command_query_post_def numeral_3_eq_3)
  then have run: "on_part snd (\<lambda>v w. (fst w, v)) (command_query dump h ?q 1) (u, ?st) = Inr (0, u, ?st')" for h
    by simp
  have size: "on_part snd (\<lambda>v w. (fst w, v)) (command_get_size h) (u, ?st') = Inr (of_nat CMD_BUFFER_SZ, u, ?st')" for h
    by (simp add: command_get_size_def)
  have uri: "uri_path ''api?wc'' = ''api''" "query_params (uri_query ''api?wc'') = (?q, 1)"
    by (simp_all add: uri_path_def uri_query_def cut_def query_params_def numeral_2_eq_2)
  have c1: "contexts (library [wc_context nm sz, api_context 1 ?C] [p, ?C] w) ! 1 = api_context 1 ?C" for w
    by simp
  have upd: "(library [wc_context nm sz, api_context 1 ?C] [p, ?C] w)
      \<lparr>contexts := (contexts (library [wc_context nm sz, api_context 1 ?C] [p, ?C] w))[1 := ?c]\<rparr>
    = library [wc_context nm sz, ?c] [p, ?C] w" for w
    by (simp add: library_set)
  have "uri_dispatch ?s ''api?wc'' = Inr (Some 1, ?t)"
    by (simp add: upd uri_dispatch_def uri find c1 pl q run lwnbd_update_size_def size del: One_nat_def)
  moreover have "cstr (''api?wc'' @ [NUL]) 0 = ''api?wc''" by (simp add: cstr_def NUL_def)
  ultimately obtain b where "lwnbd_get_context ?s (''api?wc'' @ [NUL]) 0 = Inr (Some 1, b, ?t)"
    using dispatches_to [of ?s "''api?wc'' @ [NUL]"] by auto
  moreover have "ctx_p ?c = Some 1" by (simp add: api_context_def)
  moreover have "counting ?st'" "cs_env ?st' = 0"
    by (simp_all add: counting_def with_commands_def builtin_def command_start_def)
  ultimately show ?thesis by (rule that)
qed

context posix_reader
begin

lemma wc_finds_file:
  assumes nm: "plain_name nm" and op: "sys_open os (Some nm) (O_RDWR + O_CLOEXEC) f = (fd, f1)"
    and d: "inode fd f1 = Some d" "length d < 2 ^ 63"
  obtains sz w where "lwnbd_get_context (library [wc_context nm 0] [wc_file os] (reader_files nm f, v)) (nm @ [NUL]) 0
      = Inr (Some 0, nm @ [NUL], library [wc_context nm sz] [wc_file os] (w, v))"
    and "usable (Some 0) w" and "data (Some 0) w = d"
proof -
  let ?s = "library [wc_context nm 0] [wc_file os] (reader_files nm f, v)"
  obtain sz w where size: "file_get_size os (Some 0) (reader_files nm f) = Inr (sz, w)"
    and w: "usable (Some 0) w" "data (Some 0) w = d"
    using reader_size [OF op d] by blast
  let ?t = "library [wc_context nm sz] [wc_file os] (w, v)"
  have find: "lwnbd_get_context_string ?s nm = Some 0"
    by (simp add: lwnbd_get_context_string_def library_count MAX_CONTEXTS_def lwnbd_get_context_i_def
        wc_context_def strncmp_eq_def)
  have pl: "plugin_of (library cs [wc_file os] w) (wc_context nm 0) = Inr (wc_file os)" for w cs
    by (simp add: plugin_of_def wc_context_def)
  have q: "pl_query (wc_file os) = None"
    "pl_get_size (wc_file os) = Some (\<lambda>h. on_part fst (\<lambda>v w. (v, snd w)) (file_get_size os h))"
    by (simp_all add: wc_file_def file_plugin_def null_plugin_def)
  have run: "on_part fst (\<lambda>v w. (v, snd w)) (file_get_size os (Some 0)) (reader_files nm f, v) = Inr (sz, w, v)"
    using size by simp
  have ch: "ctx_handle (wc_context nm 0) = Some 0" "(wc_context nm 0)\<lparr>ctx_exportsize := sz\<rparr> = wc_context nm sz"
    by (simp_all add: wc_context_def)
  have "uri_dispatch ?s nm = Inr (Some 0, ?t)"
    using plain_uri [OF nm] library_set(2) [where i = 0 and cs = "[wc_context nm 0]" and c = "wc_context nm sz"]
    by (simp add: uri_dispatch_def find pl q run lwnbd_update_size_def ch)
  then obtain b where "lwnbd_get_context ?s (nm @ [NUL]) 0 = Inr (Some 0, b, ?t)"
    using dispatches_to [of ?s "nm @ [NUL]"] plain_cstr [OF nm] by auto
  with plain_buffer [OF nm this] that [OF _ w] show ?thesis by blast
qed

lemma wc_counts:
  assumes nm: "plain_name nm" "nm \<noteq> ''api''" and op: "sys_open os (Some nm) (O_RDWR + O_CLOEXEC) f = (fd, f1)"
    and d: "inode fd f1 = Some d" "length d < 2 ^ 63"
  shows "local_wc (\<lambda>w. cs_env (snd w)) dec (Some (wc_file os)) Inl (Some (wc_counter dump stack)) Inr [prog, nm]
      (lwnbd_init (file_state_init f, command_start 0)) = ret (0, dec (int (length d)) @ '' '' @ nm @ [CHR 0x0A])"
proof -
  let ?C = "wc_counter dump stack :: (wc_cfg, 'a wc_world) lwnbd_plugin_t"
  obtain sz w where found: "lwnbd_get_context (library [wc_context nm 0] [wc_file os] (reader_files nm f, command_start 0))
      (nm @ [NUL]) 0 = Inr (Some 0, nm @ [NUL], library [wc_context nm sz] [wc_file os] (w, command_start 0))"
    and w: "usable (Some 0) w" "data (Some 0) w = d"
    using wc_finds_file [OF nm(1) op d] by blast
  obtain b c st where wc: "lwnbd_get_context (library [wc_context nm sz, api_context 1 ?C] [wc_file os, ?C]
      (w, with_commands 0 [wc_command])) (''api?wc'' @ [NUL]) 0
      = Inr (Some 1, b, library [wc_context nm sz, c] [wc_file os, ?C] (w, st))"
    and st: "ctx_p c = Some 1" "counting st" "cs_env st = 0"
    using wc_finds_counter [OF nm(2)] nm(1) unfolding plain_name_def by metis
  let ?s = "library [wc_context nm sz, c] [wc_file os, ?C] (w, st)"
  have lib: "wc_library os dump stack ?s" using st(1) by (simp add: wc_library_def plugin_of_def wc_context_def)
  obtain v where v: "while_flow (\<lambda>v. wc_r v = 0) (wc_body (Some 0) (Some 1))
      \<lparr>wc_r = 0, wc_offset = 0, wc_buf = b, wc_lwnbd = ?s\<rparr> = Some (Inr (Next, v))"
    "cs_env (snd (world (wc_lwnbd v))) = int (length d)"
    using wc_loop [OF lib, of d 0 "length d" b] st w d(2) by auto
  show ?thesis
    by (simp add: local_wc_def wc_registers_file wc_exports_file [OF nm(1)] found wc_registers_counter wc_adds_command
        wc [unfolded append_Cons append_Nil] v plain_cstr [OF nm(1)] del: One_nat_def)
qed

end

text \<open>
  C38. The example \<^verbatim>\<open>local-command-wc\<close>, run on the name of a file of its directory, prints the number
  of bytes of the file, the empty file included, and the name, and ends with status 0: each byte the file
  plugin reads reaches the command once, through two plugins, two contexts and the dispatcher that selected
  the command.  The name is not \<^verbatim>\<open>api\<close>, which the second request would then find instead of the counter.
\<close>

theorem local_wc_correct:
  assumes "posix_reader os inode" and "plain_name nm" and "nm \<noteq> ''api''"
    and "sys_open os (Some nm) (O_RDWR + O_CLOEXEC) f = (fd, f1)" and "inode fd f1 = Some d" and "length d < 2 ^ 63"
  shows "local_wc (\<lambda>w. cs_env (snd w)) dec (Some (wc_file os)) Inl (Some (wc_counter dump stack)) Inr [prog, nm]
      (lwnbd_init (file_state_init f, command_start 0)) = ret (0, dec (int (length d)) @ '' '' @ nm @ [CHR 0x0A])"
  by (rule posix_reader.wc_counts [OF assms])

theorem local_wc_correct_witness:
  "local_wc (\<lambda>w. cs_env (snd w)) (\<lambda>i. if i = 3 then ''3'' else ''?'') (Some (wc_file ram_os)) Inl
      (Some (wc_counter (\<lambda>_. (0, [])) 0)) Inr [''wc'', ''disk'']
      (lwnbd_init (file_state_init \<lparr>rf_files = [(''disk'', ''abc'')], rf_fds = [], rf_chunk = 0\<rparr>, command_start 0))
    = ret (0, ''3 disk'' @ [CHR 0x0A])"
  using local_wc_correct [OF ramfs.posix_reader_axioms, of "''disk''"
      "\<lparr>rf_files = [(''disk'', ''abc'')], rf_fds = [], rf_chunk = 0\<rparr>" 0
      "\<lparr>rf_files = [(''disk'', ''abc'')], rf_fds = [0], rf_chunk = 0\<rparr>" "''abc''"]
  by (simp add: plain_name_def NUL_def ram_os_def ram_open_def Let_def find_slot_def ram_inode_def)

end
