(* ===== verification/Sdl_Text.thy ===== *)
theory Sdl_Text
  imports Loops
begin

text \<open>
  The graphics demo \<^verbatim>\<open>examples/sdl_text.c\<close>.  What it calls (the screen of the console, the C library, SDL
  and SDL_ttf) is the parameter \<open>sdl_calls\<close> over the state \<open>'s\<close> of the machine; a pointer that a call returns
  is a number, \<open>None\<close> for NULL.  The start of the platform is an argument, \<open>None\<close> while it waits for ever.
\<close>

section \<open>The code\<close>

record 's sdl_calls =
  init_scr :: "'s \<Rightarrow> 's"
  scr_printf :: "string \<Rightarrow> 's \<Rightarrow> 's"
  sdl_sleep :: "nat \<Rightarrow> 's \<Rightarrow> 's"
  sdl_fopen :: "string \<Rightarrow> string \<Rightarrow> 's \<Rightarrow> nat option \<times> 's"
  sdl_fwrite :: "nat \<Rightarrow> byte list \<Rightarrow> 's \<Rightarrow> 's"
  sdl_fflush :: "nat \<Rightarrow> 's \<Rightarrow> 's"
  sdl_fclose :: "nat \<Rightarrow> 's \<Rightarrow> 's"
  SDL_Init :: "'s \<Rightarrow> int \<times> 's"
  SDL_GetError :: "'s \<Rightarrow> string"
  TTF_Init :: "'s \<Rightarrow> int \<times> 's"
  TTF_GetError :: "'s \<Rightarrow> string"
  SDL_CreateWindow :: "string \<Rightarrow> nat \<Rightarrow> nat \<Rightarrow> 's \<Rightarrow> nat option \<times> 's"
  SDL_CreateRenderer :: "nat \<Rightarrow> 's \<Rightarrow> nat option \<times> 's"
  SDL_RWFromConstMem :: "byte list \<Rightarrow> 's \<Rightarrow> nat option \<times> 's"
  TTF_OpenFontRW :: "nat \<Rightarrow> nat \<Rightarrow> 's \<Rightarrow> nat option \<times> 's"
  TTF_RenderText_Solid :: "nat \<Rightarrow> string \<Rightarrow> byte list \<Rightarrow> 's \<Rightarrow> nat option \<times> 's"
  SDL_CreateTextureFromSurface :: "nat \<Rightarrow> nat option \<Rightarrow> 's \<Rightarrow> nat option \<times> 's"
  SDL_QueryTexture :: "nat option \<Rightarrow> 's \<Rightarrow> (int \<times> int) option"
  SDL_SetRenderDrawColor :: "nat \<Rightarrow> byte list \<Rightarrow> 's \<Rightarrow> 's"
  SDL_RenderClear :: "nat \<Rightarrow> 's \<Rightarrow> 's"
  SDL_RenderCopy :: "nat \<Rightarrow> nat option \<Rightarrow> int \<times> int \<times> int \<times> int \<Rightarrow> 's \<Rightarrow> 's"
  SDL_RenderPresent :: "nat \<Rightarrow> 's \<Rightarrow> 's"
  SDL_DestroyRenderer :: "nat \<Rightarrow> 's \<Rightarrow> 's"
  SDL_DestroyWindow :: "nat \<Rightarrow> 's \<Rightarrow> 's"
  SDL_Quit :: "'s \<Rightarrow> 's"

definition SCREEN_WIDTH :: nat where "SCREEN_WIDTH = 640"
definition SCREEN_HEIGHT :: nat where "SCREEN_HEIGHT = 448"
definition SUCCESS :: int where "SUCCESS = 0"

text \<open>
  \<^verbatim>\<open>snprintf(buf, 512, ...)\<close> and \<^verbatim>\<open>fwrite(buf, ret, 1, file)\<close>: the text is cut to the buffer, and the count
  is the one of the whole text.  \<open>file\<close> is the pointer, whose value is indeterminate once it was closed.
\<close>

definition log_to :: "'s sdl_calls \<Rightarrow> nat result \<Rightarrow> string \<Rightarrow> 's \<Rightarrow> 's result" where
  "log_to c file text s =
     (let buf = take 511 text @ [NUL]
      in bindr file (\<lambda>f.
         bindr (mem_read 0 (length text) buf) (\<lambda>d.
         Inr (sdl_fflush c f (sdl_fwrite c f d s)))))"

text \<open>The labels \<^verbatim>\<open>close\<close> and \<^verbatim>\<open>quit\<close>.\<close>

definition sdl_close :: "'s sdl_calls \<Rightarrow> nat result \<Rightarrow> 's \<Rightarrow> (int \<times> 's) run" where
  "sdl_close c file s = lift (bindr file (\<lambda>f. Inr (0, sdl_fclose c f s)))"

definition sdl_quit :: "'s sdl_calls \<Rightarrow> nat \<Rightarrow> nat \<Rightarrow> nat result \<Rightarrow> 's \<Rightarrow> (int \<times> 's) run" where
  "sdl_quit c window renderer file s =
     (let s = scr_printf c (''exit'' @ [CHR 0x0A]) s;
          s = SDL_DestroyRenderer c renderer s;
          s = SDL_DestroyWindow c window s
      in sdl_close c file (SDL_Quit c s))"

text \<open>One pass of the drawing loop; nothing in it sets \<^verbatim>\<open>quit\<close>, the first of the pair.\<close>

definition draw_body ::
  "'s sdl_calls \<Rightarrow> nat \<Rightarrow> nat option \<Rightarrow> int \<times> int \<times> int \<times> int \<Rightarrow> bool \<times> 's \<Rightarrow> (flow \<times> bool \<times> 's) run" where
  "draw_body c renderer tex dstrect v =
     (let s = SDL_SetRenderDrawColor c renderer [NUL, NUL, NUL, CHR 0xFF] (snd v);
          s = SDL_RenderClear c renderer s;
          s = SDL_RenderCopy c renderer tex dstrect s
      in ret (Next, fst v, SDL_RenderPresent c renderer s))"

text \<open>From the font on; \<open>Vera\<close> is the array of the font.\<close>

definition show_text :: "'s sdl_calls \<Rightarrow> byte list \<Rightarrow> nat \<Rightarrow> nat \<Rightarrow> nat result \<Rightarrow> 's \<Rightarrow> (int \<times> 's) run" where
  "show_text c Vera window renderer file s =
     (case SDL_RWFromConstMem c Vera s of
        (None, s) \<Rightarrow> sdl_quit c window renderer file s
      | (Some mem, s) \<Rightarrow>
          (case TTF_OpenFontRW c mem 32 s of
             (None, s) \<Rightarrow> sdl_quit c window renderer file s
           | (Some font, s) \<Rightarrow>
               (let (surface, s) = TTF_RenderText_Solid c font ''Hello world'' [CHR 0xFF, CHR 0xFF, CHR 0xFF] s;
                    (tex, s) = SDL_CreateTextureFromSurface c renderer surface s;
                    (texW, texH) = (case SDL_QueryTexture c tex s of None \<Rightarrow> (0, 0) | Some wh \<Rightarrow> wh)
                in bindp (while_flow (\<lambda>v. \<not> fst v) (draw_body c renderer tex (0, 0, texW, texH)) (False, s))
                     (\<lambda>(_, _, s). sdl_quit c window renderer file s))))"

definition sdl_text ::
  "'s sdl_calls \<Rightarrow> byte list \<Rightarrow> ('s \<Rightarrow> (int \<times> 's) option) \<Rightarrow> 's \<Rightarrow> (int \<times> 's) run" where
  "sdl_text c Vera platform s =
     bindp (case platform (init_scr c s) of None \<Rightarrow> None | Some x \<Rightarrow> ret x) (\<lambda>(r, s).
     let s = sdl_sleep c 60 (if r = 0 then scr_printf c (''init success !'' @ [CHR 0x0A]) s else s)
     in case sdl_fopen c ''mass:/sdl.log'' ''a'' s of
          (None, s) \<Rightarrow> ret (- 1, scr_printf c (''fopen() !'' @ [CHR 0x0A]) s)
        | (Some f, s) \<Rightarrow>
            bindp (lift (log_to c (Inr f) (''tst test tests'' @ [CHR 0x0A]) s)) (\<lambda>s.
            let s = sdl_fclose c f s; file = Inl Uninitialised;
                (r, s) = SDL_Init c s
            in if r \<noteq> SUCCESS
               then bindp (lift (log_to c file (''Failed to initialize SDL: '' @ SDL_GetError c s @ [CHR 0x0A]) s))
                      (sdl_close c file)
               else let (r, s) = TTF_Init c s
                    in if r = - 1
                       then bindp (lift (log_to c file (''Failed to initialize TTF: '' @ TTF_GetError c s @ [CHR 0x0A]) s))
                              (sdl_close c file)
                       else (case SDL_CreateWindow c ''main'' SCREEN_WIDTH SCREEN_HEIGHT s of
                               (None, s) \<Rightarrow>
                                 ret (- 1, scr_printf c (''SDL_CreateWindow: '' @ SDL_GetError c s @ [CHR 0x0A]) s)
                             | (Some window, s) \<Rightarrow>
                                 (case SDL_CreateRenderer c window s of
                                    (None, s) \<Rightarrow>
                                      ret (- 1, scr_printf c (''SDL_CreateRenderer: '' @ SDL_GetError c s @ [CHR 0x0A]) s)
                                  | (Some renderer, s) \<Rightarrow> show_text c Vera window renderer file s))))"

section \<open>How it ends\<close>

text \<open>The picture is drawn for ever.\<close>

lemma draws_for_ever: "while_flow (\<lambda>v. \<not> fst v) (draw_body c renderer tex r) (False, s) = None"
proof (rule while_flow_diverges [where P = "\<lambda>v. \<not> fst v"])
  fix v :: "bool \<times> 'a" assume "\<not> fst v"
  then show "\<not> fst v \<and> (draw_body c renderer tex r v = None
      \<or> (\<exists>v'. draw_body c renderer tex r v = Some (Inr (Next, v')) \<and> \<not> fst v'))"
    by (simp add: draw_body_def ret_def Let_def)
qed simp

lemma show_text_ends: "show_text c Vera window renderer (Inl e) s \<in> {None, Some (Inl e)}"
  by (auto simp: show_text_def sdl_quit_def sdl_close_def draws_for_ever Let_def lift_def
      split: prod.splits option.splits)

text \<open>
  Whatever the calls answer, the program never ends as it means to: it returns only \<^verbatim>\<open>-1\<close>, it uses the log
  file after it closed it, or it does not end.
\<close>

lemma sdl_text_ends:
  assumes "sdl_text c Vera platform s = Some r"
  shows "r = Inl Uninitialised \<or> (\<exists>s'. r = Inr (- 1, s'))"
proof -
  have show': "show_text c Vera w rd (Inl Uninitialised) t = Some r \<Longrightarrow> r = Inl Uninitialised" for w rd t
    using show_text_ends [of c Vera w rd Uninitialised t] by auto
  have log: "bindp (lift (log_to c (Inl Uninitialised) x t)) k = Some (Inl Uninitialised)" for x t
    and k :: "'a \<Rightarrow> (int \<times> 'a) run"
    by (simp add: log_to_def)
  have fine: "log_to c (Inr f) (''tst test tests'' @ [CHR 0x0A]) t = Inr (sdl_fflush c f
      (sdl_fwrite c f (''tst test tests'' @ [CHR 0x0A]) t))" for f t
    by (simp add: log_to_def mem_read_def)
  show ?thesis
    using assms unfolding sdl_text_def fine
    by (auto simp: Let_def log ret_def dest: show' split: option.splits prod.splits if_splits)
qed

text \<open>With every call successful it is the picture that is shown, for ever.\<close>

definition all_well :: "'s sdl_calls \<Rightarrow> bool" where
  "all_well c \<longleftrightarrow> (\<forall>s. fst (sdl_fopen c ''mass:/sdl.log'' ''a'' s) \<noteq> None \<and> fst (SDL_Init c s) = SUCCESS
     \<and> fst (TTF_Init c s) \<noteq> - 1 \<and> fst (SDL_CreateWindow c ''main'' SCREEN_WIDTH SCREEN_HEIGHT s) \<noteq> None
     \<and> (\<forall>w. fst (SDL_CreateRenderer c w s) \<noteq> None) \<and> (\<forall>v. fst (SDL_RWFromConstMem c v s) \<noteq> None)
     \<and> (\<forall>m. fst (TTF_OpenFontRW c m 32 s) \<noteq> None))"

lemma answered_some: "fst p \<noteq> None \<Longrightarrow> \<exists>x t. p = (Some x, t)"
  by (cases p) auto

lemma show_text_shows:
  assumes "all_well c"
  shows "show_text c Vera window renderer log_file s = None"
proof -
  obtain mem s1 where mem: "SDL_RWFromConstMem c Vera s = (Some mem, s1)"
    using assms answered_some unfolding all_well_def by metis
  obtain font s2 where "TTF_OpenFontRW c mem 32 s1 = (Some font, s2)"
    using assms answered_some unfolding all_well_def by metis
  with mem show ?thesis by (simp add: show_text_def draws_for_ever Let_def split: prod.split)
qed

lemma sdl_text_shows:
  assumes well: "all_well c"
  shows "sdl_text c Vera platform s = None"
proof (cases "platform (init_scr c s)")
  case None
  then show ?thesis by (simp add: sdl_text_def)
next
  case (Some x)
  define s0 where "s0 = sdl_sleep c 60 (if fst x = 0 then scr_printf c (''init success !'' @ [CHR 0x0A]) (snd x) else snd x)"
  obtain f s1 where f: "sdl_fopen c ''mass:/sdl.log'' ''a'' s0 = (Some f, s1)"
    using well answered_some unfolding all_well_def by metis
  define s2 where "s2 = sdl_fclose c f (sdl_fflush c f (sdl_fwrite c f (''tst test tests'' @ [CHR 0x0A]) s1))"
  obtain s3 where s3: "SDL_Init c s2 = (SUCCESS, s3)" using well unfolding all_well_def by (metis prod.collapse)
  obtain r s4 where s4: "TTF_Init c s3 = (r, s4)" "r \<noteq> - 1" using well unfolding all_well_def by (metis prod.collapse)
  obtain w s5 where s5: "SDL_CreateWindow c ''main'' SCREEN_WIDTH SCREEN_HEIGHT s4 = (Some w, s5)"
    using well answered_some unfolding all_well_def by metis
  obtain rd s6 where s6: "SDL_CreateRenderer c w s5 = (Some rd, s6)"
    using well answered_some unfolding all_well_def by metis
  have "log_to c (Inr f) (''tst test tests'' @ [CHR 0x0A]) s1
      = Inr (sdl_fflush c f (sdl_fwrite c f (''tst test tests'' @ [CHR 0x0A]) s1))"
    by (simp add: log_to_def mem_read_def)
  then show ?thesis
    using Some f s3 s4 s5 s6 show_text_shows [OF well]
    by (simp add: sdl_text_def Let_def s0_def s2_def split_beta)
qed

end
