(* ===== verification/Memory_Export.thy ===== *)
theory Memory_Export
  imports Memory_Plugin Contexts_Uri
begin

text \<open>
  The memory plugin in the library: what the pool holds after a list of regions was given to
  \<^verbatim>\<open>lwnbd_plugin_new\<close>, and what a client finds behind the name of a region.
\<close>

section \<open>Regions as contexts\<close>

text \<open>The library with the memory plugin and one context for each of a list of regions.\<close>

definition memory_context :: "nat \<Rightarrow> memory_config \<Rightarrow> lwnbd_context" where
  "memory_context i h = \<lparr>ctx_handle = Some i, ctx_p = Some 0, ctx_name = mc_name h, ctx_description = mc_desc h,
     ctx_exportsize = 0\<rparr>"

definition memory_handles :: "memory_config list \<Rightarrow> ram \<Rightarrow> memory_state" where
  "memory_handles hs m =
     \<lparr>mm_handles = hs @ replicate (10 - length hs) \<lparr>mc_base = 0, mc_size = 0, mc_name = [], mc_desc = []\<rparr>,
      mm_in_use = replicate (length hs) HANDLE_CREATED @ replicate (10 - length hs) HANDLE_FREE, mm_ram = m\<rparr>"

definition exported :: "memory_config list \<Rightarrow> ram \<Rightarrow> (memory_config, memory_state) lwnbd" where
  "exported hs m =
     \<lparr>contexts = map (\<lambda>(i, h). memory_context i h) (enumerate 0 hs) @ replicate (50 - length hs) zero_context,
      contexts_status = replicate (length hs) CONTEXT_CREATED @ replicate (50 - length hs) CONTEXT_FREE,
      plugins = (replicate 10 None)[0 := Some memory_plugin],
      plugins_status = (replicate 10 PLUGIN_FREE)[0 := PLUGIN_CREATED], world = memory_handles hs m\<rparr>"

text \<open>A region whose texts fit their fields; the description is shown as it is unless it is empty.\<close>

definition region_fits :: "memory_config \<Rightarrow> bool" where
  "region_fits h \<longleftrightarrow> length (mc_name h) < 32 \<and> length (mc_desc h) < 64 \<and> mc_desc h \<noteq> []"

text \<open>One more region takes the next handle and the next context.\<close>

lemma export_region:
  assumes "length hs < 10" and "region_fits h"
  shows "lwnbd_plugin_new (exported hs m) 0 h = Inr (0, exported (hs @ [h]) m)"
proof -
  let ?n = "length hs"
  have k: "10 - ?n = Suc (9 - ?n)" "50 - ?n = Suc (49 - ?n)" using assms(1) by simp_all
  have r: "replicate (10 - ?n) x = x # replicate (9 - ?n) x" "replicate (50 - ?n) y = y # replicate (49 - ?n) y"
    for x :: 'a and y :: 'b
    unfolding k by simp_all
  have slot: "find_slot (\<lambda>x. x = HANDLE_FREE) (mm_in_use (memory_handles hs m)) = ?n"
    "find_slot (\<lambda>x. x = CONTEXT_FREE) (contexts_status (exported hs m)) = ?n"
    using assms(1) by (simp_all add: memory_handles_def exported_def find_slot_used)
  have ctx: "contexts (exported hs m) ! ?n = zero_context" "length (contexts (exported hs m)) = 50"
    using assms(1) by (simp_all add: exported_def nth_append)
  define st where "st = memory_handles hs m"
  have w: "world (exported hs m) = st" by (simp add: exported_def st_def)
  let ?st' = "memory_handles (hs @ [h]) m"
  have take: "take_handle (mm_in_use st) = (?n, mm_in_use ?st')"
    unfolding take_handle_def Let_def st_def slot(1)
    by (simp add: memory_handles_def r list_update_append replicate_app_Cons_same)
  have set: "set_handle ?n h (mm_handles st) = Inr (mm_handles ?st')"
    using assms(1) by (simp add: st_def memory_handles_def r list_update_append)
  have upd: "st\<lparr>mm_handles := mm_handles ?st', mm_in_use := mm_in_use ?st'\<rparr> = ?st'"
    by (simp add: st_def memory_handles_def)
  have ctor: "memory_ctor h (Some (zero_context\<lparr>ctx_description := []\<rparr>)) st
      = Inr (0, Some (zero_context\<lparr>ctx_handle := Some ?n, ctx_name := mc_name h, ctx_description := mc_desc h\<rparr>), ?st')"
    using assms(2) by (simp add: memory_ctor_def take set upd set_name_def region_fits_def strcpy_field_def
        zero_context_def)
  have new: "lwnbd_new_context (exported hs m) = (Some ?n, (exported hs m)
      \<lparr>contexts_status := contexts_status (exported (hs @ [h]) m)\<rparr>)"
    using assms(1) unfolding lwnbd_new_context_def Let_def slot(2)
    by (simp add: MAX_CONTEXTS_def exported_def r list_update_append replicate_app_Cons_same)
  have c: "(contexts (exported hs m))[?n := memory_context ?n h] = contexts (exported (hs @ [h]) m)"
    using assms(1) by (simp add: exported_def r list_update_append enumerate_append_eq)
  have p: "plugin_at (exported hs m) 0 = Inr memory_plugin"
    by (simp add: plugin_at_def exported_def MAX_NUM_PLUGINS_def)
  have pl: "pl_ctor memory_plugin = Some memory_ctor" "pl_export_without_handle memory_plugin = 0"
    by (simp_all add: memory_plugin_def null_plugin_def)
  have z: "zero_context\<lparr>ctx_handle := Some ?n, ctx_name := mc_name h, ctx_description := mc_desc h, ctx_p := Some 0\<rparr>
      = memory_context ?n h" by (simp add: zero_context_def memory_context_def)
  have fin: "(exported hs m)\<lparr>contexts_status := contexts_status (exported (hs @ [h]) m), world := ?st',
      contexts := contexts (exported (hs @ [h]) m)\<rparr> = exported (hs @ [h]) m"
    by (simp add: exported_def)
  show ?thesis
    using assms(2) unfolding lwnbd_plugin_new_def p new by (simp add: pl ctx w ctor z c fin region_fits_def)
qed

text \<open>The pool is well-formed, and a name leads to its region.\<close>

lemma exported_nth: "i < length hs \<Longrightarrow> contexts (exported hs m) ! i = memory_context i (hs ! i)"
  by (simp add: exported_def nth_append nth_enumerate_eq)

lemma exported_wf:
  assumes "length hs \<le> 10" and "\<forall>h \<in> set hs. region_fits h"
  shows "wf_lwnbd (exported hs m)"
proof -
  have st: "plugins_status (exported hs m) ! 0 = PLUGIN_CREATED" "0 < MAX_NUM_PLUGINS"
    by (simp_all add: exported_def MAX_NUM_PLUGINS_def)
  have "wf_context (exported hs m) c" if mem: "c \<in> set (contexts (exported hs m))" for c
  proof -
    consider (region) i h where "c = memory_context i h" "h \<in> set hs" | (free) "c = zero_context"
      using mem by (auto simp: exported_def in_set_enumerate_eq)
    then show ?thesis
      using assms(2) st by cases (auto simp: wf_context_def memory_context_def region_fits_def zero_context_def)
  qed
  moreover have "pl_pread memory_plugin = Some memory_pread" by (simp add: memory_plugin_def)
  ultimately show ?thesis
    using assms(1) unfolding wf_lwnbd_def
    by (auto simp: exported_def MAX_CONTEXTS_def MAX_NUM_PLUGINS_def nth_list_update)
qed

lemma exported_count: "length hs \<le> 10 \<Longrightarrow> lwnbd_contexts_count (exported hs m) = length hs"
  by (simp add: lwnbd_contexts_count_def exported_def find_slot_used)

lemma exported_lookup:
  assumes "length hs \<le> 10" and "\<forall>h \<in> set hs. region_fits h" and "distinct (map mc_name hs)" and "i < length hs"
  shows "lwnbd_get_context_string (exported hs m) (mc_name (hs ! i)) = Some i"
proof -
  have nm: "ctx_name (contexts (exported hs m) ! j) = mc_name (hs ! j)" if "j < length hs" for j
    using exported_nth [OF that] by (simp add: memory_context_def)
  note look = get_context_string_correct [OF exported_wf [OF assms(1,2)], of m "mc_name (hs ! i)"]
  show ?thesis
  proof (cases "lwnbd_get_context_string (exported hs m) (mc_name (hs ! i))")
    case None
    then show ?thesis using look nm [OF assms(4)] assms(4) exported_count [OF assms(1)] by auto
  next
    case (Some j)
    then have j: "j < length hs" "mc_name (hs ! j) = mc_name (hs ! i)"
      using look nm exported_count [OF assms(1), of m] by auto
    then have "j = i" using assms(3,4) nth_eq_iff_index_eq [of "map mc_name hs" j i] by simp
    then show ?thesis using Some by simp
  qed
qed

text \<open>A client that asks for a region by its name gets its context, with its size, and reads the region.\<close>

lemma exported_serves:
  assumes hs: "length hs \<le> 10" "\<forall>h \<in> set hs. region_fits h" "distinct (map mc_name hs)" and i: "i < length hs"
    and uri: "uri_path (cstr buf p) = mc_name (hs ! i)" "uri_query (cstr buf p) = None"
    and mp: "mapped (hs ! i) m" and le: "unat off + unat n \<le> unat (mc_size (hs ! i))"
  shows "\<exists>buf' s'. lwnbd_get_context (exported hs m) buf p = Inr (Some i, buf', s')
    \<and> ctx_exportsize (contexts s' ! i) = mc_size (hs ! i)
    \<and> lwnbd_pread s' (contexts s' ! i) n off fl
      = Inr (0, take (unat n) (drop (unat off) (region (hs ! i) m)), s')"
proof -
  let ?h = "hs ! i"
  define s' where "s' = (exported hs m)\<lparr>contexts := (contexts (exported hs m))
    [i := (memory_context i ?h)\<lparr>ctx_exportsize := mc_size ?h\<rparr>]\<rparr>"
  have pl: "plugins (exported hs m) ! 0 = Some memory_plugin" by (simp add: exported_def)
  have c: "contexts (exported hs m) ! i = memory_context i ?h" "length (contexts (exported hs m)) = 50"
    using exported_nth [OF i] hs(1) by (simp_all add: exported_def)
  have w: "world (exported hs m) = memory_handles hs m" by (simp add: exported_def)
  have h: "handle_at (mm_handles (memory_handles hs m)) (Some i) = Inr ?h" "mm_ram (memory_handles hs m) = m"
    using i by (simp_all add: memory_handles_def nth_append)
  have mem: "pl_query memory_plugin = Some memory_query" "pl_get_size memory_plugin = Some memory_get_size"
    "pl_pread memory_plugin = Some memory_pread"
    by (simp_all add: memory_plugin_def)
  have po: "plugin_of (exported hs m) (memory_context i ?h) = Inr memory_plugin"
    "plugin_of ((exported hs m)\<lparr>world := v\<rparr>) (memory_context i ?h) = Inr memory_plugin" for v
    using pl by (simp_all add: memory_context_def plugin_of_def)
  have ch: "ctx_handle (memory_context i ?h) = Some i" by (simp add: memory_context_def)
  have exw: "(exported hs m)\<lparr>contexts := cs, world := memory_handles hs m\<rparr> = (exported hs m)\<lparr>contexts := cs\<rparr>" for cs
    by (simp add: exported_def)
  have "uri_dispatch (exported hs m) (cstr buf p) = Inr (Some i, s')"
    using h(1) by (simp add: uri_dispatch_def uri exported_lookup [OF hs i] mem query_params_def memory_query_def
        lwnbd_update_size_def c po ch exw memory_get_size_def w s'_def)
  then have "bindr (lwnbd_get_context (exported hs m) buf p) (\<lambda>(r, _, s'). Inr (r, s')) = Inr (Some i, s')"
    by (simp add: dispatch_on_strings)
  then obtain buf' where "lwnbd_get_context (exported hs m) buf p = Inr (Some i, buf', s')"
    by (auto simp: bindr_Inr_iff)
  moreover have ci: "contexts s' ! i = (memory_context i ?h)\<lparr>ctx_exportsize := mc_size ?h\<rparr>"
    using i hs(1) c(2) by (simp add: s'_def)
  have s': "plugins s' ! 0 = Some memory_plugin" "world s' = memory_handles hs m" "s'\<lparr>world := memory_handles hs m\<rparr> = s'"
    using pl by (simp_all add: s'_def exported_def)
  have "memory_pread (Some i) n off fl (memory_handles hs m)
      = Inr (0, take (unat n) (drop (unat off) (region ?h m)), memory_handles hs m)"
    using load_region [OF mp le] h by (simp add: memory_pread_def)
  then have "lwnbd_pread s' (contexts s' ! i) n off fl
      = Inr (0, take (unat n) (drop (unat off) (region ?h m)), s')"
    using s' by (simp add: lwnbd_pread_def ci plugin_of_def mem memory_context_def)
  ultimately show ?thesis using ci by auto
qed

end
