(* ===== verification/Irx_Module.thy ===== *)
theory Irx_Module
  imports Nbd_Server Servers Services Memory_Export Device_Plugins
begin

text \<open>
  The module for the I/O processor of the PlayStation 2, \<^verbatim>\<open>ports/playstation2/iop/lwnbd_irx.c\<close>: its entry
  points, the commands it takes by remote procedure call, and the configuration it makes once.  The
  kernel is a parameter; which plugins there are is a setting of the build.
\<close>

section \<open>The code\<close>

text \<open>
  What the build and the kernel supply: a plugin is \<open>None\<close> where it is not compiled in, and
  otherwise what its registration function returns.  The fields that end in \<^verbatim>\<open>cfg\<close> are the
  configurations seen through a \<^verbatim>\<open>void *\<close>.
\<close>

record ('c, 'w, 'sc, 'd, 'sw) irx_build =
  ib_nbd_server :: "('sc, 'd, 'sw) lwnbd_server option"
  ib_nbd_cfg :: "nbdsettings \<Rightarrow> 'sc"
  ib_max_retries :: nat
  ib_atad :: "('c, 'w) lwnbd_plugin_t option option"
  ib_mcman :: "('c, 'w) lwnbd_plugin_t option option"
  ib_memory :: "('c, 'w) lwnbd_plugin_t option option"
  ib_bdm :: "('c, 'w) lwnbd_plugin_t option option"
  ib_pcmstream :: "('c, 'w) lwnbd_plugin_t option option"
  ib_device_cfg :: "int \<Rightarrow> 'c"
  ib_memory_cfg :: "memory_config \<Rightarrow> 'c"
  ib_null_cfg :: 'c
  ib_pcm_cfg :: "pcmstream_config \<Rightarrow> 'c"

record lwnbd_config =
  lc_defaultexport :: string
  lc_readonly :: u8

record ('c, 'w, 'sc, 'd, 'sw, 'n) irx =
  ix_httpsrv :: u32
  ix_sifrpcsrv :: u32
  ix_nbdThreadID :: int
  ix_configured :: int
  ix_lw :: "('c, 'w) lwnbd"
  ix_tab :: "('sc, 'd, 'sw) server_table"
  ix_net :: 'n

text \<open>One context for each configuration, whatever the constructor answers.\<close>

fun new_each :: "u32 \<Rightarrow> 'c list \<Rightarrow> ('c, 'w) lwnbd \<Rightarrow> ('c, 'w) lwnbd result" where
  "new_each h [] s = Inr s"
| "new_each h (c # cs) s = bindr (lwnbd_plugin_new s h c) (\<lambda>(_, s). new_each h cs s)"

definition load_plugin ::
  "('c, 'w) lwnbd_plugin_t option option \<Rightarrow> 'c list \<Rightarrow> ('c, 'w) lwnbd \<Rightarrow> ('c, 'w) lwnbd result" where
  "load_plugin plugin cfgs s =
     (case plugin of
        None \<Rightarrow> Inr s
      | Some init \<Rightarrow> bindr (lwnbd_plugin_init s init) (\<lambda>(h, s). new_each h cfgs s))"

definition irx_bios :: memory_config where
  "irx_bios = \<lparr>mc_base = 0x1FC00000, mc_size = 0x400000, mc_name = ''bios'', mc_desc = ''BIOS (rom0)''\<rparr>"

definition irx_iopram :: "u64 \<Rightarrow> memory_config" where
  "irx_iopram mem_size = \<lparr>mc_base = 0, mc_size = mem_size, mc_name = ''ram'', mc_desc = ''IOP main RAM''\<rparr>"

definition irx_pcm :: pcmstream_config where
  "irx_pcm = \<lparr>pc_name = ''speakers'', pc_desc = ''stereo speaker'', pc_rate = 44100, pc_bits = 16,
     pc_channels = 2, pc_volume = 70\<rparr>"

definition irx_plugins ::
  "('c, 'w, 'sc, 'd, 'sw) irx_build \<Rightarrow> u64 \<Rightarrow> ('c, 'w) lwnbd \<Rightarrow> ('c, 'w) lwnbd result" where
  "irx_plugins ib mem_size s =
     bindr (load_plugin (ib_atad ib) (map (ib_device_cfg ib) [0, 1]) s) (\<lambda>s.
     bindr (load_plugin (ib_mcman ib) (map (ib_device_cfg ib) [0, 1]) s) (\<lambda>s.
     bindr (load_plugin (ib_memory ib) (map (ib_memory_cfg ib) [irx_iopram mem_size, irx_bios]) s) (\<lambda>s.
     bindr (load_plugin (ib_bdm ib) [ib_null_cfg ib] s) (\<lambda>s.
     load_plugin (ib_pcmstream ib) [ib_pcm_cfg ib irx_pcm] s))))"

text \<open>
  \<^verbatim>\<open>config\<close>.  The results of the calls are not looked at.  The value of \<^verbatim>\<open>readonly\<close> is NULL, which the
  server does not read; it is written as the empty string.
\<close>

definition irx_config ::
  "('c, 'w, 'sc, 'd, 'sw) irx_build \<Rightarrow> 'n listen_sys \<Rightarrow> u64 \<Rightarrow> lwnbd_config
    \<Rightarrow> ('c, 'w, 'sc, 'd, 'sw, 'n) irx \<Rightarrow> ('c, 'w, 'sc, 'd, 'sw, 'n) irx result" where
  "irx_config ib os mem_size conf st =
     bindr (lwnbd_server_init (ib_nbd_server ib) (ix_tab st)) (\<lambda>(httpsrv, tab).
     let mynbd = \<lparr>ns_port = 0, ns_max_retry = of_nat (ib_max_retries ib),
                  ns_gflags = NBD_FLAG_FIXED_NEWSTYLE OR NBD_FLAG_NO_ZEROES, ns_readonly = 0, ns_preinit = 0\<rparr>;
         (_, net) = nbd_server_create os (ix_net st)
     in bindr (lwnbd_server_new httpsrv (ib_nbd_cfg ib mynbd) tab) (\<lambda>(_, tab).
        bindr (lwnbd_server_config httpsrv ''default-export'' (lc_defaultexport conf) tab) (\<lambda>(_, tab).
        bindr (if lc_readonly conf \<noteq> 0 then lwnbd_server_config httpsrv ''readonly'' [] tab
               else Inr (0, tab)) (\<lambda>(_, tab).
        bindr (irx_plugins ib mem_size (ix_lw st)) (\<lambda>lw.
        Inr (st\<lparr>ix_httpsrv := httpsrv, ix_tab := tab, ix_lw := lw, ix_net := net\<rparr>))))))"

text \<open>\<open>new\<close> is the answer of \<^verbatim>\<open>CreateThread\<close>, \<open>start_thread\<close> that of \<^verbatim>\<open>StartThread\<close> on it.\<close>

definition lwnbd_server_cmd_start ::
  "('c, 'w, 'sc, 'd, 'sw) irx_build \<Rightarrow> 'n listen_sys \<Rightarrow> u64 \<Rightarrow> int \<Rightarrow> (int \<Rightarrow> u32 \<Rightarrow> int) \<Rightarrow> lwnbd_config
    \<Rightarrow> ('c, 'w, 'sc, 'd, 'sw, 'n) irx \<Rightarrow> (int \<times> ('c, 'w, 'sc, 'd, 'sw, 'n) irx) result" where
  "lwnbd_server_cmd_start ib os mem_size new start_thread conf st =
     bindr (if ix_configured st = 0
            then bindr (irx_config ib os mem_size conf st) (\<lambda>st. Inr (st\<lparr>ix_configured := 1\<rparr>))
            else Inr st) (\<lambda>st.
     let st = st\<lparr>ix_nbdThreadID := new\<rparr>
     in Inr (if 0 < new then start_thread new (ix_httpsrv st) else new, st))"

definition LWNBD_SERVER_CMD_START :: int where "LWNBD_SERVER_CMD_START = 0"
definition LWNBD_SERVER_CMD_STOP :: int where "LWNBD_SERVER_CMD_STOP = 1"
definition ENXIO :: int where "ENXIO = 6"

text \<open>
  The handler returns the address of its local \<^verbatim>\<open>ret\<close>, which the caller reads when the function has
  returned; the model keeps what was stored there last, \<open>None\<close> for nothing.
\<close>

definition lwnbd_rpc_handler ::
  "('c, 'w, 'sc, 'd, 'sw) irx_build \<Rightarrow> 'n listen_sys \<Rightarrow> u64 \<Rightarrow> int \<Rightarrow> (int \<Rightarrow> u32 \<Rightarrow> int)
    \<Rightarrow> (int \<Rightarrow> 'n \<Rightarrow> 'n) \<Rightarrow> (int \<Rightarrow> 'n \<Rightarrow> 'n) \<Rightarrow> int \<Rightarrow> lwnbd_config
    \<Rightarrow> ('c, 'w, 'sc, 'd, 'sw, 'n) irx \<Rightarrow> (int option \<times> ('c, 'w, 'sc, 'd, 'sw, 'n) irx) result" where
  "lwnbd_rpc_handler ib os mem_size new start_thread terminate delete fno conf st =
     (if fno = LWNBD_SERVER_CMD_START then
        bindr (lwnbd_server_cmd_start ib os mem_size new start_thread conf st) (\<lambda>(r, st). Inr (Some r, st))
      else if fno = LWNBD_SERVER_CMD_STOP then
        Inr (None, st\<lparr>ix_net := delete (ix_nbdThreadID st) (terminate (ix_nbdThreadID st) (ix_net st))\<rparr>)
      else Inr (Some (- ENXIO), st))"

definition MODULE_RESIDENT_END :: int where "MODULE_RESIDENT_END = 0"
definition MODULE_NO_RESIDENT_END :: int where "MODULE_NO_RESIDENT_END = 1"

text \<open>
  \<^verbatim>\<open>_start\<close>.  The number of the server is unsigned, so \<^verbatim>\<open>sifrpcsrv < 0\<close> never holds.  \<open>reg\<close> is the
  answer of \<^verbatim>\<open>RegisterLibraryEntries\<close>.
\<close>

definition irx_start ::
  "('sc, 'd, 'sw) lwnbd_server option \<Rightarrow> 'sc \<Rightarrow> int \<Rightarrow> ('c, 'w, 'sc, 'd, 'sw, 'n) irx
    \<Rightarrow> (int \<times> ('c, 'w, 'sc, 'd, 'sw, 'n) irx) result" where
  "irx_start sifrpc conf reg st =
     bindr (lwnbd_server_init sifrpc (ix_tab st)) (\<lambda>(h, tab).
     let st = st\<lparr>ix_sifrpcsrv := h, ix_tab := tab\<rparr>
     in if uint h < 0 then Inr (MODULE_NO_RESIDENT_END, st)
        else bindr (lwnbd_server_new h conf (ix_tab st)) (\<lambda>(_, tab).
             let st = st\<lparr>ix_tab := tab\<rparr>
             in Inr (if reg = 0 then MODULE_NO_RESIDENT_END else MODULE_RESIDENT_END, st)))"

definition irx_shutdown ::
  "('c, 'w, 'sc, 'd, 'sw, 'n) irx \<Rightarrow> (int \<times> ('c, 'w, 'sc, 'd, 'sw, 'n) irx) result" where
  "irx_shutdown st =
     bindr (lwnbd_server_stop (ix_sifrpcsrv st) (ix_tab st)) (\<lambda>(_, tab).
     Inr (MODULE_NO_RESIDENT_END, st\<lparr>ix_tab := tab\<rparr>))"

section \<open>Lemmas\<close>

text \<open>
  The configuration of the first \<^verbatim>\<open>START\<close> is kept: a later one, whatever it asks for, only makes a
  thread.  In particular write access cannot be given back, as a comment in the file says.
\<close>

lemma cmd_start_again:
  assumes "ix_configured st = 1"
  shows "lwnbd_server_cmd_start ib os mem_size new start_thread conf st =
    Inr (if 0 < new then start_thread new (ix_httpsrv st) else new, st\<lparr>ix_nbdThreadID := new\<rparr>)"
  using assms by (simp add: lwnbd_server_cmd_start_def Let_def)

lemma rpc_stop_no_result:
  "lwnbd_rpc_handler ib os mem_size new start_thread terminate delete 1 conf st =
    Inr (None, st\<lparr>ix_net := delete (ix_nbdThreadID st) (terminate (ix_nbdThreadID st) (ix_net st))\<rparr>)"
  by (simp add: lwnbd_rpc_handler_def LWNBD_SERVER_CMD_START_def LWNBD_SERVER_CMD_STOP_def)

text \<open>A module whose server table is full is not unloaded: it runs over the table instead.\<close>

lemma irx_start_full:
  assumes "wf_servers (ix_tab st)" and "\<forall>x \<in> set (servers_status (ix_tab st)). x \<noteq> SRV_FREE"
  shows "irx_start sifrpc conf reg st = Inl Out_Of_Bounds"
proof -
  have "find_slot (\<lambda>x. x = SRV_FREE) (servers_status (ix_tab st)) = MAX_NUM_SERVERS"
    using assms find_slot_full [of "\<lambda>x. x = SRV_FREE" "servers_status (ix_tab st)"] by (auto simp: wf_servers_def)
  then have "lwnbd_server_init sifrpc (ix_tab st) = Inr (server_err, ix_tab st)"
    by (simp add: lwnbd_server_init_def)
  moreover have "lwnbd_server_new server_err conf (ix_tab st) = Inl Out_Of_Bounds"
    by (simp add: lwnbd_server_new_def instance_at_def server_err_def MAX_NUM_SERVERS_def)
  ultimately show ?thesis by (simp add: irx_start_def Let_def not_less)
qed

section \<open>What the module exports\<close>

lemma new_each_regions:
  "length gs + length hs \<le> 10 \<Longrightarrow> \<forall>h \<in> set hs. region_fits h \<Longrightarrow>
   new_each 0 hs (exported gs m) = Inr (exported (gs @ hs) m)"
proof (induction hs arbitrary: gs)
  case (Cons h hs)
  then show ?case using export_region [of gs h m] Cons.IH [of "gs @ [h]"] by simp
qed simp

lemma load_memory:
  "lwnbd_plugin_init (lwnbd_init (memory_init m)) (Some memory_plugin) = Inr (0, exported [] m)"
proof -
  have "find_slot (\<lambda>st. st = PLUGIN_FREE) (replicate 10 PLUGIN_FREE) = 0"
    by (simp add: find_slot_replicate)
  moreover have "pl_pread memory_plugin = Some memory_pread" "pl_load memory_plugin = None"
    "pl_export_without_handle memory_plugin = 0"
    by (simp_all add: memory_plugin_def null_plugin_def)
  moreover have "memory_handles [] m = memory_init m"
    by (simp add: memory_handles_def memory_init_def MEM_DRIVER_MAX_DEVICES_def)
  ultimately show ?thesis
    by (simp add: lwnbd_plugin_init_def lwnbd_init_def exported_def MAX_NUM_PLUGINS_def MAX_CONTEXTS_def Let_def)
qed

text \<open>
  C23.  A module built with the memory plugin only makes two exports, \<^verbatim>\<open>ram\<close> and \<^verbatim>\<open>bios\<close>: a client that
  asks the dispatcher for either name gets its context, with the size of the memory or 4 MB, and a
  read inside the size returns the bytes at that place of the address space, from address 0 or from
  \<^verbatim>\<open>0x1FC00000\<close>.
\<close>

theorem irx_exports:
  fixes ib :: "(memory_config, memory_state, 'sc, 'd, 'sw) irx_build"
  assumes "ib_memory ib = Some (Some memory_plugin)" and "ib_memory_cfg ib = (\<lambda>h. h)"
    and "ib_atad ib = None" and "ib_mcman ib = None" and "ib_bdm ib = None" and "ib_pcmstream ib = None"
    and "(i, h) \<in> {(0, irx_iopram mem_size), (1, irx_bios)}"
    and "uri_path (cstr buf p) = mc_name h" and "uri_query (cstr buf p) = None"
    and "mapped h m" and "unat off + unat n \<le> unat (mc_size h)"
  shows "\<exists>s buf' s'. irx_plugins ib mem_size (lwnbd_init (memory_init m)) = Inr s
    \<and> lwnbd_contexts_count s = 2 \<and> lwnbd_get_context s buf p = Inr (Some i, buf', s')
    \<and> ctx_exportsize (contexts s' ! i) = mc_size h
    \<and> lwnbd_pread s' (contexts s' ! i) n off fl = Inr (0, take (unat n) (drop (unat off) (region h m)), s')"
proof -
  let ?hs = "[irx_iopram mem_size, irx_bios]"
  have fits: "\<forall>h \<in> set ?hs. region_fits h" by (simp add: region_fits_def irx_iopram_def irx_bios_def)
  have d: "distinct (map mc_name ?hs)" by (simp add: irx_iopram_def irx_bios_def)
  have ten: "length ?hs \<le> 10" and i: "i < length ?hs" "?hs ! i = h" using assms(7) by auto
  have "new_each 0 ?hs (exported [] m) = Inr (exported ?hs m)" using new_each_regions [of "[]" ?hs m] fits by simp
  then have run: "irx_plugins ib mem_size (lwnbd_init (memory_init m)) = Inr (exported ?hs m)"
    using assms(1-6) by (simp add: irx_plugins_def load_plugin_def load_memory del: new_each.simps)
  have "lwnbd_contexts_count (exported ?hs m) = 2" using exported_count [OF ten] by simp
  then show ?thesis
    using run exported_serves [OF ten fits d i(1), of buf p m off n fl] assms(8-11) unfolding i(2) by blast
qed

definition demo_irx :: "(memory_config, memory_state, unit, unit, unit) irx_build" where
  "demo_irx = \<lparr>ib_nbd_server = None, ib_nbd_cfg = (\<lambda>_. ()), ib_max_retries = 0, ib_atad = None, ib_mcman = None,
     ib_memory = Some (Some memory_plugin), ib_bdm = None, ib_pcmstream = None, ib_device_cfg = (\<lambda>_. irx_bios),
     ib_memory_cfg = (\<lambda>h. h), ib_null_cfg = irx_bios, ib_pcm_cfg = (\<lambda>_. irx_bios)\<rparr>"

theorem irx_exports_witness:
  "\<exists>s buf' s'. irx_plugins demo_irx 0x200000 (lwnbd_init (memory_init (\<lambda>_. Some CHR ''z''))) = Inr s
    \<and> lwnbd_get_context s (''bios'' @ [NUL]) 0 = Inr (Some 1, buf', s')
    \<and> lwnbd_pread s' (contexts s' ! 1) 2 5 0 = Inr (0, ''zz'', s')"
proof -
  let ?m = "\<lambda>_ :: u64. Some CHR ''z''"
  have "uri_path (cstr (''bios'' @ [NUL]) 0) = ''bios''" "uri_query (cstr (''bios'' @ [NUL]) 0) = None"
    by (simp_all add: uri_path_def uri_query_def cut_def cstr_def NUL_def)
  then have uri: "uri_path (cstr (''bios'' @ [NUL]) 0) = mc_name irx_bios" "uri_query (cstr (''bios'' @ [NUL]) 0) = None"
    by (simp_all add: irx_bios_def)
  have mp: "mapped irx_bios ?m" by (simp add: mapped_def)
  have le: "unat (5 :: u64) + unat (2 :: u32) \<le> unat (mc_size irx_bios)" by (simp add: irx_bios_def)
  have "region irx_bios ?m = replicate (unat (mc_size irx_bios)) CHR ''z''"
    by (rule nth_equalityI) (simp_all add: region_def addrs_def)
  moreover have two: "replicate 2 CHR ''z'' = ''zz''" by (simp add: numeral_2_eq_2)
  ultimately have z: "take (unat (2 :: u32)) (drop (unat (5 :: u64)) (region irx_bios ?m)) = ''zz''"
    by (simp add: irx_bios_def two)
  show ?thesis
    using irx_exports [OF _ _ _ _ _ _ _ uri mp le, where ib = demo_irx and i = 1 and mem_size = "0x200000" and fl = 0]
    unfolding z
    by (auto simp: demo_irx_def)
qed

end
