(* ===== verification/Ps2_Platform.thy ===== *)
theory Ps2_Platform
  imports Nbd_Protocol Memory_Plugin
begin

unbundle bit_operations_syntax

text \<open>
  The rest of the PlayStation 2 port: the byte order functions of
  \<^verbatim>\<open>ports/playstation2/common/include/endian.h\<close>, the memory map of \<^verbatim>\<open>iop/ioplib.c\<close>, the start of the
  platform in \<^verbatim>\<open>ee/ee-helper.c\<close> and \<^verbatim>\<open>ee/connman.c\<close>, and the ELF loader \<^verbatim>\<open>ee/loader.c\<close>.
\<close>

section \<open>Byte order\<close>

definition bswap64 :: "u64 \<Rightarrow> u64" where
  "bswap64 x =
     (drop_bit 56 (x AND 0xff00000000000000) OR drop_bit 40 (x AND 0x00ff000000000000)
      OR drop_bit 24 (x AND 0x0000ff0000000000) OR drop_bit 8 (x AND 0x000000ff00000000)
      OR push_bit 8 (x AND 0x00000000ff000000) OR push_bit 24 (x AND 0x0000000000ff0000)
      OR push_bit 40 (x AND 0x000000000000ff00) OR push_bit 56 (x AND 0x00000000000000ff))"

text \<open>The macros, on a machine of either byte order.\<close>

definition htonll :: "bool \<Rightarrow> u64 \<Rightarrow> u64" where "htonll big_endian x = (if big_endian then x else bswap64 x)"
definition ntohll :: "bool \<Rightarrow> u64 \<Rightarrow> u64" where "ntohll big_endian x = (if big_endian then x else bswap64 x)"

text \<open>The bytes in which a machine stores a number.\<close>

definition store64 :: "bool \<Rightarrow> u64 \<Rightarrow> byte list" where
  "store64 big_endian x = (if big_endian then be64 x else rev (be64 x))"

text \<open>Byte \<open>k\<close> of a number, from the low end.\<close>

definition octet :: "nat \<Rightarrow> u64 \<Rightarrow> u64" where
  "octet k x = take_bit 8 (drop_bit (8 * k) x)"

lemma bit_numeral_mask:
  "(0xff00000000000000 :: u64) = push_bit 56 (mask 8)" "(0x00ff000000000000 :: u64) = push_bit 48 (mask 8)"
  "(0x0000ff0000000000 :: u64) = push_bit 40 (mask 8)" "(0x000000ff00000000 :: u64) = push_bit 32 (mask 8)"
  "(0x00000000ff000000 :: u64) = push_bit 24 (mask 8)" "(0x0000000000ff0000 :: u64) = push_bit 16 (mask 8)"
  "(0x000000000000ff00 :: u64) = push_bit 8 (mask 8)" "(0x00000000000000ff :: u64) = mask 8"
  by (simp_all add: push_bit_eq_mult mask_eq_exp_minus_1)

lemma bit_bswap64_at:
  assumes "k < 8" and "j < 8"
  shows "bit (bswap64 x) (8 * k + j) \<longleftrightarrow> bit x (8 * (7 - k) + j)"
proof -
  have "k = 0 \<or> k = 1 \<or> k = 2 \<or> k = 3 \<or> k = 4 \<or> k = 5 \<or> k = 6 \<or> k = 7" using assms(1) by linarith
  then show ?thesis
    unfolding bswap64_def bit_numeral_mask using assms(2)
    by (elim disjE) (simp_all add: bit_simps add.commute)
qed

lemma bswap64_involution: "bswap64 (bswap64 x) = x"
proof (rule bit_word_eqI)
  fix n assume "n < LENGTH(64)"
  then have k: "n div 8 < 8" "n mod 8 < 8" "7 - n div 8 < 8" by auto
  have n: "n = 8 * (n div 8) + n mod 8" by simp
  have "bit (bswap64 (bswap64 x)) (8 * (n div 8) + n mod 8) = bit x (8 * (7 - (7 - n div 8)) + n mod 8)"
    using bit_bswap64_at [OF k(1,2)] bit_bswap64_at [OF k(3,2)] by simp
  then show "bit (bswap64 (bswap64 x)) n = bit x n" using k(1) n by simp
qed

lemma octet_bswap64: "k < 8 \<Longrightarrow> octet k (bswap64 x) = octet (7 - k) x"
proof (rule bit_word_eqI)
  fix n assume k: "k < 8" and "n < LENGTH(64)"
  then show "bit (octet k (bswap64 x)) n = bit (octet (7 - k) x) n"
    using bit_bswap64_at [OF k, of n x] by (auto simp: octet_def bit_simps)
qed

lemma enc_be_octets: "k \<le> 8 \<Longrightarrow> enc_be k (unat x) = rev (map (\<lambda>i. char_of (unat (octet i x))) [0..<k])" for x :: u64
proof -
  have "enc_be k v = rev (map (\<lambda>i. char_of (v div 256 ^ i)) [0..<k])" for k v
  proof (induction k arbitrary: v)
    case (Suc k)
    have "[0..<Suc k] = 0 # map Suc [0..<k]" by (simp add: map_Suc_upt upt_conv_Cons del: upt_Suc)
    then show ?case using Suc by (simp add: o_def div_mult2_eq mult.commute del: upt_Suc)
  qed simp
  moreover have "char_of (unat (octet i x)) = (char_of (unat x div 256 ^ i) :: char)" for i
  proof -
    have "unat x < 2 ^ 64" using unsigned_less [of x, where ?'a = nat] by simp
    then have "unat (octet i x) = unat x div 256 ^ i mod 256"
      unfolding octet_def unsigned_take_bit_eq unsigned_drop_bit_eq
      by (simp add: take_bit_eq_mod drop_bit_eq_div power_mult)
    then show ?thesis by (simp add: char_of_mod_256)
  qed
  ultimately show ?thesis by simp
qed

lemma be64_bswap64: "be64 (bswap64 x) = rev (be64 x)"
proof -
  have l: "[0..<8] = [0, 1, 2, 3, 4, 5, 6, 7 :: nat]" by (simp add: upt_rec)
  have "map (\<lambda>i. char_of (unat (octet i (bswap64 x)))) [0..<8]
      = rev (map (\<lambda>i. char_of (unat (octet i x))) [0..<8])"
    unfolding l by (simp add: octet_bswap64)
  then show ?thesis by (simp add: be64_def enc_be_octets)
qed

text \<open>
  The byte order functions of the port, which the PlayStation toolchain lacks: on a machine of
  either byte order, storing \<^verbatim>\<open>htonll(x)\<close> puts the bytes of \<open>x\<close> into memory with the highest one first, as
  the protocol asks for, and \<^verbatim>\<open>ntohll\<close> undoes it.
\<close>

theorem htonll_network_order:
  "store64 big_endian (htonll big_endian x) = be64 x \<and> ntohll big_endian (htonll big_endian x) = x"
  by (simp add: store64_def htonll_def ntohll_def be64_bswap64 bswap64_involution)

section \<open>The memory map\<close>

definition SSBUSC_NAMES :: "string list" where
  "SSBUSC_NAMES = [''SSBUSC_DEV0'', ''SSBUSC_DEV_DVDROM'', ''SSBUSC_DEV_BOOTROM'', ''SSBUSC_DEV3'',
     ''SSBUSC_DEV_SPU'', ''SSBUSC_DEV_CDVD'', ''SSBUSC_DEV6'', ''SSBUSC_DEV7'', ''SSBUSC_DEV8'',
     ''SSBUSC_DEV_SPU2'', ''SSBUSC_DEV_DEV9I'', ''SSBUSC_DEV_DEV9M'', ''SSBUSC_DEV_DEV9C'']"

text \<open>The registers of the bus are a parameter.  A size of \<open>2 ^ 31\<close> is a negative \<^verbatim>\<open>int\<close>.\<close>

definition GetSizeFromDelay :: "(int \<Rightarrow> u32) \<Rightarrow> int \<Rightarrow> int" where
  "GetSizeFromDelay get_delay device =
     (let size = drop_bit 16 (get_delay device) AND 0x1F in sint (push_bit (unat size) (1 :: u32)))"

text \<open>The lines printed: the number, name, base address and, as the size, the delay register.\<close>

definition print_memorymap :: "(int \<Rightarrow> u32) \<Rightarrow> (int \<Rightarrow> u32) \<Rightarrow> (nat \<times> string \<times> u32 \<times> u32) list result" where
  "print_memorymap get_base get_delay =
     (if \<forall>nm \<in> set SSBUSC_NAMES. length nm < 32
      then Inr (map (\<lambda>i. (i, SSBUSC_NAMES ! i, get_base (int i), get_delay (int i))) [0..<13])
      else Inl Out_Of_Bounds)"

section \<open>Starting the platform\<close>

text \<open>\<^verbatim>\<open>while (!ready()) { }\<close>: \<open>ready n\<close> is the answer to the question number \<open>n\<close>.\<close>

partial_function (option) poll :: "(nat \<Rightarrow> bool) \<Rightarrow> nat \<Rightarrow> nat option" where
  [code]: "poll ready n = (if ready n then Some n else poll ready (Suc n))"

text \<open>\<^verbatim>\<open>set_ipconfig\<close>: \<^verbatim>\<open>ps2ip_getconfig\<close> gives a result and the settings, of which only one is changed.\<close>

record ip_info =
  ip_dhcp_enabled :: int

record ip_sys =
  ps2ip_getconfig :: "string \<Rightarrow> int \<times> ip_info"
  ps2ip_setconfig :: "ip_info \<Rightarrow> int"

definition set_ipconfig :: "ip_sys \<Rightarrow> int" where
  "set_ipconfig net =
     (let (result, info) = ps2ip_getconfig net ''sm0''
      in if 0 \<le> result then ps2ip_setconfig net (info\<lparr>ip_dhcp_enabled := 1\<rparr>) else - 1)"

text \<open>The modules in the order in which they are loaded, and their names in the messages.\<close>

definition platform_modules :: "(string \<times> string) list" where
  "platform_modules =
     [(''sio2man_irx'', ''sio2man''), (''libsd_irx'', ''libsd''), (''audsrv_irx'', ''audsrv''),
      (''ps2ip_irx'', ''ps2ip_irx''), (''udptty_irx'', ''UDPTTY''), (''poweroff_irx'', ''poweroff''),
      (''mcman_irx'', ''mcman''), (''ps2dev9_irx'', ''ps2dev9''), (''ps2atad_irx'', ''ps2atad''),
      (''usbd_irx'', ''usbd''), (''netman_irx'', ''netman''), (''smap_irx'', ''smap''),
      (''ps2ip_nm_irx'', ''ps2ip_nm'')]"

text \<open>Loading stops at the first module that fails, with a message; \<open>exec\<close> is \<^verbatim>\<open>SifExecModuleBuffer\<close>.\<close>

fun load_modules :: "(string \<Rightarrow> int) \<Rightarrow> (string \<times> string) list \<Rightarrow> string list \<times> string option" where
  "load_modules exec [] = ([], None)"
| "load_modules exec ((irx, nm) # ms) =
     (if exec irx < 0 then ([irx], Some (''Failed to load module: '' @ nm @ [CHR 0x0A]))
      else let (tried, msg) = load_modules exec ms in (irx # tried, msg))"

text \<open>
  \<^verbatim>\<open>init_platform\<close>: its result, the modules it tried and its message; \<open>None\<close> while it waits for ever.
  \<open>reset_iop\<close> says whether the build resets the processor.
\<close>

definition init_platform ::
  "bool \<Rightarrow> (nat \<Rightarrow> bool) \<Rightarrow> (nat \<Rightarrow> bool) \<Rightarrow> (string \<Rightarrow> int) \<Rightarrow> ip_sys \<Rightarrow> (int \<times> string list \<times> string option) option" where
  "init_platform reset_iop reset_done sync_done exec net =
     (case (if reset_iop then poll reset_done 0 else Some 0) of
        None \<Rightarrow> None
      | Some _ \<Rightarrow>
          (case poll sync_done 0 of
             None \<Rightarrow> None
           | Some _ \<Rightarrow>
               (case load_modules exec platform_modules of
                  (tried, Some msg) \<Rightarrow> Some (- 1, tried, Some msg)
                | (tried, None) \<Rightarrow>
                    if set_ipconfig net < 0
                    then Some (- 1, tried, Some (''Failed to set network configuration.'' @ [CHR 0x0A]))
                    else Some (0, tried, None))))"

lemma poll_reaches: "ready (n + k) \<Longrightarrow> \<exists>m. poll ready n = Some m"
proof (induction k arbitrary: n)
  case 0
  then show ?case by (subst poll.simps) simp
next
  case (Suc k)
  then show ?case using Suc.IH [of "Suc n"] by (subst poll.simps) simp
qed

lemma load_modules_all:
  "\<forall>m \<in> set ms. 0 \<le> exec (fst m) \<Longrightarrow> load_modules exec ms = (map fst ms, None)"
  by (induction ms) auto

lemma load_modules_fails:
  "\<forall>m \<in> set pre. 0 \<le> exec (fst m) \<Longrightarrow> exec irx < 0 \<Longrightarrow>
   load_modules exec (pre @ (irx, nm) # post) =
     (map fst pre @ [irx], Some (''Failed to load module: '' @ nm @ [CHR 0x0A]))"
  by (induction pre) auto

text \<open>
  Once the processor answers, the platform starts exactly when every module loads and the network can
  be configured, and the module that fails is the last one tried.
\<close>

lemma init_platform_ok:
  assumes "reset_done r" and "sync_done k"
    and "\<forall>m \<in> set platform_modules. 0 \<le> exec (fst m)" and "0 \<le> set_ipconfig net"
  shows "init_platform rst reset_done sync_done exec net = Some (0, map fst platform_modules, None)"
  using poll_reaches [of reset_done 0 r] poll_reaches [of sync_done 0 k] load_modules_all [OF assms(3)] assms
  by (auto simp: init_platform_def)

lemma init_platform_stops:
  assumes "reset_done r" and "sync_done k" and "platform_modules = pre @ (irx, nm) # post"
    and "\<forall>m \<in> set pre. 0 \<le> exec (fst m)" and "exec irx < 0"
  shows "init_platform rst reset_done sync_done exec net =
    Some (- 1, map fst pre @ [irx], Some (''Failed to load module: '' @ nm @ [CHR 0x0A]))"
  using poll_reaches [of reset_done 0 r] poll_reaches [of sync_done 0 k]
    load_modules_fails [OF assms(4,5), of nm post] assms(1-3)
  by (auto simp: init_platform_def)

section \<open>The ELF loader\<close>

definition ELF_MAGIC :: u32 where "ELF_MAGIC = 0x464c457f"
definition ELF_PT_LOAD :: u32 where "ELF_PT_LOAD = 1"

text \<open>
  The fields that the loader reads of the headers, whose layout is that of a file not in the
  repository: the headers are arguments, \<open>eph i\<close> the program header number \<open>i\<close>.
\<close>

record elf_header =
  eh_ident :: u32
  eh_entry :: u32
  eh_phnum :: nat

record elf_pheader =
  ep_type :: u32
  ep_offset :: u32
  ep_vaddr :: u32
  ep_filesz :: u32
  ep_memsz :: u32

definition load_segment :: "byte list \<Rightarrow> elf_pheader \<Rightarrow> ram \<Rightarrow> ram result" where
  "load_segment boot_elf p m =
     (if ep_type p \<noteq> ELF_PT_LOAD then Inr m
      else bindr (mem_read (unat (ep_offset p)) (unat (ep_filesz p)) boot_elf) (\<lambda>d.
           bindr (store_bytes (ucast (ep_vaddr p)) d m) (\<lambda>m.
           if ep_filesz p < ep_memsz p
           then store_bytes (ucast (ep_vaddr p) + ucast (ep_filesz p))
                  (replicate (unat (ep_memsz p - ep_filesz p)) NUL) m
           else Inr m)))"

fun load_segments :: "byte list \<Rightarrow> elf_pheader list \<Rightarrow> ram \<Rightarrow> ram result" where
  "load_segments boot_elf [] m = Inr m"
| "load_segments boot_elf (p # ps) m = bindr (load_segment boot_elf p m) (load_segments boot_elf ps)"

text \<open>
  \<^verbatim>\<open>loadelf\<close>: the entry point, number of arguments and memory that \<^verbatim>\<open>ExecPS2\<close> starts with, or \<open>None\<close>
  for the \<^verbatim>\<open>break\<close> instruction.  The headers are arguments, read by the caller from where \<^verbatim>\<open>phoff\<close> points; the
  image is kept apart from the memory it is loaded into, so segments that overlap it are outside the
  model; the strings of \<^verbatim>\<open>new_argv\<close>, which the file does not declare, are left out.
\<close>

definition loadelf ::
  "byte list \<Rightarrow> elf_header \<Rightarrow> (nat \<Rightarrow> elf_pheader) \<Rightarrow> int \<Rightarrow> ram \<Rightarrow> (u32 \<times> int \<times> ram) option result" where
  "loadelf boot_elf eh eph argc m =
     (let new_argc = argc + 2
      in if eh_ident eh \<noteq> ELF_MAGIC then Inr None
         else bindr (load_segments boot_elf (map eph [0..<eh_phnum eh]) m) (\<lambda>m.
              Inr (Some (eh_entry eh, new_argc, m))))"

text \<open>\<^verbatim>\<open>wipe_bramMem\<close>: 64 bytes at a time from \<^verbatim>\<open>0x84000\<close> up to \<^verbatim>\<open>0x100000\<close>, in four stores.\<close>

definition wipe_line :: "u64 \<Rightarrow> ram \<Rightarrow> ram result" where
  "wipe_line i m =
     bindr (store_bytes i (replicate 16 NUL) m) (\<lambda>m.
     bindr (store_bytes (i + 16) (replicate 16 NUL) m) (\<lambda>m.
     bindr (store_bytes (i + 32) (replicate 16 NUL) m) (\<lambda>m.
     store_bytes (i + 48) (replicate 16 NUL) m)))"

function wipe_from :: "nat \<Rightarrow> ram \<Rightarrow> ram result" where
  "wipe_from i m =
     (if i < 0x100000 then bindr (wipe_line (of_nat i) m) (wipe_from (i + 64)) else Inr m)"
  by pat_completeness auto
termination
  by (relation "measure (\<lambda>(i, m). 0x100000 - i)") auto

declare wipe_from.simps [simp del]

definition wipe_bramMem :: "ram \<Rightarrow> ram result" where
  "wipe_bramMem m = wipe_from 0x84000 m"

subsection \<open>What is loaded\<close>

definition seg_size :: "elf_pheader \<Rightarrow> nat" where
  "seg_size p = max (unat (ep_filesz p)) (unat (ep_memsz p))"

definition seg_covers :: "u64 \<Rightarrow> elf_pheader \<Rightarrow> bool" where
  "seg_covers x p \<longleftrightarrow> ep_type p = ELF_PT_LOAD \<and> unat (ep_vaddr p) \<le> unat x
     \<and> unat x < unat (ep_vaddr p) + seg_size p"

definition seg_byte :: "byte list \<Rightarrow> elf_pheader \<Rightarrow> u64 \<Rightarrow> byte" where
  "seg_byte boot_elf p x =
     (let i = unat x - unat (ep_vaddr p)
      in if i < unat (ep_filesz p) then boot_elf ! (unat (ep_offset p) + i) else NUL)"

text \<open>A segment whose bytes are in the file and whose place is in the memory.\<close>

definition seg_ok :: "byte list \<Rightarrow> ram \<Rightarrow> elf_pheader \<Rightarrow> bool" where
  "seg_ok boot_elf m p \<longleftrightarrow> (ep_type p = ELF_PT_LOAD \<longrightarrow>
     unat (ep_offset p) + unat (ep_filesz p) \<le> length boot_elf
     \<and> (\<forall>i < seg_size p. m (ucast (ep_vaddr p) + of_nat i) \<noteq> None))"

text \<open>Addresses behind a start, when the numbers do not wrap.\<close>

lemma unat_behind:
  fixes x :: u64
  assumes "unat a + n < 2 ^ 64"
  shows "unat (x - a) < n \<longleftrightarrow> unat a \<le> unat x \<and> unat x < unat a + n"
    and "unat a \<le> unat x \<Longrightarrow> unat (x - a) = unat x - unat a"
proof -
  have "unat x < 2 ^ 64" using unsigned_less [of x, where ?'a = nat] by simp
  then show "unat (x - a) < n \<longleftrightarrow> unat a \<le> unat x \<and> unat x < unat a + n"
    and "unat a \<le> unat x \<Longrightarrow> unat (x - a) = unat x - unat a"
    using assms by (auto simp: unat_sub_if')
qed

lemma unat_u32_small: "unat (ucast (a :: u32) :: u64) = unat a" "unat a < 2 ^ 32"
proof -
  show a: "unat a < 2 ^ 32" using unsigned_less [of a, where ?'a = nat] by simp
  then show "unat (ucast a :: u64) = unat a" by (simp add: unsigned_ucast_eq take_bit_nat_eq_self)
qed

lemma store_bytes_at:
  assumes "unat a = k" and "length d = l" and "k + l < 2 ^ 64" and "\<And>i. i < l \<Longrightarrow> m (a + of_nat i) \<noteq> None"
  obtains m' where "store_bytes a d m = Inr m'"
    and "\<And>x. m' x = (if k \<le> unat x \<and> unat x < k + l then Some (d ! (unat x - k)) else m x)"
proof -
  have "None \<notin> set (map m (addrs a (length d)))" unfolding no_None addrs_def using assms(2,4) by auto
  then have "store_bytes a d m = Inr (\<lambda>x. if unat (x - a) < length d then Some (d ! unat (x - a)) else m x)"
    by (simp add: store_bytes_def)
  moreover have "(if unat (x - a) < length d then Some (d ! unat (x - a)) else m x) =
      (if k \<le> unat x \<and> unat x < k + l then Some (d ! (unat x - k)) else m x)" for x
    using unat_behind [of a l x] assms(1-3) by auto
  ultimately show thesis by (rule that)
qed

lemma load_segment_effect:
  assumes "seg_ok boot_elf m p"
  shows "\<exists>m'. load_segment boot_elf p m = Inr m'
    \<and> (\<forall>x. m' x = (if seg_covers x p then Some (seg_byte boot_elf p x) else m x))"
proof (cases "ep_type p = ELF_PT_LOAD")
  case False
  then show ?thesis by (simp add: load_segment_def seg_covers_def)
next
  case True
  let ?v = "ucast (ep_vaddr p) :: u64" and ?f = "unat (ep_filesz p)" and ?n = "unat (ep_memsz p)"
  let ?d = "take ?f (drop (unat (ep_offset p)) boot_elf)"
  have v: "unat ?v = unat (ep_vaddr p)" "unat (ep_vaddr p) < 2 ^ 32" "?f < 2 ^ 32" "?n < 2 ^ 32"
    using unat_u32_small by blast+
  have ok: "unat (ep_offset p) + ?f \<le> length boot_elf" "\<forall>i < seg_size p. m (?v + of_nat i) \<noteq> None"
    using assms True by (auto simp: seg_ok_def)
  have ld: "length ?d = ?f" using ok(1) by simp
  have bounds: "unat (ep_vaddr p) + ?f < 2 ^ 64" "?f \<le> seg_size p" using v by (simp_all add: seg_size_def)
  have mapped_at: "m (?v + of_nat i) \<noteq> None" if "i < ?f" for i
    using ok(2) less_le_trans [OF that bounds(2)] by blast
  obtain m1 where m1: "store_bytes ?v ?d m = Inr m1"
    "\<And>x. m1 x = (if unat (ep_vaddr p) \<le> unat x \<and> unat x < unat (ep_vaddr p) + ?f
       then Some (?d ! (unat x - unat (ep_vaddr p))) else m x)"
    using store_bytes_at [where m = m, OF v(1) ld bounds(1) mapped_at] by blast
  have d: "?d ! i = boot_elf ! (unat (ep_offset p) + i)" if "i < ?f" for i using that ok(1) by simp
  show ?thesis
  proof (cases "ep_filesz p < ep_memsz p")
    case False
    then have "seg_size p = ?f" by (simp add: seg_size_def word_less_nat_alt max_def)
    then show ?thesis
      using False True m1 d ok(1) v(1)
      by (auto simp: load_segment_def mem_read_def seg_covers_def seg_byte_def Let_def)
  next
    case less: True
    then have sz: "seg_size p = ?n" "?f < ?n" "unat (ep_memsz p - ep_filesz p) = ?n - ?f"
      by (simp_all add: seg_size_def word_less_nat_alt unat_sub word_le_nat_alt)
    have a: "unat (?v + ucast (ep_filesz p)) = unat (ep_vaddr p) + ?f"
      using v by (simp add: unat_word_ariths unat_u32_small(1))
    have at: "?v + ucast (ep_filesz p) + of_nat i = ?v + of_nat (?f + i)" for i
      by (simp add: add.assoc)
    have zero_at: "m1 (?v + ucast (ep_filesz p) + of_nat i) \<noteq> None" if "i < ?n - ?f" for i
    proof -
      have "?f + i < seg_size p" using sz that by linarith
      then have "m (?v + of_nat (?f + i)) \<noteq> None" using ok(2) by blast
      then show ?thesis unfolding at m1(2) by (simp del: of_nat_add)
    qed
    have room: "unat (ep_vaddr p) + ?f + (?n - ?f) < 2 ^ 64" using v sz by simp
    obtain m2 where m2: "store_bytes (?v + ucast (ep_filesz p)) (replicate (?n - ?f) NUL) m1 = Inr m2"
      "\<And>x. m2 x = (if unat (ep_vaddr p) + ?f \<le> unat x \<and> unat x < unat (ep_vaddr p) + ?f + (?n - ?f)
          then Some (replicate (?n - ?f) NUL ! (unat x - (unat (ep_vaddr p) + ?f))) else m1 x)"
      using store_bytes_at [where m = m1, OF a length_replicate room zero_at] by blast
    have run: "load_segment boot_elf p m = Inr m2"
      using True less ok(1) m1(1) m2(1) sz(3) by (simp add: load_segment_def mem_read_def)
    have "m2 x = (if seg_covers x p then Some (seg_byte boot_elf p x) else m x)" for x
      unfolding m2(2) m1(2) using sz True d v(1) by (auto simp: seg_covers_def seg_byte_def Let_def)
    then show ?thesis using run by blast
  qed
qed

text \<open>The memory after the whole scan: an address holds what the last segment over it put there.\<close>

lemma load_segments_effect:
  "\<forall>p \<in> set ps. seg_ok boot_elf m p \<Longrightarrow>
   \<exists>m'. load_segments boot_elf ps m = Inr m'
     \<and> (\<forall>x. m' x = (case find (seg_covers x) (rev ps) of None \<Rightarrow> m x | Some p \<Rightarrow> Some (seg_byte boot_elf p x)))"
proof (induction ps arbitrary: m)
  case (Cons p ps)
  obtain m1 where m1: "load_segment boot_elf p m = Inr m1"
    "\<And>x. m1 x = (if seg_covers x p then Some (seg_byte boot_elf p x) else m x)"
    using load_segment_effect [of boot_elf m p] Cons.prems by auto
  have "\<forall>q \<in> set ps. seg_ok boot_elf m1 q"
    using Cons.prems by (auto simp: seg_ok_def m1(2))
  then obtain m2 where m2: "load_segments boot_elf ps m1 = Inr m2"
    "\<And>x. m2 x = (case find (seg_covers x) (rev ps) of None \<Rightarrow> m1 x | Some p \<Rightarrow> Some (seg_byte boot_elf p x))"
    using Cons.IH by blast
  have "find P (xs @ [y]) = (case find P xs of None \<Rightarrow> (if P y then Some y else None) | Some z \<Rightarrow> Some z)"
    for P and xs :: "elf_pheader list" and y
    by (induction xs) auto
  then show ?case using m1 m2 by (auto split: option.splits)
qed simp

text \<open>
  C40. The loader, given an ELF file whose loadable segments lie inside the file and whose places are
  in memory, starts the program at its entry point with every address holding what the last segment
  over it says: the byte of the file, or zero behind the bytes that the file has; addresses that no
  segment covers keep their content.
\<close>

theorem loadelf_image:
  assumes "eh_ident eh = ELF_MAGIC" and "\<forall>i < eh_phnum eh. seg_ok boot_elf m (eph i)"
  shows "\<exists>m'. loadelf boot_elf eh eph argc m = Inr (Some (eh_entry eh, argc + 2, m'))
    \<and> (\<forall>x. m' x = (case find (seg_covers x) (rev (map eph [0..<eh_phnum eh])) of
        None \<Rightarrow> m x | Some p \<Rightarrow> Some (seg_byte boot_elf p x)))"
  using load_segments_effect [of "map eph [0..<eh_phnum eh]" boot_elf m] assms by (auto simp: loadelf_def)

theorem loadelf_image_witness:
  "\<exists>m'. loadelf ''abcd'' \<lparr>eh_ident = ELF_MAGIC, eh_entry = 4096, eh_phnum = 1\<rparr>
      (\<lambda>i. \<lparr>ep_type = 1, ep_offset = 1, ep_vaddr = 16, ep_filesz = 2, ep_memsz = 3\<rparr>) 0
      (\<lambda>x. if unat x < 32 then Some CHR ''x'' else None) = Inr (Some (4096, 2, m'))
    \<and> m' 15 = Some CHR ''x'' \<and> m' 16 = Some CHR ''b'' \<and> m' 18 = Some NUL"
proof -
  let ?m = "\<lambda>x :: u64. if unat x < 32 then Some CHR ''x'' else None"
  let ?eh = "\<lparr>eh_ident = ELF_MAGIC, eh_entry = 4096, eh_phnum = 1\<rparr>"
  let ?p = "\<lparr>ep_type = 1, ep_offset = 1, ep_vaddr = 16, ep_filesz = 2, ep_memsz = 3\<rparr>"
  have "seg_ok ''abcd'' ?m ?p"
    by (auto simp: seg_ok_def seg_size_def unat_word_ariths unat_of_nat)
  then obtain m' where "loadelf ''abcd'' ?eh (\<lambda>i. ?p) 0 ?m = Inr (Some (4096, 2, m'))"
    and "\<And>x. m' x = (case find (seg_covers x) [?p] of None \<Rightarrow> ?m x | Some p \<Rightarrow> Some (seg_byte ''abcd'' p x))"
    using loadelf_image [of ?eh "''abcd''" ?m "\<lambda>i. ?p" 0] by auto
  then show ?thesis
    by (auto simp: seg_covers_def seg_byte_def seg_size_def ELF_PT_LOAD_def Let_def)
qed

end
