(* ===== verification/Nbd_Stack.thy ===== *)
theory Nbd_Stack
  imports Nbd_Server Servers
begin

text \<open>
  The NBD server behind the table of servers: the callbacks that \<^verbatim>\<open>src/servers.c\<close> gathers for it, over
  the state of the server, the library and the network, and what becomes of a client of a server that was
  started through the table.
\<close>

section \<open>The callbacks of the server\<close>

text \<open>
  \<open>nw_callbacks\<close> is what the phases call as \<^verbatim>\<open>ctx->sync_recv_cb\<close> and \<^verbatim>\<open>ctx->sync_send_cb\<close>, for every context in
  \<^verbatim>\<open>handles\<close>.  The struct of a context has no such members and no code assigns them: the callbacks of TCP
  are in the struct of the server, which the phases do not look at.  Wherever the members are added,
  they are static storage, so a context has NULL there until a program stores something else.
\<close>

record ('c, 'w, 'n) nbd_world =
  nw_nb :: nbd_servers
  nw_callbacks :: "'n transport list"
  nw_lw :: "('c, 'w) lwnbd"
  nw_net :: 'n

definition null_callbacks :: "'n transport" where
  "null_callbacks = \<lparr>sync_recv_cb = (\<lambda>s len fl n. Some (Inl Null_Deref)),
     sync_send_cb = (\<lambda>s d fl n. Some (Inl Null_Deref))\<rparr>"

text \<open>
  \<^verbatim>\<open>run\<close> gets the address of the context in \<^verbatim>\<open>handles\<close> and of the socket; what the thread stores in its
  context stays there.
\<close>

definition nbd_run ::
  "nbd_config \<Rightarrow> (('c, 'w) lwnbd \<Rightarrow> nat option) \<Rightarrow> handle \<Rightarrow> int \<Rightarrow> ('c, 'w, 'n) nbd_world
    \<Rightarrow> (int \<times> ('c, 'w, 'n) nbd_world) run" where
  "nbd_run cfg dflt h sock w =
     bindp (lift (handle_at (nb_handles (nw_nb w)) h)) (\<lambda>ctx.
     bindp (lift (handle_at (nw_callbacks w) h)) (\<lambda>io.
     bindp (nbd_synchronous_client_thread_cb cfg io dflt ctx sock (nw_lw w) (nw_net w)) (\<lambda>(r, ctx, c, lw, n).
     bindp (lift (set_handle (the h) ctx (nb_handles (nw_nb w)))) (\<lambda>hs.
     ret (r, w\<lparr>nw_nb := (nw_nb w)\<lparr>nb_handles := hs\<rparr>, nw_lw := lw, nw_net := n\<rparr>)))))"

definition nbd_server ::
  "nbd_config \<Rightarrow> 'n transport \<Rightarrow> (('c, 'w) lwnbd \<Rightarrow> nat option)
    \<Rightarrow> (nbdsettings option, int, ('c, 'w, 'n) nbd_world) lwnbd_server" where
  "nbd_server cfg io dflt = null_server
     \<lparr>sv_name := ''nbd'',
      sv_config := Some (\<lambda>h k v w. bindr (nbd_config_cb h k v (nw_nb w)) (\<lambda>(r, nb). Inr (r, w\<lparr>nw_nb := nb\<rparr>))),
      sv_ctor := Some (\<lambda>h cf w. bindr (nbd_ctor h cf (nw_nb w)) (\<lambda>(r, nb). Inr (r, w\<lparr>nw_nb := nb\<rparr>))),
      sv_run := Some (nbd_run cfg dflt),
      sv_new := Some (\<lambda>w. let (h, nb) = nbd_new (nw_nb w) in Inr (h, w\<lparr>nw_nb := nb\<rparr>)),
      sv_sync_recv_cb := Some (\<lambda>s len fl w. bindp (sync_recv_cb io s len fl (nw_net w)) (\<lambda>(r, d, n).
        ret (r, d, w\<lparr>nw_net := n\<rparr>))),
      sv_sync_send_cb := Some (\<lambda>s d fl w. bindp (sync_send_cb io s d fl (nw_net w)) (\<lambda>(r, n).
        ret (r, w\<lparr>nw_net := n\<rparr>)))\<rparr>"

text \<open>The program at its start.\<close>

definition fresh_nbd :: "('c, 'w) lwnbd \<Rightarrow> 'n \<Rightarrow> ('c, 'w, 'n) nbd_world" where
  "fresh_nbd lw n = \<lparr>nw_nb = nbd_servers_init,
     nw_callbacks = replicate NBD_SERVER_MAX_DEVICES null_callbacks, nw_lw = lw, nw_net = n\<rparr>"

section \<open>The phases without callbacks\<close>

lemma handshake_null: "protocol_handshake cfg null_callbacks ctx c lw n = Some (Inl Null_Deref)"
  by (simp add: protocol_handshake_def hs_run_def hs_send_def null_callbacks_def andthen_def hs_start_def Let_def)

lemma transmission_null: "transmission_phase cfg null_callbacks (Some ctx) lw n = Some (Inl Null_Deref)"
proof -
  let ?body = "request_body cfg null_callbacks (nc_minimum_block_size ctx)"
  have "?body (tx_start cfg ctx lw n) = Some (Inl Null_Deref)"
    by (simp add: request_body_def null_callbacks_def)
  then have "while_flow (\<lambda>_. True) ?body (tx_start cfg ctx lw n) = Some (Inl Null_Deref)"
    by (rule while_flow_fault [of "\<lambda>_. True", OF TrueI])
  then show ?thesis by (simp add: transmission_phase_def)
qed

text \<open>A thread that has a context calls one of them.\<close>

lemma client_run_null:
  assumes "cl_state (ct_client t) \<noteq> ABORT" and "ct_r t = 0"
  shows "client_run cfg null_callbacks t = Some (Inl Null_Deref)"
proof -
  have "client_body cfg null_callbacks t = Some (Inl Null_Deref)"
    using assms(1) by (cases "cl_state (ct_client t)") (simp_all add: client_body_def handshake_null transmission_null)
  then show ?thesis
    using while_flow_fault [of "\<lambda>t. ct_r t = 0" t "client_body cfg null_callbacks"] assms(2)
    by (simp add: client_run_def)
qed

lemma thread_null:
  "nbd_synchronous_client_thread_cb cfg null_callbacks dflt ctx sock lw n =
    (if (if nc_preinit ctx = 0 then fst (lwnbd_new_context lw) else dflt lw) = None
     then ret (- 1, ctx, \<lparr>cl_sock = sock, cl_state = HANDSHAKE, cl_ctx = None\<rparr>,
               if nc_preinit ctx = 0 then snd (lwnbd_new_context lw) else lw, n)
     else Some (Inl Null_Deref))"
  by (cases "lwnbd_new_context lw")
    (auto simp: nbd_synchronous_client_thread_cb_def client_run_null split: option.splits)

section \<open>A server started through the table\<close>

text \<open>The calls that an application makes: \<^verbatim>\<open>init\<close> on the fresh table, then the option \<^verbatim>\<open>preinit\<close>.\<close>

definition made_nbd :: "u8 \<Rightarrow> ('c, 'w) lwnbd \<Rightarrow> 'n \<Rightarrow> ('c, 'w, 'n) nbd_world" where
  "made_nbd pre lw n = (fresh_nbd lw n)
     \<lparr>nw_nb := \<lparr>nb_handles = (replicate 3 zero_nbd_context)[0 := zero_nbd_context\<lparr>nc_preinit := pre\<rparr>],
               nb_in_use = (replicate 3 HANDLE_FREE)[0 := HANDLE_CREATED]\<rparr>\<rparr>"

definition started_nbd ::
  "nbd_config \<Rightarrow> 'n transport \<Rightarrow> (('c, 'w) lwnbd \<Rightarrow> nat option) \<Rightarrow> ('c, 'w, 'n) nbd_world
    \<Rightarrow> (nbdsettings option, int, ('c, 'w, 'n) nbd_world) server_table" where
  "started_nbd cfg io dflt w = (servers_init w)
     \<lparr>servers := [\<lparr>si_handle = Some 0, si_s = Some (nbd_server cfg io dflt)\<rparr>, \<lparr>si_handle = None, si_s = None\<rparr>],
      servers_status := [SRV_STOPPED, SRV_FREE]\<rparr>"

lemma zero_preinit [simp]: "zero_nbd_context\<lparr>nc_preinit := 0\<rparr> = zero_nbd_context"
  by (simp add: zero_nbd_context_def lwnbd_context.extend_def)

lemma nbd_init:
  "lwnbd_server_init (Some (nbd_server cfg io dflt)) (servers_init (fresh_nbd lw n))
     = Inr (0, started_nbd cfg io dflt (made_nbd 0 lw n))"
  by (simp add: nbd_new_def take_handle_def nbd_servers_init_def NBD_SERVER_MAX_DEVICES_def Let_def
      find_slot_def numeral_3_eq_3 lwnbd_server_init_def nbd_server_def servers_init_def
      MAX_NUM_SERVERS_def numeral_2_eq_2 fresh_nbd_def started_nbd_def made_nbd_def)

lemma nbd_preinit:
  "lwnbd_server_config 0 ''preinit'' [] (started_nbd cfg io dflt (made_nbd 0 lw n))
     = Inr (0, started_nbd cfg io dflt (made_nbd 1 lw n))"
  by (simp add: nbd_config_cb_def handle_at_def set_handle_def lwnbd_server_config_def instance_at_def
      MAX_NUM_SERVERS_def started_nbd_def nbd_server_def servers_init_def made_nbd_def fresh_nbd_def numeral_3_eq_3)

lemma nbd_started_run:
  "if (if pre = 0 then fst (lwnbd_new_context lw) else dflt lw) = None
   then \<exists>t. lwnbd_server_run 0 sock (started_nbd cfg io dflt (made_nbd pre lw n)) = ret t \<and> nw_net (srv_world t) = n
   else lwnbd_server_run 0 sock (started_nbd cfg io dflt (made_nbd pre lw n)) = Some (Inl Null_Deref)"
proof -
  let ?ctx = "zero_nbd_context\<lparr>nc_preinit := pre\<rparr>" and ?w = "made_nbd pre lw n"
  have pre: "nc_preinit ?ctx = pre" by (simp add: zero_nbd_context_def lwnbd_context.extend_def)
  have w: "handle_at (nb_handles (nw_nb ?w)) (Some 0) = Inr ?ctx" "length (nb_handles (nw_nb ?w)) = 3"
    "handle_at (nw_callbacks ?w) (Some 0) = Inr null_callbacks" "nw_lw ?w = lw" "nw_net ?w = n"
    by (simp_all add: made_nbd_def fresh_nbd_def NBD_SERVER_MAX_DEVICES_def)
  have run: "lwnbd_server_run 0 sock (started_nbd cfg io dflt ?w) = bindp (nbd_run cfg dflt (Some 0) sock ?w)
      (\<lambda>(_, w). ret ((started_nbd cfg io dflt ?w)\<lparr>srv_world := w\<rparr>))"
    by (simp add: lwnbd_server_run_def instance_at_def MAX_NUM_SERVERS_def started_nbd_def nbd_server_def servers_init_def)
  have "nbd_run cfg dflt (Some 0) sock ?w =
      bindp (nbd_synchronous_client_thread_cb cfg null_callbacks dflt ?ctx sock lw n) (\<lambda>(r, ctx, c, lw, n).
        bindp (lift (set_handle 0 ctx (nb_handles (nw_nb ?w)))) (\<lambda>hs.
        ret (r, ?w\<lparr>nw_nb := (nw_nb ?w)\<lparr>nb_handles := hs\<rparr>, nw_lw := lw, nw_net := n\<rparr>)))"
    using w by (simp add: nbd_run_def)
  then show ?thesis using run w(2) by (auto simp: thread_null pre)
qed


end
