(* ===== verification/Library_State.thy ===== *)
theory Library_State
  imports Plugins Contexts_Uri
begin

text \<open>
  The library as one state machine: an application calls, in any order, the functions of
  \<^verbatim>\<open>include/lwnbd/lwnbd.h\<close> on the static state of \<^verbatim>\<open>src/contexts.c\<close> and \<^verbatim>\<open>src/plugins.c\<close>, with plugins
  that keep to \<open>content_plugin\<close>.  The invariant is that the library is well-typed: every context that
  names a plugin names a registered one that can be read, and every string fits its field.
\<close>

section \<open>Steps\<close>

inductive lib_step ::
  "('c, 'w) lwnbd_plugin_t set \<Rightarrow> ('c, 'w) lwnbd \<Rightarrow> ('c, 'w) lwnbd \<Rightarrow> bool" for ps where
  lib_load: "p \<in> ps \<Longrightarrow> lwnbd_plugin_init s (Some p) = Inr (h, s') \<Longrightarrow> lib_step ps s s'"
| lib_refused: "lwnbd_plugin_init s None = Inr (h, s') \<Longrightarrow> lib_step ps s s'"
| lib_new: "lwnbd_plugin_new s h cfg = Inr (r, s') \<Longrightarrow> lib_step ps s s'"
| lib_config: "lwnbd_plugin_config s h key val = Inr (r, s') \<Longrightarrow> lib_step ps s s'"
| lib_context: "lwnbd_new_context s = (r, s') \<Longrightarrow> lib_step ps s s'"
| lib_uri: "lwnbd_get_context s buf uri = Inr (r, buf', s') \<Longrightarrow> lib_step ps s s'"
| lib_size: "i < MAX_CONTEXTS \<Longrightarrow> lwnbd_update_size s i = Inr (r, s') \<Longrightarrow> lib_step ps s s'"
| lib_pread: "lwnbd_pread s (c :: lwnbd_context) n off fl = Inr (r, d, s') \<Longrightarrow> lib_step ps s s'"
| lib_pwrite: "lwnbd_pwrite s (c :: lwnbd_context) b n off fl = Inr (r, s') \<Longrightarrow> lib_step ps s s'"
| lib_flush: "lwnbd_flush s (c :: lwnbd_context) fl = Inr (r, s') \<Longrightarrow> lib_step ps s s'"
| lib_trim: "lwnbd_trim s (c :: lwnbd_context) n off fl = Inr (r, s') \<Longrightarrow> lib_step ps s s'"
| lib_zero: "lwnbd_zero s (c :: lwnbd_context) n off fl = Inr (r, s') \<Longrightarrow> lib_step ps s s'"

inductive lib_reachable ::
  "('c, 'w) lwnbd_plugin_t set \<Rightarrow> 'w \<Rightarrow> ('c, 'w) lwnbd \<Rightarrow> bool" for ps w where
  lib_start: "lib_reachable ps w (lwnbd_init w)"
| lib_next: "lib_reachable ps w s \<Longrightarrow> lib_step ps s s' \<Longrightarrow> lib_reachable ps w s'"

section \<open>The invariant\<close>

definition lib_wf :: "('c, 'w) lwnbd_plugin_t set \<Rightarrow> ('c, 'w) lwnbd \<Rightarrow> bool" where
  "lib_wf ps s \<longleftrightarrow> wf_lwnbd s
     \<and> (\<forall>k < MAX_NUM_PLUGINS. case plugins s ! k of
          None \<Rightarrow> plugins_status s ! k = PLUGIN_FREE
        | Some p \<Rightarrow> plugins_status s ! k = PLUGIN_CREATED \<and> p \<in> ps)"

lemma lib_wf_init: "lib_wf ps (lwnbd_init w)"
  by (simp add: lib_wf_def wf_init) (simp add: lwnbd_init_def)

lemma lib_wf_world [simp]: "lib_wf ps (s\<lparr>world := w\<rparr>) = lib_wf ps s"
  by (simp add: lib_wf_def cong: option.case_cong)

lemma lib_wf_same_plugins:
  "lib_wf ps s \<Longrightarrow> wf_lwnbd s' \<Longrightarrow> plugins s' = plugins s \<Longrightarrow> plugins_status s' = plugins_status s \<Longrightarrow>
   lib_wf ps s'"
  by (simp add: lib_wf_def cong: option.case_cong)

lemma plugin_init_lib_wf:
  assumes wf: "lib_wf ps s" and p: "\<And>p. q = Some p \<Longrightarrow> p \<in> ps" and run: "lwnbd_plugin_init s q = Inr (h, s')"
  shows "lib_wf ps s'"
proof (cases "h = plugin_err")
  case True
  have "lwnbd_plugin_init s q \<noteq> Inr (plugin_err, s') \<or> s' = s"
  proof -
    let ?i = "find_slot (\<lambda>st. st = PLUGIN_FREE) (plugins_status s)"
    have "of_nat ?i \<noteq> plugin_err" if "?i \<noteq> MAX_NUM_PLUGINS"
      using that of_nat_not_plugin_err find_slot_le wf wf_lengths(4)
      by (metis le_neq_implies_less lib_wf_def)
    then show ?thesis
      by (cases q; cases "?i = MAX_NUM_PLUGINS")
        (auto simp: lwnbd_plugin_init_def Let_def bindr_Inr_iff)
  qed
  then show ?thesis using run True wf by simp
next
  case False
  have w: "wf_lwnbd s" using wf by (simp add: lib_wf_def)
  obtain i p' f s1 where r: "register_slot p' (plugins_status s) = (Some i, plugins_status s1)"
    and i: "i < MAX_NUM_PLUGINS" and q: "q = Some p'"
    and s1: "wf_lwnbd s1" "plugins s1 = (plugins s)[i := Some p']"
    and s': "(if pl_export_without_handle p' = 1 then export_api s1 i p' else Inr s1) = Inr s'"
    using plugin_init_registers [OF w run False] by metis
  have st: "plugins_status s1 = (plugins_status s)[i := PLUGIN_CREATED]"
    using r by (auto simp: register_slot_def Let_def split: if_splits)
  note len = wf_lengths(3,4) [OF w]
  have 1: "lib_wf ps s1"
    using wf s1 st len i p [OF q] by (auto simp: lib_wf_def nth_list_update split: option.splits)
  have "plugins_status s1 ! i = PLUGIN_CREATED" using st len i by simp
  note api = export_api_wf [OF s1(1) i this]
  show ?thesis
  proof (cases "pl_export_without_handle p' = 1")
    case True
    then show ?thesis using s' api lib_wf_same_plugins [OF 1] by simp
  next
    case False
    then show ?thesis using s' 1 by simp
  qed
qed

lemma plugin_new_lib_wf:
  assumes good: "\<forall>p \<in> ps. content_plugin p" and wf: "lib_wf ps s"
    and run: "lwnbd_plugin_new s h cfg = Inr (r, s')"
  shows "lib_wf ps s'"
proof -
  obtain p where h: "unat h < MAX_NUM_PLUGINS" and p: "plugins s ! unat h = Some p"
    using run by (auto simp: lwnbd_plugin_new_def plugin_at_def bindr_Inr_iff deref_def
        split: if_splits option.splits)
  have reg: "plugins_status s ! unat h = PLUGIN_CREATED" "p \<in> ps" using wf h p by (auto simp: lib_wf_def)
  have w: "wf_lwnbd s" using wf by (simp add: lib_wf_def)
  show ?thesis
    using content_plugin.plugin_new_wf [OF _ w h p reg(1) run] good reg(2) lib_wf_same_plugins [OF wf] by blast
qed

lemma update_size_lib_wf:
  assumes wf: "lib_wf ps s" and i: "i < MAX_CONTEXTS" and run: "lwnbd_update_size s i = Inr (r, s')"
  shows "lib_wf ps s'"
proof (rule lib_wf_same_plugins [OF wf])
  show "wf_lwnbd s'" using lwnbd_update_size_wf [OF _ i run] wf by (simp add: lib_wf_def)
qed (use run in \<open>auto simp: lwnbd_update_size_def bindr_Inr_iff\<close>)

lemma get_context_lib_wf:
  assumes wf: "lib_wf ps s" and run: "lwnbd_get_context s buf uri = Inr (r, buf', s')"
  shows "lib_wf ps s'"
proof -
  have d: "uri_dispatch s (cstr buf uri) = Inr (r, s')"
    using dispatch_on_strings [of s buf uri] by (simp add: run)
  have idx: "c < MAX_CONTEXTS" if "lwnbd_get_context_string s nm = Some c" for c nm
  proof -
    have "lwnbd_contexts_count s \<le> MAX_CONTEXTS"
      using find_slot_le wf wf_lengths(2) unfolding lwnbd_contexts_count_def lib_wf_def by metis
    then show ?thesis
      using search_context_sound [of s nm 0 "lwnbd_contexts_count s" c] that
      by (simp add: lwnbd_get_context_string_def)
  qed
  show ?thesis
  proof (cases "lwnbd_get_context_string s (uri_path (cstr buf uri))")
    case None
    then show ?thesis using d wf by (simp add: uri_dispatch_def)
  next
    case (Some c)
    obtain ret :: int and w where d1: "(if ret \<noteq> 0 then Inr (None, s\<lparr>world := w\<rparr>)
        else bindr (lwnbd_update_size (s\<lparr>world := w\<rparr>) c) (\<lambda>(_, s'). Inr (Some c, s'))) = Inr (r, s')"
      using d Some by (auto simp: uri_dispatch_def bindr_Inr_iff)
    show ?thesis
    proof (cases "ret = 0")
      case True
      then obtain n where "lwnbd_update_size (s\<lparr>world := w\<rparr>) c = Inr (n, s')"
        using d1 by (auto simp: bindr_Inr_iff)
      then show ?thesis using update_size_lib_wf [of ps "s\<lparr>world := w\<rparr>"] idx [OF Some] wf by simp
    next
      case False
      then show ?thesis using d1 wf by auto
    qed
  qed
qed

lemma lib_wf_only_world: "lib_wf ps s \<Longrightarrow> \<exists>w. s' = s\<lparr>world := w\<rparr> \<Longrightarrow> lib_wf ps s'"
  by auto

lemma plugin_config_frame:
  assumes run: "lwnbd_plugin_config s h key val = Inr (r, s')"
  shows "\<exists>w. s' = s\<lparr>world := w\<rparr>"
proof -
  obtain p where p: "plugin_at s h = Inr p" using run by (auto simp: lwnbd_plugin_config_def bindr_Inr_iff)
  show ?thesis
  proof (cases "pl_config p = None \<or> key = None \<and> pl_magic_config_key p = None")
    case True
    then show ?thesis using run p by (auto simp: lwnbd_plugin_config_def split: option.split_asm intro: exI [of _ "world s'"])
  next
    case False
    then show ?thesis using run p by (cases key) (auto simp: lwnbd_plugin_config_def bindr_Inr_iff)
  qed
qed

lemma lib_step_wf:
  assumes "lib_step ps s s'" and good: "\<forall>p \<in> ps. content_plugin p" and wf: "lib_wf ps s"
  shows "lib_wf ps s'"
  using assms(1)
proof cases
  case (lib_load p h)
  then show ?thesis using plugin_init_lib_wf [OF wf, of "Some p"] by simp
next
  case (lib_refused h)
  then show ?thesis using plugin_init_lib_wf [OF wf, of None] by simp
next
  case (lib_new h cfg r)
  then show ?thesis by (rule plugin_new_lib_wf [OF good wf])
next
  case (lib_config h key val r)
  then show ?thesis using plugin_config_frame lib_wf_only_world [OF wf] by blast
next
  case (lib_context r)
  then show ?thesis
    using new_context_wf [of s r s'] new_context_frame [of s r s'] wf lib_wf_same_plugins [OF wf, of s']
    by (simp add: lib_wf_def)
next
  case (lib_uri buf uri r buf')
  then show ?thesis by (rule get_context_lib_wf [OF wf])
next
  case (lib_size i r)
  then show ?thesis by (rule update_size_lib_wf [OF wf])
next
  case lib_pread
  then show ?thesis using lwnbd_pread_frame lib_wf_only_world [OF wf] by blast
next
  case lib_pwrite
  then show ?thesis using lwnbd_pwrite_frame lib_wf_only_world [OF wf] by blast
next
  case lib_flush
  then show ?thesis using lwnbd_flush_frame lib_wf_only_world [OF wf] by blast
qed (auto simp: lwnbd_trim_def lwnbd_zero_def bindr_Inr_iff wf)

lemma lib_reachable_wf:
  "lib_reachable ps w s \<Longrightarrow> \<forall>p \<in> ps. content_plugin p \<Longrightarrow> lib_wf ps s"
  by (induction rule: lib_reachable.induct) (auto simp: lib_wf_init intro: lib_step_wf)

section \<open>The property\<close>

text \<open>
  C7.  The library is well-typed.  After any sequence of calls that return, with plugins that keep to
  the contract of the registry, a context either has no plugin yet, and a read through it dereferences
  NULL, or it has one of the registered plugins, whose read callback exists; a read through it is
  then exactly the call of that callback on the handle of the context, and its strings are terminated
  inside their fields.
\<close>

theorem library_typed:
  assumes "lib_reachable ps w s" and "\<forall>p \<in> ps. content_plugin p" and "i < MAX_CONTEXTS"
  shows "wf_lwnbd s \<and> wf_context s (contexts s ! i)
    \<and> (case ctx_p (contexts s ! i) of
         None \<Rightarrow> lwnbd_pread s (contexts s ! i) n off fl = Inl Null_Deref
       | Some k \<Rightarrow> \<exists>p f. k < MAX_NUM_PLUGINS \<and> plugins s ! k = Some p \<and> p \<in> ps \<and> pl_pread p = Some f
           \<and> lwnbd_pread s (contexts s ! i) n off fl
             = bindr (f (ctx_handle (contexts s ! i)) n off fl (world s)) (\<lambda>(r, d, w').
                 Inr (r, d, s\<lparr>world := w'\<rparr>)))"
proof -
  have lw: "lib_wf ps s" by (rule lib_reachable_wf [OF assms(1,2)])
  then have w: "wf_lwnbd s" by (simp add: lib_wf_def)
  have c: "wf_context s (contexts s ! i)" by (rule wf_context_nth [OF w assms(3)])
  show ?thesis
  proof (cases "ctx_p (contexts s ! i)")
    case None
    then show ?thesis using w c by (simp add: lwnbd_pread_def plugin_of_def deref_def bindr_def)
  next
    case (Some k)
    obtain p f where p: "plugin_of s (contexts s ! i) = Inr p" and f: "pl_pread p = Some f"
      by (rule lwnbd_pread_callable [OF w c Some])
    have k: "k < MAX_NUM_PLUGINS" using c Some by (simp add: wf_context_def)
    have pk: "plugins s ! k = Some p" using p Some by (auto simp: plugin_of_def deref_def split: option.splits)
    have "p \<in> ps" using lw k pk by (auto simp: lib_wf_def)
    then show ?thesis using w c Some p f k pk by (simp add: lwnbd_pread_def callp_def)
  qed
qed

text \<open>A library with one plugin and one context made from it.\<close>

lemma demo_content: "content_plugin demo_plugin"
  by unfold_locales (auto simp: demo_plugin_def null_plugin_def)

definition demo_library :: "(unit, unit) lwnbd" where
  "demo_library = (lwnbd_init ())
     \<lparr>plugins := (replicate 10 None)[0 := Some demo_plugin],
      plugins_status := (replicate 10 PLUGIN_FREE)[0 := PLUGIN_CREATED],
      contexts_status := (contexts_status (lwnbd_init () :: (unit, unit) lwnbd))[0 := CONTEXT_CREATED],
      contexts := (contexts (lwnbd_init () :: (unit, unit) lwnbd))
        [0 := zero_context\<lparr>ctx_name := ''d'', ctx_p := Some 0, ctx_description := ''demo plugin''\<rparr>]\<rparr>"

lemma demo_reachable: "lib_reachable {demo_plugin} () demo_library"
proof -
  obtain s where s: "lwnbd_plugin_init (lwnbd_init ()) (Some demo_plugin) = Inr (0, s)"
    "s = (lwnbd_init ())\<lparr>plugins := (replicate 10 None)[0 := Some demo_plugin],
                         plugins_status := (replicate 10 PLUGIN_FREE)[0 := PLUGIN_CREATED]\<rparr>"
    using demo_init by blast
  have "find_slot (\<lambda>st. st = CONTEXT_FREE) (replicate MAX_CONTEXTS CONTEXT_FREE) = 0"
    by (simp add: MAX_CONTEXTS_def find_slot_def numeral_eq_Suc)
  then have "lwnbd_plugin_new s 0 () = Inr (0, demo_library)"
    by (simp add: s(2) lwnbd_plugin_new_def plugin_at_def deref_def lwnbd_new_context_def demo_plugin_def
        null_plugin_def lwnbd_init_def demo_library_def MAX_NUM_PLUGINS_def MAX_CONTEXTS_def zero_context_def
        strcpy_field_def bindr_def Let_def)
  then have step: "lib_step {demo_plugin} s demo_library" by (rule lib_new)
  have "lib_reachable {demo_plugin} () s" by (rule lib_next [OF lib_start lib_load [OF _ s(1)]]) simp
  then show ?thesis using step by (rule lib_next)
qed

theorem library_typed_witness:
  "lib_reachable {demo_plugin} () demo_library
   \<and> lwnbd_pread demo_library (contexts demo_library ! 0) 1 0 0 = Inr (0, [], demo_library)"
proof -
  have "\<forall>p \<in> {demo_plugin}. content_plugin p" by (simp add: demo_content)
  from library_typed [OF demo_reachable this, of 0 1 0 0] show ?thesis
    using demo_reachable
    by (simp add: MAX_CONTEXTS_def demo_library_def lwnbd_init_def) (auto simp: demo_plugin_def null_plugin_def)
qed

end
