(* ===== verification/File_Guard.thy ===== *)
theory File_Guard
  imports File_Plugin
begin

text \<open>
  The file plugin over system calls that fail.  The locale \<open>posix_calls\<close> only states what POSIX
  promises of every \<^verbatim>\<open>pread\<close> and \<^verbatim>\<open>pwrite\<close>: an error, or a transfer of no more than was asked for.  That is
  enough for the contract \<open>guarded_device\<close>, with which a server stays within its buffers.
\<close>

locale posix_calls =
  fixes os :: "'f posix_fs"
  assumes pread_count: "sys_pread os fd n off f = (Some d, f') \<Longrightarrow> length d \<le> n"
    and pwrite_count: "sys_pwrite os fd b off f = (Some k, f') \<Longrightarrow> b \<noteq> [] \<Longrightarrow> 0 < k \<and> k \<le> length b"
begin

text \<open>A step of a loop: the counter goes down by what was transferred.\<close>

lemma count_down:
  assumes "k \<le> unat (n :: u32)"
  shows "unat (n - of_nat k) = unat n - k"
proof -
  have "k < 2 ^ 32" using assms unsigned_less [of n, where ?'a = nat] by simp
  then have k: "unat (of_nat k :: u32) = k" by (simp add: unat_of_nat)
  then have "of_nat k \<le> n" using assms by (simp add: word_le_nat_alt)
  then show ?thesis using k by (simp add: unat_sub)
qed

lemma guarded_read_loop:
  "\<exists>fl v'. while_flow io_pending (pread_body os fd) v = Some (Inr (fl, v'))
    \<and> length (io_data v') \<le> length (io_data v) + unat (io_count v)
    \<and> flow_result fl \<in> {0, - 1}
    \<and> (flow_result fl = 0 \<longleftrightarrow> length (io_data v') = length (io_data v) + unat (io_count v))"
proof (induction "unat (io_count v)" arbitrary: v rule: less_induct)
  case less
  show ?case
  proof (cases "io_pending v")
    case False
    then have "unat (io_count v) = 0" by (simp add: io_pending_def word_less_nat_alt)
    then show ?thesis using False by (simp add: flow_result_def)
  next
    case True
    then have n0: "0 < unat (io_count v)" by (simp add: io_pending_def word_less_nat_alt)
    obtain d f where rd: "sys_pread os fd (unat (io_count v)) (sint (io_offset v)) (io_os v) = (d, f)"
      by fastforce
    show ?thesis
    proof (cases "d = None \<or> d = Some []")
      case True
      then have "pread_body os fd v = Some (Inr (Return (- 1), v\<lparr>io_os := f\<rparr>))"
        using rd by (auto simp: pread_body_def ret_def)
      then show ?thesis using \<open>io_pending v\<close> n0 by (simp add: while_flow_return flow_result_def)
    next
      case False
      then obtain b where b: "d = Some b" "b \<noteq> []" by auto
      then have le: "length b \<le> unat (io_count v)" and pos: "0 < length b"
        using pread_count rd by auto
      let ?v = "v\<lparr>io_count := io_count v - of_nat (length b), io_offset := io_offset v + of_nat (length b),
        io_data := io_data v @ b, io_os := f\<rparr>"
      have c: "unat (io_count ?v) = unat (io_count v) - length b" by (simp add: count_down [OF le])
      then have lt: "unat (io_count ?v) < unat (io_count v)" using le pos by linarith
      have "pread_body os fd v = Some (Inr (Next, ?v))" using rd b by (simp add: pread_body_def ret_def)
      then have "while_flow io_pending (pread_body os fd) v = while_flow io_pending (pread_body os fd) ?v"
        by (rule while_flow_next [of io_pending, OF \<open>io_pending v\<close>])
      moreover obtain fl v' where "while_flow io_pending (pread_body os fd) ?v = Some (Inr (fl, v'))"
        and "length (io_data v') \<le> length (io_data ?v) + unat (io_count ?v)"
        and "flow_result fl \<in> {0, - 1}"
        and "flow_result fl = 0 \<longleftrightarrow> length (io_data v') = length (io_data ?v) + unat (io_count ?v)"
        using less [OF lt] by blast
      moreover have "length (io_data ?v) + unat (io_count ?v) = length (io_data v) + unat (io_count v)"
        using c le by simp
      ultimately show ?thesis by metis
    qed
  qed
qed

lemma guarded_write_loop:
  "unat (io_count v) \<le> length (io_data v) \<Longrightarrow>
    \<exists>fl v'. while_flow io_pending (pwrite_body os fd) v = Some (Inr (fl, v')) \<and> flow_result fl \<in> {0, - 1}"
proof (induction "unat (io_count v)" arbitrary: v rule: less_induct)
  case less
  show ?case
  proof (cases "io_pending v")
    case True
    let ?b = "take (unat (io_count v)) (io_data v)"
    obtain r f where wr: "sys_pwrite os fd ?b (sint (io_offset v)) (io_os v) = (r, f)" by fastforce
    have "0 < unat (io_count v)" using True by (simp add: io_pending_def word_less_nat_alt)
    then have lb: "?b \<noteq> []" "length ?b = unat (io_count v)" using less.prems by auto
    show ?thesis
    proof (cases r)
      case None
      then have "pwrite_body os fd v = Some (Inr (Return (- 1), v\<lparr>io_os := f\<rparr>))"
        using wr less.prems by (simp add: pwrite_body_def mem_read_def ret_def)
      then show ?thesis using True by (simp add: while_flow_return flow_result_def)
    next
      case (Some k)
      then have "0 < k \<and> k \<le> length ?b" using pwrite_count [of fd ?b] wr lb(1) by blast
      then have k: "0 < k" "k \<le> unat (io_count v)" using lb(2) by simp_all
      let ?v = "v\<lparr>io_count := io_count v - of_nat k, io_offset := io_offset v + of_nat k,
        io_data := drop k (io_data v), io_os := f\<rparr>"
      have c: "unat (io_count ?v) = unat (io_count v) - k" by (simp add: count_down [OF k(2)])
      have lt: "unat (io_count ?v) < unat (io_count v)" using c k by linarith
      have "unat (io_count ?v) \<le> length (io_data ?v)" using c less.prems by simp
      note rest = less.hyps [OF lt this]
      have "pwrite_body os fd v = Some (Inr (Next, ?v))"
        using wr Some less.prems by (simp add: pwrite_body_def mem_read_def ret_def)
      then have "while_flow io_pending (pwrite_body os fd) v = while_flow io_pending (pwrite_body os fd) ?v"
        by (rule while_flow_next [of io_pending, OF True])
      then show ?thesis using rest by (simp only:)
    qed
  qed (simp add: flow_result_def)
qed

lemma file_pread_result:
  assumes "handle_at (fl_handles st) h = Inr fh"
  shows "\<exists>r d f. file_pread os h n off fl st = Inr (r, d, st\<lparr>fl_os := f\<rparr>) \<and> length d \<le> unat n
    \<and> r \<in> {0, - 1} \<and> (r = 0 \<longleftrightarrow> length d = unat n)"
proof -
  obtain fw v where "while_flow io_pending (pread_body os (fh_fd fh))
      \<lparr>io_count = n, io_offset = off, io_data = [], io_os = fl_os st\<rparr> = Some (Inr (fw, v))"
    and "length (io_data v) \<le> unat n" and "flow_result fw \<in> {0, - 1}"
    and "flow_result fw = 0 \<longleftrightarrow> length (io_data v) = unat n"
    using guarded_read_loop [of "fh_fd fh" "\<lparr>io_count = n, io_offset = off, io_data = [], io_os = fl_os st\<rparr>"]
    by auto
  then show ?thesis using assms by (auto simp: file_pread_def)
qed

lemma file_pwrite_result:
  assumes "handle_at (fl_handles st) h = Inr fh" and "unat n \<le> length buf"
  shows "\<exists>r f. file_pwrite os h buf n off fl st = Inr (r, st\<lparr>fl_os := f\<rparr>) \<and> r \<in> {0, - 1}"
proof -
  obtain fw v where "while_flow io_pending (pwrite_body os (fh_fd fh))
      \<lparr>io_count = n, io_offset = off, io_data = buf, io_os = fl_os st\<rparr> = Some (Inr (fw, v))"
    and "flow_result fw \<in> {0, - 1}"
    using guarded_write_loop [of "\<lparr>io_count = n, io_offset = off, io_data = buf, io_os = fl_os st\<rparr>" "fh_fd fh"]
      assms(2) by auto
  then show ?thesis using assms(1) by (auto simp: file_pwrite_def)
qed

text \<open>The handle of a context stays in the table.\<close>

definition has_handle :: "handle \<Rightarrow> 'f file_state \<Rightarrow> bool" where
  "has_handle h st \<longleftrightarrow> (\<exists>fh. handle_at (fl_handles st) h = Inr fh)"

end

sublocale posix_calls \<subseteq> guard: guarded_device "file_pread os" 1 has_handle "file_pwrite os" "file_flush os"
proof
  fix h and st :: "'f file_state" and off :: u64 and n fl :: u32 and buf
  assume "has_handle h st"
  then obtain fh where fh: "handle_at (fl_handles st) h = Inr fh" by (auto simp: has_handle_def)
  show "\<exists>r d st'. file_pread os h n off fl st = Inr (r, d, st') \<and> has_handle h st' \<and> length d \<le> unat n * 1"
    using file_pread_result [OF fh, of n off fl] fh by (auto simp: has_handle_def)
  show "unat n * 1 \<le> length d" if "file_pread os h n off fl st = Inr (0, d, st')" for d st'
    using file_pread_result [OF fh, of n off fl] that by auto
  show "\<exists>r st'. file_pwrite os h buf n off fl st = Inr (r, st') \<and> has_handle h st'"
    if le: "unat n * 1 \<le> length buf"
    using file_pwrite_result [OF fh, of n buf off fl] le fh by (auto simp: has_handle_def)
  show "\<exists>r st'. file_flush os h fl st = Inr (r, st') \<and> has_handle h st'"
    using fh by (simp add: file_flush_def has_handle_def case_prod_beta)
qed

interpretation ramcalls: posix_calls ram_os
proof
  show "length d \<le> n" if "sys_pread ram_os fd n off f = (Some d, f')" for fd n off f d f'
    using that by (auto simp: ram_os_def ram_pread_def)
  show "0 < k \<and> k \<le> length b" if "sys_pwrite ram_os fd b off f = (Some k, f')" and "b \<noteq> []" for fd b off f k f'
    using that by (auto simp: ram_os_def ram_pwrite_def Let_def split: option.splits)
qed

section \<open>The plugin over system calls that fail\<close>

text \<open>
  C21.  Whatever short transfers and errors the operating system answers with, at whatever offset:
  \<^verbatim>\<open>file_pread\<close> ends, stores no more than \<open>count\<close> bytes, and returns 0 exactly when it stored them all, else
  \<^verbatim>\<open>-1\<close>; \<^verbatim>\<open>file_pwrite\<close> ends with 0 or \<^verbatim>\<open>-1\<close> without reading behind the buffer.
\<close>

theorem file_io_errors:
  assumes "posix_calls os" and "handle_at (fl_handles st) h = Inr fh" and "unat count \<le> length buf"
  shows "(\<exists>r d f. file_pread os h count offset fl st = Inr (r, d, st\<lparr>fl_os := f\<rparr>)
      \<and> length d \<le> unat count \<and> r \<in> {0, - 1} \<and> (r = 0 \<longleftrightarrow> length d = unat count))
    \<and> (\<exists>r f. file_pwrite os h buf count offset fl st = Inr (r, st\<lparr>fl_os := f\<rparr>) \<and> r \<in> {0, - 1})"
  using posix_calls.file_pread_result [OF assms(1,2)] posix_calls.file_pwrite_result [OF assms] by blast

text \<open>A read across the end of the file.\<close>

theorem file_io_errors_witness:
  "\<exists>r d f. file_pread ram_os (Some 0) 5 8 0 demo_file = Inr (r, d, demo_file\<lparr>fl_os := f\<rparr>)
    \<and> length d \<le> 5 \<and> (r = 0 \<longleftrightarrow> length d = 5)"
  using file_io_errors [OF ramcalls.posix_calls_axioms, of demo_file "Some 0" _ 5 "''abcde''" 8 0]
  by (auto simp: demo_file_def file_state_init_def FILE_DRIVER_MAX_DEVICES_def)

end
