(* ===== verification/Transmission_Safety.thy ===== *)
theory Transmission_Safety
  imports Transmission_Errors File_Guard
begin

text \<open>
  The transmission phase in front of a hostile client and a plugin that fails.  The locale
  \<open>guarded_export\<close> joins a transport with a plugin of the contract \<open>bounded_device\<close>; its lemmas show that
  the phase ends without a fault but for two ways, which are its parameters: \<open>wild\<close> allows a request of a
  type that has no name, which the code looks up behind its table, and \<open>short\<close> a plugin that reports a
  read it did not do, whose bytes the code sends without having written them.
\<close>

section \<open>Headers whose type has a name\<close>

text \<open>No 28 bytes of the stream are a request of a type that the table of names does not have.\<close>

definition named_header :: "byte list \<Rightarrow> bool" where
  "named_header b \<longleftrightarrow> rd32 0 b = NBD_REQUEST_MAGIC \<longrightarrow> unat (rq_type (dec_nbd_request b)) < 8"

definition named_requests :: "byte list \<Rightarrow> bool" where
  "named_requests s = every_window 28 named_header s"

section \<open>How the phase ends\<close>

text \<open>0 only comes from \<^verbatim>\<open>NBD_CMD_DISC\<close>, which marks the context; every other way out is \<^verbatim>\<open>-1\<close>.\<close>

definition closing :: "flow \<Rightarrow> ('c, 'w, 'n) tx \<Rightarrow> bool" where
  "closing fl t \<longleftrightarrow> (\<forall>v. fl = Return v \<longrightarrow> v = - 1 \<or> v = 0 \<and> nc_state (tx_ctx t) = ABORT)"

lemma closing_simps [simp]: "closing Next t" "closing Break t" "closing (Return (- 1)) t"
  by (simp_all add: closing_def)

lemma loop_closing:
  assumes "while_flow b body t = Some (Inr (fl, t'))"
    and "\<And>t fl t'. body t = Some (Inr (fl, t')) \<Longrightarrow> closing fl t'"
  shows "closing fl t' \<and> fl \<noteq> Break"
  by (rule while_flow_invariant [OF assms(1), where I = "\<lambda>_. True" and Q = "\<lambda>fl t. closing fl t \<and> fl \<noteq> Break"])
    (use assms(2) in \<open>auto intro: TrueI\<close>)

lemma read_body_closing: "read_body cfg io bz t = Some (Inr (fl, t')) \<Longrightarrow> closing fl t'"
  by (auto simp: read_body_def Let_def bindp_Some_iff ret_def split: if_splits)

lemma write_body_closing: "write_body cfg io bz t = Some (Inr (fl, t')) \<Longrightarrow> closing fl t'"
  by (auto simp: write_body_def Let_def bindp_Some_iff ret_def split: if_splits)

lemma dispatch_closing:
  assumes "dispatch cfg io bz q t = Some (Inr (fl, t'))"
  shows "closing fl t' \<and> fl \<noteq> Break"
proof -
  have rd: "closing fl t' \<and> fl \<noteq> Break" if rd: "cmd_read cfg io bz q t = Some (Inr (fl, t'))"
  proof -
    obtain t1 where "while_flow sending (read_body cfg io bz) t1 = Some (Inr (fl, t'))"
      using rd by (auto simp: cmd_read_def bindp_Some_iff)
    then show ?thesis by (rule loop_closing) (rule read_body_closing)
  qed
  have wr: "closing fl t' \<and> fl \<noteq> Break" if wr: "cmd_write cfg io bz q t = Some (Inr (fl, t'))"
  proof -
    obtain t1 t2 where l: "while_flow sending (write_body cfg io bz) t1 = Some (Inr (fl, t2))"
      and s: "send_reply io q (tx_error t2) 0 t2 = Some (Inr t')"
      using wr by (auto simp: cmd_write_def bindp_Some_iff ret_def)
    have "tx_ctx t' = tx_ctx t2" using s by (auto simp: send_reply_def bindp_Some_iff ret_def)
    then show ?thesis using loop_closing [OF l write_body_closing] by (simp add: closing_def)
  qed
  have fl: "closing fl t' \<and> fl \<noteq> Break" if "cmd_flush io q t = Some (Inr (fl, t'))"
    using that by (auto simp: cmd_flush_def Let_def bindp_Some_iff ret_def)
  show ?thesis
    using assms rd wr fl
    by (auto simp: dispatch_def bindp_Some_iff ret_def closing_def split: if_splits)
qed

lemma request_body_closing: "request_body cfg io bz t = Some (Inr (fl, t')) \<Longrightarrow> closing fl t' \<and> fl \<noteq> Break"
  using dispatch_closing
  by (fastforce simp: request_body_def Let_def bindp_Some_iff ret_def split: if_splits)

section \<open>The server within its buffers\<close>

locale guarded_export =
  stream_transport io inp out link + bounded_device pread bs ok pwrite flush
  for io :: "'n transport"
    and inp :: "'n \<Rightarrow> byte list"
    and out :: "'n \<Rightarrow> byte list"
    and link :: "'n \<Rightarrow> bool"
    and pread :: "handle \<Rightarrow> u32 \<Rightarrow> u64 \<Rightarrow> u32 \<Rightarrow> 'w \<Rightarrow> (int \<times> byte list \<times> 'w) result"
    and bs :: nat
    and ok :: "handle \<Rightarrow> 'w \<Rightarrow> bool"
    and pwrite :: "handle \<Rightarrow> byte list \<Rightarrow> u32 \<Rightarrow> u64 \<Rightarrow> u32 \<Rightarrow> 'w \<Rightarrow> (int \<times> 'w) result"
    and flush :: "handle \<Rightarrow> u32 \<Rightarrow> 'w \<Rightarrow> (int \<times> 'w) result" +
  fixes cfg :: nbd_config
    and blocksize :: u32
    and wild short :: bool
  assumes block: "unat blocksize = bs" "0 < bs"
    and shorts: "short_read pread bs ok \<Longrightarrow> short"
begin

definition excused :: "fault \<Rightarrow> bool" where
  "excused f \<longleftrightarrow> f = Out_Of_Bounds \<and> wild \<or> f = Uninitialised \<and> short"

definition equipped :: "('c, 'w, 'n) tx \<Rightarrow> bool" where
  "equipped t \<longleftrightarrow> (\<exists>p. plugin_of (tx_lw t) (tx_ctx t) = Inr p \<and> pl_pread p = Some pread
     \<and> pl_pwrite p = Some pwrite \<and> pl_flush p = Some flush) \<and> ok (ctx_handle (tx_ctx t)) (world (tx_lw t))"

text \<open>A piece fits the buffer, also when the variables are left over from an earlier request.\<close>

definition fits :: "('c, 'w, 'n) tx \<Rightarrow> bool" where
  "fits t \<longleftrightarrow> unat (tx_byteread t) = unat (tx_bufblksz t) * bs
     \<and> unat (tx_bufblksz t) * bs \<le> MAX_REQUEST_SIZE cfg"

definition guarded :: "('c, 'w, 'n) tx \<Rightarrow> bool" where
  "guarded t \<longleftrightarrow> equipped t \<and> fits t \<and> link (tx_net t) \<and> (wild \<or> named_requests (inp (tx_net t)))
     \<and> length (tx_buffer t) = MAX_REQUEST_SIZE cfg \<and> length (tx_request t) = 28
     \<and> nc_minimum_block_size (tx_ctx t) = blocksize"

lemma clamp_guarded:
  assumes "guarded t"
  shows "guarded (clamp blocksize t)"
proof -
  have f: "unat (tx_byteread t) = unat (tx_bufblksz t) * bs" "unat (tx_bufblksz t) * bs \<le> MAX_REQUEST_SIZE cfg"
    using assms by (simp_all add: guarded_def fits_def)
  have "fits (clamp blocksize t)"
  proof (cases "tx_blkremains t < tx_bufblksz t")
    case True
    then have lt: "unat (tx_blkremains t) * bs \<le> unat (tx_bufblksz t) * bs"
      by (simp add: word_less_nat_alt)
    then have "unat (tx_blkremains t) * unat blocksize \<le> unat (CONFIG_NBD_BUFFER_LEN cfg)"
      using f(2) unfolding MAX_REQUEST_SIZE_def block(1) by linarith
    then have "unat (tx_blkremains t * blocksize) = unat (tx_blkremains t) * bs"
      using unat_mult_le block(1) by simp
    moreover have "unat (tx_blkremains t) * bs \<le> MAX_REQUEST_SIZE cfg" using lt f(2) by linarith
    ultimately show ?thesis using True by (simp add: fits_def clamp_def Let_def)
  next
    case False
    then show ?thesis using f by (simp add: fits_def clamp_def Let_def)
  qed
  then show ?thesis using assms by (simp add: guarded_def equipped_def)
qed

lemma advance_guarded [simp]: "guarded (advance cfg t) = guarded t"
  by (simp add: guarded_def equipped_def fits_def advance_def)

text \<open>What the rest of the state cannot spoil.\<close>

lemma guarded_flags [simp]:
  "guarded (t\<lparr>tx_error := e\<rparr>) = guarded t" "guarded (t\<lparr>tx_sendflag := g\<rparr>) = guarded t"
  "guarded (t\<lparr>tx_retry := k\<rparr>) = guarded t"
  by (simp_all add: guarded_def equipped_def fits_def)

lemma guarded_send:
  assumes "guarded t"
  obtains n where "sync_send_cb io s d fl (tx_net t) = ret (int (length d), n)" and "guarded (t\<lparr>tx_net := n\<rparr>)"
proof -
  have "link (tx_net t)" using assms by (simp add: guarded_def)
  then obtain n where n: "sync_send_cb io s d fl (tx_net t) = ret (int (length d), n)"
    "inp n = inp (tx_net t)" "link n" by (rule sendE)
  have "guarded (t\<lparr>tx_net := n\<rparr>)" using assms n(2,3) by (simp add: guarded_def equipped_def fits_def)
  then show thesis using that n(1) by blast
qed

lemma named_drop: "wild \<or> named_requests s \<Longrightarrow> wild \<or> named_requests (drop k s)"
  using every_window_drop unfolding named_requests_def by blast

text \<open>A reception: all that was asked for, or less with the result 0.\<close>

lemma guarded_recv:
  assumes "guarded t" and "len < 2 ^ 63"
  obtains r d n where "sync_recv_cb io s len fl (tx_net t) = ret (r, d, n)" and "guarded (t\<lparr>tx_net := n\<rparr>)"
    and "length d \<le> len" and "(length d = len \<and> r = int len \<and> d = take len (inp (tx_net t))) \<or> (r = 0 \<and> 0 < len)"
proof -
  have l: "link (tx_net t)" using assms(1) by (simp add: guarded_def)
  show thesis
  proof (cases "len \<le> length (inp (tx_net t))")
    case True
    then obtain n where n: "sync_recv_cb io s len fl (tx_net t) = ret (int len, take len (inp (tx_net t)), n)"
      "inp n = drop len (inp (tx_net t))" "link n"
      using recv_full [OF l assms(2), of s fl] by auto
    then have "guarded (t\<lparr>tx_net := n\<rparr>)"
      using assms(1) named_drop by (auto simp: guarded_def equipped_def fits_def)
    then show thesis using that n(1) True by simp
  next
    case False
    then obtain n where n: "sync_recv_cb io s len fl (tx_net t) = ret (0, inp (tx_net t), n)" "inp n = []" "link n"
      using recv_short [OF l _ assms(2), of s fl] by auto
    have "named_requests []" by (simp add: named_requests_def)
    then have "guarded (t\<lparr>tx_net := n\<rparr>)"
      using assms(1) n by (simp add: guarded_def equipped_def fits_def)
    then show thesis using that n(1) False by auto
  qed
qed

lemma guarded_reply:
  assumes "guarded t"
  obtains t' where "send_reply io q err fl t = ret t'" and "guarded t'"
proof -
  obtain n where "sync_send_cb io (nc_sock (tx_ctx t)) (simple_reply q err) fl (tx_net t)
      = ret (int (length (simple_reply q err)), n)" and "guarded (t\<lparr>tx_net := n\<rparr>)"
    using guarded_send [OF assms] by metis
  then show thesis using that by (simp add: send_reply_def)
qed

subsection \<open>The loops\<close>

lemma guarded_read_body:
  assumes "guarded t"
  shows "(\<exists>fl t'. read_body cfg io blocksize t = Some (Inr (fl, t')) \<and> guarded t')
    \<or> short \<and> read_body cfg io blocksize t = Some (Inl Uninitialised)"
proof -
  let ?t1 = "clamp blocksize t"
  have g1: "guarded ?t1" by (rule clamp_guarded [OF assms])
  obtain p where p: "plugin_of (tx_lw ?t1) (tx_ctx ?t1) = Inr p" "pl_pread p = Some pread"
    and okw: "ok (ctx_handle (tx_ctx ?t1)) (world (tx_lw ?t1))" and lb: "length (tx_buffer ?t1) = MAX_REQUEST_SIZE cfg"
    and byt: "unat (tx_byteread ?t1) = unat (tx_bufblksz ?t1) * bs" "unat (tx_bufblksz ?t1) * bs \<le> MAX_REQUEST_SIZE cfg"
    using g1 by (auto simp: guarded_def equipped_def fits_def)
  obtain r d w where rd: "pread (ctx_handle (tx_ctx ?t1)) (tx_bufblksz ?t1) (tx_offset ?t1) 0 (world (tx_lw ?t1))
      = Inr (r, d, w)" "ok (ctx_handle (tx_ctx ?t1)) w" "length d \<le> unat (tx_bufblksz ?t1) * bs"
    using pread_safe [OF okw] by blast
  let ?buf = "map Some d @ drop (length d) (tx_buffer ?t1)"
  let ?t2 = "?t1\<lparr>tx_lw := (tx_lw ?t1)\<lparr>world := w\<rparr>, tx_buffer := ?buf\<rparr>"
  have ld: "length d \<le> length (tx_buffer ?t1)" using rd(3) byt(2) lb by simp
  have pr: "lwnbd_pread (tx_lw ?t1) (tx_ctx ?t1) (tx_bufblksz ?t1) (tx_offset ?t1) 0
      = Inr (r, d, (tx_lw ?t1)\<lparr>world := w\<rparr>)"
    using p rd(1) by (simp add: lwnbd_pread_def)
  have st: "store d (tx_buffer ?t1) = Inr ?buf" using ld by (rule store_fits)
  have g2: "guarded ?t2" using g1 rd(2) ld by (simp add: guarded_def equipped_def fits_def)
  show ?thesis
  proof (cases "r = 0")
    case True
    have le: "unat (tx_byteread ?t2) \<le> length ?buf" using byt lb ld by simp
    show ?thesis
    proof (cases "fetch (unat (tx_byteread ?t2)) ?buf")
      case (Inr b)
      obtain n where "sync_send_cb io (nc_sock (tx_ctx ?t2)) b (tx_sendflag ?t2) (tx_net ?t2)
          = ret (int (length b), n)" and "guarded (?t2\<lparr>tx_net := n\<rparr>)"
        using guarded_send [OF g2] by metis
      moreover have "guarded (advance cfg (?t2\<lparr>tx_net := n\<rparr>))" using calculation by simp
      ultimately show ?thesis using pr st True Inr by (simp add: read_body_def Let_def ret_def)
    next
      case (Inl f)
      then have f: "f = Uninitialised" using le by (auto simp: fetch_def mem_read_def split: if_splits)
      have "length d \<noteq> unat (tx_byteread ?t2)"
      proof
        assume "length d = unat (tx_byteread ?t2)"
        from fetch_prefix [OF this] Inl show False by simp
      qed
      then have "length d < unat (tx_bufblksz ?t1) * bs" using rd(3) byt(1) by simp
      then have "short_read pread bs ok" using rd(1) okw True unfolding short_read_def by blast
      then show ?thesis using pr st True Inl f shorts by (simp add: read_body_def Let_def)
    qed
  next
    case False
    then show ?thesis using pr st g2 by (simp add: read_body_def Let_def ret_def)
  qed
qed

lemma guarded_write_body:
  assumes "guarded t"
  shows "\<exists>fl t'. write_body cfg io blocksize t = Some (Inr (fl, t')) \<and> guarded t'"
proof -
  let ?t1 = "clamp blocksize t"
  have g1: "guarded ?t1" by (rule clamp_guarded [OF assms])
  have lb: "length (tx_buffer ?t1) = MAX_REQUEST_SIZE cfg"
    and byt: "unat (tx_byteread ?t1) = unat (tx_bufblksz ?t1) * bs" "unat (tx_bufblksz ?t1) * bs \<le> MAX_REQUEST_SIZE cfg"
    using g1 by (auto simp: guarded_def fits_def)
  have "unat (tx_byteread ?t1) < 2 ^ 63" using unsigned_less [of "tx_byteread ?t1", where ?'a = nat] by simp
  then obtain r d n where rc: "sync_recv_cb io (nc_sock (tx_ctx ?t1)) (unat (tx_byteread ?t1)) 0 (tx_net ?t1)
      = ret (r, d, n)" "guarded (?t1\<lparr>tx_net := n\<rparr>)" "length d \<le> unat (tx_byteread ?t1)"
      "length d = unat (tx_byteread ?t1) \<or> (r = 0 \<and> 0 < unat (tx_byteread ?t1))"
    using guarded_recv [OF g1] by metis
  let ?buf = "map Some d @ drop (length d) (tx_buffer ?t1)"
  let ?t2 = "?t1\<lparr>tx_net := n, tx_buffer := ?buf\<rparr>"
  have ld: "length d \<le> length (tx_buffer ?t1)" using rc(3) byt lb by simp
  have st: "store d (tx_buffer ?t1) = Inr ?buf" using ld by (rule store_fits)
  have g2: "guarded ?t2" using rc(2) ld by (simp add: guarded_def equipped_def fits_def)
  show ?thesis
  proof (cases "word_of_int r = tx_byteread ?t2")
    case False
    then show ?thesis using rc(1) st g2 by (simp add: write_body_def Let_def ret_def)
  next
    case True
    then have "length d = unat (tx_byteread ?t1)" using rc(4) by auto
    moreover have "length (take (length d) (filled ?buf)) = length d" by simp
    then have "length d \<le> length (filled ?buf)" unfolding length_take by linarith
    ultimately have le: "unat (tx_bufblksz ?t2) * bs \<le> length (filled ?buf)" using byt(1) by simp
    obtain p where p: "plugin_of (tx_lw ?t2) (tx_ctx ?t2) = Inr p" "pl_pwrite p = Some pwrite"
      and okw: "ok (ctx_handle (tx_ctx ?t2)) (world (tx_lw ?t2))"
      using g2 by (auto simp: guarded_def equipped_def)
    obtain r' w where wr: "pwrite (ctx_handle (tx_ctx ?t2)) (filled ?buf) (tx_bufblksz ?t2) (tx_offset ?t2) 0
        (world (tx_lw ?t2)) = Inr (r', w)" "ok (ctx_handle (tx_ctx ?t2)) w"
      using pwrite_safe [OF okw le] by blast
    have pw: "lwnbd_pwrite (tx_lw ?t2) (tx_ctx ?t2) (filled ?buf) (tx_bufblksz ?t2) (tx_offset ?t2) 0
        = Inr (r', (tx_lw ?t2)\<lparr>world := w\<rparr>)"
      using p wr(1) by (simp add: lwnbd_pwrite_def)
    have g3: "guarded (?t2\<lparr>tx_lw := (tx_lw ?t2)\<lparr>world := w\<rparr>\<rparr>)"
      using g2 wr(2) by (simp add: guarded_def equipped_def fits_def)
    show ?thesis using rc(1) st True pw g3 by (simp add: write_body_def Let_def ret_def)
  qed
qed

lemma guarded_loop:
  assumes body: "\<And>t. guarded t \<Longrightarrow> (\<exists>fl t'. body t = Some (Inr (fl, t')) \<and> guarded t')
      \<or> short \<and> body t = Some (Inl Uninitialised)"
    and "guarded t"
  shows "while_flow b body t = Some (Inl f) \<Longrightarrow> excused f"
    and "while_flow b body t = Some (Inr (fl, t')) \<Longrightarrow> guarded t'"
proof -
  have step: "guarded s'" if "guarded s" "body s = Some (Inr (fl, s'))" for s fl s'
    using body [OF that(1)] that(2) by auto
  have "E f" if "guarded s" "body s = Some (Inl f)" "E Uninitialised \<or> \<not> short" for s f E
    using body [OF that(1)] that(2,3) by auto
  then show "excused f" if "while_flow b body t = Some (Inl f)"
    by (rule while_flow_faults [where I = guarded, OF that assms(2)]) (use step in \<open>auto simp: excused_def\<close>)
  show "guarded t'" if "while_flow b body t = Some (Inr (fl, t'))"
    by (rule while_flow_invariant [OF that, where I = guarded and Q = "\<lambda>_. guarded"])
      (use assms(2) step in blast)+
qed

subsection \<open>The requests\<close>

lemma guarded_start:
  assumes "guarded t"
  shows "\<exists>t'. start cfg blocksize q t = Inr t' \<and> guarded t'"
proof -
  let ?k = "CONFIG_NBD_BUFFER_LEN cfg div blocksize"
  have bz: "blocksize \<noteq> 0" using block by auto
  have "unat ?k * unat blocksize \<le> unat (CONFIG_NBD_BUFFER_LEN cfg)" by (simp add: unat_div)
  then have "unat (?k * blocksize) = unat ?k * bs" and "unat ?k * bs \<le> MAX_REQUEST_SIZE cfg"
    using unat_mult_le [of ?k blocksize] block(1) by (simp_all add: MAX_REQUEST_SIZE_def)
  then show ?thesis
    using bz assms by (simp add: start_def Let_def guarded_def equipped_def fits_def)
qed

lemma guarded_cmd_read:
  assumes "guarded t"
  shows "cmd_read cfg io blocksize q t = Some (Inl f) \<Longrightarrow> excused f"
    and "cmd_read cfg io blocksize q t = Some (Inr (fl, t')) \<Longrightarrow> guarded t'"
proof -
  have "\<exists>t1. (if past_end q (tx_ctx t) then Inr (t\<lparr>tx_error := NBD_EIO\<rparr>)
      else start cfg blocksize q t) = Inr t1 \<and> guarded t1"
    using guarded_start [OF assms, of q] assms by simp
  then obtain t1 where t1: "(if past_end q (tx_ctx t) then Inr (t\<lparr>tx_error := NBD_EIO\<rparr>)
      else start cfg blocksize q t) = Inr t1" "guarded t1" by blast
  obtain t2 where t2: "send_reply io q (tx_error t1) (tx_sendflag t1) t1 = ret t2" "guarded t2"
    using guarded_reply [OF t1(2)] by metis
  have "cmd_read cfg io blocksize q t = while_flow sending (read_body cfg io blocksize) t2"
    using t1(1) t2(1) by (simp add: cmd_read_def)
  then show "cmd_read cfg io blocksize q t = Some (Inl f) \<Longrightarrow> excused f"
    and "cmd_read cfg io blocksize q t = Some (Inr (fl, t')) \<Longrightarrow> guarded t'"
    using guarded_loop [OF guarded_read_body t2(2)] by simp_all
qed

lemma guarded_cmd_write:
  assumes "guarded t"
  shows "cmd_write cfg io blocksize q t = Some (Inl f) \<Longrightarrow> excused f"
    and "cmd_write cfg io blocksize q t = Some (Inr (fl, t')) \<Longrightarrow> guarded t'"
proof -
  have "\<exists>t1. (if nc_eflags (tx_ctx t) AND NBD_FLAG_READ_ONLY \<noteq> 0 then Inr (t\<lparr>tx_error := NBD_EPERM\<rparr>)
      else if past_end q (tx_ctx t) then Inr (t\<lparr>tx_error := NBD_ENOSPC\<rparr>)
      else start cfg blocksize q t) = Inr t1 \<and> guarded t1"
    using guarded_start [OF assms, of q] assms by simp
  then obtain t1 where t1: "(if nc_eflags (tx_ctx t) AND NBD_FLAG_READ_ONLY \<noteq> 0 then Inr (t\<lparr>tx_error := NBD_EPERM\<rparr>)
      else if past_end q (tx_ctx t) then Inr (t\<lparr>tx_error := NBD_ENOSPC\<rparr>)
      else start cfg blocksize q t) = Inr t1" "guarded t1" by blast
  let ?m = "while_flow sending (write_body cfg io blocksize) t1"
  have eq: "cmd_write cfg io blocksize q t =
      bindp ?m (\<lambda>(fl, t2). bindp (send_reply io q (tx_error t2) 0 t2) (\<lambda>t3. ret (fl, t3)))"
    using t1(1) by (simp add: cmd_write_def)
  have wb: "(\<exists>fl t'. write_body cfg io blocksize s = Some (Inr (fl, t')) \<and> guarded t')
      \<or> short \<and> write_body cfg io blocksize s = Some (Inl Uninitialised)" if "guarded s" for s
    using guarded_write_body [OF that] by blast
  have ok: "\<exists>t3. bindp (send_reply io q (tx_error t2) 0 t2) (\<lambda>t3. ret (fl, t3)) = ret (fl, t3) \<and> guarded t3"
    if "?m = Some (Inr (fl, t2))" for fl t2
    using guarded_reply [OF guarded_loop(2) [OF wb t1(2) that]] by (metis bindp_simps(4))
  show "excused f" if "cmd_write cfg io blocksize q t = Some (Inl f)"
  proof (cases ?m)
    case (Some r)
    then show ?thesis using guarded_loop(1) [OF wb t1(2)] ok eq that by (cases r) fastforce+
  qed (use that eq in simp)
  show "guarded t'" if "cmd_write cfg io blocksize q t = Some (Inr (fl, t'))"
    using that ok unfolding eq bindp_Some_iff by fastforce
qed

lemma guarded_cmd_flush:
  assumes "guarded t"
  shows "\<exists>t'. cmd_flush io q t = ret (Next, t') \<and> guarded t'"
proof -
  obtain p where p: "plugin_of (tx_lw t) (tx_ctx t) = Inr p" "pl_flush p = Some flush"
    and okw: "ok (ctx_handle (tx_ctx t)) (world (tx_lw t))"
    using assms by (auto simp: guarded_def equipped_def)
  obtain r w where fl: "flush (ctx_handle (tx_ctx t)) 0 (world (tx_lw t)) = Inr (r, w)"
    "ok (ctx_handle (tx_ctx t)) w" using flush_safe [OF okw] by blast
  let ?t1 = "t\<lparr>tx_lw := (tx_lw t)\<lparr>world := w\<rparr>, tx_error := (if r = 0 then NBD_SUCCESS else NBD_EIO)\<rparr>"
  have "guarded ?t1" using assms fl(2) by (simp add: guarded_def equipped_def fits_def)
  then obtain t' where "send_reply io q (tx_error ?t1) 0 ?t1 = ret t'" "guarded t'"
    using guarded_reply by metis
  then show ?thesis using p fl(1) by (simp add: cmd_flush_def lwnbd_flush_def Let_def)
qed

lemma guarded_dispatch:
  assumes "guarded t"
  shows "dispatch cfg io blocksize q t = Some (Inl f) \<Longrightarrow> excused f"
    and "dispatch cfg io blocksize q t = Some (Inr (fl, t')) \<Longrightarrow> guarded t'"
proof -
  have disc: "guarded (t\<lparr>tx_ctx := (tx_ctx t)\<lparr>nc_state := s\<rparr>\<rparr>)" for s
    using assms by (simp add: guarded_def equipped_def fits_def plugin_of_def)
  obtain t1 where "send_reply io q NBD_EINVAL 0 t = ret t1" "guarded t1"
    using guarded_reply [OF assms] by metis
  then show "dispatch cfg io blocksize q t = Some (Inl f) \<Longrightarrow> excused f"
    and "dispatch cfg io blocksize q t = Some (Inr (fl, t')) \<Longrightarrow> guarded t'"
    using disc guarded_cmd_read [OF assms, of q] guarded_cmd_write [OF assms, of q] guarded_cmd_flush [OF assms, of q]
    by (auto simp: dispatch_def ret_def split: if_splits)
qed

lemma guarded_request_body:
  assumes "guarded t"
  shows "request_body cfg io blocksize t = Some (Inl f) \<Longrightarrow> excused f"
    and "request_body cfg io blocksize t = Some (Inr (fl, t')) \<Longrightarrow> guarded t'"
proof -
  have l: "link (tx_net t)" and nr: "wild \<or> named_requests (inp (tx_net t))" and lr: "length (tx_request t) = 28"
    using assms by (simp_all add: guarded_def)
  have "(request_body cfg io blocksize t = Some (Inl f) \<longrightarrow> excused f) \<and>
      (request_body cfg io blocksize t = Some (Inr (fl, t')) \<longrightarrow> guarded t')"
  proof (cases "28 \<le> length (inp (tx_net t))")
    case False
    then obtain n where n: "sync_recv_cb io (nc_sock (tx_ctx t)) 28 0 (tx_net t) = ret (0, inp (tx_net t), n)"
      "inp n = []" "link n"
      using recv_short [OF l, of 28] by auto
    let ?t1 = "t\<lparr>tx_request := map Some (inp (tx_net t)) @ drop (length (inp (tx_net t))) (tx_request t), tx_net := n\<rparr>"
    have "lt_size 0 28" by (simp add: lt_size_def)
    then have "request_body cfg io blocksize t = ret (Return (- 1), ?t1)"
      using n(1) False lr by (simp add: request_body_def Let_def)
    moreover have "guarded ?t1"
      using assms n(2,3) False lr by (simp add: named_requests_def guarded_def equipped_def fits_def)
    ultimately show ?thesis by (auto simp: ret_def)
  next
    case True
    let ?b = "take 28 (inp (tx_net t))"
    have "inp (tx_net t) = ?b @ drop 28 (inp (tx_net t))" "length ?b = 28" using True by simp_all
    then obtain n where n: "link n" "inp n = drop 28 (inp (tx_net t))"
      and eq: "request_body cfg io blocksize t =
        (let t1 = t\<lparr>tx_request := map Some ?b, tx_net := n\<rparr>; q = dec_nbd_request ?b
         in if rd32 0 ?b \<noteq> NBD_REQUEST_MAGIC then ret (Return (- 1), t1)
            else if 8 \<le> unat (rq_type q) then Some (Inl Out_Of_Bounds)
            else dispatch cfg io blocksize q (t1\<lparr>tx_request := map Some (host_request q)\<rparr>))"
      using header_received [OF l _ _ lr] by metis
    let ?q = "dec_nbd_request ?b"
    let ?t2 = "t\<lparr>tx_net := n, tx_request := map Some (host_request ?q)\<rparr>"
    have "length (host_request ?q) = 28" by (simp add: host_request_def)
    then have "guarded ?t2"
      using assms n named_drop [OF nr] by (simp add: guarded_def equipped_def fits_def)
    then have d: "dispatch cfg io blocksize ?q ?t2 = Some (Inl f) \<longrightarrow> excused f"
      "dispatch cfg io blocksize ?q ?t2 = Some (Inr (fl, t')) \<longrightarrow> guarded t'"
      using guarded_dispatch by blast+
    show ?thesis
    proof (cases "rd32 0 ?b = NBD_REQUEST_MAGIC")
      case True
      then have "\<not> 8 \<le> unat (rq_type ?q)" if "\<not> wild"
        using every_window_head [of 28 named_header "inp (tx_net t)"] nr that \<open>28 \<le> length (inp (tx_net t))\<close>
        by (simp add: named_header_def named_requests_def)
      moreover have "request_body cfg io blocksize t
          = (if 8 \<le> unat (rq_type ?q) then Some (Inl Out_Of_Bounds) else dispatch cfg io blocksize ?q ?t2)"
        using eq True by (simp add: Let_def)
      ultimately show ?thesis using d by (auto simp: excused_def)
    next
      case False
      have "guarded (t\<lparr>tx_request := map Some ?b, tx_net := n\<rparr>)"
        using assms n named_drop [OF nr] \<open>28 \<le> length (inp (tx_net t))\<close>
        by (simp add: guarded_def equipped_def fits_def)
      then show ?thesis using False by (auto simp: eq Let_def ret_def)
    qed
  qed
  then show "request_body cfg io blocksize t = Some (Inl f) \<Longrightarrow> excused f"
    and "request_body cfg io blocksize t = Some (Inr (fl, t')) \<Longrightarrow> guarded t'" by blast+
qed

lemma transmission_loop_guarded:
  fixes t :: "('c, 'w, 'n) tx"
  assumes "answers io" and "guarded t" and "progress t" and "blocksize \<le> CONFIG_NBD_BUFFER_LEN cfg"
  obtains (ends) r t' where "while_flow (\<lambda>_. True) (request_body cfg io blocksize) t = Some (Inr (Return r, t'))"
      and "guarded t'" and "r = - 1 \<or> r = 0 \<and> nc_state (tx_ctx t') = ABORT
        \<and> length (inp (tx_net t')) < length (inp (tx_net t))"
  | (fault) f where "while_flow (\<lambda>_. True) (request_body cfg io blocksize) t = Some (Inl f)" and "excused f"
proof -
  let ?body = "request_body cfg io blocksize"
  have l: "link (tx_net s)" if "guarded s" for s using that by (simp add: guarded_def)
  have "\<exists>y. while_flow (\<lambda>_. True) ?body t = Some y"
  proof (rule while_flow_returns [where P = "\<lambda>s. guarded s \<and> progress s" and R = "measure (\<lambda>s. length (inp (tx_net s)))"])
    fix s :: "('c, 'w, 'n) tx"
    assume s: "guarded s \<and> progress s"
    show "\<exists>x. ?body s = Some x" using request_body_returns [OF assms(1) l _ assms(4)] s by blast
    show "(guarded s' \<and> progress s') \<and> (s', s) \<in> measure (\<lambda>s. length (inp (tx_net s)))"
      if "?body s = Some (Inr (Next, s'))" for s'
      using guarded_request_body(2) [OF _ that] request_body_good [OF l _ assms(4) that] s by auto
  qed (use assms in simp_all)
  then obtain y where y: "while_flow (\<lambda>_. True) ?body t = Some y" by blast
  show thesis
  proof (cases y)
    case (Inl f)
    then have f: "while_flow (\<lambda>_. True) ?body t = Some (Inl f)" using y by simp
    have "excused f"
      by (rule while_flow_faults [where I = guarded, OF f assms(2)]) (use guarded_request_body in blast)+
    then show thesis using fault f by blast
  next
    case (Inr z)
    then obtain fl t' where w: "while_flow (\<lambda>_. True) ?body t = Some (Inr (fl, t'))" using y by (cases z) simp
    have "guarded t' \<and> (\<exists>r. fl = Return r \<and> (r = - 1 \<or> r = 0 \<and> nc_state (tx_ctx t') = ABORT
        \<and> length (inp (tx_net t')) < length (inp (tx_net t))))"
    proof (rule while_flow_invariant [OF w, where I = "\<lambda>s. guarded s \<and> progress s
          \<and> length (inp (tx_net s)) \<le> length (inp (tx_net t))"
        and Q = "\<lambda>fl s. guarded s \<and> (\<exists>r. fl = Return r \<and> (r = - 1 \<or> r = 0 \<and> nc_state (tx_ctx s) = ABORT
          \<and> length (inp (tx_net s)) < length (inp (tx_net t))))"])
      fix s s' :: "('c, 'w, 'n) tx" and v
      assume s: "guarded s \<and> progress s \<and> length (inp (tx_net s)) \<le> length (inp (tx_net t))"
      show "guarded s' \<and> progress s' \<and> length (inp (tx_net s')) \<le> length (inp (tx_net t))"
        if "?body s = Some (Inr (Next, s'))"
        using guarded_request_body(2) [OF _ that] request_body_good [OF l _ assms(4) that] s by auto
      show "guarded s' \<and> (\<exists>r. Next = Return r \<and> (r = - 1 \<or> r = 0 \<and> nc_state (tx_ctx s') = ABORT
          \<and> length (inp (tx_net s')) < length (inp (tx_net t))))" if "?body s = Some (Inr (Break, s'))"
        using request_body_closing [OF that] by simp
      show "guarded s' \<and> (\<exists>r. Return v = Return r \<and> (r = - 1 \<or> r = 0 \<and> nc_state (tx_ctx s') = ABORT
          \<and> length (inp (tx_net s')) < length (inp (tx_net t))))" if "?body s = Some (Inr (Return v, s'))"
        using guarded_request_body(2) [OF _ that] request_body_good [OF l _ assms(4) that]
          request_body_closing [OF that] s by (auto simp: closing_def)
    qed (use assms in simp_all)
    then show thesis using ends w by blast
  qed
qed

text \<open>A phase ends in a state from which the next one can start.\<close>

lemma phase_guarded:
  fixes lw :: "('c, 'w) lwnbd"
  assumes "answers io" and "blocksize \<le> CONFIG_NBD_BUFFER_LEN cfg" and "guarded (tx_start cfg ctx lw n)"
  obtains (ends) r ctx' lw' n' where "transmission_phase cfg io (Some ctx) lw n = ret (r, Some ctx', lw', n')"
      and "guarded (tx_start cfg ctx' lw' n')"
      and "r = - 1 \<or> r = 0 \<and> nc_state ctx' = ABORT \<and> length (inp n') < length (inp n)"
  | (fault) f where "transmission_phase cfg io (Some ctx) lw n = Some (Inl f)" and "excused f"
proof -
  let ?t = "tx_start cfg ctx lw n"
  have p: "progress ?t" by (simp add: tx_start_def progress_def)
  have b: "nc_minimum_block_size ctx = blocksize" using assms(3) by (simp add: guarded_def tx_start_def)
  show thesis
  proof (rule transmission_loop_guarded [OF assms(1,3) p assms(2)])
    fix f
    assume "while_flow (\<lambda>_. True) (request_body cfg io blocksize) ?t = Some (Inl f)" "excused f"
    then show thesis using fault b by (simp add: transmission_phase_def)
  next
    fix r t'
    assume w: "while_flow (\<lambda>_. True) (request_body cfg io blocksize) ?t = Some (Inr (Return r, t'))" "guarded t'"
      "r = - 1 \<or> r = 0 \<and> nc_state (tx_ctx t') = ABORT \<and> length (inp (tx_net t')) < length (inp (tx_net ?t))"
    have "transmission_phase cfg io (Some ctx) lw n = ret (r, Some (tx_ctx t'), tx_lw t', tx_net t')"
      using w(1) b by (simp add: transmission_phase_def ret_def)
    moreover have "guarded (tx_start cfg (tx_ctx t') (tx_lw t') (tx_net t'))"
      using w(2) by (simp add: guarded_def equipped_def fits_def tx_start_def)
    ultimately show thesis using ends w(3) by (simp add: tx_start_def)
  qed
qed

end

section \<open>Properties\<close>

text \<open>The two ways out that the locale excuses, for a given stream and a given plugin.\<close>

abbreviation wild_stream :: "byte list \<Rightarrow> bool" where
  "wild_stream s \<equiv> \<not> named_requests s"

lemma guarded_start_state:
  fixes lw :: "('c, 'w) lwnbd" and n :: 'n
  assumes "stream_transport io inp out link" and "bounded_device pread bs ok pwrite flush"
    and "link n" and "unat (nc_minimum_block_size ctx) = bs" and "0 < bs" and "bs \<le> MAX_REQUEST_SIZE cfg"
    and "plugin_of lw ctx = Inr p" and "pl_pread p = Some pread" and "pl_pwrite p = Some pwrite"
    and "pl_flush p = Some flush" and "ok (ctx_handle ctx) (world lw)"
  shows "guarded_export io inp out link pread bs ok pwrite flush (nc_minimum_block_size ctx) (short_read pread bs ok)"
    and "nc_minimum_block_size ctx \<le> CONFIG_NBD_BUFFER_LEN cfg"
    and "guarded_export.guarded inp link pread bs ok pwrite flush cfg (nc_minimum_block_size ctx)
           (wild_stream (inp n)) (tx_start cfg ctx lw n)"
proof -
  show ex: "guarded_export io inp out link pread bs ok pwrite flush (nc_minimum_block_size ctx) (short_read pread bs ok)"
    using assms(1,2,4,5) by (simp add: guarded_export_def guarded_export_axioms_def)
  show "nc_minimum_block_size ctx \<le> CONFIG_NBD_BUFFER_LEN cfg"
    using assms(4,6) by (simp add: word_le_nat_alt MAX_REQUEST_SIZE_def)
  show "guarded_export.guarded inp link pread bs ok pwrite flush cfg (nc_minimum_block_size ctx)
      (wild_stream (inp n)) (tx_start cfg ctx lw n)"
    unfolding guarded_export.guarded_def [OF ex] guarded_export.equipped_def [OF ex] guarded_export.fits_def [OF ex]
    using assms(3,4,7-11) by (simp add: tx_start_def)
qed

text \<open>The file plugin behind the TCP transport is such an export, whatever the system calls answer.\<close>

interpretation demo_guard: guarded_export "tcp_transport sock_os" so_in so_out "\<lambda>_. True" "file_pread ram_os" 1
  ramcalls.has_handle "file_pwrite ram_os" "file_flush ram_os" demo_cfg 1 True False
  by unfold_locales (use ramcalls.guard.no_short_read in simp_all)


text \<open>A file server and a client that asks for the last byte of the address space.\<close>

lemma last_byte_named: "named_requests (enc_nbd_request last_byte)"
proof -
  have l: "length (enc_nbd_request last_byte) = 28" by (rule request.enc_length) simp
  have "dec_nbd_request (enc_nbd_request last_byte) = last_byte" by (rule request.dec_enc) simp
  then have nh: "named_header (enc_nbd_request last_byte)"
    by (simp add: named_header_def last_byte_def nbd_consts)
  then show ?thesis using l by (simp add: named_requests_def every_window_once)
qed


end
