(* ===== verification/Handshake_Safety.thy ===== *)
theory Handshake_Safety
  imports Handshake_Claims
begin

text \<open>
  The negotiation in front of a hostile client: whatever bytes come, the option loop ends and stays
  within its arrays, unless an option has a number outside the table of names or data that just fills
  the buffer, or the dispatcher faults on a name that the client has sent.  Those are the faults of the
  negotiation; this is the proof that there are no others.
\<close>

section \<open>Options the code survives\<close>

definition named_option :: "nbd_config \<Rightarrow> byte list \<Rightarrow> bool" where
  "named_option cfg b \<longleftrightarrow>
     (let q = dec_nbd_new_option b
      in rd64 0 b = NBD_NEW_VERSION \<longrightarrow>
           unat (no_option q) < 10 \<and> (no_optlen q = 0 \<or> unat (no_optlen q) \<noteq> MAX_REQUEST_SIZE cfg))"

definition named_options :: "nbd_config \<Rightarrow> byte list \<Rightarrow> bool" where
  "named_options cfg s = every_window 16 (named_option cfg) s"

text \<open>
  The name in an \<^verbatim>\<open>NBD_OPT_EXPORT_NAME\<close> that stands somewhere in the bytes of a client: its data, which fits
  the buffer, up to the first NUL.
\<close>

definition offered :: "nbd_config \<Rightarrow> byte list \<Rightarrow> string \<Rightarrow> bool" where
  "offered cfg s name \<longleftrightarrow>
     (\<exists>a d b. s = a @ enc_nbd_new_option \<lparr>no_version = NBD_NEW_VERSION, no_option = NBD_OPT_EXPORT_NAME,
          no_optlen = of_nat (length d)\<rparr> @ d @ b
        \<and> 0 < length d \<and> length d < MAX_REQUEST_SIZE cfg \<and> name = takeWhile (\<lambda>c. c \<noteq> NUL) d)"

text \<open>The faults that a stream of options can provoke.\<close>

definition provoked :: "nbd_config \<Rightarrow> ('c, 'w) lwnbd \<Rightarrow> byte list \<Rightarrow> fault \<Rightarrow> bool" where
  "provoked cfg lw s f \<longleftrightarrow> f = Out_Of_Bounds \<and> \<not> named_options cfg s
     \<or> (\<exists>name. offered cfg s name \<and> uri_dispatch lw name = Inl f)"

lemma offered_drop:
  assumes "offered cfg (drop k s) name"
  shows "offered cfg s name"
proof -
  obtain a d b where d: "drop k s = a @ enc_nbd_new_option \<lparr>no_version = NBD_NEW_VERSION,
      no_option = NBD_OPT_EXPORT_NAME, no_optlen = of_nat (length d)\<rparr> @ d @ b"
    "0 < length d" "length d < MAX_REQUEST_SIZE cfg" "name = takeWhile (\<lambda>c. c \<noteq> NUL) d"
    using assms unfolding offered_def by blast
  have "s = (take k s @ a) @ enc_nbd_new_option \<lparr>no_version = NBD_NEW_VERSION,
      no_option = NBD_OPT_EXPORT_NAME, no_optlen = of_nat (length d)\<rparr> @ d @ b"
    using append_take_drop_id [of k s] d(1) by simp
  then show ?thesis using d(2-4) unfolding offered_def by blast
qed

lemma provoked_drop: "provoked cfg lw (drop k s) f \<Longrightarrow> provoked cfg lw s f"
  using offered_drop every_window_drop [of 16 "named_option cfg" s k]
  unfolding provoked_def named_options_def by blast

text \<open>How the option loop ends.\<close>

definition settled :: "flow \<Rightarrow> ('c, 'w, 'n) hs \<Rightarrow> bool" where
  "settled fl t \<longleftrightarrow> fl = Next \<or> fl = Return (- 1)
     \<or> fl = Return 0 \<and> (nc_state (hs_ctx t) = TRANSMISSION \<and> cl_ctx (hs_client t) \<noteq> None \<or> nc_state (hs_ctx t) = ABORT)"

context stream_transport
begin

lemma option_data_safe:
  fixes t :: "('c, 'w, 'n) hs"
  assumes "haggles cfg t" and "unat len \<le> MAX_REQUEST_SIZE cfg"
  obtains (overrun) "option_data io len t = Some (Inl Out_Of_Bounds)" and "len \<noteq> 0" and "unat len = MAX_REQUEST_SIZE cfg"
  | (short) t' where "option_data io len t = ret (Return (- 1), t')"
  | (full) t' where "option_data io len t = ret (Next, t')" and "haggles cfg t'" and "same_peer t t'"
      and "inp (hs_net t') = drop (unat len) (inp (hs_net t))"
      and "len \<noteq> 0 \<Longrightarrow> \<exists>z. hs_buffer t' = map Some (take (unat len) (inp (hs_net t)) @ [NUL]) @ z
        \<and> length (take (unat len) (inp (hs_net t))) = unat len"
proof -
  have inv: "inv (hs_net t)" and lb: "length (hs_buffer t) = MAX_REQUEST_SIZE cfg"
    using assms(1) by (simp_all add: haggles_def)
  show thesis
  proof (cases "len = 0")
    case True
    then have "option_data io len t = ret (Next, t)" by (simp add: option_data_def)
    then show thesis using full [of t] True assms(1) by (simp add: same_peer_def)
  next
    case False
    then have nz: "0 < unat len" by (simp add: unat_gt_0)
    have l63: "unat len < 2 ^ 63" using unsigned_less [of len, where ?'a = nat] by simp
    show thesis
    proof (cases "unat len \<le> length (inp (hs_net t))")
      case fit: True
      let ?d = "take (unat len) (inp (hs_net t))"
      have i: "inp (hs_net t) = ?d @ drop (unat len) (inp (hs_net t))" by simp
      have ld: "length ?d = unat len" "?d \<noteq> []" using fit nz by auto
      then have ln: "of_nat (length ?d) = len" by simp
      show thesis
      proof (cases "unat len = MAX_REQUEST_SIZE cfg")
        case True
        obtain n' where "sync_recv_cb io (cl_sock (hs_client t)) (unat len) 0 (hs_net t) = ret (int (unat len), ?d, n')"
          using recv_full [OF inv l63 fit] by metis
        moreover have "store ?d (hs_buffer t) = Inr (map Some ?d)" using ld(1) lb True by simp
        moreover have "\<not> (word_of_int (int (unat len)) :: u32) < len" by simp
        moreover have "mem_write (unat len) [Some NUL] (map Some ?d) = Inl Out_Of_Bounds"
          using ld(1) by (simp add: mem_write_def)
        ultimately show thesis using overrun False True by (simp add: option_data_def)
      next
        case lt0: False
        then have lt: "unat len < MAX_REQUEST_SIZE cfg" using assms(2) by simp
        have lt': "length ?d < MAX_REQUEST_SIZE cfg" using ld(1) lt by simp
        obtain buf n' where n': "option_data io (of_nat (length ?d)) t = ret (Next, t\<lparr>hs_buffer := buf, hs_net := n'\<rparr>)"
          "inp n' = drop (unat len) (inp (hs_net t))" "inv n'" "length buf = MAX_REQUEST_SIZE cfg"
          "\<exists>z. buf = map Some (?d @ [NUL]) @ z"
          using option_data_ok [OF inv i lt' lb] ld(2) by metis
        show thesis
          by (rule full [of "t\<lparr>hs_buffer := buf, hs_net := n'\<rparr>"])
            (use n' ln ld(1) assms(1) in \<open>auto simp: haggles_def same_peer_def\<close>)
      qed
    next
      case False
      then obtain n' where "sync_recv_cb io (cl_sock (hs_client t)) (unat len) 0 (hs_net t) = ret (0, inp (hs_net t), n')"
        using recv_short [OF inv _ l63] by (metis not_le)
      moreover have "(word_of_int 0 :: u32) < len" using \<open>len \<noteq> 0\<close> by (simp add: word_gt_0)
      moreover have "length (inp (hs_net t)) \<le> length (hs_buffer t)" using False assms(2) lb by simp
      ultimately show thesis using short \<open>len \<noteq> 0\<close> by (simp add: option_data_def)
    qed
  qed
qed

lemma option_export_safe:
  fixes t :: "('c, 'w, 'n) hs"
  assumes "inv (hs_net t)" and "len \<noteq> 0 \<Longrightarrow> unat len < MAX_REQUEST_SIZE cfg"
    and buf: "len \<noteq> 0 \<Longrightarrow> \<exists>z. hs_buffer t = map Some (d @ [NUL]) @ z \<and> length d = unat len"
  shows "(\<exists>fl t'. option_export io cflags len t = Some (Inr (fl, t')) \<and> settled fl t' \<and> fl \<noteq> Next)
    \<or> (\<exists>f. option_export io cflags len t = Some (Inl f) \<and> len \<noteq> 0
      \<and> uri_dispatch (hs_lw t) (takeWhile (\<lambda>c. c \<noteq> NUL) d) = Inl f)"
proof -
  let ?m = "if 0 < len
      then bindr (string_buffer (hs_buffer t)) (\<lambda>b. bindr (lwnbd_get_context (hs_lw t) b 0) (\<lambda>(c, _, lw).
             Inr (t\<lparr>hs_client := (hs_client t)\<lparr>cl_ctx := c\<rparr>, hs_lw := lw\<rparr>)))
      else Inr t"
  have m: "(\<exists>t1. ?m = Inr t1 \<and> hs_net t1 = hs_net t)
    \<or> (\<exists>f. ?m = Inl f \<and> len \<noteq> 0 \<and> uri_dispatch (hs_lw t) (takeWhile (\<lambda>c. c \<noteq> NUL) d) = Inl f)"
  proof (cases "len = 0")
    case False
    then obtain z where dz: "hs_buffer t = map Some (d @ [NUL]) @ z" "length d = unat len"
      using buf by blast
    let ?b = "filled (hs_buffer t)"
    have "take (Suc (length d)) ?b = d @ [NUL]" unfolding dz(1) by (rule take_filled) simp
    then obtain y where y: "?b = d @ NUL # y" by (metis append.assoc append_Cons append_Nil append_take_drop_id)
    then have sb: "string_buffer (hs_buffer t) = Inr ?b" by (simp add: string_buffer_def)
    have c: "cstr ?b 0 = takeWhile (\<lambda>c. c \<noteq> NUL) d"
      unfolding cstr_def y by (induction d) simp_all
    show ?thesis
    proof (cases "uri_dispatch (hs_lw t) (cstr ?b 0)")
      case (Inl f)
      then have "lwnbd_get_context (hs_lw t) ?b 0 = Inl f"
        using dispatch_on_strings [of "hs_lw t" ?b 0] by (cases "lwnbd_get_context (hs_lw t) ?b 0") auto
      then show ?thesis using sb Inl [unfolded c] False by (auto simp: word_gt_0)
    next
      case (Inr r)
      then obtain c lw where "uri_dispatch (hs_lw t) (cstr ?b 0) = Inr (c, lw)" by (cases r) simp
      then obtain b' where "lwnbd_get_context (hs_lw t) ?b 0 = Inr (c, b', lw)"
        using dispatch_on_strings [of "hs_lw t" ?b 0] by (auto simp: bindr_Inr_iff)
      then show ?thesis using sb by (auto split: if_splits)
    qed
  qed simp
  then show ?thesis
  proof (elim disjE exE conjE)
    fix f
    assume "?m = Inl f" "len \<noteq> 0" "uri_dispatch (hs_lw t) (takeWhile (\<lambda>c. c \<noteq> NUL) d) = Inl f"
    then show ?thesis by (auto simp: option_export_def)
  next
    fix t1
    assume t1: "?m = Inr t1" "hs_net t1 = hs_net t"
    show ?thesis
    proof (cases "cl_ctx (hs_client t1)")
      case None
      then show ?thesis using t1(1) by (simp add: option_export_def ret_def settled_def)
    next
      case (Some k)
      have l: "length (export_name_reply (hs_ctx t1) cflags) < 2 ^ 64"
        by (simp add: export_name_reply_def Let_def export_reply.enc_length)
      have i1: "inv (hs_net t1)" using assms(1) t1(2) by simp
      obtain t3 where t3: "hs_send io (nc_sock (hs_ctx t1)) (export_name_reply (hs_ctx t1) cflags) 0 t1 = ret (Next, t3)"
        "sent (export_name_reply (hs_ctx t1) cflags) t1 t3"
        by (rule hs_send_ok [OF i1 l, of "nc_sock (hs_ctx t1)" 0])
      then have "hs_client t3 = hs_client t1" by (auto simp: sent_def)
      moreover have "option_export io cflags len t = ret (Return 0, t3\<lparr>hs_ctx := (hs_ctx t3)\<lparr>nc_state := TRANSMISSION\<rparr>\<rparr>)"
        using t1(1) t3(1) Some by (simp add: option_export_def)
      ultimately show ?thesis using Some by (simp add: ret_def settled_def)
    qed
  qed
qed

lemma option_switch_safe:
  fixes t :: "('c, 'w, 'n) hs"
  assumes "haggles cfg t" and "no_optlen q \<noteq> 0 \<longrightarrow> unat (no_optlen q) < MAX_REQUEST_SIZE cfg"
    and buf: "no_optlen q \<noteq> 0 \<longrightarrow> (\<exists>z. hs_buffer t = map Some (d @ [NUL]) @ z \<and> length d = unat (no_optlen q))"
  shows "(\<exists>fl t'. option_switch io cflags q t = Some (Inr (fl, t')) \<and> settled fl t'
      \<and> (fl = Next \<longrightarrow> haggles cfg t' \<and> same_peer t t' \<and> inp (hs_net t') = inp (hs_net t)))
    \<or> (\<exists>f. option_switch io cflags q t = Some (Inl f) \<and> no_option q = NBD_OPT_EXPORT_NAME \<and> no_optlen q \<noteq> 0
      \<and> uri_dispatch (hs_lw t) (takeWhile (\<lambda>c. c \<noteq> NUL) d) = Inl f)"
proof -
  have inv: "inv (hs_net t)" and wf: "wf_lwnbd (hs_lw t)" using assms(1) by (simp_all add: haggles_def)
  consider (export) "no_option q = NBD_OPT_EXPORT_NAME" | (abort) "no_option q = NBD_OPT_ABORT"
    | (other) "no_option q \<notin> {NBD_OPT_EXPORT_NAME, NBD_OPT_ABORT}" by blast
  then show ?thesis
  proof cases
    case other
    then obtain t' where "option_switch io cflags q t = ret (Next, t')"
      and "sent (answer (hs_lw t) (no_option q, [])) t t'"
      using option_switch_ok [OF inv other wf] by metis
    then show ?thesis using haggles_sent [OF assms(1)] by (auto simp: ret_def settled_def sent_def)
  next
    case abort
    have l: "length (fixed_reply NBD_OPT_ABORT NBD_REP_ACK 0) < 2 ^ 64" by simp
    obtain t2 where "hs_send io (nc_sock (hs_ctx t)) (fixed_reply NBD_OPT_ABORT NBD_REP_ACK 0) 0 t = ret (Next, t2)"
      by (rule hs_send_ok [OF inv l, of "nc_sock (hs_ctx t)" 0])
    moreover have "NBD_OPT_ABORT \<noteq> NBD_OPT_EXPORT_NAME" by (simp add: nbd_consts)
    ultimately have "option_switch io cflags q t = ret (Return 0, t2\<lparr>hs_ctx := (hs_ctx t2)\<lparr>nc_state := ABORT\<rparr>\<rparr>)"
      using abort by (simp add: option_switch_def option_abort_def)
    then show ?thesis by (simp add: ret_def settled_def)
  next
    case export
    then show ?thesis
      using option_export_safe [OF inv assms(2) [rule_format] buf [rule_format], of cflags] by (auto simp: option_switch_def)
  qed
qed

text \<open>The header: with another magic the negotiation ends, with a named option it goes on to its data.\<close>

lemma option_refused:
  fixes t :: "('c, 'w, 'n) hs"
  assumes "haggles cfg t" and "inp (hs_net t) = b @ r" and "length b = 16" and "rd64 0 b \<noteq> NBD_NEW_VERSION"
  shows "\<exists>t'. option_body cfg io cflags t = ret (Return (- 1), t')"
proof -
  have inv: "inv (hs_net t)" and lo: "length (hs_opt t) = 16" using assms(1) by (simp_all add: haggles_def)
  have l: "length b < 2 ^ 63" using assms(3) by simp
  obtain n' where n': "sync_recv_cb io (cl_sock (hs_client t)) 16 0 (hs_net t) = ret (16, b, n')"
    using recv_fullE [OF inv assms(2) l, of "cl_sock (hs_client t)" 0] assms(3) by auto
  have st: "store b (hs_opt t) = Inr (map Some b)" using assms(3) lo by simp
  have "map Some b = map Some (take 8 b) @ map Some (drop 8 b)" by (metis append_take_drop_id map_append)
  then have f8: "fetch 8 (map Some b) = Inr (take 8 b)"
    using fetch_prefix [of "take 8 b" 8 "map Some (drop 8 b)"] assms(3) by simp
  have "rd64 0 (take 8 b) = rd64 0 b" by (simp add: rd64_def)
  then show ?thesis
    using n' st f8 assms(4) lt_size_of_nat [of 16 16] by (simp add: option_body_def Let_def)
qed

lemma option_given_safe:
  fixes t :: "('c, 'w, 'n) hs"
  assumes "haggles cfg t"
    and "inp (hs_net t) = enc_nbd_new_option
           \<lparr>no_version = NBD_NEW_VERSION, no_option = opt, no_optlen = len\<rparr> @ r"
  shows "(\<exists>fl t'. option_body cfg io cflags t = Some (Inr (fl, t')) \<and> settled fl t'
      \<and> (fl = Next \<longrightarrow> haggles cfg t' \<and> same_peer t t' \<and> (\<exists>k. inp (hs_net t') = drop k r)))
    \<or> option_body cfg io cflags t = Some (Inl Out_Of_Bounds)
      \<and> (10 \<le> unat opt \<or> len \<noteq> 0 \<and> unat len = MAX_REQUEST_SIZE cfg)
    \<or> (\<exists>f name. option_body cfg io cflags t = Some (Inl f) \<and> offered cfg (inp (hs_net t)) name
      \<and> uri_dispatch (hs_lw t) name = Inl f)"
proof -
  let ?q = "\<lparr>no_version = NBD_NEW_VERSION, no_option = opt, no_optlen = len\<rparr>"
  obtain t1 where t1: "option_body cfg io cflags t =
      bindp (lift (nbd_option_to_string opt)) (\<lambda>_.
        if MAX_REQUEST_SIZE cfg < unat len then ret (Return (- 1), t1)
        else andthen (option_data io len t1) (option_switch io cflags ?q))"
    "haggles cfg t1" "same_peer t t1" "inp (hs_net t1) = r"
    using option_received [OF assms(1,2), where cflags = cflags] by metis
  consider (unnamed) "10 \<le> unat opt" | (long) nm where "nbd_option_to_string opt = Inr nm" "MAX_REQUEST_SIZE cfg < unat len"
    | (fits) nm where "nbd_option_to_string opt = Inr nm" "unat len \<le> MAX_REQUEST_SIZE cfg"
    by (force simp: nbd_option_to_string_def nbd_options_def)
  then show ?thesis
  proof cases
    case unnamed
    then show ?thesis using option_unnamed [OF assms(1) unnamed assms(2)] by blast
  next
    case long
    then show ?thesis using t1(1) by (simp add: ret_def settled_def)
  next
    case fits
    have eq: "option_body cfg io cflags t = andthen (option_data io len t1) (option_switch io cflags ?q)"
      using t1(1) fits by simp
    show ?thesis
    proof (rule option_data_safe [OF t1(2) fits(2)])
      assume "option_data io len t1 = Some (Inl Out_Of_Bounds)" "len \<noteq> 0" "unat len = MAX_REQUEST_SIZE cfg"
      then show ?thesis using eq by (simp add: andthen_def)
    next
      fix t2
      assume "option_data io len t1 = ret (Return (- 1), t2)"
      then show ?thesis using eq by (simp add: ret_def settled_def andthen_def)
    next
      fix t2
      let ?d = "take (unat len) (inp (hs_net t1))"
      assume t2: "option_data io len t1 = ret (Next, t2)" "haggles cfg t2" "same_peer t1 t2"
          "inp (hs_net t2) = drop (unat len) (inp (hs_net t1))"
        and buf: "len \<noteq> 0 \<Longrightarrow> \<exists>z. hs_buffer t2 = map Some (?d @ [NUL]) @ z \<and> length ?d = unat len"
      have lt: "no_optlen ?q \<noteq> 0 \<longrightarrow> unat (no_optlen ?q) < MAX_REQUEST_SIZE cfg"
      proof
        assume nz: "no_optlen ?q \<noteq> 0"
        then obtain z where "hs_buffer t2 = map Some (?d @ [NUL]) @ z" "length ?d = unat len" using buf by auto
        then have "unat len < length (hs_buffer t2)" by simp
        then show "unat (no_optlen ?q) < MAX_REQUEST_SIZE cfg" using t2(2) by (simp add: haggles_def)
      qed
      have b: "no_optlen ?q \<noteq> 0 \<longrightarrow> (\<exists>z. hs_buffer t2 = map Some (?d @ [NUL]) @ z \<and> length ?d = unat (no_optlen ?q))"
        using buf by simp
      have body: "option_body cfg io cflags t = option_switch io cflags ?q t2" using eq t2(1) by simp
      have same: "hs_lw t2 = hs_lw t" using t1(3) t2(3) by (simp add: same_peer_def)
      from option_switch_safe [OF t2(2) lt b, of cflags] show ?thesis
      proof (elim disjE exE conjE)
        fix fl t'
        assume r: "option_switch io cflags ?q t2 = Some (Inr (fl, t'))" "settled fl t'"
          "fl = Next \<longrightarrow> haggles cfg t' \<and> same_peer t2 t' \<and> inp (hs_net t') = inp (hs_net t2)"
        have "same_peer t t'" if "same_peer t2 t'" using that t1(3) t2(3) by (simp add: same_peer_def)
        then show ?thesis using r t1(4) t2(4) unfolding body by auto
      next
        fix f
        assume f: "option_switch io cflags ?q t2 = Some (Inl f)" "no_option ?q = NBD_OPT_EXPORT_NAME" "no_optlen ?q \<noteq> 0"
          "uri_dispatch (hs_lw t2) (takeWhile (\<lambda>c. c \<noteq> NUL) ?d) = Inl f"
        have ld: "length ?d = unat len" using buf f(3) by auto
        have "r = ?d @ drop (unat len) r" using t1(4) by simp
        moreover have "of_nat (length ?d) = len" unfolding ld by simp
        moreover have "opt = NBD_OPT_EXPORT_NAME" using f(2) by simp
        ultimately have "inp (hs_net t) = [] @ enc_nbd_new_option \<lparr>no_version = NBD_NEW_VERSION,
            no_option = NBD_OPT_EXPORT_NAME, no_optlen = of_nat (length ?d)\<rparr> @ ?d @ drop (unat len) r"
          using assms(2) by simp
        moreover have "0 < length ?d" "length ?d < MAX_REQUEST_SIZE cfg"
          unfolding ld using f(3) lt by (simp_all add: unat_gt_0)
        ultimately have "offered cfg (inp (hs_net t)) (takeWhile (\<lambda>c. c \<noteq> NUL) ?d)"
          unfolding offered_def by blast
        then show ?thesis using f(1,4) unfolding body same by blast
      qed
    qed
  qed
qed

lemma option_body_safe:
  fixes t :: "('c, 'w, 'n) hs"
  assumes h: "haggles cfg t"
  shows "(\<exists>fl t'. option_body cfg io cflags t = Some (Inr (fl, t')) \<and> settled fl t'
      \<and> (fl = Next \<longrightarrow> haggles cfg t' \<and> same_peer t t' \<and> length (inp (hs_net t')) < length (inp (hs_net t))
           \<and> (\<exists>k. inp (hs_net t') = drop k (inp (hs_net t)))))
    \<or> (\<exists>f. option_body cfg io cflags t = Some (Inl f) \<and> provoked cfg (hs_lw t) (inp (hs_net t)) f)"
proof -
  have inv: "inv (hs_net t)" and lo: "length (hs_opt t) = 16" using assms by (simp_all add: haggles_def)
  show ?thesis
  proof (cases "16 \<le> length (inp (hs_net t))")
    case False
    then obtain n' where "sync_recv_cb io (cl_sock (hs_client t)) 16 0 (hs_net t) = ret (0, inp (hs_net t), n')"
      using recv_short [OF inv, of 16] by auto
    moreover have "lt_size 0 16" by (simp add: lt_size_def)
    ultimately show ?thesis using False lo by (simp add: option_body_def Let_def ret_def settled_def)
  next
    case True
    let ?b = "take 16 (inp (hs_net t))" and ?r = "drop 16 (inp (hs_net t))"
    define q where "q = dec_nbd_new_option ?b"
    have lb: "length ?b = 16" using True by simp
    have i: "inp (hs_net t) = ?b @ ?r" by simp
    show ?thesis
    proof (cases "rd64 0 ?b = NBD_NEW_VERSION")
      case False
      then show ?thesis using option_refused [OF h i lb False, of cflags] by (auto simp: ret_def settled_def)
    next
      case magic: True
      then have q: "q = \<lparr>no_version = NBD_NEW_VERSION, no_option = no_option q, no_optlen = no_optlen q\<rparr>"
        and "enc_nbd_new_option q = ?b"
        using newopt.enc_dec [OF lb] by (simp_all add: q_def dec_nbd_new_option_def)
      then have i': "inp (hs_net t) = enc_nbd_new_option \<lparr>no_version = NBD_NEW_VERSION,
          no_option = no_option q, no_optlen = no_optlen q\<rparr> @ ?r"
        using i by metis
      have wild: "\<not> named_options cfg (inp (hs_net t))"
        if "10 \<le> unat (no_option q) \<or> no_optlen q \<noteq> 0 \<and> unat (no_optlen q) = MAX_REQUEST_SIZE cfg"
        using every_window_head [of 16 "named_option cfg", OF _ True] magic that
        by (auto simp: named_options_def named_option_def q_def Let_def)
      from option_given_safe [OF h i', of cflags] show ?thesis
      proof (elim disjE exE conjE)
        fix fl t'
        assume r: "option_body cfg io cflags t = Some (Inr (fl, t'))" "settled fl t'"
          "fl = Next \<longrightarrow> haggles cfg t' \<and> same_peer t t' \<and> (\<exists>k. inp (hs_net t') = drop k ?r)"
        have "length (inp (hs_net t')) < length (inp (hs_net t)) \<and> (\<exists>k. inp (hs_net t') = drop k (inp (hs_net t)))"
          if "fl = Next"
        proof -
          obtain k where "inp (hs_net t') = drop k ?r" using r(3) \<open>fl = Next\<close> by blast
          then have k: "inp (hs_net t') = drop (k + 16) (inp (hs_net t))" by simp
          show ?thesis unfolding k using True by auto
        qed
        then show ?thesis using r by blast
      qed (use wild in \<open>auto simp: provoked_def\<close>)
    qed
  qed
qed

lemma option_loop_safe:
  fixes t :: "('c, 'w, 'n) hs"
  assumes "haggles cfg t"
  obtains (ends) fl t' where "while_flow (\<lambda>_. True) (option_body cfg io cflags) t = Some (Inr (fl, t'))"
      and "settled fl t'" and "fl \<noteq> Next"
  | (fault) f where "while_flow (\<lambda>_. True) (option_body cfg io cflags) t = Some (Inl f)"
      and "provoked cfg (hs_lw t) (inp (hs_net t)) f"
proof -
  let ?I = "\<lambda>s. haggles cfg s \<and> hs_lw s = hs_lw t \<and> (\<exists>k. inp (hs_net s) = drop k (inp (hs_net t)))"
    and ?body = "option_body cfg io cflags"
  have I: "?I t" using assms by (metis drop0)
  have returns: "\<exists>x. ?body s = Some x" if "?I s" for s using option_body_safe [of cfg s cflags] that by auto
  have step: "?I s' \<and> (s', s) \<in> measure (\<lambda>t. length (inp (hs_net t)))" if "?I s" "?body s = Some (Inr (Next, s'))" for s s'
    using option_body_safe [of cfg s cflags] that by (auto simp: same_peer_def)
  have bad: "provoked cfg (hs_lw t) (inp (hs_net t)) f" if "?I s" "?body s = Some (Inl f)" for s f
    using option_body_safe [of cfg s cflags] that provoked_drop by fastforce
  have "\<exists>y. while_flow (\<lambda>_. True) ?body t = Some y"
    by (rule while_flow_returns [where P = ?I and R = "measure (\<lambda>t. length (inp (hs_net t)))", OF I])
      (use returns step in blast)+
  then obtain y where y: "while_flow (\<lambda>_. True) ?body t = Some y" by blast
  show thesis
  proof (cases y)
    case (Inl f)
    then have f: "while_flow (\<lambda>_. True) ?body t = Some (Inl f)" using y by simp
    have "provoked cfg (hs_lw t) (inp (hs_net t)) f"
      by (rule while_flow_faults [where I = ?I, OF f I]) (use bad step in blast)+
    then show thesis using fault f by blast
  next
    case (Inr z)
    then obtain fl t' where w: "while_flow (\<lambda>_. True) ?body t = Some (Inr (fl, t'))" using y by (cases z) simp
    have "settled fl t' \<and> fl \<noteq> Next"
    proof (rule while_flow_invariant [OF w, where I = ?I and Q = "\<lambda>fl t. settled fl t \<and> fl \<noteq> Next"])
      show "settled (Return v) s' \<and> Return v \<noteq> Next" if "?I s" "?body s = Some (Inr (Return v, s'))" for s s' v
        using option_body_safe [of cfg s cflags] that by auto
      show "settled Next s' \<and> Next \<noteq> Next" if "?I s" "?body s = Some (Inr (Break, s'))" for s s'
        using option_body_safe [of cfg s cflags] that by (auto simp: settled_def)
    qed (use I step in blast)+
    then show thesis using ends w by blast
  qed
qed

text \<open>However the loop ends, it only used the transport as the transport allows.\<close>

definition kept :: "(flow \<times> ('c, 'w, 'n) hs) run \<Rightarrow> bool" where
  "kept m \<longleftrightarrow> (\<forall>fl t. m = Some (Inr (fl, t)) \<longrightarrow> inv (hs_net t))"

lemma kept_ret: "inv (hs_net t) \<Longrightarrow> kept (ret (fl, t))"
  by (simp add: kept_def ret_def)

lemma kept_bindp: "(\<And>x. m = Some (Inr x) \<Longrightarrow> kept (k x)) \<Longrightarrow> kept (bindp m k)"
  by (auto simp: kept_def bindp_Some_iff)

lemma kept_andthen: "kept m \<Longrightarrow> (\<And>t. inv (hs_net t) \<Longrightarrow> kept (k t)) \<Longrightarrow> kept (andthen m k)"
  unfolding andthen_def by (rule kept_bindp) (auto simp: kept_def ret_def split: flow.splits)

lemma kept_if: "kept m \<Longrightarrow> kept k \<Longrightarrow> kept (if b then m else k)"
  by simp

lemma kept_send: "inv (hs_net t) \<Longrightarrow> kept (hs_send io s d fl t)"
  using send_full [of "hs_net t" s d fl] by (auto simp: kept_def hs_send_def ret_def)

lemma kept_recv:
  assumes "inv n" and "len < 2 ^ 63" and "\<And>r d n'. inv n' \<Longrightarrow> kept (k (r, d, n'))"
  shows "kept (bindp (sync_recv_cb io s len fl n) k)"
proof (cases "len \<le> length (inp n)")
  case True
  then show ?thesis using recv_full [OF assms(1,2), of s fl] assms(3) by auto
next
  case False
  then show ?thesis using recv_short [OF assms(1) _ assms(2), of s fl] assms(3) by auto
qed

lemma kept_list_loop: "inv (hs_net t) \<Longrightarrow> kept (list_loop io opt i n t)"
  by (induction n arbitrary: i t) (simp_all add: kept_ret kept_andthen kept_send list_entry_def Let_def)

lemma kept_export:
  assumes "inv (hs_net t)"
  shows "kept (option_export io cflags len t)"
  unfolding option_export_def
proof (rule kept_bindp)
  fix t1
  assume "lift (if 0 < len
       then bindr (string_buffer (hs_buffer t)) (\<lambda>b. bindr (lwnbd_get_context (hs_lw t) b 0) (\<lambda>(c, _, lw).
            Inr (t\<lparr>hs_client := (hs_client t)\<lparr>cl_ctx := c\<rparr>, hs_lw := lw\<rparr>)))
       else Inr t) = Some (Inr t1)"
  then have "inv (hs_net t1)" using assms by (auto simp: lift_def bindr_Inr_iff split: if_splits)
  then show "kept (if cl_ctx (hs_client t1) = None then ret (Return (- 1), t1)
     else andthen (hs_send io (nc_sock (hs_ctx t1)) (export_name_reply (hs_ctx t1) cflags) 0 t1) (\<lambda>t2.
          ret (Return 0, t2\<lparr>hs_ctx := (hs_ctx t2)\<lparr>nc_state := TRANSMISSION\<rparr>\<rparr>)))"
    by (simp add: kept_ret kept_andthen kept_send)
qed

lemma kept_option_switch: "inv (hs_net t) \<Longrightarrow> kept (option_switch io cflags q t)"
  by (simp add: option_switch_def option_abort_def option_list_def option_unsupported_def kept_export kept_andthen
      kept_ret kept_send kept_list_loop)

lemma kept_option_data:
  assumes "inv (hs_net t)"
  shows "kept (option_data io len t)"
proof -
  have "unat len < 2 ^ 63" using unsigned_less [of len, where ?'a = nat] by simp
  then show ?thesis
    unfolding option_data_def case_prod_beta
    by (intro kept_if kept_ret kept_recv kept_bindp assms) simp_all
qed

lemma kept_option_body: "inv (hs_net t) \<Longrightarrow> kept (option_body cfg io cflags t)"
  unfolding option_body_def case_prod_beta Let_def
  by (intro kept_if kept_ret kept_recv kept_bindp kept_andthen kept_option_data kept_option_switch) simp_all

lemma option_loop_kept:
  assumes "while_flow (\<lambda>_. True) (option_body cfg io cflags) t = Some (Inr (fl, t'))" and "inv (hs_net t)"
  shows "inv (hs_net t')"
  by (rule while_flow_invariant [OF assms(1), where I = "\<lambda>t. inv (hs_net t)" and Q = "\<lambda>_ t. inv (hs_net t)"])
    (use assms(2) kept_option_body [unfolded kept_def] in blast)+

end

section \<open>A negotiation\<close>

text \<open>The export \<open>disk\<close> and a client that sends an option of type 7 with a body that never comes.\<close>

lemma disk_dispatches: "\<exists>r. uri_dispatch disk_lw name = Inr r"
proof (cases "lwnbd_get_context_string disk_lw (uri_path name)")
  case (Some k)
  then have k: "k = 0"
    by (auto simp: lwnbd_get_context_string_def disk_count split: if_splits)
  obtain s' where "lwnbd_update_size (disk_lw\<lparr>world := ()\<rparr>) 0 = Inr (4096, s')" using disk_calls(3) by blast
  then show ?thesis using Some k by (simp add: uri_dispatch_def disk_calls)
qed (simp add: uri_dispatch_def)

definition endless_option :: "byte list" where
  "endless_option = enc_nbd_new_option \<lparr>no_version = NBD_NEW_VERSION, no_option = 7, no_optlen = 5\<rparr>"

lemma endless_named: "named_options disk_cfg endless_option"
proof -
  have l: "length endless_option = 16" by (simp add: endless_option_def newopt.enc_length)
  have "dec_nbd_new_option endless_option = \<lparr>no_version = NBD_NEW_VERSION, no_option = 7, no_optlen = 5\<rparr>"
    unfolding endless_option_def by (rule newopt.dec_enc) simp
  then show ?thesis
    using l by (simp add: named_options_def every_window_once named_option_def disk_cfg_def MAX_REQUEST_SIZE_def)
qed

end
