(* ===== verification/Server_Safety.thy ===== *)
theory Server_Safety
  imports Nbd_Server Transmission_Safety Handshake_Safety
begin

text \<open>
  The client thread of the NBD server in front of a hostile client: with \<^verbatim>\<open>preinit\<close> it ends, whatever the
  stream, but for the two faults of the transmission phase, and without it there is a name of an export
  that takes it down.
\<close>

section \<open>The thread with preinit\<close>

context guarded_export
begin

definition serving :: "('c, 'w, 'n) ct \<Rightarrow> bool" where
  "serving t \<longleftrightarrow> cl_state (ct_client t) = TRANSMISSION \<and> (ct_r t = 0 \<or> ct_r t = - 1)
     \<and> guarded (tx_start cfg (ct_ctx t) (ct_lw t) (ct_net t))"

text \<open>A turn of the thread disposes of some of the stream, or is the last one.\<close>

definition turns_left :: "('c, 'w, 'n) ct \<Rightarrow> nat" where
  "turns_left t = (if ct_r t = 0 then Suc (length (inp (ct_net t))) else 0)"

lemma client_body_serving:
  fixes t :: "('c, 'w, 'n) ct"
  assumes "answers io" and "blocksize \<le> CONFIG_NBD_BUFFER_LEN cfg" and "serving t" and "ct_r t = 0"
  obtains (next_turn) t' where "client_body cfg io t = ret (Next, t')" and "serving t'"
      and "ct_client t' = ct_client t" and "turns_left t' < turns_left t"
  | (fault) f where "client_body cfg io t = Some (Inl f)" and "excused f"
proof -
  have s: "cl_state (ct_client t) = TRANSMISSION" "guarded (tx_start cfg (ct_ctx t) (ct_lw t) (ct_net t))"
    using assms(3) by (simp_all add: serving_def)
  show thesis
  proof (rule phase_guarded [OF assms(1,2) s(2)])
    fix f
    assume "transmission_phase cfg io (Some (ct_ctx t)) (ct_lw t) (ct_net t) = Some (Inl f)" "excused f"
    then show thesis using fault s(1) by (simp add: client_body_def)
  next
    fix r ctx lw n
    assume p: "transmission_phase cfg io (Some (ct_ctx t)) (ct_lw t) (ct_net t) = ret (r, Some ctx, lw, n)"
      "guarded (tx_start cfg ctx lw n)"
      "r = - 1 \<or> r = 0 \<and> nc_state ctx = ABORT \<and> length (inp n) < length (inp (ct_net t))"
    let ?t' = "t\<lparr>ct_r := r, ct_ctx := ctx, ct_lw := lw, ct_net := n\<rparr>"
    have "client_body cfg io t = ret (Next, ?t')" using s(1) p(1) by (simp add: client_body_def)
    moreover have "serving ?t'" using s(1) p(2,3) by (auto simp: serving_def)
    moreover have "turns_left ?t' < turns_left t" using p(3) assms(4) by (auto simp: turns_left_def)
    ultimately show thesis using next_turn by simp
  qed
qed

lemma client_run_serving:
  fixes t :: "('c, 'w, 'n) ct"
  assumes "answers io" and "blocksize \<le> CONFIG_NBD_BUFFER_LEN cfg" and "serving t"
  shows "(\<exists>ctx lw n. client_run cfg io t = ret (- 1, ctx, ct_client t, lw, n) \<and> link n)
    \<or> (\<exists>f. client_run cfg io t = Some (Inl f) \<and> excused f)"
  using assms(3)
proof (induction "turns_left t" arbitrary: t rule: less_induct)
  case less
  show ?case
  proof (cases "ct_r t = 0")
    case True
    show ?thesis
    proof (rule client_body_serving [OF assms(1,2) less.prems True])
      fix t'
      assume t': "client_body cfg io t = ret (Next, t')" "serving t'" "ct_client t' = ct_client t"
        "turns_left t' < turns_left t"
      then show ?thesis using less.hyps [OF t'(4,2)] client_turn [OF True t'(1)] by simp
    next
      fix f
      assume "client_body cfg io t = Some (Inl f)" "excused f"
      then show ?thesis using True while_flow_fault [of "\<lambda>t. ct_r t = 0" t "client_body cfg io"]
        by (simp add: client_run_def)
    qed
  next
    case False
    then show ?thesis using less.prems by (auto simp: client_stop serving_def guarded_def tx_start_def)
  qed
qed

end

section \<open>A name that takes the server down\<close>

text \<open>The context that the thread takes for itself has no plugin and the empty name.\<close>

lemma nameless_dispatch:
  fixes lw lw1 :: "('c, 'w) lwnbd"
  assumes "wf_lwnbd lw" and "lwnbd_new_context lw = (Some k, lw1)" and "contexts lw ! k = zero_context"
    and "\<And>i. i < k \<Longrightarrow> ctx_name (contexts lw ! i) \<noteq> []" and "uri_path name = []"
  shows "uri_dispatch lw1 name = Inl Null_Deref"
proof -
  have k: "k < MAX_CONTEXTS" "k = find_slot (\<lambda>st. st = CONTEXT_FREE) (contexts_status lw)"
    and lw1: "lw1 = lw\<lparr>contexts_status := (contexts_status lw)[k := CONTEXT_CREATED]\<rparr>"
    using assms(2) wf_lengths [OF assms(1)] find_slot_le [of "\<lambda>st. st = CONTEXT_FREE" "contexts_status lw"]
    by (auto simp: lwnbd_new_context_def Let_def split: if_splits)
  have l: "length (contexts_status lw) = MAX_CONTEXTS" using wf_lengths [OF assms(1)] by simp
  have "k < lwnbd_contexts_count lw1"
  proof (rule ccontr)
    let ?st = "contexts_status lw1"
    let ?c = "find_slot (\<lambda>st. st = CONTEXT_FREE) ?st"
    assume "\<not> k < lwnbd_contexts_count lw1"
    then have c: "?c \<le> k" by (simp add: lwnbd_contexts_count_def)
    then have "?st ! ?c = CONTEXT_FREE"
      using find_slot_free [of "\<lambda>st. st = CONTEXT_FREE" ?st] k(1) l lw1 by simp
    then have "?c \<noteq> k" "contexts_status lw ! ?c = CONTEXT_FREE"
      using k(1) l lw1 c by (auto simp: nth_list_update split: if_splits)
    then show False
      using find_slot_before [of ?c "\<lambda>st. st = CONTEXT_FREE" "contexts_status lw"] c k(2) by simp
  qed
  moreover have "strncmp_eq 32 (ctx_name (contexts lw1 ! k)) []"
    using assms(3) lw1 by (simp add: strncmp_eq_def zero_context_def)
  ultimately obtain j where j: "search_context lw1 [] 0 (lwnbd_contexts_count lw1) = Some j"
    using search_context_None [of lw1 "[]" 0 "lwnbd_contexts_count lw1"] by fastforce
  have "j = k"
  proof (rule ccontr)
    assume "j \<noteq> k"
    then have "j < k" using search_context_sound [OF j] \<open>strncmp_eq 32 (ctx_name (contexts lw1 ! k)) []\<close>
      by (metis le0 nat_neq_iff)
    then show False using search_context_sound [OF j] assms(4) lw1 by (auto simp: strncmp_eq_def)
  qed
  then show ?thesis
    using j assms(3,5) lw1
    by (simp add: uri_dispatch_def lwnbd_get_context_string_def plugin_of_def zero_context_def)
qed

section \<open>Properties\<close>

text \<open>The thread with \<^verbatim>\<open>preinit\<close>, over any bytes.\<close>

lemma preinit_ends:
  fixes lw :: "('c, 'w) lwnbd" and n :: 'n
  assumes "nc_preinit ctx \<noteq> 0" and "dflt lw = Some k"
    and "stream_transport io inp out link" and "bounded_device pread bs ok pwrite flush"
    and "answers io" and "link n"
    and "unat (nc_minimum_block_size ctx) = bs" and "0 < bs" and "bs \<le> MAX_REQUEST_SIZE cfg"
    and "plugin_of lw ctx = Inr p" and "pl_pread p = Some pread" and "pl_pwrite p = Some pwrite"
    and "pl_flush p = Some flush" and "ok (ctx_handle ctx) (world lw)"
  shows "(\<exists>ctx' lw' n'. nbd_synchronous_client_thread_cb cfg io dflt ctx sock lw n
      = ret (- 1, ctx', \<lparr>cl_sock = sock, cl_state = TRANSMISSION, cl_ctx = Some k\<rparr>, lw', n') \<and> link n')
    \<or> nbd_synchronous_client_thread_cb cfg io dflt ctx sock lw n = Some (Inl Out_Of_Bounds) \<and> wild_stream (inp n)
    \<or> nbd_synchronous_client_thread_cb cfg io dflt ctx sock lw n = Some (Inl Uninitialised) \<and> short_read pread bs ok"
proof -
  let ?t = "\<lparr>ct_r = 0, ct_ctx = ctx, ct_client = \<lparr>cl_sock = sock, cl_state = TRANSMISSION, cl_ctx = Some k\<rparr>,
    ct_lw = lw, ct_net = n\<rparr>"
  note g = guarded_start_state [OF assms(3,4,6-14)]
  have "guarded_export.serving inp link pread bs ok pwrite flush cfg (nc_minimum_block_size ctx)
      (wild_stream (inp n)) ?t"
    using g(3) by (simp add: guarded_export.serving_def [OF g(1)])
  then have "(\<exists>ctx' lw' n'. client_run cfg io ?t = ret (- 1, ctx', ct_client ?t, lw', n') \<and> link n')
      \<or> (\<exists>f. client_run cfg io ?t = Some (Inl f)
           \<and> guarded_export.excused (wild_stream (inp n)) (short_read pread bs ok) f)"
    by (rule guarded_export.client_run_serving [OF g(1) assms(5) g(2)])
  then show ?thesis using assms(1,2)
    by (auto simp: nbd_synchronous_client_thread_cb_def guarded_export.excused_def [OF g(1)])
qed

text \<open>
  Without \<^verbatim>\<open>preinit\<close> the thread takes a blank context from the pool for the handshake, and the
  dispatcher finds it by its empty name: a client that asks for an export whose path is empty, \<^verbatim>\<open>?\<close> for
  one, makes the server call through the plugin pointer of that context, which is NULL.
\<close>

theorem nameless_export_faults:
  fixes lw lw1 :: "('c, 'w) lwnbd" and n :: 'n
  assumes "stream_transport io inp out link" and "link n" and "nc_preinit ctx = 0"
    and "wf_lwnbd lw" and "lwnbd_new_context lw = (Some k, lw1)" and "contexts lw ! k = zero_context"
    and "\<And>i. i < k \<Longrightarrow> ctx_name (contexts lw ! i) \<noteq> []"
    and "uri_path name = []" and "name \<noteq> []" and "NUL \<notin> set name" and "length name < MAX_REQUEST_SIZE cfg"
    and "inp n = be32 (nc_gflags ctx) @ option_wire (NBD_OPT_EXPORT_NAME, name) @ rest"
  shows "nbd_synchronous_client_thread_cb cfg io dflt ctx sock lw n = Some (Inl Null_Deref)"
proof -
  let ?c = "\<lparr>cl_sock = sock, cl_state = HANDSHAKE, cl_ctx = Some k\<rparr>"
  let ?body = "option_body cfg io (nc_gflags ctx)"
  let ?t = "\<lparr>ct_r = 0, ct_ctx = ctx, ct_client = ?c, ct_lw = lw1, ct_net = n\<rparr>"
  have wf: "wf_lwnbd lw1" by (rule new_context_wf [OF assms(4,5)])
  have i: "inp n = be32 (nc_gflags ctx) @ concat (map option_wire [])
      @ option_wire (NBD_OPT_EXPORT_NAME, name) @ rest" using assms(12) by simp
  have no: "\<forall>opt \<in> set []. haggling cfg opt" by simp
  obtain t where t: "protocol_handshake cfg io ctx ?c lw1 n = bindp (while_flow (\<lambda>_. True) ?body t) (\<lambda>(fl, t).
        ret (case fl of Return r \<Rightarrow> r | _ \<Rightarrow> 0, hs_ctx t, hs_client t, hs_lw t, hs_net t))"
    "stream_transport.haggles link cfg t" "hs_lw t = lw1"
    "inp (hs_net t) = option_wire (NBD_OPT_EXPORT_NAME, name) @ rest"
    by (rule stream_transport.negotiated [OF assms(1,2) wf no i, where c = ?c])
  have "uri_dispatch (hs_lw t) name = Inl Null_Deref"
    unfolding t(3) by (rule nameless_dispatch [OF assms(4-8)])
  then have "?body t = Some (Inl Null_Deref)"
    by (rule stream_transport.export_faults [OF assms(1) t(2,4) assms(9-11)])
  then have "protocol_handshake cfg io ctx ?c lw1 n = Some (Inl Null_Deref)"
    using t(1) while_flow_fault [of "\<lambda>_. True" t ?body] by simp
  then have "client_body cfg io ?t = Some (Inl Null_Deref)" by (simp add: client_body_def)
  then have "client_run cfg io ?t = Some (Inl Null_Deref)"
    using while_flow_fault [of "\<lambda>t. ct_r t = 0" ?t "client_body cfg io"] by (simp add: client_run_def)
  then show ?thesis using assms(3,5) by (simp add: nbd_synchronous_client_thread_cb_def)
qed

theorem nameless_export_faults_witness:
  "nbd_synchronous_client_thread_cb disk_cfg (tcp_transport sock_os) (\<lambda>_. None) disk_ctx 3 disk_lw
     (disk_net (be32 3 @ option_wire (NBD_OPT_EXPORT_NAME, ''?''))) = Some (Inl Null_Deref)"
proof -
  obtain lw1 lw2 where l: "lwnbd_new_context disk_lw = (Some 1, lw1)" by (rule disk_second)
  show ?thesis
  proof (rule nameless_export_faults [OF sock.tcp.stream_transport_axioms TrueI _ disk_lw_wf l])
    show "contexts disk_lw ! 1 = zero_context" "nc_preinit disk_ctx = 0"
      by (simp_all add: disk_lw_def disk_ctx_def)
    show "ctx_name (contexts disk_lw ! i) \<noteq> []" if "i < 1" for i
      using that by (simp add: disk_lw_def disk_context_def)
    show "uri_path ''?'' = []" by (simp add: uri_path_def cut_def)
    show "so_in (disk_net (be32 3 @ option_wire (NBD_OPT_EXPORT_NAME, ''?'')))
        = be32 (nc_gflags disk_ctx) @ option_wire (NBD_OPT_EXPORT_NAME, ''?'') @ []"
      by (simp add: disk_net_def disk_ctx_def)
  qed (simp_all add: disk_cfg_def MAX_REQUEST_SIZE_def NUL_def)
qed

end
