(* ===== verification/Context_Race.thy ===== *)
theory Context_Race
  imports Contexts
begin

text \<open>
  The pool of contexts between threads.  \<^verbatim>\<open>lwnbd_new_context\<close> takes no lock, and every client thread of the
  NBD server calls it (\<^verbatim>\<open>examples/lwnbd-server.c\<close> runs three at once).  Here each thread is at a point of the
  function, a step of the system is one access of one thread to \<^verbatim>\<open>contexts_status\<close>, and the steps of
  the threads interleave in any order.
\<close>

section \<open>The function, access by access\<close>

text \<open>
  In the loop, about to test entry \<open>i\<close>; behind the loop, about to mark entry \<open>i\<close>; returned, with a context
  or NULL.
\<close>

datatype pool_thread = Scanning nat | Found nat | Returned "nat option"

record pool_race =
  pr_status :: "context_state list"
  pr_threads :: "pool_thread list"

definition thread_step :: "context_state list \<Rightarrow> pool_thread \<Rightarrow> context_state list \<times> pool_thread" where
  "thread_step st th =
     (case th of
        Scanning i \<Rightarrow>
          (st, if i = MAX_CONTEXTS then Returned None
               else if st ! i = CONTEXT_FREE then Found i else Scanning (Suc i))
      | Found i \<Rightarrow> (st[i := CONTEXT_CREATED], Returned (Some i))
      | Returned r \<Rightarrow> (st, Returned r))"

definition race_step :: "nat \<Rightarrow> pool_race \<Rightarrow> pool_race" where
  "race_step k s =
     (let (st, th) = thread_step (pr_status s) (pr_threads s ! k)
      in \<lparr>pr_status = st, pr_threads = (pr_threads s)[k := th]\<rparr>)"

text \<open>\<open>n\<close> threads enter the function; any of them may be the next to run.\<close>

definition race_start :: "nat \<Rightarrow> context_state list \<Rightarrow> pool_race" where
  "race_start n st = \<lparr>pr_status = st, pr_threads = replicate n (Scanning 0)\<rparr>"

inductive race_reaches :: "pool_race \<Rightarrow> pool_race \<Rightarrow> bool" for s0 where
  entered: "race_reaches s0 s0"
| runs: "race_reaches s0 s \<Longrightarrow> k < length (pr_threads s) \<Longrightarrow> race_reaches s0 (race_step k s)"

lemma race_step_simps [simp]:
  "pr_status (race_step k s) = fst (thread_step (pr_status s) (pr_threads s ! k))"
  "pr_threads (race_step k s) = (pr_threads s)[k := snd (thread_step (pr_status s) (pr_threads s ! k))]"
  by (simp_all add: race_step_def split_beta)

lemma length_thread_step [simp]: "length (fst (thread_step st th)) = length st"
  by (cases th) (simp_all add: thread_step_def)

section \<open>A thread that is not disturbed\<close>

text \<open>The steps of one thread, one after the other, are the function of the sequential model.\<close>

fun alone :: "nat \<Rightarrow> context_state list \<times> pool_thread \<Rightarrow> context_state list \<times> pool_thread" where
  "alone 0 s = s"
| "alone (Suc n) s = alone n (thread_step (fst s) (snd s))"

lemma alone_returned: "alone n (st, Returned r) = (st, Returned r)"
  by (induction n) (simp_all add: thread_step_def)

lemma alone_scan:
  assumes "k = find_slot (\<lambda>x. x = CONTEXT_FREE) st" and "length st = MAX_CONTEXTS"
  shows "i \<le> k \<Longrightarrow> k + 2 - i \<le> n \<Longrightarrow> alone n (st, Scanning i)
    = (if k = MAX_CONTEXTS then (st, Returned None) else (st[k := CONTEXT_CREATED], Returned (Some k)))"
proof (induction n arbitrary: i)
  case (Suc n)
  have le: "k \<le> MAX_CONTEXTS" using assms find_slot_le by metis
  show ?case
  proof (cases "i = k")
    case True
    show ?thesis
    proof (cases "k = MAX_CONTEXTS")
      case full: True
      then show ?thesis using True by (simp add: thread_step_def alone_returned)
    next
      case False
      then have "st ! k = CONTEXT_FREE" 
        using find_slot_free [of "\<lambda>x. x = CONTEXT_FREE" st] assms le False by simp
      moreover obtain m where "n = Suc m" using Suc.prems True by (cases n) auto
      ultimately show ?thesis using True False by (simp add: thread_step_def alone_returned)
    qed
  next
    case False
    then have i: "i < k" using Suc.prems by simp
    then have "st ! i \<noteq> CONTEXT_FREE"
      using find_slot_before [of i "\<lambda>x. x = CONTEXT_FREE" st] assms(1) by simp
    then show ?thesis using Suc.IH [of "Suc i"] Suc.prems i le by (simp add: thread_step_def)
  qed
qed simp

lemma alone_is_new_context:
  assumes "wf_lwnbd s" and "lwnbd_new_context s = (r, s')" and "52 \<le> n"
  shows "alone n (contexts_status s, Scanning 0) = (contexts_status s', Returned r)"
proof -
  let ?k = "find_slot (\<lambda>x. x = CONTEXT_FREE) (contexts_status s)"
  have len: "length (contexts_status s) = MAX_CONTEXTS" using wf_lengths [OF assms(1)] by simp
  then have "?k \<le> MAX_CONTEXTS" using find_slot_le by metis
  then have "?k + 2 - 0 \<le> n" using assms(3) by (simp add: MAX_CONTEXTS_def)
  from alone_scan [OF refl len _ this] show ?thesis
    using assms(2) by (auto simp: lwnbd_new_context_def Let_def split: if_splits)
qed

section \<open>What holds in every interleaving\<close>

text \<open>What a thread knows: the entries it has passed are taken, and stay taken.\<close>

definition passed :: "nat \<Rightarrow> context_state list \<Rightarrow> bool" where
  "passed i st \<longleftrightarrow> (\<forall>j < i. st ! j = CONTEXT_CREATED)"

definition thread_ok :: "nat \<Rightarrow> context_state list \<Rightarrow> pool_thread \<Rightarrow> bool" where
  "thread_ok k st th =
     (case th of
        Scanning i \<Rightarrow> i \<le> MAX_CONTEXTS \<and> passed i st
      | Found i \<Rightarrow> k \<le> i \<and> i < MAX_CONTEXTS \<and> passed i st
      | Returned None \<Rightarrow> passed MAX_CONTEXTS st
      | Returned (Some i) \<Rightarrow> k \<le> i \<and> i < MAX_CONTEXTS \<and> passed (Suc i) st)"

text \<open>
  With the first \<open>k\<close> entries taken at the start: the taken entries are the first \<open>m\<close> ones, and each of those
  behind \<open>k\<close> was returned to some thread.
\<close>

definition pool_ok :: "nat \<Rightarrow> pool_race \<Rightarrow> bool" where
  "pool_ok k s \<longleftrightarrow> length (pr_status s) = MAX_CONTEXTS \<and> (\<forall>th \<in> set (pr_threads s). thread_ok k (pr_status s) th)
     \<and> (\<exists>m. k \<le> m \<and> m \<le> MAX_CONTEXTS \<and> (\<forall>i < MAX_CONTEXTS. pr_status s ! i = CONTEXT_CREATED \<longleftrightarrow> i < m)
          \<and> (\<forall>i. k \<le> i \<and> i < m \<longrightarrow> Returned (Some i) \<in> set (pr_threads s)))"

lemma passed_mono: "passed i st \<Longrightarrow> passed i (st[j := CONTEXT_CREATED])"
  unfolding passed_def by (metis list_update_beyond not_le_imp_less nth_list_update)

lemma thread_ok_mono: "thread_ok k st th \<Longrightarrow> thread_ok k (st[j := CONTEXT_CREATED]) th"
  by (auto simp: thread_ok_def passed_mono split: pool_thread.splits option.splits)

lemma not_free: "x \<noteq> CONTEXT_FREE \<longleftrightarrow> x = CONTEXT_CREATED"
  by (cases x) simp_all

lemma thread_ok_step:
  assumes "thread_ok k st th" and "length st = MAX_CONTEXTS" and "passed k st"
  shows "thread_ok k (fst (thread_step st th)) (snd (thread_step st th))"
    and "thread_ok k st u \<Longrightarrow> thread_ok k (fst (thread_step st th)) u"
proof -
  have free: "k \<le> i" if "st ! i = CONTEXT_FREE" for i
    using assms(3) that unfolding passed_def by (metis context_state.distinct(1) not_le_imp_less)
  show "thread_ok k (fst (thread_step st th)) (snd (thread_step st th))"
    using assms(1,2) free
    by (cases th) (auto simp: thread_ok_def thread_step_def passed_def less_Suc_eq not_free nth_list_update
        split: option.splits)
  show "thread_ok k st u \<Longrightarrow> thread_ok k (fst (thread_step st th)) u"
    by (cases th) (simp_all add: thread_step_def thread_ok_mono)
qed

lemma pool_ok_step:
  assumes ok: "pool_ok k s" and t: "t < length (pr_threads s)"
  shows "pool_ok k (race_step t s)"
proof -
  let ?th = "pr_threads s ! t" and ?st = "pr_status s"
  have len: "length ?st = MAX_CONTEXTS" and ths: "\<And>th. th \<in> set (pr_threads s) \<Longrightarrow> thread_ok k ?st th"
    using ok by (simp_all add: pool_ok_def)
  obtain m where m: "k \<le> m" "m \<le> MAX_CONTEXTS" "\<And>i. i < MAX_CONTEXTS \<Longrightarrow> ?st ! i = CONTEXT_CREATED \<longleftrightarrow> i < m"
    "\<And>i. k \<le> i \<Longrightarrow> i < m \<Longrightarrow> Returned (Some i) \<in> set (pr_threads s)"
    using ok by (auto simp: pool_ok_def)
  have th: "thread_ok k ?st ?th" using ths t by simp
  have pk: "passed k ?st" using m(1-3) by (simp add: passed_def)
  have threads: "\<forall>th \<in> set (pr_threads (race_step t s)). thread_ok k (pr_status (race_step t s)) th"
    using thread_ok_step [OF th len pk] ths by (auto dest!: set_update_subset_insert [THEN subsetD])
  have kept: "Returned r \<in> set (pr_threads (race_step t s))" if r: "Returned r \<in> set (pr_threads s)" for r
  proof -
    obtain u where u: "u < length (pr_threads s)" "pr_threads s ! u = Returned r" using r by (auto simp: in_set_conv_nth)
    then have "pr_threads (race_step t s) ! u = Returned r"
      by (cases "u = t") (simp_all add: thread_step_def)
    then show ?thesis using u(1) by (metis length_list_update nth_mem race_step_simps(2))
  qed
  show ?thesis
  proof (cases "\<exists>i. ?th = Found i")
    case False
    then have "fst (thread_step ?st ?th) = ?st" by (cases ?th) (simp_all add: thread_step_def)
    then show ?thesis using m len threads kept unfolding pool_ok_def by auto
  next
    case True
    then obtain i where i: "?th = Found i" by blast
    then have pi: "i < MAX_CONTEXTS" "\<And>j. j < i \<Longrightarrow> ?st ! j = CONTEXT_CREATED"
      using th by (simp_all add: thread_ok_def passed_def)
    then have le: "i \<le> m" using m(2,3) by (metis linorder_not_less order_less_irrefl order_less_trans)
    have st: "pr_status (race_step t s) = ?st[i := CONTEXT_CREATED]" using i by (simp add: thread_step_def)
    have me: "Returned (Some i) \<in> set (pr_threads (race_step t s))"
      using t i by (auto simp: thread_step_def set_update_memI)
    show ?thesis
      unfolding pool_ok_def
    proof (intro conjI exI [of _ "max m (Suc i)"])
      show "\<forall>j < MAX_CONTEXTS. pr_status (race_step t s) ! j = CONTEXT_CREATED \<longleftrightarrow> j < max m (Suc i)"
        using m(3) le pi(1) len unfolding st by (auto simp: nth_list_update)
      show "\<forall>j. k \<le> j \<and> j < max m (Suc i) \<longrightarrow> Returned (Some j) \<in> set (pr_threads (race_step t s))"
        using m(4) kept me le by (metis less_SucE linorder_not_less max_def order.strict_trans1)
    qed (use m(1,2) pi(1) len threads st in auto)
  qed
qed

lemma pool_ok_start:
  assumes "length st = MAX_CONTEXTS" and "\<forall>i < MAX_CONTEXTS. st ! i = CONTEXT_CREATED \<longleftrightarrow> i < k" and "k \<le> MAX_CONTEXTS"
  shows "pool_ok k (race_start n st)"
  using assms by (auto simp: pool_ok_def race_start_def thread_ok_def passed_def intro!: exI [of _ k])

lemma pool_ok_reached: "race_reaches s0 s \<Longrightarrow> pool_ok k s0 \<Longrightarrow> pool_ok k s"
  by (induction rule: race_reaches.induct) (simp_all add: pool_ok_step)

lemma pool_ok_meaning:
  assumes "pool_ok k s"
  shows "\<exists>m. k \<le> m \<and> m \<le> MAX_CONTEXTS \<and> (\<forall>i < MAX_CONTEXTS. pr_status s ! i = CONTEXT_CREATED \<longleftrightarrow> i < m)
      \<and> {i. Returned (Some i) \<in> set (pr_threads s)} = {k..<m}
      \<and> (Returned None \<in> set (pr_threads s) \<longrightarrow> m = MAX_CONTEXTS)"
proof -
  obtain m where m: "k \<le> m" "m \<le> MAX_CONTEXTS" "\<forall>i < MAX_CONTEXTS. pr_status s ! i = CONTEXT_CREATED \<longleftrightarrow> i < m"
    "\<forall>i. k \<le> i \<and> i < m \<longrightarrow> Returned (Some i) \<in> set (pr_threads s)"
    and ths: "\<And>th. th \<in> set (pr_threads s) \<Longrightarrow> thread_ok k (pr_status s) th"
    using assms by (auto simp: pool_ok_def)
  have "k \<le> i \<and> i < m" if "Returned (Some i) \<in> set (pr_threads s)" for i
  proof -
    have i: "k \<le> i" "i < MAX_CONTEXTS" "passed (Suc i) (pr_status s)"
      using ths [OF that] by (simp_all add: thread_ok_def)
    then have "pr_status s ! i = CONTEXT_CREATED" by (simp add: passed_def)
    then show ?thesis using i(1,2) m(3) by blast
  qed
  then have "Returned (Some i) \<in> set (pr_threads s) \<longleftrightarrow> i \<in> {k..<m}" for i
    using m(4) unfolding atLeastLessThan_iff by blast
  then have "{i. Returned (Some i) \<in> set (pr_threads s)} = {k..<m}" by blast
  moreover have "m = MAX_CONTEXTS" if "Returned None \<in> set (pr_threads s)"
  proof -
    have "passed MAX_CONTEXTS (pr_status s)" using ths [OF that] by (simp add: thread_ok_def)
    then have "\<not> m < MAX_CONTEXTS" using m(3) by (auto simp: passed_def)
    then show ?thesis using m(2) by simp
  qed
  ultimately show ?thesis using m(1-3) by blast
qed

text \<open>A schedule is the list of the threads that run, step by step.\<close>

lemma length_scheduled: "length (pr_threads (fold race_step ks s)) = length (pr_threads s)"
  by (induction ks arbitrary: s) simp_all

lemma schedule_reaches:
  "set ks \<subseteq> {..<length (pr_threads s)} \<Longrightarrow> race_reaches s (fold race_step ks s)"
proof (induction ks rule: rev_induct)
  case (snoc k ks)
  then show ?case using runs [of s "fold race_step ks s" k] by (simp add: length_scheduled)
qed (simp add: entered)

text \<open>How many steps a thread has left, at most.\<close>

definition steps_left :: "pool_thread \<Rightarrow> nat" where
  "steps_left th = (case th of Scanning i \<Rightarrow> MAX_CONTEXTS + 2 - i | Found i \<Rightarrow> 1 | Returned r \<Rightarrow> 0)"

lemma steps_left_step:
  assumes "thread_ok k st th"
  shows "steps_left (snd (thread_step st th)) \<le> steps_left th - 1"
  using assms by (cases th) (auto simp: steps_left_def thread_step_def thread_ok_def MAX_CONTEXTS_def)

lemma steps_left_0: "steps_left th = 0 \<Longrightarrow> thread_ok k st th \<Longrightarrow> \<exists>r. th = Returned r"
  by (cases th) (simp_all add: steps_left_def thread_ok_def)

lemma schedule_steps:
  assumes "pool_ok k s" and "t < length (pr_threads s)" and "set ks \<subseteq> {..<length (pr_threads s)}"
  shows "steps_left (pr_threads (fold race_step ks s) ! t) \<le> steps_left (pr_threads s ! t) - count_list ks t"
  using assms(3)
proof (induction ks rule: rev_induct)
  case (snoc u ks)
  let ?s = "fold race_step ks s"
  have "pool_ok k ?s" using pool_ok_reached [OF schedule_reaches assms(1)] snoc.prems by simp
  then have "thread_ok k (pr_status ?s) (pr_threads ?s ! t)"
    using assms(2) by (simp add: pool_ok_def length_scheduled)
  from steps_left_step [OF this] snoc assms(2) show ?case
    by (cases "u = t") (auto simp: length_scheduled)
qed simp

section \<open>Threads that share a context\<close>

lemma schedule_alone:
  assumes "t < length (pr_threads s)" and "alone j (pr_status s, pr_threads s ! t) = (st, th)"
  shows "fold race_step (replicate j t) s = \<lparr>pr_status = st, pr_threads = (pr_threads s)[t := th]\<rparr>"
  using assms
proof (induction j arbitrary: s)
  case 0
  then show ?case by (cases s) auto
next
  case (Suc j)
  from Suc.IH [of "race_step t s"] Suc.prems show ?case by (simp add: split_beta)
qed

lemma alone_finds:
  assumes "passed k st" and "st ! k = CONTEXT_FREE" and "k < MAX_CONTEXTS"
  shows "i \<le> k \<Longrightarrow> alone (Suc k - i) (st, Scanning i) = (st, Found k)"
proof (induction "Suc k - i" arbitrary: i)
  case (Suc n)
  show ?case
  proof (cases "i = k")
    case True
    then show ?thesis using assms by (simp add: thread_step_def)
  next
    case False
    then have i: "i < k" "Suc k - i = Suc (Suc k - Suc i)" using Suc.prems by simp_all
    then have "st ! i = CONTEXT_CREATED" using assms(1) by (simp add: passed_def)
    then show ?thesis using Suc.hyps(1) [of "Suc i"] Suc.hyps(2) i assms(3) by (simp add: thread_step_def)
  qed
qed simp

text \<open>All of them find the free entry before one marks it.\<close>

definition all_find :: "nat \<Rightarrow> nat \<Rightarrow> nat list" where
  "all_find n k = concat (map (replicate (Suc k)) [0..<n])"

lemma all_find_found:
  assumes "passed k st" and "st ! k = CONTEXT_FREE" and "k < MAX_CONTEXTS"
  shows "m \<le> n \<Longrightarrow> fold race_step (all_find m k) (race_start n st)
    = \<lparr>pr_status = st, pr_threads = replicate m (Found k) @ replicate (n - m) (Scanning 0)\<rparr>"
proof (induction m)
  case (Suc m)
  let ?s = "\<lparr>pr_status = st, pr_threads = replicate m (Found k) @ replicate (n - m) (Scanning 0)\<rparr>"
  have n: "n - m = Suc (n - Suc m)" using Suc.prems by simp
  have "fold race_step (replicate (Suc k) m) ?s
      = \<lparr>pr_status = st, pr_threads = (pr_threads ?s)[m := Found k]\<rparr>"
    by (rule schedule_alone) (use n alone_finds [OF assms, of 0] in \<open>simp_all add: nth_append\<close>)
  then show ?case
    using Suc n by (simp add: all_find_def list_update_append replicate_app_Cons_same del: replicate.simps(2))
      (simp add: replicate_app_Cons_same)
qed (simp add: all_find_def race_start_def)

lemma all_mark_marked:
  assumes "k < length st"
  shows "m \<le> n \<Longrightarrow> 0 < m \<Longrightarrow> fold race_step [0..<m] \<lparr>pr_status = st, pr_threads = replicate n (Found k)\<rparr>
    = \<lparr>pr_status = st[k := CONTEXT_CREATED], pr_threads = replicate m (Returned (Some k)) @ replicate (n - m) (Found k)\<rparr>"
proof (induction m)
  case (Suc m)
  have n: "n - m = Suc (n - Suc m)" using Suc.prems by simp
  show ?case
  proof (cases "m = 0")
    case True
    then show ?thesis using n by (cases n) (simp_all add: race_step_def thread_step_def)
  next
    case False
    then show ?thesis
      using Suc n by (simp add: race_step_def thread_step_def nth_append list_update_append replicate_app_Cons_same)
  qed
qed simp

section \<open>Properties\<close>

text \<open>
  C24.  Any number of threads in \<^verbatim>\<open>lwnbd_new_context\<close> at once, their accesses in any order, starting with the
  first \<open>k\<close> contexts taken: the taken contexts stay the first ones of the pool, the contexts handed out are
  exactly those taken since, no thread leaves the table, NULL is returned only when the pool is full,
  and a thread that ran 52 steps has returned, whatever the others do.
\<close>

theorem new_context_interleaved:
  assumes "length st = MAX_CONTEXTS" and "\<forall>i < MAX_CONTEXTS. st ! i = CONTEXT_CREATED \<longleftrightarrow> i < k" and "k \<le> MAX_CONTEXTS"
    and "set ks \<subseteq> {..<n}" and "s = fold race_step ks (race_start n st)"
  shows "(\<exists>m. k \<le> m \<and> m \<le> MAX_CONTEXTS \<and> (\<forall>i < MAX_CONTEXTS. pr_status s ! i = CONTEXT_CREATED \<longleftrightarrow> i < m)
      \<and> {i. Returned (Some i) \<in> set (pr_threads s)} = {k..<m}
      \<and> (Returned None \<in> set (pr_threads s) \<longrightarrow> m = MAX_CONTEXTS))
    \<and> (\<forall>t < n. 52 \<le> count_list ks t \<longrightarrow> (\<exists>r. pr_threads s ! t = Returned r))"
proof
  have n: "length (pr_threads (race_start n st)) = n" by (simp add: race_start_def)
  have ok0: "pool_ok k (race_start n st)" by (rule pool_ok_start [OF assms(1-3)])
  then have ok: "pool_ok k s"
    using pool_ok_reached [OF schedule_reaches] assms(4,5) n by simp
  then show "\<exists>m. k \<le> m \<and> m \<le> MAX_CONTEXTS \<and> (\<forall>i < MAX_CONTEXTS. pr_status s ! i = CONTEXT_CREATED \<longleftrightarrow> i < m)
      \<and> {i. Returned (Some i) \<in> set (pr_threads s)} = {k..<m}
      \<and> (Returned None \<in> set (pr_threads s) \<longrightarrow> m = MAX_CONTEXTS)"
    by (rule pool_ok_meaning)
  show "\<forall>t < n. 52 \<le> count_list ks t \<longrightarrow> (\<exists>r. pr_threads s ! t = Returned r)"
  proof (intro allI impI)
    fix t assume t: "t < n" and "52 \<le> count_list ks t"
    then have "steps_left (pr_threads s ! t) = 0"
      using schedule_steps [OF ok0, of t ks] assms(4,5) n by (simp add: race_start_def steps_left_def MAX_CONTEXTS_def)
    moreover have "thread_ok k (pr_status s) (pr_threads s ! t)"
      using ok t assms(5) n by (simp add: pool_ok_def length_scheduled)
    ultimately show "\<exists>r. pr_threads s ! t = Returned r" by (rule steps_left_0)
  qed
qed

theorem new_context_interleaved_witness:
  "\<exists>m. (\<forall>i < 50. pr_status (fold race_step [0, 1, 0, 1] (race_start 2 (replicate 50 CONTEXT_FREE))) ! i
        = CONTEXT_CREATED \<longleftrightarrow> i < m)
     \<and> {i. Returned (Some i) \<in> set (pr_threads (fold race_step [0, 1, 0, 1] (race_start 2 (replicate 50 CONTEXT_FREE))))}
     = {0..<m}"
  using new_context_interleaved [of "replicate 50 CONTEXT_FREE" 0 "[0, 1, 0, 1]" 2, OF _ _ _ _ refl]
  unfolding MAX_CONTEXTS_def by fastforce

text \<open>
  C25.  The function takes no lock, and threads that call it at the same time can get the same context: for every
  number of threads there is an order of their accesses in which all of them return the first free one, and
  the pool counts a single context for all of them.
\<close>

theorem new_context_shared:
  assumes "length st = MAX_CONTEXTS" and "\<forall>i < k. st ! i = CONTEXT_CREATED" and "k < MAX_CONTEXTS"
    and "st ! k = CONTEXT_FREE" and "0 < n"
  shows "\<exists>ks. set ks \<subseteq> {..<n} \<and> fold race_step ks (race_start n st)
    = \<lparr>pr_status = st[k := CONTEXT_CREATED], pr_threads = replicate n (Returned (Some k))\<rparr>"
proof (intro exI conjI)
  show "set (all_find n k @ [0..<n]) \<subseteq> {..<n}" by (auto simp: all_find_def)
  have "passed k st" using assms(2) by (simp add: passed_def)
  from all_find_found [OF this assms(4,3), of n n] show "fold race_step (all_find n k @ [0..<n]) (race_start n st)
      = \<lparr>pr_status = st[k := CONTEXT_CREATED], pr_threads = replicate n (Returned (Some k))\<rparr>"
    using all_mark_marked [of k st n n] assms(1,3,5) by simp
qed

theorem new_context_shared_witness:
  "\<exists>ks. pr_threads (fold race_step ks (race_start 3 (replicate 50 CONTEXT_FREE))) = replicate 3 (Returned (Some 0))"
proof -
  obtain ks where "fold race_step ks (race_start 3 (replicate 50 CONTEXT_FREE))
      = \<lparr>pr_status = (replicate 50 CONTEXT_FREE)[0 := CONTEXT_CREATED], pr_threads = replicate 3 (Returned (Some 0))\<rparr>"
    using new_context_shared [of "replicate 50 CONTEXT_FREE" 0 3] by (auto simp: MAX_CONTEXTS_def)
  then show ?thesis by (intro exI [of _ ks]) simp
qed

end
