(* ===== verification/Connections.thy ===== *)
theory Connections
  imports Tcp
begin

text \<open>
  Many connections behind one transport.  The contracts of \<open>Tcp\<close> speak of one stream; here a network
  has a stream for every descriptor, as the callbacks of \<^verbatim>\<open>src/tcp.c\<close> have, whose first argument is
  the socket.  The locale \<open>posix_sockets\<close> states this of the system calls and \<open>socket_table\<close> of the
  callbacks; a transport whose receptions and transmissions are tied to two descriptors is again a
  \<open>stream_transport\<close>, which leaves the other descriptors alone.
\<close>

section \<open>Contracts\<close>

text \<open>What a call does to the stream of its descriptor, the other streams being as they were.\<close>

locale posix_sockets =
  fixes os :: "'n posix_socket"
    and inp :: "'n \<Rightarrow> int \<Rightarrow> byte list"
    and out :: "'n \<Rightarrow> int \<Rightarrow> byte list"
    and inv :: "'n \<Rightarrow> bool"
  assumes recv_some: "inv n \<Longrightarrow> inp n s \<noteq> [] \<Longrightarrow> 0 < len \<Longrightarrow>
      \<exists>k n'. sys_recv os s len fl n = (Some (take k (inp n s)), n') \<and> 0 < k \<and> k \<le> len
        \<and> k \<le> length (inp n s) \<and> inp n' = (inp n)(s := drop k (inp n s)) \<and> out n' = out n \<and> inv n'"
    and recv_zero: "inv n \<Longrightarrow>
      \<exists>n'. sys_recv os s 0 fl n = (Some [], n') \<and> inp n' = inp n \<and> out n' = out n \<and> inv n'"
    and recv_end: "inv n \<Longrightarrow> inp n s = [] \<Longrightarrow>
      \<exists>n'. sys_recv os s len fl n = (Some [], n') \<and> inp n' = inp n \<and> out n' = out n \<and> inv n'"
    and send_takes: "inv n \<Longrightarrow>
      \<exists>n'. sys_send os s d fl n = (int (length d), n') \<and> inp n' = inp n
        \<and> out n' = (out n)(s := out n s @ d) \<and> inv n'"

locale socket_table =
  fixes io :: "'n transport"
    and inp :: "'n \<Rightarrow> int \<Rightarrow> byte list"
    and out :: "'n \<Rightarrow> int \<Rightarrow> byte list"
    and inv :: "'n \<Rightarrow> bool"
  assumes recv_full: "inv n \<Longrightarrow> len < 2 ^ 63 \<Longrightarrow> len \<le> length (inp n s) \<Longrightarrow>
      \<exists>n'. sync_recv_cb io s len fl n = ret (int len, take len (inp n s), n')
        \<and> inp n' = (inp n)(s := drop len (inp n s)) \<and> out n' = out n \<and> inv n'"
    and recv_short: "inv n \<Longrightarrow> length (inp n s) < len \<Longrightarrow> len < 2 ^ 63 \<Longrightarrow>
      \<exists>n'. sync_recv_cb io s len fl n = ret (0, inp n s, n') \<and> inp n' = (inp n)(s := [])
        \<and> out n' = out n \<and> inv n'"
    and send_full: "inv n \<Longrightarrow>
      \<exists>n'. sync_send_cb io s d fl n = ret (int (length d), n') \<and> inp n' = inp n
        \<and> out n' = (out n)(s := out n s @ d) \<and> inv n'"

section \<open>One descriptor of the system calls\<close>

text \<open>The system calls with the descriptor fixed: \<^verbatim>\<open>tcp_recv_block\<close> passes its own on.\<close>

definition one_socket :: "'n posix_socket \<Rightarrow> int \<Rightarrow> 'n posix_socket" where
  "one_socket os s = os\<lparr>sys_recv := \<lambda>_. sys_recv os s, sys_send := \<lambda>_. sys_send os s\<rparr>"

lemma tcp_transport_one_socket:
  "sync_recv_cb (tcp_transport (one_socket os s)) s' = sync_recv_cb (tcp_transport os) s"
  "sync_send_cb (tcp_transport (one_socket os s)) s' = sync_send_cb (tcp_transport os) s"
proof -
  have b: "recv_body (one_socket os s) s' fl = recv_body os s fl" for fl
    by (intro ext) (simp add: recv_body_def one_socket_def)
  then show "sync_recv_cb (tcp_transport (one_socket os s)) s' = sync_recv_cb (tcp_transport os) s"
    unfolding tcp_transport_def tcp_recv_block_def by (intro ext) (simp only: transport.simps b)
  show "sync_send_cb (tcp_transport (one_socket os s)) s' = sync_send_cb (tcp_transport os) s"
    by (intro ext) (simp add: tcp_transport_def one_socket_def)
qed

context posix_sockets
begin

definition others :: "int \<Rightarrow> (int \<Rightarrow> byte list) \<Rightarrow> (int \<Rightarrow> byte list) \<Rightarrow> 'n \<Rightarrow> bool" where
  "others s i q m \<longleftrightarrow> inv m \<and> (\<exists>b. inp m = i(s := b)) \<and> (\<exists>b. out m = q(s := b))"

lemma others_here: "inv n \<Longrightarrow> others s (inp n) (out n) n"
  unfolding others_def by (metis fun_upd_triv)

lemma others_upd:
  "others s i q m \<Longrightarrow> inv m' \<Longrightarrow> inp m' = (inp m)(s := b) \<Longrightarrow> out m' = (out m)(s := c) \<Longrightarrow> others s i q m'"
  by (auto simp: others_def)

lemma one_stream: "posix_stream (one_socket os s) (\<lambda>m. inp m s) (\<lambda>m. out m s) (others s i q)"
proof
  fix n :: 'n and len :: nat and fl :: int and d :: "byte list" and s' :: int
  assume o: "others s i q n"
  then have n: "inv n" by (simp add: others_def)
  have triv: "inp n = (inp n)(s := inp n s)" "out n = (out n)(s := out n s)" by simp_all
  show "\<exists>k n'. sys_recv (one_socket os s) s' len fl n = (Some (take k (inp n s)), n') \<and> 0 < k \<and> k \<le> len
      \<and> k \<le> length (inp n s) \<and> inp n' s = drop k (inp n s) \<and> out n' s = out n s \<and> others s i q n'"
    if l: "inp n s \<noteq> []" "0 < len"
  proof -
    obtain k n' where r: "sys_recv os s len fl n = (Some (take k (inp n s)), n')" "0 < k" "k \<le> len"
      "k \<le> length (inp n s)" "inp n' = (inp n)(s := drop k (inp n s))" "out n' = out n" "inv n'"
      using recv_some [OF n l] by blast
    have "others s i q n'" using others_upd [OF o r(7,5)] r(6) triv(2) by metis
    then show ?thesis using r by (intro exI [of _ k] exI [of _ n']) (simp add: one_socket_def)
  qed
  show "\<exists>n'. sys_recv (one_socket os s) s' 0 fl n = (Some [], n') \<and> inp n' s = inp n s
      \<and> out n' s = out n s \<and> others s i q n'"
    using recv_zero [OF n, of s fl] others_upd [OF o] triv by (fastforce simp: one_socket_def)
  show "\<exists>n'. sys_recv (one_socket os s) s' len fl n = (Some [], n') \<and> inp n' s = []
      \<and> out n' s = out n s \<and> others s i q n'" if e: "inp n s = []"
    using recv_end [OF n e, of len fl] others_upd [OF o] triv e by (fastforce simp: one_socket_def)
  show "\<exists>n'. sys_send (one_socket os s) s' d fl n = (int (length d), n') \<and> inp n' s = inp n s
      \<and> out n' s = out n s @ d \<and> others s i q n'"
    using send_takes [OF n, of s d fl] others_upd [OF o] triv by (fastforce simp: one_socket_def)
qed

end

context posix_stream
begin

lemma tcp_delivers: "stream_transport (tcp_transport os) inp out inv"
  by (rule tcp.stream_transport_axioms)

end

sublocale posix_sockets \<subseteq> tcp: socket_table "tcp_transport os" inp out inv
proof
  fix n :: 'n and s fl :: int and len :: nat and d :: "byte list"
  assume n: "inv n"
  let ?st = "others s (inp n) (out n)"
  note st = posix_stream.tcp_delivers [OF one_stream [of s "inp n" "out n"]]
  note eq = tcp_transport_one_socket [of os s s]
  have here: "?st n" by (rule others_here [OF n])
  have upd: "inp m = (inp n)(s := inp m s)" "out m = (out n)(s := out m s)" "inv m" if "?st m" for m
    using that by (auto simp: others_def)
  show "\<exists>n'. sync_recv_cb (tcp_transport os) s len fl n = ret (int len, take len (inp n s), n')
      \<and> inp n' = (inp n)(s := drop len (inp n s)) \<and> out n' = out n \<and> inv n'"
    if l: "len < 2 ^ 63" "len \<le> length (inp n s)"
    using stream_transport.recv_full [OF st here l, of s fl] unfolding eq by (metis upd fun_upd_triv)
  show "\<exists>n'. sync_recv_cb (tcp_transport os) s len fl n = ret (0, inp n s, n')
      \<and> inp n' = (inp n)(s := []) \<and> out n' = out n \<and> inv n'"
    if l: "length (inp n s) < len" "len < 2 ^ 63"
    using stream_transport.recv_short [OF st here l, of s fl] unfolding eq by (metis upd fun_upd_triv)
  show "\<exists>n'. sync_send_cb (tcp_transport os) s d fl n = ret (int (length d), n') \<and> inp n' = inp n
      \<and> out n' = (out n)(s := out n s @ d) \<and> inv n'"
    using stream_transport.send_full [OF st here, of s d fl] unfolding eq by (metis upd fun_upd_triv)
qed

section \<open>A transport tied to two descriptors\<close>

text \<open>
  Everything is received on \<open>a\<close> and sent on \<open>b\<close>, which is how the phases of the NBD server use their
  transport.  Seen through the two streams it delivers, and the other streams stay as they were.
\<close>

definition routed :: "'n transport \<Rightarrow> int \<Rightarrow> int \<Rightarrow> 'n transport" where
  "routed io a b = \<lparr>sync_recv_cb = \<lambda>_. sync_recv_cb io a, sync_send_cb = \<lambda>_. sync_send_cb io b\<rparr>"

lemma routed_simps [simp]:
  "sync_recv_cb (routed io a b) s = sync_recv_cb io a" "sync_send_cb (routed io a b) s = sync_send_cb io b"
  by (simp_all add: routed_def)

context socket_table
begin

definition frame :: "int \<Rightarrow> int \<Rightarrow> 'n \<Rightarrow> 'n \<Rightarrow> bool" where
  "frame a b n m \<longleftrightarrow> inv m \<and> inp m = (inp n)(a := inp m a) \<and> out m = (out n)(b := out m b)"

lemma frame_refl: "inv n \<Longrightarrow> frame a b n n"
  by (simp add: frame_def)

lemma frame_step:
  assumes "frame a b n m" and "inv m'" and "inp m' = (inp m)(a := x)" and "out m' = (out m)(b := y)"
  shows "frame a b n m'"
proof -
  have "inp m' = (inp n)(a := x)" "out m' = (out n)(b := y)"
    using assms by (metis frame_def fun_upd_upd)+
  then show ?thesis using assms(2) by (simp add: frame_def)
qed

lemma routed_delivers: "stream_transport (routed io a b) (\<lambda>m. inp m a) (\<lambda>m. out m b) (frame a b n)"
proof
  fix m :: 'n and s fl :: int and len :: nat and d :: "byte list"
  assume f: "frame a b n m"
  then have inv: "inv m" by (simp add: frame_def)
  have triv: "inp m = (inp m)(a := inp m a)" "out m = (out m)(b := out m b)" by simp_all
  show "\<exists>n'. sync_recv_cb (routed io a b) s len fl m = ret (int len, take len (inp m a), n')
      \<and> inp n' a = drop len (inp m a) \<and> out n' b = out m b \<and> frame a b n n'"
    if l: "len < 2 ^ 63" "len \<le> length (inp m a)"
  proof -
    obtain n' where r: "sync_recv_cb io a len fl m = ret (int len, take len (inp m a), n')"
      "inp n' = (inp m)(a := drop len (inp m a))" "out n' = out m" "inv n'"
      using recv_full [OF inv l] by blast
    have "frame a b n n'" using frame_step [OF f r(4,2)] r(3) triv(2) by metis
    then show ?thesis using r by (intro exI [of _ n']) simp
  qed
  show "\<exists>n'. sync_recv_cb (routed io a b) s len fl m = ret (0, inp m a, n') \<and> inp n' a = []
      \<and> out n' b = out m b \<and> frame a b n n'"
    if l: "length (inp m a) < len" "len < 2 ^ 63"
  proof -
    obtain n' where r: "sync_recv_cb io a len fl m = ret (0, inp m a, n')"
      "inp n' = (inp m)(a := [])" "out n' = out m" "inv n'"
      using recv_short [OF inv l] by blast
    have "frame a b n n'" using frame_step [OF f r(4,2)] r(3) triv(2) by metis
    then show ?thesis using r by (intro exI [of _ n']) simp
  qed
  show "\<exists>n'. sync_send_cb (routed io a b) s d fl m = ret (int (length d), n') \<and> inp n' a = inp m a
      \<and> out n' b = out m b @ d \<and> frame a b n n'"
  proof -
    obtain n' where r: "sync_send_cb io b d fl m = ret (int (length d), n')"
      "inp n' = inp m" "out n' = (out m)(b := out m b @ d)" "inv n'"
      using send_full [OF inv] by blast
    have "frame a b n n'" using frame_step [OF f r(4) _ r(3)] r(2) triv(1) by metis
    then show ?thesis using r by (intro exI [of _ n']) simp
  qed
qed

end

section \<open>A table of sockets\<close>

text \<open>An instance of the contract: every descriptor has a socket of its own, with its own state.\<close>

definition per_socket :: "'n posix_socket \<Rightarrow> (int \<Rightarrow> 'n) posix_socket" where
  "per_socket os = \<lparr>
     sys_recv = (\<lambda>s len fl t. let (d, m) = sys_recv os s len fl (t s) in (d, t(s := m))),
     sys_send = (\<lambda>s d fl t. let (r, m) = sys_send os s d fl (t s) in (r, t(s := m))),
     sys_close = (\<lambda>s t. let (r, m) = sys_close os s (t s) in (r, t(s := m))),
     sys_accept = (\<lambda>s t. let (r, m) = sys_accept os s (t s) in (r, t(s := m)))\<rparr>"

sublocale posix_stream \<subseteq> table: posix_sockets "per_socket os"
  "\<lambda>t s. inp (t s)" "\<lambda>t s. out (t s)" "\<lambda>t. \<forall>s. inv (t s)"
proof
  fix t :: "int \<Rightarrow> 'n" and s fl :: int and len :: nat and d :: "byte list"
  assume t: "\<forall>s. inv (t s)"
  have upd: "(\<lambda>x. inp ((t(s := m)) x)) = (\<lambda>x. inp (t x))(s := inp m)"
    "(\<lambda>x. out ((t(s := m)) x)) = (\<lambda>x. out (t x))(s := out m)"
    "inv m \<Longrightarrow> \<forall>x. inv ((t(s := m)) x)" for m
    using t by auto
  have triv: "(\<lambda>x. inp (t x))(s := inp (t s)) = (\<lambda>x. inp (t x))"
    "(\<lambda>x. out (t x))(s := out (t s)) = (\<lambda>x. out (t x))" by auto
  show "\<exists>k t'. sys_recv (per_socket os) s len fl t = (Some (take k (inp (t s))), t') \<and> 0 < k \<and> k \<le> len
      \<and> k \<le> length (inp (t s)) \<and> (\<lambda>x. inp (t' x)) = (\<lambda>x. inp (t x))(s := drop k (inp (t s)))
      \<and> (\<lambda>x. out (t' x)) = (\<lambda>x. out (t x)) \<and> (\<forall>s. inv (t' s))"
    if l: "inp (t s) \<noteq> []" "0 < len"
  proof -
    obtain k m where r: "sys_recv os s len fl (t s) = (Some (take k (inp (t s))), m)" "0 < k" "k \<le> len"
      "k \<le> length (inp (t s))" "inp m = drop k (inp (t s))" "out m = out (t s)" "inv m"
      using recv_some [OF spec [OF t] l] by blast
    show ?thesis
      by (intro exI [of _ k] exI [of _ "t(s := m)"] conjI)
        (use r upd [of m] triv in \<open>simp_all add: per_socket_def\<close>)
  qed
  show "\<exists>t'. sys_recv (per_socket os) s 0 fl t = (Some [], t') \<and> (\<lambda>x. inp (t' x)) = (\<lambda>x. inp (t x))
      \<and> (\<lambda>x. out (t' x)) = (\<lambda>x. out (t x)) \<and> (\<forall>s. inv (t' s))"
  proof -
    obtain m where r: "sys_recv os s 0 fl (t s) = (Some [], m)" "inp m = inp (t s)" "out m = out (t s)" "inv m"
      using recv_zero [OF spec [OF t]] by blast
    show ?thesis
      by (intro exI [of _ "t(s := m)"] conjI) (use r upd [of m] triv in \<open>simp_all add: per_socket_def\<close>)
  qed
  show "\<exists>t'. sys_recv (per_socket os) s len fl t = (Some [], t') \<and> (\<lambda>x. inp (t' x)) = (\<lambda>x. inp (t x))
      \<and> (\<lambda>x. out (t' x)) = (\<lambda>x. out (t x)) \<and> (\<forall>s. inv (t' s))" if e: "inp (t s) = []"
  proof -
    obtain m where r: "sys_recv os s len fl (t s) = (Some [], m)" "inp m = []" "out m = out (t s)" "inv m"
      using recv_end [OF spec [OF t] e] by blast
    show ?thesis
      by (intro exI [of _ "t(s := m)"] conjI) (use r upd [of m] triv e in \<open>simp_all add: per_socket_def\<close>)
  qed
  show "\<exists>t'. sys_send (per_socket os) s d fl t = (int (length d), t') \<and> (\<lambda>x. inp (t' x)) = (\<lambda>x. inp (t x))
      \<and> (\<lambda>x. out (t' x)) = (\<lambda>x. out (t x))(s := out (t s) @ d) \<and> (\<forall>s. inv (t' s))"
  proof -
    obtain m where r: "sys_send os s d fl (t s) = (int (length d), m)" "inp m = inp (t s)"
      "out m = out (t s) @ d" "inv m"
      using send_takes [OF spec [OF t]] by blast
    show ?thesis
      by (intro exI [of _ "t(s := m)"] conjI) (use r upd [of m] triv in \<open>simp_all add: per_socket_def\<close>)
  qed
qed

interpretation socks: posix_sockets "per_socket sock_os" "\<lambda>t s. so_in (t s)" "\<lambda>t s. so_out (t s)"
  "\<lambda>_. True"
  using sock.table.posix_sockets_axioms by simp

end
