(* ===== verification/Connection_Routes.thy ===== *)
theory Connection_Routes
  imports Connections Server_Safety
begin

text \<open>
  The NBD server over a network of several connections.  The negotiation receives on \<^verbatim>\<open>c->sock\<close>, the
  socket of the client, and sends its answers on \<^verbatim>\<open>ctx->sock\<close>; the transmission phase does everything on
  \<^verbatim>\<open>ctx->sock\<close>, which no code of the repository sets.  The lemmas show that over such a network the code
  runs as over a transport tied to these descriptors, so that the results over one stream apply.
\<close>

section \<open>The transmission phase stays on the socket of its context\<close>

lemma send_reply_ctx: "send_reply io q err fl t = Some (Inr t') \<Longrightarrow> tx_ctx t' = tx_ctx t"
  by (auto simp: send_reply_def bindp_Some_iff ret_def)

lemma clamp_ctx [simp]: "tx_ctx (clamp bz t) = tx_ctx t"
  by (simp add: clamp_def Let_def)

lemma advance_ctx [simp]: "tx_ctx (advance cfg t) = tx_ctx t"
  by (simp add: advance_def)

lemma start_ctx: "start cfg bz q t = Inr t' \<Longrightarrow> tx_ctx t' = tx_ctx t"
  by (auto simp: start_def Let_def split: if_splits)

lemma read_body_ctx: "read_body cfg io bz t = Some (Inr (fl, t')) \<Longrightarrow> tx_ctx t' = tx_ctx t"
  by (auto simp: read_body_def Let_def bindp_Some_iff ret_def split: if_splits)

lemma write_body_ctx: "write_body cfg io bz t = Some (Inr (fl, t')) \<Longrightarrow> tx_ctx t' = tx_ctx t"
  by (auto simp: write_body_def Let_def bindp_Some_iff ret_def split: if_splits)

lemma loop_ctx:
  assumes "while_flow b body t = Some (Inr (fl, t'))"
    and "\<And>t fl t'. body t = Some (Inr (fl, t')) \<Longrightarrow> tx_ctx t' = tx_ctx t"
  shows "tx_ctx t' = tx_ctx t"
  by (rule while_flow_invariant [OF assms(1), where I = "\<lambda>s. tx_ctx s = tx_ctx t"
        and Q = "\<lambda>_ s. tx_ctx s = tx_ctx t"]) (use assms(2) in fastforce)+

lemma dispatch_sock:
  assumes "dispatch cfg io bz q t = Some (Inr (fl, t'))"
  shows "nc_sock (tx_ctx t') = nc_sock (tx_ctx t)"
proof -
  have rd: "tx_ctx t' = tx_ctx t" if rd: "cmd_read cfg io bz q t = Some (Inr (fl, t'))"
  proof -
    obtain t1 t2 where h: "(if past_end q (tx_ctx t) then Inr (t\<lparr>tx_error := NBD_EIO\<rparr>)
        else start cfg bz q t) = Inr t1"
      and s: "send_reply io q (tx_error t1) (tx_sendflag t1) t1 = Some (Inr t2)"
      and l: "while_flow sending (read_body cfg io bz) t2 = Some (Inr (fl, t'))"
      using rd by (auto simp: cmd_read_def bindp_Some_iff lift_def split del: if_split)
    have "tx_ctx t1 = tx_ctx t" using h start_ctx [of cfg bz q t t1] by (auto split: if_splits)
    then show ?thesis using send_reply_ctx [OF s] loop_ctx [OF l read_body_ctx] by simp
  qed
  have wr: "tx_ctx t' = tx_ctx t" if wr: "cmd_write cfg io bz q t = Some (Inr (fl, t'))"
  proof -
    obtain t1 t2 where h: "(if nc_eflags (tx_ctx t) AND NBD_FLAG_READ_ONLY \<noteq> 0 then Inr (t\<lparr>tx_error := NBD_EPERM\<rparr>)
        else if past_end q (tx_ctx t) then Inr (t\<lparr>tx_error := NBD_ENOSPC\<rparr>)
        else start cfg bz q t) = Inr t1"
      and l: "while_flow sending (write_body cfg io bz) t1 = Some (Inr (fl, t2))"
      and s: "send_reply io q (tx_error t2) 0 t2 = Some (Inr t')"
      using wr by (auto simp: cmd_write_def bindp_Some_iff lift_def ret_def split del: if_split)
    have "tx_ctx t1 = tx_ctx t" using h start_ctx [of cfg bz q t t1] by (auto split: if_splits)
    then show ?thesis using send_reply_ctx [OF s] loop_ctx [OF l write_body_ctx] by simp
  qed
  have fl: "tx_ctx t' = tx_ctx t" if "cmd_flush io q t = Some (Inr (fl, t'))"
    using that by (auto simp: cmd_flush_def Let_def bindp_Some_iff ret_def dest!: send_reply_ctx)
  show ?thesis
    using assms rd wr fl
    by (auto simp: dispatch_def bindp_Some_iff ret_def dest!: send_reply_ctx split: if_splits)
qed

lemma request_body_sock:
  "request_body cfg io bz t = Some (Inr (fl, t')) \<Longrightarrow> nc_sock (tx_ctx t') = nc_sock (tx_ctx t)"
  by (auto simp: request_body_def Let_def bindp_Some_iff ret_def dest!: dispatch_sock split: if_splits)

lemma send_reply_routed:
  "nc_sock (tx_ctx t) = k \<Longrightarrow> send_reply (routed io k k) q err fl t = send_reply io q err fl t"
  by (simp add: send_reply_def)

lemma read_body_routed:
  "nc_sock (tx_ctx t) = k \<Longrightarrow> read_body cfg (routed io k k) bz t = read_body cfg io bz t"
  by (simp add: read_body_def Let_def cong: if_cong)

lemma write_body_routed:
  "nc_sock (tx_ctx t) = k \<Longrightarrow> write_body cfg (routed io k k) bz t = write_body cfg io bz t"
  by (simp add: write_body_def Let_def cong: if_cong)

lemma loop_routed:
  assumes "nc_sock (tx_ctx t) = k"
    and "\<And>t. nc_sock (tx_ctx t) = k \<Longrightarrow> body' t = body t"
    and "\<And>t fl t'. body t = Some (Inr (fl, t')) \<Longrightarrow> nc_sock (tx_ctx t') = nc_sock (tx_ctx t)"
  shows "while_flow b body' t = while_flow b body t"
  by (rule sym, rule while_flow_cong [where I = "\<lambda>t. nc_sock (tx_ctx t) = k"]) (use assms in fastforce)+

lemma dispatch_routed:
  assumes "nc_sock (tx_ctx t) = k"
  shows "dispatch cfg (routed io k k) bz q t = dispatch cfg io bz q t"
proof -
  let ?io = "routed io k k"
  have rd: "cmd_read cfg ?io bz q t = cmd_read cfg io bz q t"
  proof (cases "if past_end q (tx_ctx t) then Inr (t\<lparr>tx_error := NBD_EIO\<rparr>) else start cfg bz q t")
    case (Inr t1)
    then have t1: "nc_sock (tx_ctx t1) = k"
      using start_ctx [of cfg bz q t t1] assms by (auto split: if_splits)
    have "while_flow sending (read_body cfg ?io bz) t2 = while_flow sending (read_body cfg io bz) t2"
      if "send_reply io q (tx_error t1) (tx_sendflag t1) t1 = Some (Inr t2)" for t2
      by (rule loop_routed [OF _ read_body_routed]) (use send_reply_ctx [OF that] t1 read_body_ctx in fastforce)+
    then show ?thesis
      unfolding cmd_read_def Inr bindp_simps send_reply_routed [OF t1]
      by (simp add: bindp_def split: option.split sum.split)
  qed (simp add: cmd_read_def)
  have wr: "cmd_write cfg ?io bz q t = cmd_write cfg io bz q t"
  proof (cases "if nc_eflags (tx_ctx t) AND NBD_FLAG_READ_ONLY \<noteq> 0 then Inr (t\<lparr>tx_error := NBD_EPERM\<rparr>)
        else if past_end q (tx_ctx t) then Inr (t\<lparr>tx_error := NBD_ENOSPC\<rparr>)
        else start cfg bz q t")
    case (Inr t1)
    then have t1: "nc_sock (tx_ctx t1) = k"
      using start_ctx [of cfg bz q t t1] assms by (auto split: if_splits)
    have w: "while_flow sending (write_body cfg ?io bz) t1 = while_flow sending (write_body cfg io bz) t1"
      by (rule loop_routed [OF t1 write_body_routed]) (use write_body_ctx in fastforce)+
    have "send_reply ?io q e fl t2 = send_reply io q e fl t2"
      if "while_flow sending (write_body cfg io bz) t1 = Some (Inr (fl', t2))" for e fl fl' t2
      by (rule send_reply_routed) (use loop_ctx [OF that] write_body_ctx t1 in metis)
    then show ?thesis
      unfolding cmd_write_def Inr bindp_simps w
      by (auto simp: bindp_def split: option.split sum.split)
  qed (simp add: cmd_write_def)
  have fl: "cmd_flush ?io q t = cmd_flush io q t"
    using assms by (simp add: cmd_flush_def Let_def send_reply_def)
  show ?thesis using rd wr fl assms by (simp add: dispatch_def send_reply_routed)
qed

lemma request_body_routed:
  "nc_sock (tx_ctx t) = k \<Longrightarrow> request_body cfg (routed io k k) bz t = request_body cfg io bz t"
  by (simp add: request_body_def Let_def dispatch_routed cong: if_cong)

lemma transmission_phase_routed:
  "nc_sock ctx = k \<Longrightarrow> transmission_phase cfg (routed io k k) (Some ctx) lw n = transmission_phase cfg io (Some ctx) lw n"
  by (simp add: transmission_phase_def loop_routed [OF _ request_body_routed request_body_sock] tx_start_def)

lemma transmission_phase_sock:
  assumes "transmission_phase cfg io (Some ctx) lw n = Some (Inr (r, Some ctx', lw', n'))"
  shows "nc_sock ctx' = nc_sock ctx"
proof -
  let ?b = "request_body cfg io (nc_minimum_block_size ctx)" and ?t = "tx_start cfg ctx lw n"
  obtain fl t where w: "while_flow (\<lambda>_. True) ?b ?t = Some (Inr (fl, t))" and c: "ctx' = tx_ctx t"
    using assms by (auto simp: transmission_phase_def bindp_Some_iff ret_def)
  have "nc_sock (tx_ctx t) = nc_sock ctx"
    by (rule while_flow_invariant [OF w, where I = "\<lambda>s. nc_sock (tx_ctx s) = nc_sock ctx"
          and Q = "\<lambda>_ s. nc_sock (tx_ctx s) = nc_sock ctx"])
      (auto simp: tx_start_def dest!: request_body_sock)
  then show ?thesis using c by simp
qed

text \<open>The thread of a client that is past the negotiation.\<close>

lemma client_run_routed:
  fixes t :: "('c, 'w, 'n) ct"
  assumes "cl_state (ct_client t) = TRANSMISSION" and "nc_sock (ct_ctx t) = k"
  shows "client_run cfg (routed io k k) t = client_run cfg io t"
proof -
  let ?I = "\<lambda>t. cl_state (ct_client t) = TRANSMISSION \<and> nc_sock (ct_ctx t) = k"
  have "while_flow (\<lambda>t. ct_r t = 0) (client_body cfg io) t
      = while_flow (\<lambda>t. ct_r t = 0) (client_body cfg (routed io k k)) t"
  proof (rule while_flow_cong [where I = ?I])
    fix s s' :: "('c, 'w, 'n) ct"
    assume I: "?I s"
    then show "client_body cfg io s = client_body cfg (routed io k k) s"
      by (simp add: client_body_def transmission_phase_routed)
    show "?I s'" if "client_body cfg io s = Some (Inr (Next, s'))"
      using that I transmission_phase_sock
      by (fastforce simp: client_body_def bindp_Some_iff ret_def split: option.splits)
  qed (use assms in simp)
  then show ?thesis by (simp add: client_run_def)
qed

lemma answers_routed: "answers io \<Longrightarrow> answers (routed io a b)"
  by (simp add: answers_def)

section \<open>The negotiation listens to the client and answers on the socket of the context\<close>

definition hs_ends :: "('c, 'w, 'n) hs \<Rightarrow> int \<times> int" where
  "hs_ends t = (cl_sock (hs_client t), nc_sock (hs_ctx t))"

lemma hs_ends_upd [simp]:
  "hs_ends (t\<lparr>hs_net := n\<rparr>) = hs_ends t" "hs_ends (t\<lparr>hs_opt := x\<rparr>) = hs_ends t"
  "hs_ends (t\<lparr>hs_buffer := x\<rparr>) = hs_ends t" "hs_ends (t\<lparr>hs_lw := lw\<rparr>) = hs_ends t"
  "hs_ends (t\<lparr>hs_client := (hs_client t)\<lparr>cl_ctx := c\<rparr>\<rparr>) = hs_ends t"
  "hs_ends (t\<lparr>hs_ctx := (hs_ctx t)\<lparr>nc_state := st\<rparr>\<rparr>) = hs_ends t"
  by (simp_all add: hs_ends_def)

text \<open>
  Two runs are the same, and leave the two descriptors as they are: the rules follow the code of the
  negotiation over a transport and over the one tied to the descriptors.
\<close>

definition agree ::
  "int \<times> int \<Rightarrow> (flow \<times> ('c, 'w, 'n) hs) run \<Rightarrow> (flow \<times> ('c, 'w, 'n) hs) run \<Rightarrow> bool" where
  "agree e m m' \<longleftrightarrow> m = m' \<and> (\<forall>fl s. m = Some (Inr (fl, s)) \<longrightarrow> hs_ends s = e)"

lemma agree_ret: "hs_ends s = e \<Longrightarrow> agree e (ret (fl, s)) (ret (fl, s))"
  by (simp add: agree_def ret_def)

lemma agree_bindp: "(\<And>x. agree e (k x) (k' x)) \<Longrightarrow> agree e (bindp m k) (bindp m k')"
  by (auto simp: agree_def bindp_def split: option.splits sum.splits)

lemma agree_andthen:
  "agree e m m' \<Longrightarrow> (\<And>s. hs_ends s = e \<Longrightarrow> agree e (k s) (k' s)) \<Longrightarrow> agree e (andthen m k) (andthen m' k')"
  by (auto simp: agree_def andthen_def bindp_def ret_def split: option.splits sum.splits flow.splits)

lemma agree_if: "agree e m m' \<Longrightarrow> agree e k k' \<Longrightarrow> agree e (if b then m else k) (if b then m' else k')"
  by simp

lemma agree_send:
  "hs_ends t = (a, b) \<Longrightarrow>
    agree (a, b) (hs_send io (nc_sock (hs_ctx t)) d fl t) (hs_send (routed io a b) (nc_sock (hs_ctx t)) d fl t)"
  by (auto simp: agree_def hs_send_def bindp_Some_iff ret_def hs_ends_def)

text \<open>A reception at the head of a statement.\<close>

lemma agree_recv:
  assumes "hs_ends t = (a, b)" and "\<And>x. agree (a, b) (k x) (k' x)"
  shows "agree (a, b) (bindp (sync_recv_cb io (cl_sock (hs_client t)) l fl n) k)
    (bindp (sync_recv_cb (routed io a b) (cl_sock (hs_client t)) l fl n) k')"
  using agree_bindp [OF assms(2)] assms(1) by (simp add: hs_ends_def)

lemma agree_list_entry:
  "hs_ends t = (a, b) \<Longrightarrow> agree (a, b) (list_entry io opt i t) (list_entry (routed io a b) opt i t)"
proof -
  assume e: "hs_ends t = (a, b)"
  have snd: "agree (a, b) (hs_send io (nc_sock (hs_ctx t)) d fl s) (hs_send (routed io a b) (nc_sock (hs_ctx t)) d fl s)"
    if "hs_ends s = (a, b)" for d fl s
    using agree_send [OF that] that e by (simp add: hs_ends_def)
  show ?thesis unfolding list_entry_def Let_def by (intro agree_andthen snd e)
qed

lemma agree_list_loop:
  "hs_ends t = (a, b) \<Longrightarrow> agree (a, b) (list_loop io opt i n t) (list_loop (routed io a b) opt i n t)"
  by (induction n arbitrary: i t) (simp_all add: agree_ret agree_andthen agree_list_entry)

lemma agree_export:
  assumes "hs_ends t = (a, b)"
  shows "agree (a, b) (option_export io cflags len t) (option_export (routed io a b) cflags len t)"
proof -
  let ?m = "if 0 < len
     then bindr (string_buffer (hs_buffer t)) (\<lambda>b. bindr (lwnbd_get_context (hs_lw t) b 0) (\<lambda>(c, _, lw).
          Inr (t\<lparr>hs_client := (hs_client t)\<lparr>cl_ctx := c\<rparr>, hs_lw := lw\<rparr>)))
     else Inr t"
  show ?thesis
  proof (cases ?m)
    case (Inl f)
    then show ?thesis unfolding option_export_def Inl by (simp add: agree_def)
  next
    case (Inr t1)
    have e: "hs_ends t1 = (a, b)" using Inr assms by (auto simp: bindr_Inr_iff hs_ends_def split: if_splits)
    show ?thesis
      unfolding option_export_def Inr bindp_simps
      by (intro agree_if agree_andthen agree_ret agree_send) (simp_all add: e)
  qed
qed

lemma agree_option_switch:
  assumes "hs_ends t = (a, b)"
  shows "agree (a, b) (option_switch io cflags q t) (option_switch (routed io a b) cflags q t)"
  unfolding option_switch_def option_abort_def option_list_def option_unsupported_def
  by (intro agree_if agree_export agree_andthen agree_ret agree_send agree_list_loop) (simp_all add: assms)

lemma agree_option_data:
  assumes "hs_ends t = (a, b)"
  shows "agree (a, b) (option_data io len t) (option_data (routed io a b) len t)"
  unfolding option_data_def case_prod_beta
  by (intro agree_if agree_ret agree_recv agree_bindp) (simp_all add: assms)

lemma agree_option_body:
  assumes "hs_ends t = (a, b)"
  shows "agree (a, b) (option_body cfg io cflags t) (option_body cfg (routed io a b) cflags t)"
  unfolding option_body_def case_prod_beta Let_def
  by (intro agree_if agree_ret agree_recv agree_bindp agree_andthen agree_option_data agree_option_switch)
    (simp_all add: assms)

lemma option_loop_routed:
  fixes t :: "('c, 'w, 'n) hs"
  assumes "hs_ends t = (a, b)"
  shows "while_flow (\<lambda>_. True) (option_body cfg io cflags) t
    = while_flow (\<lambda>_. True) (option_body cfg (routed io a b) cflags) t"
  by (rule while_flow_cong [where I = "\<lambda>t. hs_ends t = (a, b)"])
    (use assms agree_option_body [where cfg = cfg and io = io and cflags = cflags] in \<open>unfold agree_def, blast\<close>)+

end
