(* ===== verification/Connection_Handshake.thy ===== *)
theory Connection_Handshake
  imports Connection_Routes
begin

text \<open>
  The negotiation over a network of several connections, inside \<open>socket_table\<close>: the greeting and the flags
  on the socket of the client, then the option loop as over a transport tied to the two descriptors; and the
  session of a thread with \<^verbatim>\<open>preinit\<close>.
\<close>

section \<open>The streams after a transmission\<close>

definition sent_on :: "int \<Rightarrow> byte list \<Rightarrow> (int \<Rightarrow> byte list) \<Rightarrow> int \<Rightarrow> byte list" where
  "sent_on s d q = q(s := q s @ d)"

lemma sent_on_simps [simp]:
  "sent_on s d q s = q s @ d" "s \<noteq> s' \<Longrightarrow> sent_on s d q s' = q s'" "sent_on s [] q = q"
  "sent_on s e (sent_on s d q) = sent_on s (d @ e) q"
  by (auto simp: sent_on_def)

context socket_table
begin

lemma frame_streams:
  assumes "frame a b n n'" and "inp n' a = x" and "out n' b = out n b @ d"
  shows "inp n' = (inp n)(a := x)" and "out n' = sent_on b d (out n)" and "inv n'"
  using assms by (auto simp: frame_def sent_on_def)

text \<open>The greeting goes to the client.\<close>

lemma greeting_sent:
  fixes lw :: "('c, 'w) lwnbd"
  assumes "inv n"
  obtains n' where "hs_send io (cl_sock c) (greeting ctx) 0 (hs_start cfg ctx c lw n) = ret (Next, hs_start cfg ctx c lw n')"
    and "inp n' = inp n" and "out n' = sent_on (cl_sock c) (greeting ctx) (out n)" and "inv n'"
proof -
  have lg: "length (greeting ctx) < 2 ^ 64" by (simp add: greeting_def newhs.enc_length)
  obtain n1 where n1: "sync_send_cb io (cl_sock c) (greeting ctx) 0 n = ret (int (length (greeting ctx)), n1)"
    "inp n1 = inp n" "out n1 = sent_on (cl_sock c) (greeting ctx) (out n)" "inv n1"
    using send_full [OF assms] unfolding sent_on_def by blast
  then show thesis using that lg by (simp add: hs_send_def hs_start_def)
qed

text \<open>The negotiation up to the flags of the client, both on the socket of the client.\<close>

lemma greeted_client:
  fixes lw :: "('c, 'w) lwnbd"
  assumes "inv n" and "inp n (cl_sock c) = f @ r" and "length f = 4"
  obtains n' where "hs_run cfg io (hs_start cfg ctx c lw n) =
      (if rd32 0 f \<noteq> nc_gflags ctx then ret (Return (- 1), hs_start cfg ctx c lw n')
       else while_flow (\<lambda>_. True) (option_body cfg io (rd32 0 f)) (hs_start cfg ctx c lw n'))"
    and "inp n' = (inp n)(cl_sock c := r)" and "out n' = sent_on (cl_sock c) (greeting ctx) (out n)" and "inv n'"
proof -
  let ?s = "cl_sock c" and ?g = "greeting ctx"
  obtain n1 where sd: "hs_send io ?s ?g 0 (hs_start cfg ctx c lw n) = ret (Next, hs_start cfg ctx c lw n1)"
    and n1: "inp n1 = inp n" "out n1 = sent_on ?s ?g (out n)" "inv n1"
    by (rule greeting_sent [OF assms(1)])
  have "4 \<le> length (inp n1 ?s)" using n1(1) assms(2,3) by simp
  then obtain n' where n': "sync_recv_cb io ?s 4 0 n1 = ret (4, f, n')" "inp n' = (inp n1)(?s := r)"
    "out n' = out n1" "inv n'"
    using recv_full [OF n1(3), of 4 ?s 0] n1(1) assms(2,3) by auto
  have f4: "fetch 4 (map Some f) = Inr f" using fetch_prefix [of f 4 "[]"] assms(3) by simp
  have st: "store f (fresh 4) = Inr (map Some f)" using assms(3) by simp
  have "hs_run cfg io (hs_start cfg ctx c lw n) =
      (if rd32 0 f \<noteq> nc_gflags ctx then ret (Return (- 1), hs_start cfg ctx c lw n')
       else while_flow (\<lambda>_. True) (option_body cfg io (rd32 0 f)) (hs_start cfg ctx c lw n'))"
    using sd n'(1) f4 st lt_size_of_nat [of 4 4]
    by (simp add: hs_run_def hs_start_def Let_def del: store_fits)
  then show thesis using that n' n1 by simp
qed

lemma flags_refused_client:
  fixes lw :: "('c, 'w) lwnbd"
  assumes "inv n" and "inp n (cl_sock c) = f @ r" and "length f = 4" and "rd32 0 f \<noteq> nc_gflags ctx"
  obtains n' where "protocol_handshake cfg io ctx c lw n = ret (- 1, ctx, c, lw, n')"
    and "inp n' = (inp n)(cl_sock c := r)" and "out n' = sent_on (cl_sock c) (greeting ctx) (out n)"
proof -
  obtain n' where n': "hs_run cfg io (hs_start cfg ctx c lw n) =
      (if rd32 0 f \<noteq> nc_gflags ctx then ret (Return (- 1), hs_start cfg ctx c lw n')
       else while_flow (\<lambda>_. True) (option_body cfg io (rd32 0 f)) (hs_start cfg ctx c lw n'))"
    "inp n' = (inp n)(cl_sock c := r)" "out n' = sent_on (cl_sock c) (greeting ctx) (out n)"
    by (rule greeted_client [OF assms(1-3)])
  then show thesis using that assms(4) by (simp add: protocol_handshake_def hs_start_def)
qed

lemma negotiation_sockets:
  fixes lw :: "('c, 'w) lwnbd" and n :: 'n
  assumes "inv n" and "wf_lwnbd lw" and "\<forall>opt \<in> set opts. haggling cfg opt"
    and "name \<noteq> []" and "NUL \<notin> set name" and "length name < MAX_REQUEST_SIZE cfg"
    and "uri_dispatch lw name = Inr (export, lw')"
    and "inp n (cl_sock c) = be32 (nc_gflags ctx) @ concat (map option_wire opts)
                 @ option_wire (NBD_OPT_EXPORT_NAME, name) @ rest"
  obtains n' where "protocol_handshake cfg io ctx c lw n
        = ret (if export = None then - 1 else 0,
               if export = None then ctx else ctx\<lparr>nc_state := TRANSMISSION\<rparr>, c\<lparr>cl_ctx := export\<rparr>, lw', n')"
    and "inp n' = (inp n)(cl_sock c := rest)" and "inv n'"
    and "out n' = sent_on (nc_sock ctx) (concat (map (answer lw) opts)
               @ (if export = None then [] else export_name_reply ctx (nc_gflags ctx)))
             (sent_on (cl_sock c) (greeting ctx) (out n))"
proof -
  let ?a = "cl_sock c" and ?b = "nc_sock ctx" and ?g = "nc_gflags ctx"
  let ?io = "routed io ?a ?b" and ?q = "sent_on (cl_sock c) (greeting ctx) (out n)"
  have "length (be32 ?g) = 4" "rd32 0 (be32 ?g) = ?g" by (simp_all add: packed)
  then obtain n1 where n1: "hs_run cfg io (hs_start cfg ctx c lw n) =
      while_flow (\<lambda>_. True) (option_body cfg io ?g) (hs_start cfg ctx c lw n1)"
    "inp n1 = (inp n)(?a := concat (map option_wire opts) @ option_wire (NBD_OPT_EXPORT_NAME, name) @ rest)"
    "out n1 = ?q" "inv n1"
    using greeted_client [OF assms(1,8), where cfg = cfg and ctx = ctx and lw = lw] by metis
  let ?t = "hs_start cfg ctx c lw n1" and ?body = "option_body cfg ?io ?g"
  note st = routed_delivers [of ?a ?b n1]
  have eq: "hs_run cfg io (hs_start cfg ctx c lw n) = while_flow (\<lambda>_. True) ?body ?t"
    unfolding n1(1) by (rule option_loop_routed) (simp add: hs_ends_def hs_start_def)
  have h: "stream_transport.haggles (frame ?a ?b n1) cfg ?t"
    using assms(2) frame_refl [OF n1(4)] by (simp add: stream_transport.haggles_def [OF st] hs_start_def)
  have i: "inp (hs_net ?t) ?a = concat (map option_wire opts) @ option_wire (NBD_OPT_EXPORT_NAME, name) @ rest"
    using n1(2) by (simp add: hs_start_def)
  obtain t2 where t2: "while_flow (\<lambda>_. True) ?body ?t = while_flow (\<lambda>_. True) ?body t2"
    "stream_transport.haggles (frame ?a ?b n1) cfg t2" "hs_ctx t2 = ctx" "hs_client t2 = c" "hs_lw t2 = lw"
    "inp (hs_net t2) ?a = option_wire (NBD_OPT_EXPORT_NAME, name) @ rest"
    "out (hs_net t2) ?b = ?q ?b @ concat (map (answer lw) opts)"
    using stream_transport.options_loop [OF st h i assms(3), of ?g] n1(3)
    by (auto simp: stream_transport.same_peer_def [OF st] hs_start_def)
  obtain t' where t': "?body t2 = ret (if export = None then Return (- 1) else Return 0, t')"
    "hs_ctx t' = (if export = None then ctx else ctx\<lparr>nc_state := TRANSMISSION\<rparr>)"
    "hs_client t' = c\<lparr>cl_ctx := export\<rparr>" "hs_lw t' = lw'" "inp (hs_net t') ?a = rest"
    "out (hs_net t') ?b = out (hs_net t2) ?b @ (if export = None then [] else export_name_reply ctx ?g)"
    "frame ?a ?b n1 (hs_net t')"
    using stream_transport.export_option [OF st t2(2,6) assms(4-6) assms(7) [folded t2(5)]] unfolding t2(3,4) by metis
  have "while_flow (\<lambda>_. True) ?body t2 = ret (Return (if export = None then - 1 else 0), t')"
    using while_flow_return [of "\<lambda>_. True" t2 ?body "if export = None then - 1 else 0" t'] t'(1)
    by (simp add: ret_def split: if_splits)
  then have r: "protocol_handshake cfg io ctx c lw n = ret (if export = None then - 1 else 0,
      if export = None then ctx else ctx\<lparr>nc_state := TRANSMISSION\<rparr>, c\<lparr>cl_ctx := export\<rparr>, lw', hs_net t')"
    unfolding protocol_handshake_def eq t2(1) using t'(2-4) by simp
  have "out (hs_net t') ?b = out n1 ?b @ concat (map (answer lw) opts)
      @ (if export = None then [] else export_name_reply ctx ?g)"
    using t'(6) t2(7) n1(3) by simp
  note fr = frame_streams [OF t'(7,5) this]
  show thesis by (rule that [OF r _ fr(3)]) (use fr(1,2) n1(2,3) in simp_all)
qed

text \<open>A name on which the dispatcher faults.\<close>

lemma negotiation_faults:
  fixes lw :: "('c, 'w) lwnbd" and n :: 'n
  assumes "inv n" and "wf_lwnbd lw" and "name \<noteq> []" and "NUL \<notin> set name" and "length name < MAX_REQUEST_SIZE cfg"
    and "uri_dispatch lw name = Inl f"
    and "inp n (cl_sock c) = be32 (nc_gflags ctx) @ option_wire (NBD_OPT_EXPORT_NAME, name) @ rest"
  shows "protocol_handshake cfg io ctx c lw n = Some (Inl f)"
proof -
  let ?a = "cl_sock c" and ?b = "nc_sock ctx" and ?g = "nc_gflags ctx"
  have "length (be32 ?g) = 4" "rd32 0 (be32 ?g) = ?g" by (simp_all add: packed)
  then obtain n1 where n1: "hs_run cfg io (hs_start cfg ctx c lw n) =
      while_flow (\<lambda>_. True) (option_body cfg io ?g) (hs_start cfg ctx c lw n1)"
    "inp n1 = (inp n)(?a := option_wire (NBD_OPT_EXPORT_NAME, name) @ rest)" "inv n1"
    using greeted_client [OF assms(1,7), where cfg = cfg and ctx = ctx and lw = lw] by metis
  let ?t = "hs_start cfg ctx c lw n1" and ?body = "option_body cfg (routed io ?a ?b) ?g"
  note st = routed_delivers [of ?a ?b n1]
  have h: "stream_transport.haggles (frame ?a ?b n1) cfg ?t"
    using assms(2) frame_refl [OF n1(3)] by (simp add: stream_transport.haggles_def [OF st] hs_start_def)
  have i: "inp (hs_net ?t) ?a = option_wire (NBD_OPT_EXPORT_NAME, name) @ rest"
    and u: "uri_dispatch (hs_lw ?t) name = Inl f"
    using n1(2) assms(6) by (simp_all add: hs_start_def)
  have "?body ?t = Some (Inl f)" by (rule stream_transport.export_faults [OF st h i assms(3-5) u])
  then have "while_flow (\<lambda>_. True) ?body ?t = Some (Inl f)" by (simp add: while_flow_fault)
  moreover have "while_flow (\<lambda>_. True) (option_body cfg io ?g) ?t = while_flow (\<lambda>_. True) ?body ?t"
    by (rule option_loop_routed) (simp add: hs_ends_def hs_start_def)
  ultimately show ?thesis using n1(1) by (simp add: protocol_handshake_def)
qed

lemma negotiation_isolated:
  fixes lw :: "('c, 'w) lwnbd" and n :: 'n
  assumes "inv n" and "wf_lwnbd lw"
  obtains (ends) fl t where "hs_run cfg io (hs_start cfg ctx c lw n) = Some (Inr (fl, t))" and "settled fl t" and "fl \<noteq> Next"
      and "inp (hs_net t) = (inp n)(cl_sock c := inp (hs_net t) (cl_sock c))"
      and "out (hs_net t) = (sent_on (cl_sock c) (greeting ctx) (out n))(nc_sock ctx := out (hs_net t) (nc_sock ctx))"
  | (fault) f where "hs_run cfg io (hs_start cfg ctx c lw n) = Some (Inl f)"
      and "provoked cfg lw (drop 4 (inp n (cl_sock c))) f"
proof (cases "4 \<le> length (inp n (cl_sock c))")
  case False
  let ?s = "cl_sock c" and ?g = "greeting ctx"
  obtain n1 where sd: "hs_send io ?s ?g 0 (hs_start cfg ctx c lw n) = ret (Next, hs_start cfg ctx c lw n1)"
    and n1: "inp n1 = inp n" "out n1 = sent_on ?s ?g (out n)" "inv n1"
    by (rule greeting_sent [OF assms(1)])
  obtain n2 where n2: "sync_recv_cb io ?s 4 0 n1 = ret (0, inp n1 ?s, n2)" "inp n2 = (inp n1)(?s := [])"
    "out n2 = out n1"
    using recv_short [OF n1(3), of ?s 4 0] n1(1) False by auto
  have "lt_size 0 4" by (simp add: lt_size_def)
  then have "hs_run cfg io (hs_start cfg ctx c lw n) = ret (Return (- 1), hs_start cfg ctx c lw n2)"
    using sd n2(1) by (simp add: hs_run_def hs_start_def Let_def)
  then show thesis using ends n1(1,2) n2(2,3) by (simp add: settled_def hs_start_def ret_def)
next
  case True
  let ?a = "cl_sock c" and ?b = "nc_sock ctx" and ?f = "take 4 (inp n (cl_sock c))"
  have f: "inp n ?a = ?f @ drop 4 (inp n ?a)" "length ?f = 4" using True by simp_all
  obtain n1 where n1: "hs_run cfg io (hs_start cfg ctx c lw n) =
      (if rd32 0 ?f \<noteq> nc_gflags ctx then ret (Return (- 1), hs_start cfg ctx c lw n1)
       else while_flow (\<lambda>_. True) (option_body cfg io (rd32 0 ?f)) (hs_start cfg ctx c lw n1))"
    "inp n1 = (inp n)(?a := drop 4 (inp n ?a))" "out n1 = sent_on ?a (greeting ctx) (out n)" "inv n1"
    by (rule greeted_client [OF assms(1) f])
  let ?t = "hs_start cfg ctx c lw n1" and ?body = "option_body cfg (routed io ?a ?b) (rd32 0 ?f)"
  note st = routed_delivers [of ?a ?b n1]
  have fr: "frame ?a ?b n1 (hs_net ?t)" using frame_refl [OF n1(4)] by (simp add: hs_start_def)
  have i: "inp (hs_net ?t) ?a = drop 4 (inp n ?a)" using n1(2) by (simp add: hs_start_def)
  have h: "stream_transport.haggles (frame ?a ?b n1) cfg ?t"
    using assms(2) fr by (simp add: stream_transport.haggles_def [OF st] hs_start_def)
  have eq: "while_flow (\<lambda>_. True) (option_body cfg io (rd32 0 ?f)) ?t = while_flow (\<lambda>_. True) ?body ?t"
    by (rule option_loop_routed) (simp add: hs_ends_def hs_start_def)
  have streams: "inp m = (inp n)(?a := inp m ?a)" "out m = (sent_on ?a (greeting ctx) (out n))(?b := out m ?b)"
    if "frame ?a ?b n1 m" for m
    using that n1(2,3) by (metis frame_def fun_upd_upd)+
  show thesis
  proof (cases "rd32 0 ?f = nc_gflags ctx")
    case False
    then show thesis
      using ends [of "Return (- 1)" ?t] n1(1) streams [OF fr] by (simp add: settled_def hs_start_def ret_def)
  next
    case True
    then have run: "hs_run cfg io (hs_start cfg ctx c lw n) = while_flow (\<lambda>_. True) ?body ?t" using n1(1) eq by simp
    show thesis
    proof (rule stream_transport.option_loop_safe [OF st h, of "rd32 0 ?f"])
      fix fl t
      assume t: "while_flow (\<lambda>_. True) ?body ?t = Some (Inr (fl, t))" "settled fl t" "fl \<noteq> Next"
      have "frame ?a ?b n1 (hs_net t)" by (rule stream_transport.option_loop_kept [OF st t(1) fr])
      then show thesis using ends [of fl t] t run streams by simp
    next
      fix f
      assume f: "while_flow (\<lambda>_. True) ?body ?t = Some (Inl f)" "provoked cfg (hs_lw ?t) (inp (hs_net ?t) ?a) f"
      have "provoked cfg lw (drop 4 (inp n ?a)) f" using f(2) i by (simp add: hs_start_def)
      then show thesis using fault f(1) run by simp
    qed
  qed
qed

end

lemma thread_routed:
  "nc_preinit ctx \<noteq> 0 \<Longrightarrow> nbd_synchronous_client_thread_cb cfg (routed io (nc_sock ctx) (nc_sock ctx)) dflt ctx sock lw n
    = nbd_synchronous_client_thread_cb cfg io dflt ctx sock lw n"
  by (simp add: nbd_synchronous_client_thread_cb_def client_run_routed cong: option.case_cong)

text \<open>The session of a server with \<^verbatim>\<open>preinit\<close>, on the socket of its context.\<close>

lemma preinit_session_on:
  fixes lw :: "('c, 'w) lwnbd" and n :: 'n
  assumes "nc_preinit ctx \<noteq> 0" and "dflt lw = Some k"
    and "socket_table io inp out link" and "block_device pread bs content ok pwrite flush"
    and "unat (nc_minimum_block_size ctx) = bs" and "0 < bs" and "bs \<le> MAX_REQUEST_SIZE cfg"
    and "plugin_of lw ctx = Inr p" and "pl_pread p = Some pread" and "pl_pwrite p = Some pwrite"
    and "pl_flush p = Some flush" and "nc_eflags ctx AND NBD_FLAG_READ_ONLY = 0"
    and "ok (ctx_handle ctx) (world lw)" and "link n"
    and "d = content (ctx_handle ctx) (world lw)" and "unat (ctx_exportsize ctx) = length d"
    and "\<forall>c \<in> set cs. legal bs (length d) c"
    and "inp n (nc_sock ctx) = concat (map wire cs) @ disconnect fl h"
  shows "\<exists>w n'. nbd_synchronous_client_thread_cb cfg io dflt ctx sock lw n
      = ret (- 1, ctx\<lparr>nc_state := ABORT\<rparr>, \<lparr>cl_sock = sock, cl_state = TRANSMISSION, cl_ctx = Some k\<rparr>,
             lw\<lparr>world := w\<rparr>, n')
    \<and> inp n' = (inp n)(nc_sock ctx := [])
    \<and> out n' = sent_on (nc_sock ctx) (fst (serve_all cs d)) (out n)
    \<and> content (ctx_handle ctx) w = snd (serve_all cs d)"
proof -
  let ?s = "nc_sock ctx"
  note st = socket_table.routed_delivers [OF assms(3), of ?s ?s n]
  note fr = socket_table.frame_refl [OF assms(3,14), of ?s ?s]
  obtain w n' where r: "nbd_synchronous_client_thread_cb cfg (routed io ?s ?s) dflt ctx sock lw n
      = ret (- 1, ctx\<lparr>nc_state := ABORT\<rparr>, \<lparr>cl_sock = sock, cl_state = TRANSMISSION, cl_ctx = Some k\<rparr>,
             lw\<lparr>world := w\<rparr>, n')"
    "out n' ?s = out n ?s @ fst (serve_all cs d)" "content (ctx_handle ctx) w = snd (serve_all cs d)"
    "inp n' ?s = []" "socket_table.frame inp out link ?s ?s n n'"
    using preinit_serves [where inp = "\<lambda>m. inp m ?s" and out = "\<lambda>m. out m ?s"
        and link = "socket_table.frame inp out link ?s ?s n" and dflt = dflt and ok = ok and content = content,
        OF assms(1,2) st assms(4-13) fr assms(15-18)] by blast
  note fs = socket_table.frame_streams [OF assms(3) r(5,4,2)]
  show ?thesis using r(1,3) fs(1,2) unfolding thread_routed [OF assms(1)] by blast
qed

end
