(* ===== verification/Connection_Claims.thy ===== *)
theory Connection_Claims
  imports Connection_Handshake
begin

text \<open>
  The properties of the NBD server over a network of several connections, \<open>inp n s\<close> and \<open>out n s\<close> being
  the two streams of descriptor \<open>s\<close>: which connection every byte comes from and goes to, and that no
  other is touched.  The instance behind the witnesses is a table of TCP sockets that deliver in pieces.
\<close>

section \<open>Properties\<close>

text \<open>
  C3.  The negotiation receives everything on the socket of the client and sends only the greeting
  there: the answers to the options and the export reply, each in order, go to the socket of the server's
  context.  A client that sends back the flags of the server, any options that the loop answers (LIST,
  and the ones it does not support) and then the name of an export leaves the server in state
  \<open>TRANSMISSION\<close> with the context the dispatcher found, and 0; when the dispatcher finds none the result
  is \<open>-1\<close> and there is no export reply.  Exactly these bytes are read, and no other connection changes.
\<close>

theorem handshake_connections:
  fixes lw :: "('c, 'w) lwnbd" and n :: 'n
  assumes "socket_table io inp out link" and "link n" and "wf_lwnbd lw"
    and "\<forall>opt \<in> set opts. haggling cfg opt"
    and "name \<noteq> []" and "NUL \<notin> set name" and "length name < MAX_REQUEST_SIZE cfg"
    and "uri_dispatch lw name = Inr (export, lw')"
    and "inp n (cl_sock c) = be32 (nc_gflags ctx) @ concat (map option_wire opts)
                 @ option_wire (NBD_OPT_EXPORT_NAME, name) @ rest"
  shows "\<exists>n'. protocol_handshake cfg io ctx c lw n
        = ret (if export = None then - 1 else 0,
               if export = None then ctx else ctx\<lparr>nc_state := TRANSMISSION\<rparr>, c\<lparr>cl_ctx := export\<rparr>, lw', n')
    \<and> inp n' = (inp n)(cl_sock c := rest)
    \<and> out n' = sent_on (nc_sock ctx) (concat (map (answer lw) opts)
               @ (if export = None then [] else export_name_reply ctx (nc_gflags ctx)))
             (sent_on (cl_sock c) (greeting ctx) (out n))"
  using socket_table.negotiation_sockets [OF assms] by metis

text \<open>A client on descriptor 3 of a server whose context has descriptor 0, as a static one has.\<close>

definition disk_sockets :: "byte list \<Rightarrow> int \<Rightarrow> sock" where
  "disk_sockets b = (\<lambda>_. disk_net [])(3 := disk_net b)"

lemma disk_streams:
  "(\<lambda>s. so_in (disk_sockets b s)) = (\<lambda>_. [])(3 := b)" "(\<lambda>s. so_out (disk_sockets b s)) = (\<lambda>_. [])"
  by (auto simp: disk_sockets_def disk_net_def)

theorem handshake_connections_witness:
  "\<exists>n' lw'. protocol_handshake disk_cfg (tcp_transport (per_socket sock_os)) disk_ctx disk_client disk_lw
       (disk_sockets (be32 3 @ option_wire (NBD_OPT_LIST, []) @ option_wire (NBD_OPT_GO, ''disk'')
                  @ option_wire (NBD_OPT_EXPORT_NAME, ''disk'')))
     = ret (0, disk_ctx\<lparr>nc_state := TRANSMISSION\<rparr>, disk_client\<lparr>cl_ctx := Some 0\<rparr>, lw', n')
     \<and> so_in (n' 3) = [] \<and> so_out (n' 3) = greeting disk_ctx
     \<and> so_out (n' 0) = answer disk_lw (NBD_OPT_LIST, [])
         @ fixed_reply NBD_OPT_GO NBD_REP_ERR_UNSUP 0 @ export_name_reply disk_ctx 3"
proof -
  let ?n = "disk_sockets (be32 3 @ option_wire (NBD_OPT_LIST, []) @ option_wire (NBD_OPT_GO, ''disk'')
                  @ option_wire (NBD_OPT_EXPORT_NAME, ''disk''))"
  let ?o = "[(NBD_OPT_LIST, []), (NBD_OPT_GO, ''disk'')]"
  obtain lw' where d: "uri_dispatch disk_lw ''disk'' = Inr (Some 0, lw')" using disk_dispatch(1) by blast
  have len: "length ''disk'' < MAX_REQUEST_SIZE disk_cfg" and nn: "NUL \<notin> set ''disk''" and ne: "''disk'' \<noteq> []"
    by (simp_all add: disk_cfg_def MAX_REQUEST_SIZE_def NUL_def)
  have sk: "cl_sock disk_client = 3" "nc_sock disk_ctx = 0" "nc_gflags disk_ctx = 3"
    by (simp_all add: disk_client_def disk_ctx_def)
  have i: "so_in (?n (cl_sock disk_client)) = be32 (nc_gflags disk_ctx) @ concat (map option_wire ?o)
      @ option_wire (NBD_OPT_EXPORT_NAME, ''disk'') @ []"
    unfolding sk by (simp add: disk_sockets_def disk_net_def)
  obtain n' where n': "protocol_handshake disk_cfg (tcp_transport (per_socket sock_os)) disk_ctx disk_client disk_lw ?n
      = ret (0, disk_ctx\<lparr>nc_state := TRANSMISSION\<rparr>, disk_client\<lparr>cl_ctx := Some 0\<rparr>, lw', n')"
    "(\<lambda>s. so_in (n' s)) = (\<lambda>s. so_in (?n s))(3 := [])"
    "(\<lambda>s. so_out (n' s)) = sent_on 0 (concat (map (answer disk_lw) ?o) @ export_name_reply disk_ctx 3)
        (sent_on 3 (greeting disk_ctx) (\<lambda>s. so_out (?n s)))"
    using handshake_connections [where inp = "\<lambda>t s. so_in (t s)" and out = "\<lambda>t s. so_out (t s)"
        and link = "\<lambda>_. True" and n = ?n and c = disk_client and ctx = disk_ctx and opts = ?o and rest = "[]",
        OF socks.tcp.socket_table_axioms TrueI disk_lw_wf disk_haggling ne nn len d i] unfolding sk by force
  have go: "answer disk_lw (NBD_OPT_GO, ''disk'') = fixed_reply NBD_OPT_GO NBD_REP_ERR_UNSUP 0"
    by (simp add: answer_def nbd_consts)
  show ?thesis
    using n'(1) fun_cong [OF n'(2), of 3] fun_cong [OF n'(3), of 3] fun_cong [OF n'(3), of 0] go
    by (intro exI [of _ n'] exI [of _ lw']) (simp add: disk_streams(2))
qed

text \<open>
  C5.  No client can make the negotiation loop for ever or leave its arrays, whatever bytes it sends,
  except in three ways: an option of a number of 10 or more, which the code looks up behind its table of names;
  an option whose data is just as long as the buffer, whose NUL is written behind it; and an
  \<^verbatim>\<open>NBD_OPT_EXPORT_NAME\<close> among its bytes with a name on which the dispatcher itself faults, such as one without
  a path while a blank context is in the pool (C11), with that very fault.
  Otherwise the handshake returns \<^verbatim>\<open>-1\<close>, or 0 with an export chosen and the state TRANSMISSION, or 0
  with the state ABORT.  Nothing is received from any socket but that of the client, and nothing but the
  greeting is sent to any socket but that of the context: a client elsewhere gets the greeting,
  whatever it asks.
\<close>

theorem handshake_isolated:
  fixes lw :: "('c, 'w) lwnbd" and n :: 'n
  assumes "socket_table io inp out link" and "link n" and "wf_lwnbd lw"
  shows "(\<exists>r ctx' c' lw' n'. protocol_handshake cfg io ctx c lw n = ret (r, ctx', c', lw', n')
      \<and> (r = - 1 \<or> r = 0 \<and> (nc_state ctx' = TRANSMISSION \<and> cl_ctx c' \<noteq> None \<or> nc_state ctx' = ABORT))
      \<and> (\<forall>s. s \<noteq> cl_sock c \<longrightarrow> inp n' s = inp n s)
      \<and> (\<forall>s. s \<noteq> nc_sock ctx \<longrightarrow> out n' s = sent_on (cl_sock c) (greeting ctx) (out n) s))
    \<or> protocol_handshake cfg io ctx c lw n = Some (Inl Out_Of_Bounds)
      \<and> \<not> named_options cfg (drop 4 (inp n (cl_sock c)))
    \<or> (\<exists>f name. protocol_handshake cfg io ctx c lw n = Some (Inl f)
      \<and> offered cfg (drop 4 (inp n (cl_sock c))) name \<and> uri_dispatch lw name = Inl f)"
proof (rule socket_table.negotiation_isolated [OF assms])
  let ?a = "cl_sock c" and ?b = "nc_sock ctx"
  fix fl t
  assume h: "hs_run cfg io (hs_start cfg ctx c lw n) = Some (Inr (fl, t))" "settled fl t" "fl \<noteq> Next"
    "inp (hs_net t) = (inp n)(?a := inp (hs_net t) ?a)"
    "out (hs_net t) = (sent_on ?a (greeting ctx) (out n))(?b := out (hs_net t) ?b)"
  have "inp (hs_net t) s = inp n s" if "s \<noteq> ?a" for s using h(4) that by (metis fun_upd_other)
  moreover have "out (hs_net t) s = sent_on ?a (greeting ctx) (out n) s" if "s \<noteq> ?b" for s
    using h(5) that by (metis fun_upd_other)
  ultimately show ?thesis using h(1-3) by (auto simp: protocol_handshake_def ret_def settled_def)
next
  fix f
  assume "hs_run cfg io (hs_start cfg ctx c lw n) = Some (Inl f)" "provoked cfg lw (drop 4 (inp n (cl_sock c))) f"
  then show ?thesis by (auto simp: protocol_handshake_def provoked_def)
qed

theorem handshake_isolated_witness:
  "\<exists>r ctx' c' lw' n'. protocol_handshake disk_cfg (tcp_transport (per_socket sock_os)) disk_ctx disk_client disk_lw
      (disk_sockets (be32 3 @ endless_option)) = ret (r, ctx', c', lw', n')
    \<and> (r = - 1 \<or> r = 0 \<and> (nc_state ctx' = TRANSMISSION \<and> cl_ctx c' \<noteq> None \<or> nc_state ctx' = ABORT))
    \<and> so_out (n' 3) = greeting disk_ctx"
proof -
  let ?n = "disk_sockets (be32 3 @ endless_option)"
  have sk: "cl_sock disk_client = 3" "nc_sock disk_ctx = 0" by (simp_all add: disk_client_def disk_ctx_def)
  have nm: "named_options disk_cfg (drop 4 (so_in (?n (cl_sock disk_client))))"
    unfolding sk using endless_named by (simp add: disk_sockets_def disk_net_def)
  have d: "uri_dispatch disk_lw name \<noteq> Inl f" for name f using disk_dispatches [of name] by auto
  obtain r ctx' c' lw' n' where
    "protocol_handshake disk_cfg (tcp_transport (per_socket sock_os)) disk_ctx disk_client disk_lw ?n
      = ret (r, ctx', c', lw', n')"
    "r = - 1 \<or> r = 0 \<and> (nc_state ctx' = TRANSMISSION \<and> cl_ctx c' \<noteq> None \<or> nc_state ctx' = ABORT)"
    "\<forall>s. s \<noteq> 0 \<longrightarrow> so_out (n' s) = sent_on 3 (greeting disk_ctx) (\<lambda>s. so_out (?n s)) s"
    using handshake_isolated [where inp = "\<lambda>t s. so_in (t s)" and out = "\<lambda>t s. so_out (t s)"
        and link = "\<lambda>_. True" and n = ?n and c = disk_client and ctx = disk_ctx and cfg = disk_cfg,
        OF socks.tcp.socket_table_axioms TrueI disk_lw_wf] nm d unfolding sk by blast
  then show ?thesis
    by (intro exI [of _ r] exI [of _ ctx'] exI [of _ c'] exI [of _ lw'] exI [of _ n']) (simp add: disk_streams(2))
qed

text \<open>
  C8.  After a handshake that picked an export, the thread does not serve it: the handshake sets
  the state of the server's context and the thread tests the state of the client, which is still
  \<open>HANDSHAKE\<close>.  The client is sent a second greeting, its first request is taken for the flags of
  the client, and unless its first four bytes happen to be those flags the thread ends with \<open>-1\<close>
  and no reply to the request.  The client itself has been sent the two greetings only: the export
  reply went to the socket of the context.
\<close>

theorem never_served_connections:
  fixes lw lw1 :: "('c, 'w) lwnbd" and n :: 'n
  assumes "socket_table io inp out link" and "link n" and "nc_preinit ctx = 0"
    and "lwnbd_new_context lw = (Some k, lw1)" and "wf_lwnbd lw"
    and "name \<noteq> []" and "NUL \<notin> set name" and "length name < MAX_REQUEST_SIZE cfg"
    and "uri_dispatch lw1 name = Inr (Some export, lw2)"
    and "inp n sock = be32 (nc_gflags ctx) @ option_wire (NBD_OPT_EXPORT_NAME, name) @ request @ rest"
    and "length request = 4" and "rd32 0 request \<noteq> nc_gflags ctx"
  shows "\<exists>n'. nbd_synchronous_client_thread_cb cfg io dflt ctx sock lw n
      = ret (- 1, ctx\<lparr>nc_state := TRANSMISSION\<rparr>,
             \<lparr>cl_sock = sock, cl_state = HANDSHAKE, cl_ctx = Some export\<rparr>, lw2, n')
    \<and> inp n' = (inp n)(sock := rest)
    \<and> out n' = sent_on sock (greeting ctx) (sent_on (nc_sock ctx) (export_name_reply ctx (nc_gflags ctx))
                (sent_on sock (greeting ctx) (out n)))"
proof -
  let ?c = "\<lparr>cl_sock = sock, cl_state = HANDSHAKE, cl_ctx = Some k\<rparr>"
  let ?c2 = "\<lparr>cl_sock = sock, cl_state = HANDSHAKE, cl_ctx = Some export\<rparr>"
  let ?ctx2 = "ctx\<lparr>nc_state := TRANSMISSION\<rparr>"
  have i: "inp n (cl_sock ?c) = be32 (nc_gflags ctx) @ concat (map option_wire [])
      @ option_wire (NBD_OPT_EXPORT_NAME, name) @ request @ rest"
    using assms(10) by simp
  have wf: "wf_lwnbd lw1" by (rule new_context_wf [OF assms(5,4)])
  have "\<forall>opt \<in> set []. haggling cfg opt" by simp
  then obtain n1 where n1: "protocol_handshake cfg io ctx ?c lw1 n = ret (0, ?ctx2, ?c2, lw2, n1)"
    "inp n1 = (inp n)(sock := request @ rest)" "link n1"
    "out n1 = sent_on (nc_sock ctx) (export_name_reply ctx (nc_gflags ctx)) (sent_on sock (greeting ctx) (out n))"
    by (rule socket_table.negotiation_sockets [OF assms(1,2) wf _ assms(6-9) i]) simp
  have g: "nc_gflags ?ctx2 = nc_gflags ctx" "greeting ?ctx2 = greeting ctx" by (simp_all add: greeting_def)
  have i2: "inp n1 (cl_sock ?c2) = request @ rest" using n1(2) by simp
  obtain n2 where n2: "protocol_handshake cfg io ?ctx2 ?c2 lw2 n1 = ret (- 1, ?ctx2, ?c2, lw2, n2)"
    "inp n2 = (inp n1)(sock := rest)" "out n2 = sent_on sock (greeting ctx) (out n1)"
    by (rule socket_table.flags_refused_client [OF assms(1) n1(3) i2 assms(11), where ctx = ?ctx2 and cfg = cfg
        and lw = lw2]) (use assms(12) g in simp_all)
  let ?t = "\<lparr>ct_r = 0, ct_ctx = ctx, ct_client = ?c, ct_lw = lw1, ct_net = n\<rparr>"
  let ?t1 = "\<lparr>ct_r = 0, ct_ctx = ?ctx2, ct_client = ?c2, ct_lw = lw2, ct_net = n1\<rparr>"
  have "client_run cfg io ?t = client_run cfg io ?t1"
    by (rule client_turn) (use n1(1) in \<open>simp_all add: client_body_def\<close>)
  also have "\<dots> = client_run cfg io \<lparr>ct_r = - 1, ct_ctx = ?ctx2, ct_client = ?c2, ct_lw = lw2, ct_net = n2\<rparr>"
    by (rule client_turn) (use n2(1) in \<open>simp_all add: client_body_def\<close>)
  also have "\<dots> = ret (- 1, ?ctx2, ?c2, lw2, n2)" by (simp add: client_stop)
  finally show ?thesis
    using assms(3,4) n1 n2 by (intro exI [of _ n2]) (simp add: nbd_synchronous_client_thread_cb_def)
qed

theorem never_served_connections_witness:
  "\<exists>n' lw2. nbd_synchronous_client_thread_cb disk_cfg (tcp_transport (per_socket sock_os)) (\<lambda>_. None) disk_ctx 3 disk_lw
      (disk_sockets (be32 3 @ option_wire (NBD_OPT_EXPORT_NAME, ''disk'') @ be32 NBD_REQUEST_MAGIC @ ''more''))
     = ret (- 1, disk_ctx\<lparr>nc_state := TRANSMISSION\<rparr>,
            \<lparr>cl_sock = 3, cl_state = HANDSHAKE, cl_ctx = Some 0\<rparr>, lw2, n')
     \<and> so_in (n' 3) = ''more'' \<and> so_out (n' 3) = greeting disk_ctx @ greeting disk_ctx
     \<and> so_out (n' 0) = export_name_reply disk_ctx 3"
proof -
  let ?n = "disk_sockets (be32 3 @ option_wire (NBD_OPT_EXPORT_NAME, ''disk'') @ be32 NBD_REQUEST_MAGIC @ ''more'')"
  obtain lw1 lw2 where l: "lwnbd_new_context disk_lw = (Some 1, lw1)"
    "uri_dispatch lw1 ''disk'' = Inr (Some 0, lw2)"
    by (rule disk_second)
  have len: "length ''disk'' < MAX_REQUEST_SIZE disk_cfg" and nn: "NUL \<notin> set ''disk''"
    and ne: "''disk'' \<noteq> []" and pre: "nc_preinit disk_ctx = 0"
    by (simp_all add: disk_cfg_def MAX_REQUEST_SIZE_def NUL_def disk_ctx_def)
  have f: "nc_gflags disk_ctx = 3" "nc_sock disk_ctx = 0" by (simp_all add: disk_ctx_def)
  have i: "so_in (?n 3) = be32 (nc_gflags disk_ctx) @ option_wire (NBD_OPT_EXPORT_NAME, ''disk'')
      @ be32 NBD_REQUEST_MAGIC @ ''more''"
    unfolding f by (simp add: disk_sockets_def disk_net_def)
  have lr: "length (be32 NBD_REQUEST_MAGIC) = 4" and ng: "rd32 0 (be32 NBD_REQUEST_MAGIC) \<noteq> nc_gflags disk_ctx"
    by (simp_all add: packed f nbd_consts)
  obtain n' where n': "nbd_synchronous_client_thread_cb disk_cfg (tcp_transport (per_socket sock_os)) (\<lambda>_. None) disk_ctx 3 disk_lw ?n
      = ret (- 1, disk_ctx\<lparr>nc_state := TRANSMISSION\<rparr>, \<lparr>cl_sock = 3, cl_state = HANDSHAKE, cl_ctx = Some 0\<rparr>, lw2, n')"
    "(\<lambda>s. so_in (n' s)) = (\<lambda>s. so_in (?n s))(3 := ''more'')"
    "(\<lambda>s. so_out (n' s)) = sent_on 3 (greeting disk_ctx) (sent_on 0 (export_name_reply disk_ctx 3)
        (sent_on 3 (greeting disk_ctx) (\<lambda>s. so_out (?n s))))"
    using never_served_connections [where inp = "\<lambda>t s. so_in (t s)" and out = "\<lambda>t s. so_out (t s)"
        and link = "\<lambda>_. True" and n = ?n and sock = 3 and ctx = disk_ctx and dflt = "\<lambda>_. None",
        OF socks.tcp.socket_table_axioms TrueI pre l(1) disk_lw_wf ne nn len l(2) i lr ng] unfolding f by force
  show ?thesis
    using n'(1) fun_cong [OF n'(2), of 3] fun_cong [OF n'(3), of 3] fun_cong [OF n'(3), of 0]
    by (intro exI [of _ n'] exI [of _ lw2]) (simp add: disk_streams(2))
qed

text \<open>
  C9.  With \<^verbatim>\<open>preinit\<close> the thread skips the handshake, looks up the default export, and serves the
  context of the server to whoever is on the socket of that context: on the stream of any list of legal commands and \<^verbatim>\<open>NBD_CMD_DISC\<close> there, it
  sends the replies of the abstract server, and the device holds its array.  After the disconnection it
  waits for another request, and ends with \<open>-1\<close> when that peer has closed.  Every other
  connection, the one of the client among them, is as it was.
\<close>

theorem preinit_connections:
  fixes lw :: "('c, 'w) lwnbd" and n :: 'n
  assumes "nc_preinit ctx \<noteq> 0" and "dflt lw = Some k"
    and "socket_table io inp out link" and "block_device pread bs content ok pwrite flush"
    and "unat (nc_minimum_block_size ctx) = bs" and "0 < bs" and "bs \<le> MAX_REQUEST_SIZE cfg"
    and "plugin_of lw ctx = Inr p" and "pl_pread p = Some pread" and "pl_pwrite p = Some pwrite"
    and "pl_flush p = Some flush" and "nc_eflags ctx AND NBD_FLAG_READ_ONLY = 0"
    and "ok (ctx_handle ctx) (world lw)" and "link n"
    and "d = content (ctx_handle ctx) (world lw)" and "unat (ctx_exportsize ctx) = length d"
    and "\<forall>c \<in> set cs. legal bs (length d) c"
    and "inp n (nc_sock ctx) = concat (map wire cs) @ disconnect fl h"
  shows "\<exists>w n'. nbd_synchronous_client_thread_cb cfg io dflt ctx sock lw n
      = ret (- 1, ctx\<lparr>nc_state := ABORT\<rparr>, \<lparr>cl_sock = sock, cl_state = TRANSMISSION, cl_ctx = Some k\<rparr>,
             lw\<lparr>world := w\<rparr>, n')
    \<and> inp n' = (inp n)(nc_sock ctx := [])
    \<and> out n' = sent_on (nc_sock ctx) (fst (serve_all cs d)) (out n)
    \<and> content (ctx_handle ctx) w = snd (serve_all cs d)"
  using preinit_session_on [where dflt = dflt and inp = inp and out = out and link = link and ok = ok
      and content = content, OF assms] by blast

text \<open>
  A client on descriptor 5, which has sent a READ, while descriptor 0, the one of a context that was never
  given a socket, carries a session.
\<close>

definition static_pre :: nbd_context where "static_pre = demo_pre\<lparr>nc_sock := 0\<rparr>"

definition two_sockets :: "byte list \<Rightarrow> int \<Rightarrow> sock" where
  "two_sockets b = (\<lambda>_. demo_net [])(0 := demo_net b, 5 := demo_net (wire (Read 0 1 0 4)))"

lemma two_streams:
  "so_in (two_sockets b 0) = b" "so_in (two_sockets b 5) = wire (Read 0 1 0 4)" "so_out (two_sockets b s) = []"
  by (simp_all add: two_sockets_def demo_net_def)

lemma static_pre_simps:
  "nc_preinit static_pre \<noteq> 0" "nc_sock static_pre = 0" "ctx_handle static_pre = Some 0"
  "nc_eflags static_pre AND NBD_FLAG_READ_ONLY = 0" "unat (nc_minimum_block_size static_pre) = 1"
  "unat (ctx_exportsize static_pre) = length ''0123456789''"
  "plugin_of (demo_lw st os) static_pre = Inr (file_plugin os)"
  by (simp_all add: static_pre_def demo_pre_def demo_ctx_def nbd_consts plugin_of_def demo_lw_def lwnbd_init_def)

theorem preinit_connections_witness:
  "\<exists>w n'. nbd_synchronous_client_thread_cb demo_cfg (tcp_transport (per_socket sock_os)) (\<lambda>_. Some 0) static_pre 5
        (demo_lw demo_file ram_os) (two_sockets (concat (map wire demo_commands) @ disconnect 0 5))
      = ret (- 1, static_pre\<lparr>nc_state := ABORT\<rparr>, \<lparr>cl_sock = 5, cl_state = TRANSMISSION, cl_ctx = Some 0\<rparr>,
             (demo_lw demo_file ram_os)\<lparr>world := w\<rparr>, n')
    \<and> so_out (n' 0) = fst (serve_all demo_commands ''0123456789'') \<and> ram.data (Some 0) w = ''01wxyz6789''
    \<and> so_in (n' 5) = wire (Read 0 1 0 4) \<and> so_out (n' 5) = []"
proof -
  let ?n = "two_sockets (concat (map wire demo_commands) @ disconnect 0 5)"
  let ?d = "''0123456789''"
  have leg: "\<forall>c \<in> set demo_commands. legal 1 (length ?d) c"
    by (simp add: demo_commands_def)
  have sv: "snd (serve_all demo_commands ?d) = ''01wxyz6789''"
    by (simp add: demo_commands_def splice_def)
  have ok: "ram.usable (ctx_handle static_pre) (world (demo_lw demo_file ram_os))"
    and dat: "?d = ram.data (ctx_handle static_pre) (world (demo_lw demo_file ram_os))"
    using demo_file_usable static_pre_simps(3) by (simp_all add: demo_plugin_of)
  have i: "so_in (?n (nc_sock static_pre)) = concat (map wire demo_commands) @ disconnect 0 5"
    unfolding static_pre_simps by (rule two_streams)
  obtain w n' where n': "nbd_synchronous_client_thread_cb demo_cfg (tcp_transport (per_socket sock_os)) (\<lambda>_. Some 0)
        static_pre 5 (demo_lw demo_file ram_os) ?n
      = ret (- 1, static_pre\<lparr>nc_state := ABORT\<rparr>, \<lparr>cl_sock = 5, cl_state = TRANSMISSION, cl_ctx = Some 0\<rparr>,
             (demo_lw demo_file ram_os)\<lparr>world := w\<rparr>, n')"
    "(\<lambda>s. so_in (n' s)) = (\<lambda>s. so_in (?n s))(0 := [])"
    "(\<lambda>s. so_out (n' s)) = sent_on 0 (fst (serve_all demo_commands ?d)) (\<lambda>s. so_out (?n s))"
    "ram.data (Some 0) w = snd (serve_all demo_commands ?d)"
    using preinit_connections [where inp = "\<lambda>t s. so_in (t s)" and out = "\<lambda>t s. so_out (t s)"
        and link = "\<lambda>_. True" and n = ?n and sock = 5 and dflt = "\<lambda>_. Some 0" and ctx = static_pre,
        OF static_pre_simps(1) refl socks.tcp.socket_table_axioms ram.dev.block_device_axioms static_pre_simps(5)
          demo_cfg_block(2,3) static_pre_simps(7) demo_plugin_of(2-4) static_pre_simps(4) ok TrueI dat
          static_pre_simps(6) leg i] unfolding static_pre_simps by force
  show ?thesis
    using n'(1) fun_cong [OF n'(2), of 5] fun_cong [OF n'(3), of 0] fun_cong [OF n'(3), of 5] n'(4) sv
    by (intro exI [of _ w] exI [of _ n']) (simp add: two_streams)
qed


lemma socks_answer: "answers (tcp_transport (per_socket sock_os))"
  by (rule tcp_answers [where left = "\<lambda>s t. length (so_in (t s))"])
    (auto simp: recv_body_def ret_def Let_def case_prod_beta per_socket_def sock_os_def sock_recv_def bytes_read_def
      split: if_splits list.splits)


text \<open>
  C11.  Without \<^verbatim>\<open>preinit\<close> the thread takes a blank context from the pool for the handshake, and the
  dispatcher finds it by its empty name: a client that asks for an export whose path is empty, \<^verbatim>\<open>?\<close> for
  one, makes the server call through the plugin pointer of that context, which is NULL.
\<close>

theorem nameless_export_crashes:
  fixes lw lw1 :: "('c, 'w) lwnbd" and n :: 'n
  assumes "socket_table io inp out link" and "link n" and "nc_preinit ctx = 0"
    and "wf_lwnbd lw" and "lwnbd_new_context lw = (Some k, lw1)" and "contexts lw ! k = zero_context"
    and "\<And>i. i < k \<Longrightarrow> ctx_name (contexts lw ! i) \<noteq> []"
    and "uri_path name = []" and "name \<noteq> []" and "NUL \<notin> set name" and "length name < MAX_REQUEST_SIZE cfg"
    and "inp n sock = be32 (nc_gflags ctx) @ option_wire (NBD_OPT_EXPORT_NAME, name) @ rest"
  shows "nbd_synchronous_client_thread_cb cfg io dflt ctx sock lw n = Some (Inl Null_Deref)"
proof -
  let ?c = "\<lparr>cl_sock = sock, cl_state = HANDSHAKE, cl_ctx = Some k\<rparr>"
  let ?t = "\<lparr>ct_r = 0, ct_ctx = ctx, ct_client = ?c, ct_lw = lw1, ct_net = n\<rparr>"
  have wf: "wf_lwnbd lw1" by (rule new_context_wf [OF assms(4,5)])
  have u: "uri_dispatch lw1 name = Inl Null_Deref" by (rule nameless_dispatch [OF assms(4-8)])
  have i: "inp n (cl_sock ?c) = be32 (nc_gflags ctx) @ option_wire (NBD_OPT_EXPORT_NAME, name) @ rest"
    using assms(12) by simp
  have "protocol_handshake cfg io ctx ?c lw1 n = Some (Inl Null_Deref)"
    by (rule socket_table.negotiation_faults [OF assms(1,2) wf assms(9-11) u i])
  then have "client_body cfg io ?t = Some (Inl Null_Deref)" by (simp add: client_body_def)
  then have "client_run cfg io ?t = Some (Inl Null_Deref)"
    using while_flow_fault [of "\<lambda>t. ct_r t = 0" ?t "client_body cfg io"] by (simp add: client_run_def)
  then show ?thesis using assms(3,5) by (simp add: nbd_synchronous_client_thread_cb_def)
qed

theorem nameless_export_crashes_witness:
  "nbd_synchronous_client_thread_cb disk_cfg (tcp_transport (per_socket sock_os)) (\<lambda>_. None) disk_ctx 3 disk_lw
     (disk_sockets (be32 3 @ option_wire (NBD_OPT_EXPORT_NAME, ''?''))) = Some (Inl Null_Deref)"
proof -
  let ?n = "disk_sockets (be32 3 @ option_wire (NBD_OPT_EXPORT_NAME, ''?''))"
  obtain lw1 lw2 where l: "lwnbd_new_context disk_lw = (Some 1, lw1)" by (rule disk_second)
  show ?thesis
  proof (rule nameless_export_crashes [where inp = "\<lambda>t s. so_in (t s)" and out = "\<lambda>t s. so_out (t s)"
        and link = "\<lambda>_. True" and n = ?n and rest = "[]", OF socks.tcp.socket_table_axioms TrueI _ disk_lw_wf l])
    show "contexts disk_lw ! 1 = zero_context" "nc_preinit disk_ctx = 0"
      by (simp_all add: disk_lw_def disk_ctx_def)
    show "ctx_name (contexts disk_lw ! i) \<noteq> []" if "i < 1" for i
      using that by (simp add: disk_lw_def disk_context_def)
    show "uri_path ''?'' = []" by (simp add: uri_path_def cut_def)
    show "so_in (?n 3) = be32 (nc_gflags disk_ctx) @ option_wire (NBD_OPT_EXPORT_NAME, ''?'') @ []"
      by (simp add: disk_sockets_def disk_net_def disk_ctx_def)
  qed (simp_all add: disk_cfg_def MAX_REQUEST_SIZE_def NUL_def)
qed

end
