(* ===== verification/Card_Export.thy ===== *)
theory Card_Export
  imports Connection_Handshake Mcman_Card
begin

text \<open>
  The memory card plugin behind the NBD server: from the constructor that finds the card, over the size and
  the block sizes that the server asks the plugin for, to the session of a client.
\<close>

section \<open>The context of a card\<close>

text \<open>What \<^verbatim>\<open>nbdify_context\<close> makes of a context of the plugin, whose block size is fixed.\<close>

lemma card_nbdify:
  assumes "plugin_of lw ctx0 = Inr (mcman_plugin os)"
  shows "nbdify_context lw ctx0 = Inr (ctx0\<lparr>nc_eflags := NBD_FLAG_HAS_FLAGS OR NBD_FLAG_SEND_FLUSH,
    nc_minimum_block_size := 512, nc_preferred_block_size := 512, nc_maximum_block_size := 512\<rparr>)"
  using assms by (simp add: nbdify_context_def mcman_plugin_def mcman_block_size_def Let_def)

text \<open>A card of \<open>n\<close> pages of 512 bytes in blocks of \<open>2 ^ k\<close> pages, as its constructor finds it.\<close>

definition found_card ::
  "'m mc_sys \<Rightarrow> nat \<Rightarrow> (int \<Rightarrow> 'm \<Rightarrow> byte list) \<Rightarrow> (int \<Rightarrow> 'm \<Rightarrow> bool) \<Rightarrow> int \<Rightarrow> 'm \<Rightarrow> bool" where
  "found_card os k cells card_ok port m \<longleftrightarrow>
     (\<exists>n bb. McGetCardSpec os port m = (0, 512, 2 ^ k, n) \<and> length (cells port m) = unat n * 512
        \<and> AllocSysMemory os (512 * 2 ^ k) = Some bb \<and> length bb = 512 * 2 ^ k)
     \<and> card_ok port m"

lemma scast_small_u32: "unat (n :: u32) < 2 ^ 31 \<Longrightarrow> (scast n :: u64) = of_nat (unat n)"
  using sint_small_u32 [of n] by (metis of_int_of_nat_eq of_int_sint)

lemma card_constants:
  "(scast (512 :: u16) :: u64) = 512" "k < 16 \<Longrightarrow> unat (512 * ucast (2 ^ k :: u16) :: u64) = 512 * 2 ^ k"
  "k < 16 \<Longrightarrow> unat (2 ^ k :: u16) = 2 ^ k"
proof -
  show c: "(scast (512 :: u16) :: u64) = 512" by simp
  show p: "unat (2 ^ k :: u16) = 2 ^ k" if "k < 16"
  proof -
    have "2 ^ k < (2 :: nat) ^ 16" using that by (intro power_strict_increasing) simp_all
    then have "unat (of_nat (2 ^ k) :: u16) = 2 ^ k" unfolding unat_of_nat by (intro mod_less) simp
    then show ?thesis by simp
  qed
  show "unat (512 * ucast (2 ^ k :: u16) :: u64) = 512 * 2 ^ k" if "k < 16"
  proof -
    have "2 ^ k < (2 :: nat) ^ 16" using that by (intro power_strict_increasing) simp_all
    then show ?thesis using p [OF that] by (simp add: unat_word_ariths unat_ucast_u16)
  qed
qed

lemma mcman_ctor_ready:
  assumes "memory_card os k 512 cells card_ok erased"
    and "found_card os k cells card_ok (uint port) (McDetectCard2 os (uint port) (mg_card st))"
    and "mcman_ctor os port (Some c0) st = Inr (0, Some c, st')"
  shows "memory_card.mc_ok k 512 card_ok (ctx_handle c) st'"
    and "memory_card.mc_content cells (ctx_handle c) st' = cells (uint port) (McDetectCard2 os (uint port) (mg_card st))"
    and "\<exists>sz. mcman_get_size (ctx_handle c) st' = Inr (sz, st')
      \<and> unat sz = length (cells (uint port) (McDetectCard2 os (uint port) (mg_card st)))"
proof -
  let ?m = "McDetectCard2 os (uint port) (mg_card st)"
  obtain n bb where f: "McGetCardSpec os (uint port) ?m = (0, 512, 2 ^ k, n)" "length (cells (uint port) ?m) = unat n * 512"
    "AllocSysMemory os (512 * 2 ^ k) = Some bb" "length bb = 512 * 2 ^ k" and ok: "card_ok (uint port) ?m"
    using assms(2) by (auto simp: found_card_def)
  have k: "k < 16" using memory_card.pages(1) [OF assms(1)] .
  have n: "unat n < 2 ^ 31" using memory_card.card_size [OF assms(1) ok] f(2) by simp
  have sz: "unat (scast n * 512 :: u64) = unat n * 512"
    unfolding scast_small_u32 [OF n] using n by (simp add: unat_word_ariths unat_of_nat del: of_nat_unat)
  let ?h = "\<lparr>mh_device = uint port, mh_size = scast n * 512, mh_blocksize = 512\<rparr>"
  have r: "unat port < length (mg_handles st)" "ctx_handle c = Some (unat port)"
    "st' = st\<lparr>mg_card := ?m, mg_pagesPerBlock := 2 ^ k, mg_handles := (mg_handles st)[unat port := ?h], mg_bbuffer := Some bb\<rparr>"
    using assms(3) f(1,3) card_constants(1) card_constants(2) [OF k]
    by (auto simp: mcman_ctor_def Let_def SysAlloc_def set_handle_def set_name_def bindr_Inr_iff sceMcResSucceed_def
        split: if_splits)
  show "memory_card.mc_ok k 512 card_ok (ctx_handle c) st'"
    unfolding memory_card.mc_ok_def [OF assms(1)] using r f(4) ok card_constants(3) [OF k] by simp
  show "memory_card.mc_content cells (ctx_handle c) st' = cells (uint port) ?m"
    unfolding memory_card.mc_content_def [OF assms(1)] using r by simp
  show "\<exists>sz. mcman_get_size (ctx_handle c) st' = Inr (sz, st') \<and> unat sz = length (cells (uint port) ?m)"
    using r sz f(2) by (simp add: mcman_get_size_def handle_at_def)
qed

section \<open>The session of a client\<close>

text \<open>
  C28.  What the constructor of the memory card plugin, the size and block sizes that the server asks it for
  and the thread of a client make together: when a card of 512-byte pages in blocks of pages is found in the
  port, a server started with \<^verbatim>\<open>preinit\<close> on it answers every list of legal commands as the
  abstract server on the pages of the card does, and the card holds the array of that server afterwards,
  although it is erased and written in blocks of several pages.
\<close>

theorem card_session:
  fixes lw :: "(u8, 'm mcman) lwnbd" and n :: 'n
  assumes "memory_card os k 512 cells card_ok erased" and "m = McDetectCard2 os (uint port) (mg_card st)"
    and "found_card os k cells card_ok (uint port) m"
    and "mcman_ctor os port (Some c0) st = Inr (0, Some c, world lw)"
    and "plugin_of lw ctx0 = Inr (mcman_plugin os)" and "ctx_handle ctx0 = ctx_handle c"
    and "mcman_get_size (ctx_handle c) (world lw) = Inr (ctx_exportsize ctx0, world lw)"
    and "nbdify_context lw ctx0 = Inr ctx" and "nc_preinit ctx0 \<noteq> 0" and "dflt lw = Some i"
    and "512 \<le> MAX_REQUEST_SIZE cfg" and "socket_table io inp out link" and "link n"
    and "\<forall>x \<in> set cs. legal 512 (length (cells (uint port) m)) x"
    and "inp n (nc_sock ctx0) = concat (map wire cs) @ disconnect fl h"
  shows "\<exists>w n'. nbd_synchronous_client_thread_cb cfg io dflt ctx sock lw n
      = ret (- 1, ctx\<lparr>nc_state := ABORT\<rparr>, \<lparr>cl_sock = sock, cl_state = TRANSMISSION, cl_ctx = Some i\<rparr>,
             lw\<lparr>world := w\<rparr>, n')
    \<and> inp n' = (inp n)(nc_sock ctx0 := [])
    \<and> out n' = sent_on (nc_sock ctx0) (fst (serve_all cs (cells (uint port) m))) (out n)
    \<and> memory_card.mc_content cells (ctx_handle c) w = snd (serve_all cs (cells (uint port) m))"
proof -
  let ?d = "cells (uint port) m"
  note r = mcman_ctor_ready [OF assms(1) assms(3) [unfolded assms(2)] assms(4), folded assms(2)]
  note dev = memory_card.mcman_device [OF assms(1)]
  have ctx: "ctx = ctx0\<lparr>nc_eflags := NBD_FLAG_HAS_FLAGS OR NBD_FLAG_SEND_FLUSH,
      nc_minimum_block_size := 512, nc_preferred_block_size := 512, nc_maximum_block_size := 512\<rparr>"
    using assms(8) unfolding card_nbdify [OF assms(5)] by simp
  have p: "pl_pread (mcman_plugin os) = Some (mcman_pread os)" "pl_pwrite (mcman_plugin os) = Some (mcman_pwrite os)"
    "pl_flush (mcman_plugin os) = Some mcman_flush" by (simp_all add: mcman_plugin_def)
  have c: "nc_preinit ctx \<noteq> 0" "unat (nc_minimum_block_size ctx) = 512" "plugin_of lw ctx = Inr (mcman_plugin os)"
    "nc_eflags ctx AND NBD_FLAG_READ_ONLY = 0" "ctx_handle ctx = ctx_handle c" "nc_sock ctx = nc_sock ctx0"
    "ctx_exportsize ctx = ctx_exportsize ctx0"
    using assms(5,6,9) by (simp_all add: ctx nbd_consts plugin_of_def)
  have s: "unat (ctx_exportsize ctx) = length ?d" using r(3) assms(7) by (simp add: c(7))
  show ?thesis
    using preinit_session_on [where dflt = dflt and inp = inp and out = out and link = link and ctx = ctx and cs = cs,
        OF c(1) assms(10,12) dev c(2) _ assms(11) c(3) p c(4) _ assms(13) refl]
      r(1,2) s assms(14,15) unfolding c(5,6) by simp
qed

text \<open>
  The card of two blocks of two pages, in port 0.  The client writes the second and the third page, which are
  in two blocks, reads three pages back, flushes and disconnects.
\<close>

definition card_start :: "nand mcman" where
  "card_start = \<lparr>mg_handles = [\<lparr>mh_device = 0, mh_size = 0, mh_blocksize = 0\<rparr>], mg_bbuffer = None,
     mg_pagesPerBlock = 0, mg_card = \<lparr>nd_data = replicate 2048 CHR ''a'', nd_erased = replicate 4 False\<rparr>\<rparr>"

definition card_lw :: "(u8, nand mcman) lwnbd" where
  "card_lw = (lwnbd_init card_start)\<lparr>world := card_start
     \<lparr>mg_handles := [\<lparr>mh_device = 0, mh_size = 2048, mh_blocksize = 512\<rparr>], mg_pagesPerBlock := 2,
      mg_bbuffer := Some (replicate 1024 NUL)\<rparr>,
     plugins := (replicate MAX_NUM_PLUGINS None)[0 := Some (mcman_plugin nand_sys)]\<rparr>"

definition card_ctx :: nbd_context where
  "card_ctx = demo_pre\<lparr>ctx_handle := Some 0, ctx_name := ''mc0'', ctx_exportsize := 2048, ctx_p := Some 0, nc_sock := 0\<rparr>"

definition card_cfg :: nbd_config where
  "card_cfg = \<lparr>CONFIG_MAX_RETRIES = 5, CONFIG_NBD_BUFFER_LEN = 1024\<rparr>"

definition card_commands :: "command list" where
  "card_commands = [Write 0 1 512 (replicate 1024 CHR ''x''), Read 0 2 0 1536, Flush 0 3]"

definition card_sockets :: "int \<Rightarrow> sock" where
  "card_sockets = (\<lambda>_. \<lparr>so_in = [], so_out = [], so_chunk = []\<rparr>)
     (0 := \<lparr>so_in = concat (map wire card_commands) @ disconnect 0 5, so_out = [], so_chunk = [2, 0, 700]\<rparr>)"

theorem card_session_witness:
  "\<exists>ctx w n'. nbdify_context card_lw card_ctx = Inr ctx
    \<and> nbd_synchronous_client_thread_cb card_cfg (tcp_transport (per_socket sock_os)) (\<lambda>_. Some 0) ctx 5 card_lw card_sockets
      = ret (- 1, ctx\<lparr>nc_state := ABORT\<rparr>, \<lparr>cl_sock = 5, cl_state = TRANSMISSION, cl_ctx = Some 0\<rparr>,
             card_lw\<lparr>world := w\<rparr>, n')
    \<and> so_out (n' 0) = fst (serve_all card_commands (replicate 2048 CHR ''a''))
    \<and> memory_card.mc_content nand_data (Some 0) w = splice 512 (replicate 1024 CHR ''x'') (replicate 2048 CHR ''a'')"
proof -
  let ?m = "mg_card card_start"
  let ?c = "card_ctx\<lparr>nc_eflags := NBD_FLAG_HAS_FLAGS OR NBD_FLAG_SEND_FLUSH,
    nc_minimum_block_size := 512, nc_preferred_block_size := 512, nc_maximum_block_size := 512\<rparr>"
  let ?c1 = "zero_context\<lparr>ctx_handle := Some 0, ctx_name := ''mc0''\<rparr>"
  have m: "?m = McDetectCard2 nand_sys (uint (0 :: u8)) ?m" by (simp add: nand_sys_def)
  have d: "nand_data (uint (0 :: u8)) ?m = replicate 2048 CHR ''a''" by (simp add: nand_data_def card_start_def)
  have f: "found_card nand_sys 1 nand_data nand_ok (uint (0 :: u8)) ?m"
    by (simp add: found_card_def nand_sys_def nand_data_def nand_ok_def card_start_def)
  have t: "mcman_ctor nand_sys 0 (Some zero_context) card_start = Inr (0, Some ?c1, world card_lw)"
    by (simp add: mcman_ctor_def card_lw_def card_start_def nand_sys_def Let_def SysAlloc_def set_handle_def set_name_def
        strcpy_field_def sceMcResSucceed_def zero_context_def digits_def char_of_eq_iff)
  have p: "plugin_of card_lw card_ctx = Inr (mcman_plugin nand_sys)"
    by (simp add: plugin_of_def card_lw_def card_ctx_def MAX_NUM_PLUGINS_def)
  have h: "ctx_handle card_ctx = ctx_handle ?c1" "nc_preinit card_ctx \<noteq> 0"
    by (simp_all add: card_ctx_def demo_pre_def)
  have g: "mcman_get_size (ctx_handle ?c1) (world card_lw) = Inr (ctx_exportsize card_ctx, world card_lw)"
    by (simp add: mcman_get_size_def handle_at_def card_lw_def card_ctx_def)
  have q: "512 \<le> MAX_REQUEST_SIZE card_cfg" by (simp add: card_cfg_def MAX_REQUEST_SIZE_def)
  have leg: "\<forall>x \<in> set card_commands. legal 512 (length (nand_data (uint (0 :: u8)) ?m)) x"
    unfolding d by (simp add: card_commands_def)
  have i: "so_in (card_sockets (nc_sock card_ctx)) = concat (map wire card_commands) @ disconnect 0 5"
    by (simp add: card_sockets_def card_ctx_def)
  have o: "so_out (card_sockets 0) = []" "nc_sock card_ctx = 0" by (simp_all add: card_sockets_def card_ctx_def)
  have sv: "snd (serve_all card_commands e) = splice 512 (replicate 1024 CHR ''x'') e" if "length e = 2048" for e
    using that by (simp add: card_commands_def Let_def)
  obtain w n' where n': "nbd_synchronous_client_thread_cb card_cfg (tcp_transport (per_socket sock_os)) (\<lambda>_. Some 0) ?c 5
        card_lw card_sockets
      = ret (- 1, ?c\<lparr>nc_state := ABORT\<rparr>, \<lparr>cl_sock = 5, cl_state = TRANSMISSION, cl_ctx = Some 0\<rparr>,
             card_lw\<lparr>world := w\<rparr>, n')"
    "(\<lambda>s. so_out (n' s)) = sent_on (nc_sock card_ctx) (fst (serve_all card_commands (nand_data (uint (0 :: u8)) ?m)))
       (\<lambda>s. so_out (card_sockets s))"
    "memory_card.mc_content nand_data (ctx_handle ?c1) w = snd (serve_all card_commands (nand_data (uint (0 :: u8)) ?m))"
    using card_session [where inp = "\<lambda>t s. so_in (t s)" and out = "\<lambda>t s. so_out (t s)" and link = "\<lambda>_. True"
        and n = card_sockets and sock = 5 and dflt = "\<lambda>_. Some 0" and ctx = ?c and cfg = card_cfg,
        OF nand.memory_card_axioms m f t p h(1) g card_nbdify [OF p] h(2) refl q socks.tcp.socket_table_axioms TrueI leg i]
    by blast
  have "so_out (n' 0) = fst (serve_all card_commands (replicate 2048 CHR ''a''))"
    using fun_cong [OF n'(2), of 0] unfolding o(2) d by (simp add: o(1))
  moreover have "memory_card.mc_content nand_data (Some 0) w
      = splice 512 (replicate 1024 CHR ''x'') (replicate 2048 CHR ''a'')"
    using n'(3) unfolding d by (simp add: sv)
  ultimately show ?thesis using n'(1) card_nbdify [OF p] by blast
qed

end
