(* ===== verification/Spec2Isabelle.thy ===== *)
theory Spec2Isabelle
  imports Nbd_Protocol Yuarel Contexts_Uri Plugins Transmission_Errors Handshake_Claims Nbd_Server Servers
    Services Log Memory_Plugin Mcman_Card Mcman_Query Tty_Stream Device_Plugins Xinetd Uv_Server
    Local_Reader Shell_Session Wc_Session Sdl_Text Irx_Module Ps2_Platform Nbd_Stack Library_State
    Memory_Export Server_Safety Context_Race Connection_Claims Card_Export
begin

text \<open>
  A model of lwNBD, a library that lets small machines (first of all the PlayStation 2) export their
  devices over the NBD protocol.

  \<^bold>\<open>The program.\<close>  A plugin is a struct of callbacks over a device: files, memory, memory cards, the hard
  disk, the sound processor, the terminal, commands.  The library keeps two static tables, the registry
  \<^verbatim>\<open>plugins[]\<close> (\<^verbatim>\<open>src/plugins.c\<close>) and the pool \<^verbatim>\<open>contexts[]\<close> of exports (\<^verbatim>\<open>src/contexts.c\<close>); a
  context names its plugin and the handle of its device.  Clients name a context by a URI that the
  dispatcher (\<^verbatim>\<open>src/contexts_uri.c\<close> over \<^verbatim>\<open>src/yuarel.c\<close>) cuts up in place; the query of the URI goes to
  the plugin.  Servers stand in a table of their own (\<^verbatim>\<open>src/servers.c\<close>).  The NBD server
  (\<^verbatim>\<open>servers/nbd\<close>) greets a client, negotiates with it in \<^verbatim>\<open>protocol-handshake.c\<close> and serves an export in
  \<^verbatim>\<open>protocol.c\<close>, over the TCP transport of \<^verbatim>\<open>src/tcp.c\<close>.  Ports and example programs put these together.

  \<^bold>\<open>State and effects.\<close>  Every static variable is a field of a record that the functions take and
  return; what lies outside the repository (sockets, the POSIX file calls, the kernel and the drivers of
  the console, libuv) is a record of functions over a state of its own, an argument of the code that
  calls it.  A fault of C (NULL dereferenced, an array left, a value read before it was written, a
  division by zero) is a value of \<open>fault\<close>, so \<open>'a result\<close> is \<open>fault + 'a\<close>; a call that may not return
  has type \<open>'a run\<close>, where \<open>None\<close> is an endless loop.  Integers keep the width of the source: \<open>u8\<close> to
  \<open>u64\<close> wrap around, and conversions between signed and unsigned are written where C makes them.

  \<^bold>\<open>The theories.\<close>
  \<^item> \<open>Lwnbd_Prelude\<close>: faults, C strings, blocks of memory, slot tables (locale \<open>slot_pool\<close>).  \<open>Loops\<close>: runs
    and \<open>while_flow\<close>, the loop of C with \<^verbatim>\<open>break\<close> and \<^verbatim>\<open>return\<close>, with its rules for correctness,
    termination and divergence.
  \<^item> \<open>Nbd_Protocol\<close>: \<^verbatim>\<open>nbd-protocol.h\<close>, every packed structure with its big-endian image; the locale
    \<open>packed_struct\<close> and its interpretations show that each image can be read back.
  \<^item> \<open>Contexts\<close>, \<open>Plugins\<close>, \<open>Yuarel\<close>, \<open>Contexts_Uri\<close>: the library itself.  \<open>wf_lwnbd\<close> is its invariant;
    what the registry relies on in a plugin is the locale \<open>content_plugin\<close>, which the theory of each
    plugin interprets.  \<open>Library_State\<close> makes the library one state machine, whose steps are the calls of
    the API, and shows the invariant in every reachable state.  \<open>Context_Race\<close> takes \<^verbatim>\<open>lwnbd_new_context\<close>
    access by access, with threads that interleave.
  \<^item> \<open>Block_Device\<close>: what the NBD server relies on in a plugin, as locales.  \<open>Handles\<close>: the handle table
    that the plugins repeat.  \<open>File_Plugin\<close>, \<open>Memory_Plugin\<close> (with \<open>Memory_Export\<close>, its regions behind the
    dispatcher), \<open>Mcman_Plugin\<close>, \<open>Mcman_Card\<close> and \<open>Mcman_Query\<close> (with \<open>Card_Export\<close>, a
    card behind the NBD server), \<open>Device_Plugins\<close> (sound, hard disk, mass storage), \<open>Tty_Plugin\<close> and \<open>Tty_Stream\<close>, \<open>Command_Plugin\<close>: the plugins, each with the contract that its device
    gives (an array of blocks; a queue of bytes; the output of a command).
  \<^item> \<open>Tcp\<close>: the transport, and the locale \<open>stream_transport\<close> of a transport that delivers.
  \<^item> \<open>Piconbd\<close>, \<open>Transmission\<close>: the types of the server and its transmission phase.
    \<open>Transmission_Read\<close>, \<open>Transmission_Write\<close> and \<open>Transmission_Session\<close> build the refinement of the
    abstract server \<open>serve\<close>, which answers commands over an array of bytes; \<open>Transmission_Claims\<close> states
    it, \<open>Transmission_Returns\<close> shows that the phase ends and where it does not, and
    \<open>Transmission_Errors\<close> what it does with each kind of header, byte by byte, with failing plugins and
    wrapped offsets.
  \<^item> \<open>Handshake\<close>, \<open>Handshake_Claims\<close>: the negotiation, option by option, and whole negotiations.
  \<^item> \<open>Transmission_Safety\<close>, \<open>Handshake_Safety\<close>, \<open>Server_Safety\<close>: the two phases and the thread of a
    client against any bytes and a device that may fail.  What they ask of the device is the locale
    \<open>bounded_device\<close> of \<open>Block_Device\<close>: no call faults or stores more than it was asked for.  The sound plugin
    keeps to it.  \<open>guarded_device\<close> adds that a read that reports success stored everything, which
    \<open>File_Guard\<close> shows of the file plugin over system calls that may fail (locale \<open>posix_calls\<close>).
  \<^item> \<open>Connections\<close>, \<open>Connection_Routes\<close>, \<open>Connection_Handshake\<close>, \<open>Connection_Claims\<close>: the same
    server over a network with a connection for every descriptor (locales \<open>posix_sockets\<close> and \<open>socket_table\<close>).  The phases run on it as on
    one stream that is received from \<^verbatim>\<open>c->sock\<close> or \<^verbatim>\<open>ctx->sock\<close> and sent to \<^verbatim>\<open>ctx->sock\<close>, so that the
    results over one stream say which connection every byte belongs to.
  \<^item> \<open>Nbd_Server\<close>: the contexts, settings, listening socket and client thread of the server.
    \<open>Servers\<close>: instances, registry and event table.  \<open>Nbd_Stack\<close>: the NBD server behind that table,
    where nothing fills the callbacks of its contexts.
    \<open>Services\<close>: \<^verbatim>\<open>chargen\<close>, \<^verbatim>\<open>daytime\<close> and the RPC server.  \<open>Log\<close>: the log.
  \<^item> \<open>Xinetd_Config\<close>, \<open>Xinetd\<close>, \<open>Uv_Server\<close>, \<open>Local_Reader\<close>, \<open>Local_Shell\<close>, \<open>Sdl_Text\<close>: the example
    programs.  \<open>Worlds\<close>: several plugins in one program, each over its part of the variables (locale
    \<open>world_part\<close>), and a library whose slots were taken in order; \<open>Command_World\<close>: the command plugin among
    others.  \<open>Shell_Session\<close> and \<open>Wc_Session\<close> run the two programs with two plugins from their start to
    their end.  \<open>Irx_Module\<close>, \<open>Ps2_Platform\<close>: the PlayStation 2 port.

  \<^bold>\<open>What is shown.\<close>  Refinements: the transmission phase implements \<open>serve\<close>, the terminal's ring a queue,
  a memory card behind the server the same \<open>serve\<close> over its pages.
  Equivalences: the in-place URI cutter and the dispatcher compute their specifications on strings,
  \<^verbatim>\<open>htonll\<close> gives network order on either byte order.  Round trips: files, cards and disks give back what
  was written, the configuration reader what was printed.  Invariants: the pools are handed out in
  order, in every interleaving of the threads too (which may be handed the same context), worker slots
  match jobs, the library stays well-typed.  Termination: the transmission phase
  returns for every client and plugin, given that a block fits the buffer, and loops for ever otherwise;
  a terminal read returns after the first wait in which enough was printed, and loops for ever when there is
  none.  Safety: no client and no failing device makes the transmission phase or the thread leave a buffer,
  use a byte that was not written, call through NULL or run for ever, but in two cases: a request in the
  stream has a type outside the table of names, which the code indexes before it tests, or the plugin
  can report a read it did not store.  The negotiation faults in three cases only: an option outside its table of
  names, option data as long as the buffer, and an export name on which the dispatcher faults.  Each case is also
  shown to happen by a theorem of its own, as is what becomes of a server without \<^verbatim>\<open>preinit\<close>
  that is asked for an export without a name.  Isolation: a client thread touches no
  connection but that of its client and that of the server's context, and these differ, because nothing
  sets the latter: only the greeting reaches the client.  Whole programs: the reader, the shell and the
  byte counter print what they should, through every layer of the library.  And errors, where the code does
  something else than it means to: each is a theorem about the code as it is written.

  \<^bold>\<open>Bounds.\<close>  No fuel is used: a loop of C is structural recursion, a function with a measure, or
  \<open>while_flow\<close>, which is a \<open>partial_function\<close>, so a claim that it returns is proved with a measure.  The
  sizes of the static tables are those of the source (50 contexts, 10 plugins, 10 handles each, 2
  servers, 3 server contexts, 32 services, 3 workers, 4096 bytes of terminal ring).

  \<^bold>\<open>Not modelled.\<close>  \<^verbatim>\<open>examples/Vera.ttf.c\<close> is a font written as an array, data without an operation.
  \<^verbatim>\<open>kelfbind\<close> of \<^verbatim>\<open>plugins/mcman/mcman_q.c\<close> (a file whose inclusion is commented out) uses variables that
  nothing declares, and is a parameter of \<open>Mcman_Query\<close>.  The import and export tables of the IOP and
  the compatibility headers hold no code.  The formatting of \<^verbatim>\<open>printf\<close> is left to its arguments, and the output of
  \<^verbatim>\<open>printf\<close> debugging lines to nothing.  Apart from \<open>Context_Race\<close>, threads are not interleaved with
  each other: the code takes no locks, and a client thread is modelled as running alone on the
  state it finds.  The code is that of a little-endian machine.
\<close>

end
